(* ===== verification/Prelude.thy ===== *)
theory Prelude
  imports Main "HOL-Library.Word"
begin

text \<open>
  Shared vocabulary of the development: machine integers of the program, the
  outcome of a fallible Rust function (a value, an error value, or a panic),
  the checked and saturating operations of Rust's integer types, little-endian
  encodings, and generic lemmas on words and lists.

  The crate has no \<open>[profile]\<close> section that turns overflow checks on, so a
  plain \<open>+\<close>, \<open>-\<close> or \<open>*\<close> on an unsigned integer wraps in the release build;
  the word operations of HOL-Library.Word have exactly this meaning. Every theorem about
  exact values carries the bounds under which nothing wraps, and under these
  bounds a debug build computes the same values without a panic.
\<close>

section \<open>Machine integers\<close>

type_synonym u8 = "8 word"
type_synonym u16 = "16 word"
type_synonym u32 = "32 word"
type_synonym u64 = "64 word"
type_synonym u128 = "128 word"

text \<open>A public key is 32 bytes; it is only compared, stored and written out, so it
  is a 256-bit word, and \<open>Pubkey::default()\<close> is the word 0.\<close>

type_synonym pubkey = "256 word"

abbreviation pubkey_default :: pubkey where
  "pubkey_default \<equiv> 0"

named_theorems bounds_simps \<open>facts that read the word operations as operations on nat\<close>
named_theorems run_simps \<open>equations that run the outcome monad\<close>

section \<open>Outcomes of fallible functions\<close>

datatype ('a, 'e) outcome = Ok 'a | Err 'e | Panic

primrec obind :: "('a, 'e) outcome \<Rightarrow> ('a \<Rightarrow> ('b, 'e) outcome) \<Rightarrow> ('b, 'e) outcome" where
  "obind (Ok x) f = f x"
| "obind (Err e) f = Err e"
| "obind Panic f = Panic"

definition unwrap_option :: "'a option \<Rightarrow> ('a, 'e) outcome" where
  "unwrap_option x = (case x of Some y \<Rightarrow> Ok y | None \<Rightarrow> Panic)"

definition unwrap_result :: "('a, 'd) outcome \<Rightarrow> ('a, 'e) outcome" where
  "unwrap_result x = (case x of Ok y \<Rightarrow> Ok y | Err _ \<Rightarrow> Panic | Panic \<Rightarrow> Panic)"

definition ok_or :: "'e \<Rightarrow> 'a option \<Rightarrow> ('a, 'e) outcome" where
  "ok_or e x = (case x of Some y \<Rightarrow> Ok y | None \<Rightarrow> Err e)"

definition map_err :: "('d \<Rightarrow> 'e) \<Rightarrow> ('a, 'd) outcome \<Rightarrow> ('a, 'e) outcome" where
  "map_err f x = (case x of Ok y \<Rightarrow> Ok y | Err e \<Rightarrow> Err (f e) | Panic \<Rightarrow> Panic)"

declare obind.simps [run_simps]

lemma unwrap_option_simps [simp, run_simps]:
  "unwrap_option (Some x) = Ok x" "unwrap_option None = Panic"
  by (simp_all add: unwrap_option_def)

lemma unwrap_result_simps [simp, run_simps]:
  "unwrap_result (Ok x) = Ok x" "unwrap_result (Err e) = Panic" "unwrap_result Panic = Panic"
  by (simp_all add: unwrap_result_def)

lemma ok_or_simps [simp, run_simps]: "ok_or e (Some x) = Ok x" "ok_or e None = Err e"
  by (simp_all add: ok_or_def)

lemma map_err_simps [simp, run_simps]:
  "map_err f (Ok x) = Ok x" "map_err f (Err d) = Err (f d)" "map_err f Panic = Panic"
  by (simp_all add: map_err_def)

lemma obind_Ok_iff: "obind m f = Ok y \<longleftrightarrow> (\<exists>x. m = Ok x \<and> f x = Ok y)"
  by (cases m) auto

lemma obind_OkE:
  assumes "obind m f = Ok y"
  obtains x where "m = Ok x" "f x = Ok y"
  using assms by (auto simp: obind_Ok_iff)

lemma obind_assoc: "obind (obind m f) g = obind m (\<lambda>x. obind (f x) g)"
  by (cases m) simp_all

lemma unwrap_option_Ok_iff [simp]: "unwrap_option x = Ok y \<longleftrightarrow> x = Some y"
  by (cases x) simp_all

lemma ok_or_Ok_iff [simp]: "ok_or e x = Ok y \<longleftrightarrow> x = Some y"
  by (cases x) simp_all

section \<open>Outcomes with state\<close>

text \<open>A fallible function that also reads and updates a state: \<open>sret\<close> returns, \<open>sbind\<close> runs one
  step after another and stops at the first error or panic, keeping the state reached,
  \<open>slift\<close> is a step that leaves the state alone.\<close>

type_synonym ('s, 'a, 'e) stateful = "'s \<Rightarrow> ('a, 'e) outcome \<times> 's"

definition sret :: "'a \<Rightarrow> ('s, 'a, 'e) stateful" where
  "sret x = (\<lambda>s. (Ok x, s))"

definition slift :: "('a, 'e) outcome \<Rightarrow> ('s, 'a, 'e) stateful" where
  "slift r = (\<lambda>s. (r, s))"

definition sbind :: "('s, 'a, 'e) stateful \<Rightarrow> ('a \<Rightarrow> ('s, 'b, 'e) stateful) \<Rightarrow> ('s, 'b, 'e) stateful" where
  "sbind m f = (\<lambda>s. case m s of (Ok x, s') \<Rightarrow> f x s' | (Err e, s') \<Rightarrow> (Err e, s') | (Panic, s') \<Rightarrow> (Panic, s'))"

lemma sret_run [simp]: "sret x s = (Ok x, s)"
  by (simp add: sret_def)

lemma slift_run [simp]: "slift r s = (r, s)"
  by (simp add: slift_def)

lemma sbind_simps [run_simps]:
  "sbind (slift (Ok x)) f = f x" "sbind (slift (Err e)) f = slift (Err e)" "sbind (slift Panic) f = slift Panic"
  "sbind (sret x) f = f x"
  by (simp_all add: sbind_def slift_def sret_def)

lemma sbind_assoc: "sbind (sbind m f) g = sbind m (\<lambda>x. sbind (f x) g)"
  by (rule ext) (simp add: sbind_def split: prod.splits outcome.splits)

lemma sbind_run:
  "sbind m f s = (case fst (m s) of Ok x \<Rightarrow> f x (snd (m s)) | Err e \<Rightarrow> (Err e, snd (m s))
    | Panic \<Rightarrow> (Panic, snd (m s)))"
  by (cases "m s"; cases "fst (m s)") (auto simp: sbind_def)

text \<open>\<open>runs I m r\<close>: from every state of the invariant \<open>I\<close> the stateful function \<open>m\<close> gives the
  result \<open>r\<close> and ends in the invariant. The rules follow the shape of the function.\<close>

definition runs :: "('s \<Rightarrow> bool) \<Rightarrow> ('s, 'a, 'e) stateful \<Rightarrow> ('a, 'e) outcome \<Rightarrow> bool" where
  "runs I m r = (\<forall>s. I s \<longrightarrow> fst (m s) = r \<and> I (snd (m s)))"

named_theorems runs_intros \<open>rules that run a stateful function on states of an invariant\<close>

lemma runs_sret [runs_intros]: "runs I (sret x) (Ok x)"
  by (simp add: runs_def)

lemma runs_slift [runs_intros]: "runs I (slift r) r"
  by (simp add: runs_def)

lemma runs_sbind [runs_intros]:
  assumes "runs I m r" "\<And>x. r = Ok x \<Longrightarrow> runs I (f x) (g x)"
  shows "runs I (sbind m f) (obind r g)"
  using assms by (cases r) (simp_all add: runs_def sbind_run)

lemma runs_if [runs_intros]:
  assumes "b \<Longrightarrow> runs I m r" "\<not> b \<Longrightarrow> runs I n q"
  shows "runs I (if b then m else n) (if b then r else q)"
  using assms by simp

lemma runs_option:
  assumes "x = None \<Longrightarrow> runs I m r" "\<And>y. x = Some y \<Longrightarrow> runs I (f y) (q y)"
  shows "runs I (case x of None \<Rightarrow> m | Some y \<Rightarrow> f y) (case x of None \<Rightarrow> r | Some y \<Rightarrow> q y)"
  using assms by (simp split: option.split)

lemma runsD: "runs I m r \<Longrightarrow> I s \<Longrightarrow> fst (m s) = r"
  by (simp add: runs_def)

lemma runs_inv: "runs I m r \<Longrightarrow> I s \<Longrightarrow> I (snd (m s))"
  by (simp add: runs_def)

lemma runs_sbind_Ok: "runs I m (Ok x) \<Longrightarrow> runs I (f x) r \<Longrightarrow> runs I (sbind m f) r"
  using runs_sbind [of I m "Ok x" f "\<lambda>_. r"] by simp

text \<open>\<open>settles I m\<close>: the result of \<open>m\<close> is the same from every state of the invariant, which it keeps.\<close>

definition settles :: "('s \<Rightarrow> bool) \<Rightarrow> ('s, 'a, 'e) stateful \<Rightarrow> bool" where
  "settles I m = (\<exists>r. runs I m r)"

named_theorems settles_intros \<open>rules for results that do not depend on the state\<close>

lemma settlesI: "runs I m r \<Longrightarrow> settles I m"
  by (auto simp: settles_def)

lemma settles_basic [settles_intros]: "settles I (sret x)" "settles I (slift r)"
  by (rule settlesI, rule runs_intros)+

lemma settles_sbind [settles_intros]:
  assumes "settles I m" "\<And>x. settles I (f x)"
  shows "settles I (sbind m f)"
proof -
  obtain r where r: "runs I m r" using assms(1) by (auto simp: settles_def)
  have "\<forall>x. \<exists>q. runs I (f x) q" using assms(2) by (simp add: settles_def)
  then obtain g where "\<And>x. runs I (f x) (g x)" by metis
  then have "runs I (sbind m f) (obind r g)" by (rule runs_sbind [OF r])
  then show ?thesis by (auto simp: settles_def)
qed

lemma settles_if [settles_intros]: "(b \<Longrightarrow> settles I m) \<Longrightarrow> (\<not> b \<Longrightarrow> settles I n) \<Longrightarrow> settles I (if b then m else n)"
  by simp

lemma settles_option [settles_intros]:
  "settles I m \<Longrightarrow> (\<And>y. settles I (f y)) \<Longrightarrow> settles I (case x of None \<Rightarrow> m | Some y \<Rightarrow> f y)"
  by (simp split: option.split)

lemma settles_same: "settles I m \<Longrightarrow> I s \<Longrightarrow> I s' \<Longrightarrow> fst (m s) = fst (m s')"
  by (auto simp: settles_def runs_def)

lemma settles_keeps: "settles I m \<Longrightarrow> I s \<Longrightarrow> I (snd (m s))"
  by (auto simp: settles_def runs_def)

section \<open>Checked, saturating and panicking integer operations\<close>

definition checked_add :: "'a::len word \<Rightarrow> 'a word \<Rightarrow> 'a word option" where
  "checked_add a b = (if unat a + unat b < 2 ^ LENGTH('a) then Some (a + b) else None)"

definition checked_mul :: "'a::len word \<Rightarrow> 'a word \<Rightarrow> 'a word option" where
  "checked_mul a b = (if unat a * unat b < 2 ^ LENGTH('a) then Some (a * b) else None)"

definition checked_div :: "'a::len word \<Rightarrow> 'a word \<Rightarrow> 'a word option" where
  "checked_div a b = (if b = 0 then None else Some (a div b))"

definition saturating_sub :: "'a::len word \<Rightarrow> 'a word \<Rightarrow> 'a word" where
  "saturating_sub a b = (if b \<le> a then a - b else 0)"

definition unwrap_or :: "'a \<Rightarrow> 'a option \<Rightarrow> 'a" where
  "unwrap_or d x = (case x of Some y \<Rightarrow> y | None \<Rightarrow> d)"

text \<open>The operator \<open>/\<close> of Rust panics on a zero divisor.\<close>

definition div_or_panic :: "'a::len word \<Rightarrow> 'a word \<Rightarrow> ('a word, 'e) outcome" where
  "div_or_panic a b = (if b = 0 then Panic else Ok (a div b))"

lemma unwrap_or_simps [simp]: "unwrap_or d (Some x) = x" "unwrap_or d None = d"
  by (simp_all add: unwrap_or_def)

lemma unat_add_exact [bounds_simps]:
  fixes a b :: "'a::len word"
  assumes "unat a + unat b < 2 ^ LENGTH('a)"
  shows "unat (a + b) = unat a + unat b"
  using assms by (simp add: unat_add_lem)

lemma unat_mult_exact [bounds_simps]:
  fixes a b :: "'a::len word"
  assumes "unat a * unat b < 2 ^ LENGTH('a)"
  shows "unat (a * b) = unat a * unat b"
  using assms by (simp add: unat_mult_lem)

lemma unat_sub_exact [bounds_simps]:
  fixes a b :: "'a::len word"
  assumes "b \<le> a"
  shows "unat (a - b) = unat a - unat b"
  using assms by (rule unat_sub)

lemma unat_div_exact [bounds_simps]: "unat (a div b) = unat a div unat b"
  for a b :: "'a::len word"
  by (rule unat_div_distrib)

lemma checked_add_Some: 
  "checked_add a b = Some c \<longleftrightarrow> unat a + unat b < 2 ^ LENGTH('a) \<and> c = a + b"
  for a b c :: "'a::len word"
  by (auto simp: checked_add_def)

lemma checked_mul_Some: 
  "checked_mul a b = Some c \<longleftrightarrow> unat a * unat b < 2 ^ LENGTH('a) \<and> c = a * b"
  for a b c :: "'a::len word"
  by (auto simp: checked_mul_def)

lemma checked_div_Some: "checked_div a b = Some c \<longleftrightarrow> b \<noteq> 0 \<and> c = a div b"
  by (auto simp: checked_div_def)

lemma unat_saturating_sub [bounds_simps]:
  "unat (saturating_sub a b) = unat a - unat b"
  for a b :: "'a::len word"
  by (auto simp: saturating_sub_def unat_sub word_le_nat_alt)

lemma saturating_sub_le: "saturating_sub a b \<le> a"
  by (simp add: word_le_nat_alt unat_saturating_sub)

lemma div_or_panic_Ok_iff: "div_or_panic a b = Ok c \<longleftrightarrow> b \<noteq> 0 \<and> c = a div b"
  by (auto simp: div_or_panic_def)

subsection \<open>Widening and narrowing between \<open>u64\<close> and \<open>u128\<close>\<close>

definition u128_of :: "u64 \<Rightarrow> u128" where
  "u128_of x = ucast x"

definition u64_of :: "u128 \<Rightarrow> u64" where
  "u64_of x = ucast x"

lemma u64_bound [simp]: "unat (x :: u64) < 18446744073709551616"
  using unsigned_less [of x] by simp

lemma u128_bound [simp]: "unat (x :: u128) < 340282366920938463463374607431768211456"
  using unsigned_less [of x] by simp

lemma unat_u128_of [simp, bounds_simps]: "unat (u128_of x) = unat x"
  by (simp add: u128_of_def unsigned_ucast_eq take_bit_nat_eq_self_iff less_trans [OF u64_bound])

lemma unat_u64_of: "unat (u64_of x) = unat x mod 2 ^ 64"
  by (simp add: u64_of_def unsigned_ucast_eq take_bit_eq_mod)

lemma unat_u64_of_exact [bounds_simps]: "unat x < 2 ^ 64 \<Longrightarrow> unat (u64_of x) = unat x"
  by (simp add: unat_u64_of)

lemma u64_mult_bound: "unat (x :: u64) * unat (y :: u64) < 2 ^ 128"
proof -
  have "unat x * unat y < 18446744073709551616 * 18446744073709551616"
    by (rule mult_strict_mono) simp_all
  then show ?thesis by simp
qed

lemma u64_mult_add_bound: "unat (x :: u64) * unat (y :: u64) + unat (z :: u64) \<le> 2 ^ 128"
proof -
  have "unat x * unat y \<le> 18446744073709551615 * 18446744073709551615"
    using u64_bound [of x] u64_bound [of y] by (intro mult_le_mono; linarith)
  moreover have "unat z \<le> 18446744073709551615"
    using u64_bound [of z] by linarith
  ultimately show ?thesis by simp
qed

lemma unat_u128_mult_u64 [simp]: "unat (u128_of x * u128_of y) = unat x * unat y"
  by (rule trans [OF unat_mult_exact]) (use u64_mult_bound [of x y] in simp_all)

lemma u128_of_0_iff [simp]: "u128_of x = 0 \<longleftrightarrow> x = 0"
  by (metis unat_eq_zero unat_u128_of)

lemma unat_u128_add_u64 [simp]: "unat (u128_of x + u128_of y) = unat x + unat y"
proof -
  have "unat x + unat y < 2 ^ 128"
    using add_strict_mono [OF u64_bound [of x] u64_bound [of y]] by simp
  then show ?thesis using unat_add_exact [of "u128_of x" "u128_of y"] by simp
qed

lemma u128_sum_nonzero: "x \<noteq> 0 \<Longrightarrow> u128_of x + u128_of y \<noteq> 0"
  using unat_u128_add_u64 [of x y] by (metis add_is_0 unat_0 unat_eq_zero)

end
