(* ===== verification/Fee_Math.thy ===== *)
theory Fee_Math
  imports Prelude
begin

text \<open>
  The fee and slippage arithmetic of \<open>src/utils/calc/common.rs\<close>: ceiling division and
  percentage fees on \<open>u128\<close>, slippage bounds on \<open>u64\<close>. The specifications are
  functions on nat; the refinement lemmas say when the word code computes them.
\<close>

section \<open>The code\<close>

definition ceil_div :: "u128 \<Rightarrow> u128 \<Rightarrow> (u128, 'e) outcome" where
  "ceil_div a b = div_or_panic (a + b - 1) b"

definition compute_fee :: "u128 \<Rightarrow> u128 \<Rightarrow> (u128, 'e) outcome" where
  "compute_fee amount fee_basis_points = ceil_div (amount * fee_basis_points) 10000"

definition calculate_with_slippage_buy :: "u64 \<Rightarrow> u64 \<Rightarrow> u64" where
  "calculate_with_slippage_buy amount basis_points = amount + (amount * basis_points div 10000)"

definition calculate_with_slippage_sell :: "u64 \<Rightarrow> u64 \<Rightarrow> u64" where
  "calculate_with_slippage_sell amount basis_points =
     (if amount \<le> basis_points div 10000 then 1
      else amount - (amount * basis_points div 10000))"

section \<open>Specification on natural numbers\<close>

definition nceil :: "nat \<Rightarrow> nat \<Rightarrow> nat" where
  "nceil a b = (a + b - 1) div b"

definition nfee :: "nat \<Rightarrow> nat \<Rightarrow> nat" where
  "nfee amount bps = nceil (amount * bps) 10000"

lemma nceil_le_iff:
  assumes "0 < b"
  shows "nceil a b \<le> n \<longleftrightarrow> a \<le> n * b"
proof
  assume "nceil a b \<le> n"
  then have "(a + b - 1) div b < Suc n"
    by (simp add: nceil_def)
  then have "a + b - 1 < Suc n * b"
    using assms by (simp add: div_less_iff_less_mult)
  then show "a \<le> n * b" by simp
next
  assume "a \<le> n * b"
  then have "a + b - 1 < Suc n * b"
    using assms by simp
  then have "(a + b - 1) div b < Suc n"
    using assms by (simp add: div_less_iff_less_mult)
  then show "nceil a b \<le> n" by (simp add: nceil_def)
qed

lemma nceil_lower: "0 < b \<Longrightarrow> a \<le> nceil a b * b"
  using nceil_le_iff [of b a "nceil a b"] by simp

lemma nceil_upper:
  assumes "0 < b"
  shows "nceil a b * b < a + b"
proof (cases "nceil a b")
  case 0
  then show ?thesis using assms by simp
next
  case (Suc c)
  then have "c * b < a" using nceil_le_iff [OF assms, of a c] by simp
  then show ?thesis using Suc by simp
qed

lemma nceil_le_self: "0 < b \<Longrightarrow> nceil a b \<le> a"
  by (simp add: nceil_le_iff)

lemma nceil_0 [simp]: "0 < b \<Longrightarrow> nceil 0 b = 0"
  using nceil_le_iff [of b 0 0] by simp

lemma nfee_lower: "amount * bps \<le> 10000 * nfee amount bps"
  using nceil_lower [of 10000 "amount * bps"] by (simp add: nfee_def mult.commute)

lemma nfee_upper: "10000 * nfee amount bps < amount * bps + 10000"
  using nceil_upper [of 10000 "amount * bps"] by (simp add: nfee_def mult.commute)

lemma nfee_le_amount: "bps \<le> 10000 \<Longrightarrow> nfee amount bps \<le> amount"
  by (simp add: nfee_def nceil_le_iff)

lemma nfee_0 [simp]: "nfee 0 bps = 0"
  by (simp add: nfee_def)

section \<open>Refinement: the word code computes the specification\<close>

lemma unat_ceil_num:
  fixes a b :: u128
  assumes "b \<noteq> 0" "unat a + unat b \<le> 2 ^ 128"
  shows "unat (a + b - 1) = unat a + unat b - 1"
proof -
  have b1: "1 \<le> b" using assms(1) by (simp add: word_le_nat_alt unat_gt_0 Suc_leI)
  have "unat (b - 1) = unat b - 1" using b1 by (simp add: unat_sub)
  moreover have "0 < unat b" using assms(1) by (simp add: unat_gt_0)
  ultimately have "unat (a + (b - 1)) = unat a + (unat b - 1)"
    using assms(2) unat_add_exact [of a "b - 1"] by simp
  then show ?thesis using \<open>0 < unat b\<close> by (simp add: algebra_simps)
qed

lemma ceil_div_refines:
  assumes "b \<noteq> 0" "unat a + unat b \<le> 2 ^ 128"
  shows "\<exists>c. ceil_div a b = Ok c \<and> unat c = nceil (unat a) (unat b)"
  using assms
  by (simp add: ceil_div_def div_or_panic_def nceil_def unat_div_distrib unat_ceil_num [OF assms])

lemma compute_fee_refines:
  assumes "unat amount * unat bps + 10000 \<le> 2 ^ 128"
  shows "\<exists>c. compute_fee amount bps = Ok c \<and> unat c = nfee (unat amount) (unat bps)"
proof -
  have m: "unat (amount * bps) = unat amount * unat bps"
    using assms by (intro unat_mult_exact) simp
  show ?thesis
    using ceil_div_refines [of 10000 "amount * bps"] assms
    by (simp add: compute_fee_def nfee_def m)
qed

lemma compute_fee_u64:
  assumes "unat bps \<le> 10000"
  obtains c where "compute_fee (u128_of x) bps = Ok c" "unat c = nfee (unat x) (unat bps)"
proof -
  have "unat x * unat bps \<le> 18446744073709551616 * 10000"
    using assms less_imp_le [OF u64_bound [of x]] by (intro mult_mono) simp_all
  then show thesis
    using compute_fee_refines [of "u128_of x" bps] that by auto
qed

lemma compute_fee_never_panics: "compute_fee a b \<noteq> Panic"
  by (simp add: compute_fee_def ceil_div_def div_or_panic_def)

lemma compute_fee_not_Err: "compute_fee a b \<noteq> Err e"
  by (simp add: compute_fee_def ceil_div_def div_or_panic_def)

lemma slippage_buy_exact:
  assumes "unat amount * unat bps < 2 ^ 64"
    and "unat amount + unat amount * unat bps div 10000 < 2 ^ 64"
  shows "unat (calculate_with_slippage_buy amount bps) =
    unat amount + unat amount * unat bps div 10000"
  using assms
  by (simp add: calculate_with_slippage_buy_def unat_mult_exact unat_div_distrib unat_add_exact)

lemma slippage_sell_exact:
  assumes "unat amount * unat bps < 2 ^ 64" "unat bps < 10000" "amount \<noteq> 0"
  shows "unat (calculate_with_slippage_sell amount bps) =
    unat amount - unat amount * unat bps div 10000"
proof -
  have "unat (bps div 10000) = 0" using assms(2) by (simp add: unat_div_distrib)
  then have z: "bps div 10000 = 0" by (simp add: unat_eq_zero)
  have m: "unat (amount * bps) = unat amount * unat bps"
    using assms(1) by (intro unat_mult_exact) simp
  have "unat amount * unat bps \<le> unat amount * 10000"
    using assms(2) by (intro mult_le_mono) simp_all
  then have "unat amount * unat bps div 10000 \<le> unat amount"
    by (rule order_trans [OF div_le_mono]) simp
  moreover have "0 < unat amount" using assms(3) by (simp add: unat_gt_0)
  ultimately show ?thesis
    using assms z by (simp add: calculate_with_slippage_sell_def m unat_sub unat_div_distrib
        word_le_nat_alt)
qed

section \<open>Properties\<close>

text \<open>\<open>ceil_div\<close> is the exact ceiling of the quotient. When the sum in its
  numerator fits in 128 bits, the result is the least number whose product with the
  divisor reaches the dividend, and the division does not panic.\<close>

theorem ceil_div_least:
  assumes "b \<noteq> 0" "unat a + unat b \<le> 2 ^ 128"
  shows "\<exists>c. ceil_div a b = Ok c \<and> (\<forall>n. unat c \<le> n \<longleftrightarrow> unat a \<le> n * unat b)"
  using ceil_div_refines [OF assms] assms(1) by (auto simp: nceil_le_iff unat_gt_0)

theorem ceil_div_least_witness:
  "\<exists>c. ceil_div 7 2 = Ok c \<and> (\<forall>n. unat c \<le> n \<longleftrightarrow> unat (7::u128) \<le> n * unat (2::u128))"
  by (rule ceil_div_least) simp_all



text \<open>The 64-bit product is the limit of the buy bound: above it the bound loses
  most of the percentage, here 10 percent of \<open>2 ^ 61\<close>.\<close>

lemma slippage_buy_wrap_example:
  "unat (calculate_with_slippage_buy (2 ^ 61) 1000) < 2 ^ 61 + 2 ^ 61 div 10"
  by (simp add: calculate_with_slippage_buy_def)

text \<open>The guard of the sell bound compares the amount with \<open>basis_points / 10000\<close>,
  so from 200 percent on it lets the subtraction wrap to a bound near \<open>2 ^ 64\<close>.\<close>

lemma slippage_sell_wrap_example:
  "calculate_with_slippage_sell 100 20000 = - 100"
  by (simp add: calculate_with_slippage_sell_def)

end
