(* ===== verification/Constant_Product.thy ===== *)
theory Constant_Product
  imports Fee_Math
begin

text \<open>
  The constant-product formula on natural numbers, rounded in favour of the pool: the
  specification that the PumpSwap quotes and the PumpFun bonding curve are measured
  against. The lemmas say that the product of the reserves never shrinks and that the
  two directions undo each other up to rounding.
\<close>

text \<open>\<open>cp_in R\<^sub>o R\<^sub>i x\<close>: what must be paid into a pool with reserves \<open>R\<^sub>o\<close>
  and \<open>R\<^sub>i\<close> to take \<open>x\<close> out, rounded up; \<open>cp_out R\<^sub>i R\<^sub>o x\<close>: what paying \<open>x\<close> gives,
  rounded down.\<close>

definition cp_in :: "nat \<Rightarrow> nat \<Rightarrow> nat \<Rightarrow> nat" where
  "cp_in Ro Ri x = nceil (Ri * x) (Ro - x)"

definition cp_out :: "nat \<Rightarrow> nat \<Rightarrow> nat \<Rightarrow> nat" where
  "cp_out Ri Ro x = Ro * x div (Ri + x)"

lemma cp_in_least:
  "x < Ro \<Longrightarrow> cp_in Ro Ri x \<le> y \<longleftrightarrow> Ri * x \<le> y * (Ro - x)"
  by (simp add: cp_in_def nceil_le_iff)

lemma cp_in_product:
  assumes "x < Ro"
  shows "Ro * Ri \<le> (Ro - x) * (Ri + cp_in Ro Ri x)"
proof -
  have "Ri * x \<le> cp_in Ro Ri x * (Ro - x)"
    using cp_in_least [OF assms, of Ri "cp_in Ro Ri x"] by simp
  moreover have "Ro * Ri = (Ro - x) * Ri + x * Ri"
    using assms by (simp flip: add_mult_distrib)
  ultimately show ?thesis by (simp add: algebra_simps)
qed

lemma cp_out_mult: "cp_out Ri Ro x * (Ri + x) \<le> Ro * x"
  by (simp add: cp_out_def)

lemma cp_out_less: "0 < Ri \<Longrightarrow> 0 < Ro \<Longrightarrow> cp_out Ri Ro x < Ro"
  by (simp add: cp_out_def div_less_iff_less_mult)

lemma cp_out_le: "cp_out Ri Ro x \<le> Ro"
proof (cases "Ri + x = 0")
  case False
  have "Ro * x \<le> Ro * (Ri + x)" by simp
  then have "Ro * x div (Ri + x) \<le> Ro * (Ri + x) div (Ri + x)" by (rule div_le_mono)
  then show ?thesis using False by (simp add: cp_out_def split: if_splits)
qed (simp add: cp_out_def)

lemma cp_out_product: "Ri * Ro \<le> (Ri + x) * (Ro - cp_out Ri Ro x)"
proof -
  have "(Ri + x) * (Ro - cp_out Ri Ro x) = (Ri + x) * Ro - (Ri + x) * cp_out Ri Ro x"
    by (rule diff_mult_distrib2)
  moreover have "(Ri + x) * cp_out Ri Ro x \<le> Ro * x"
    using cp_out_mult [of Ri Ro x] by (simp add: mult.commute)
  ultimately show ?thesis by (simp add: algebra_simps)
qed

lemma cp_out_ge: "0 < Ri + y \<Longrightarrow> x * (Ri + y) \<le> Ro * y \<Longrightarrow> x \<le> cp_out Ri Ro y"
  by (simp add: cp_out_def less_eq_div_iff_mult_less_eq)

lemma cp_in_out_ge:
  assumes "x < Ro" "0 < Ri" "cp_in Ro Ri x \<le> y"
  shows "x \<le> cp_out Ri Ro y"
proof (rule cp_out_ge)
  show "0 < Ri + y" using assms(2) by simp
  have "Ri * x \<le> y * (Ro - x)" using assms by (simp add: cp_in_least)
  then have "Ri * x + x * y \<le> y * (Ro - x) + y * x" by simp
  also have "\<dots> = y * Ro" using assms(1) by (simp flip: add_mult_distrib2)
  finally show "x * (Ri + y) \<le> Ro * y" by (simp add: algebra_simps)
qed

lemma cp_out_back:
  assumes "t \<le> cp_out Ri Ro x" "0 < Ro"
  shows "cp_out (Ro - t) (Ri + x) t \<le> x"
proof -
  have tRo: "t \<le> Ro" using assms(1) cp_out_le order_trans by blast
  have "t * (Ri + x) \<le> cp_out Ri Ro x * (Ri + x)" using assms(1) by simp
  then have "t * (Ri + x) \<le> Ro * x" using cp_out_mult [of Ri Ro x] by linarith
  then have "(Ri + x) * t \<le> x * Ro" by (simp add: mult.commute)
  then have "(Ri + x) * t div Ro \<le> x * Ro div Ro" by (rule div_le_mono)
  then show ?thesis using tRo assms(2) by (simp add: cp_out_def)
qed

end
