(* ===== verification/Calc_PumpFun.thy ===== *)
theory Calc_PumpFun
  imports Constant_Product
begin

text \<open>
  The bonding-curve estimates of \<open>src/utils/calc/pumpfun.rs\<close>: tokens for an amount of SOL
  and SOL for an amount of tokens, with the fees of the program. \<open>sol_str_to_lamports\<close> of
  the Solana SDK is a parameter.
\<close>

section \<open>The code\<close>

definition FEE_BASIS_POINTS :: u64 where "FEE_BASIS_POINTS = 95"
definition CREATOR_FEE :: u64 where "CREATOR_FEE = 30"

definition get_buy_token_amount_from_sol_amount ::
  "(string \<Rightarrow> u64 option) \<Rightarrow> u128 \<Rightarrow> u128 \<Rightarrow> u128 \<Rightarrow> pubkey \<Rightarrow> u64 \<Rightarrow> (u64, string) outcome" where
  "get_buy_token_amount_from_sol_amount sol_str_to_lamports
      virtual_token_reserves virtual_sol_reserves real_token_reserves creator amount =
    (if amount = 0 then Ok 0
     else if virtual_token_reserves = 0 then Ok 0
     else
       let total_fee_basis_points =
             FEE_BASIS_POINTS + (if creator \<noteq> pubkey_default then CREATOR_FEE else 0);
           amount_128 = u128_of amount;
           total_fee_basis_points_128 = u128_of total_fee_basis_points
       in obind (unwrap_option (checked_mul amount_128 10000)) (\<lambda>m.
       obind (unwrap_option (checked_div m (total_fee_basis_points_128 + 10000))) (\<lambda>input_amount.
       let denominator = virtual_sol_reserves + input_amount
       in obind (unwrap_option (checked_mul input_amount virtual_token_reserves)) (\<lambda>n.
       obind (unwrap_option (checked_div n denominator)) (\<lambda>raw.
       let tokens_received = min raw real_token_reserves;
           tokens_received = (if tokens_received \<le> 100 * 1000000
             then if amount > unwrap_or 0 (sol_str_to_lamports ''0.01'')
                  then 25547619 * 1000000
                  else 255476 * 1000000
             else tokens_received)
       in Ok (u64_of tokens_received))))))"

definition get_sell_sol_amount_from_token_amount ::
  "u128 \<Rightarrow> u128 \<Rightarrow> pubkey \<Rightarrow> u64 \<Rightarrow> (u64, string) outcome" where
  "get_sell_sol_amount_from_token_amount virtual_token_reserves virtual_sol_reserves creator amount =
    (if amount = 0 then Ok 0
     else if virtual_token_reserves = 0 then Ok 0
     else
       let amount_128 = u128_of amount;
           numerator = unwrap_or 0 (checked_mul amount_128 virtual_sol_reserves);
           denominator = unwrap_or 1 (checked_add virtual_token_reserves amount_128);
           sol_cost = unwrap_or 0 (checked_div numerator denominator);
           total_fee_basis_points =
             FEE_BASIS_POINTS + (if creator \<noteq> pubkey_default then CREATOR_FEE else 0);
           total_fee_basis_points_128 = u128_of total_fee_basis_points
       in obind (compute_fee sol_cost total_fee_basis_points_128) (\<lambda>fee.
          Ok (u64_of (saturating_sub sol_cost fee))))"

section \<open>Refinement\<close>

definition curve_bps :: "pubkey \<Rightarrow> nat" where
  "curve_bps creator = (if creator = pubkey_default then 95 else 125)"

definition curve_input :: "pubkey \<Rightarrow> nat \<Rightarrow> nat" where
  "curve_input creator amount = amount * 10000 div (curve_bps creator + 10000)"

lemma curve_bps_code:
  "unat (u128_of (FEE_BASIS_POINTS + (if creator \<noteq> pubkey_default then CREATOR_FEE else 0))) = curve_bps creator"
  by (simp add: FEE_BASIS_POINTS_def CREATOR_FEE_def curve_bps_def)

lemma curve_bps_le: "curve_bps c \<le> 125"
  by (simp add: curve_bps_def)

lemma curve_input_le: "curve_input c x \<le> x"
proof -
  have "x * 10000 div (curve_bps c + 10000) \<le> x * (curve_bps c + 10000) div (curve_bps c + 10000)"
    by (intro div_le_mono mult_le_mono) simp_all
  then show ?thesis by (simp add: curve_input_def)
qed

lemma curve_input_run:
  "\<exists>m e. checked_mul (u128_of amount) 10000 = Some m
    \<and> checked_div m (u128_of (FEE_BASIS_POINTS + (if creator \<noteq> pubkey_default then CREATOR_FEE else 0)) + 10000)
      = Some e
    \<and> unat e = curve_input creator (unat amount)"
proof -
  let ?b = "u128_of (FEE_BASIS_POINTS + (if creator \<noteq> pubkey_default then CREATOR_FEE else 0))"
  have b: "unat (?b + 10000) = curve_bps creator + 10000"
    using unat_add_exact [of ?b 10000] curve_bps_code [of creator] curve_bps_le [of creator] by simp
  then have b0: "?b + 10000 \<noteq> 0" by (metis add_is_0 unat_0 zero_neq_numeral)
  have "unat amount * 10000 < 2 ^ 128" using u64_bound [of amount] by (simp del: u64_bound)
  then show ?thesis
    using unat_mult_exact [of "u128_of amount" 10000] b0 b
    by (simp add: checked_mul_def checked_div_def unat_div_distrib curve_input_def)
qed

lemma buy_tokens_refines:
  assumes "amount \<noteq> 0" "virtual_token_reserves \<noteq> 0"
    and vt: "unat virtual_token_reserves < 2 ^ 64"
    and vs: "0 < unat virtual_sol_reserves" "unat virtual_sol_reserves < 2 ^ 64"
    and t: "t = min (cp_out (unat virtual_sol_reserves) (unat virtual_token_reserves)
                      (curve_input creator (unat amount))) (unat real_token_reserves)"
  shows "\<exists>r. get_buy_token_amount_from_sol_amount f virtual_token_reserves virtual_sol_reserves
      real_token_reserves creator amount = Ok r
    \<and> unat r = (if 100000000 < t then t
        else if unwrap_or 0 (f ''0.01'') < amount then 25547619000000 else 255476000000)"
proof -
  let ?x = "curve_input creator (unat amount)"
  obtain m e where e: "checked_mul (u128_of amount) 10000 = Some m"
    "checked_div m (u128_of (FEE_BASIS_POINTS + (if creator \<noteq> pubkey_default then CREATOR_FEE else 0)) + 10000)
      = Some e" "unat e = ?x"
    using curve_input_run by blast
  have x64: "?x < 18446744073709551616"
    using curve_input_le [of creator "unat amount"] u64_bound [of amount] by linarith
  have den: "unat (virtual_sol_reserves + e) = unat virtual_sol_reserves + ?x"
    using unat_add_exact [of virtual_sol_reserves e] e(3) x64 vs by simp
  then have den0: "virtual_sol_reserves + e \<noteq> 0" using vs(1) by (metis add_is_0 less_irrefl unat_0)
  have "?x * unat virtual_token_reserves < 18446744073709551616 * 18446744073709551616"
    using vt x64 by (intro mult_strict_mono) simp_all
  then have num: "checked_mul e virtual_token_reserves = Some (e * virtual_token_reserves)"
    "unat (e * virtual_token_reserves) = ?x * unat virtual_token_reserves"
    using unat_mult_exact [of e virtual_token_reserves] e(3) by (simp_all add: checked_mul_def)
  let ?raw = "e * virtual_token_reserves div (virtual_sol_reserves + e)"
  have raw: "checked_div (e * virtual_token_reserves) (virtual_sol_reserves + e) = Some ?raw"
    using den0 by (simp add: checked_div_def)
  have "unat ?raw = cp_out (unat virtual_sol_reserves) (unat virtual_token_reserves) ?x"
    by (simp add: unat_div_distrib num den cp_out_def mult.commute)
  then have mint: "unat (min ?raw real_token_reserves) = t"
    by (auto simp: t min_def word_le_nat_alt)
  moreover have "t \<le> unat virtual_token_reserves"
    unfolding t using cp_out_le min.coboundedI1 by blast
  ultimately have "unat (u64_of (min ?raw real_token_reserves)) = t"
    using vt by (simp add: unat_u64_of_exact)
  then show ?thesis
    using assms(1,2) e(1,2) num(1) raw mint
    by (simp add: get_buy_token_amount_from_sol_amount_def Let_def word_le_nat_alt unat_u64_of not_le)
qed

lemma sell_sol_refines:
  assumes "amount \<noteq> 0" "virtual_token_reserves \<noteq> 0"
    and vt: "unat virtual_token_reserves < 2 ^ 64" and vs: "unat virtual_sol_reserves < 2 ^ 64"
    and q: "q = cp_out (unat virtual_token_reserves) (unat virtual_sol_reserves) (unat amount)"
  shows "\<exists>r. get_sell_sol_amount_from_token_amount virtual_token_reserves virtual_sol_reserves creator amount = Ok r
    \<and> unat r = q - nfee q (curve_bps creator)"
proof -
  have "unat amount * unat virtual_sol_reserves < 18446744073709551616 * 18446744073709551616"
    using vs by (intro mult_strict_mono) simp_all
  then have num: "checked_mul (u128_of amount) virtual_sol_reserves = Some (u128_of amount * virtual_sol_reserves)"
    "unat (u128_of amount * virtual_sol_reserves) = unat amount * unat virtual_sol_reserves"
    using unat_mult_exact [of "u128_of amount" virtual_sol_reserves] by (simp_all add: checked_mul_def)
  have "unat virtual_token_reserves + unat amount < 2 ^ 128"
    using add_strict_mono [OF vt u64_bound [of amount]] by simp
  then have den: "checked_add virtual_token_reserves (u128_of amount) = Some (virtual_token_reserves + u128_of amount)"
    "unat (virtual_token_reserves + u128_of amount) = unat virtual_token_reserves + unat amount"
    using unat_add_exact [of virtual_token_reserves "u128_of amount"] by (simp_all add: checked_add_def)
  have "0 < unat virtual_token_reserves" using assms(2) by (simp add: unat_gt_0)
  then have den0: "virtual_token_reserves + u128_of amount \<noteq> 0"
    using den(2) by (metis add_is_0 less_irrefl unat_0)
  let ?q = "u128_of amount * virtual_sol_reserves div (virtual_token_reserves + u128_of amount)"
  have uq: "unat ?q = q"
    by (simp add: unat_div_distrib num(2) den(2) q cp_out_def mult.commute [of "unat virtual_sol_reserves"])
  have q64: "q < 2 ^ 64" unfolding q using cp_out_le vs le_less_trans by blast
  have "q * curve_bps creator \<le> 18446744073709551616 * 125"
    using q64 curve_bps_le [of creator] by (intro mult_le_mono) simp_all
  then obtain fee where fee: "compute_fee ?q (u128_of (FEE_BASIS_POINTS + (if creator \<noteq> pubkey_default then CREATOR_FEE else 0)))
      = (Ok fee :: (u128, string) outcome)" "unat fee = nfee q (curve_bps creator)"
    using compute_fee_refines [of ?q "u128_of (FEE_BASIS_POINTS + (if creator \<noteq> pubkey_default then CREATOR_FEE else 0))"]
      curve_bps_code [of creator] uq by auto
  show ?thesis
    using assms(1,2) num(1) den(1) den0 fee q64 uq
    by (simp add: get_sell_sol_amount_from_token_amount_def Let_def checked_div_def
        unat_u64_of unat_saturating_sub)
qed

section \<open>Properties\<close>



text \<open>C28 (roundtrip): selling what was just bought never pays more than was spent. After a buy
  above the fixed-amount threshold, on the reserves the curve has then, the sell estimate for
  the bought tokens is at most the part of the amount that entered the curve, so at most the
  amount.\<close>

theorem buy_then_sell_no_gain:
  assumes "amount \<noteq> 0" "virtual_token_reserves \<noteq> 0" "unat virtual_token_reserves < 2 ^ 64"
    and "0 < unat virtual_sol_reserves" "unat virtual_sol_reserves + unat amount < 2 ^ 64"
    and big: "100000000 < min (cp_out (unat virtual_sol_reserves) (unat virtual_token_reserves)
                          (curve_input creator (unat amount))) (unat real_token_reserves)"
    and buy: "get_buy_token_amount_from_sol_amount f virtual_token_reserves virtual_sol_reserves
      real_token_reserves creator amount = Ok tokens"
    and vt': "unat virtual_token_reserves' = unat virtual_token_reserves - unat tokens"
    and vs': "unat virtual_sol_reserves' = unat virtual_sol_reserves + curve_input creator (unat amount)"
  shows "\<exists>sol. get_sell_sol_amount_from_token_amount virtual_token_reserves' virtual_sol_reserves' creator tokens
      = Ok sol \<and> unat sol \<le> curve_input creator (unat amount) \<and> sol \<le> amount"
proof -
  let ?x = "curve_input creator (unat amount)"
  have x: "?x \<le> unat amount" by (rule curve_input_le)
  have tok: "unat tokens = min (cp_out (unat virtual_sol_reserves) (unat virtual_token_reserves) ?x)
      (unat real_token_reserves)"
    using buy_tokens_refines [OF assms(1-4) _ refl, where creator = creator and f = f
        and real_token_reserves = real_token_reserves] buy big assms(5) by auto
  then have tle: "unat tokens \<le> cp_out (unat virtual_sol_reserves) (unat virtual_token_reserves) ?x"
    by simp
  have t0: "tokens \<noteq> 0" using tok big by auto
  show ?thesis
  proof (cases "virtual_token_reserves' = 0")
    case True
    then show ?thesis using t0 by (simp add: get_sell_sol_amount_from_token_amount_def)
  next
    case False
    let ?q = "cp_out (unat virtual_token_reserves') (unat virtual_sol_reserves') (unat tokens)"
    have "?q \<le> ?x"
      unfolding vt' vs' using tle assms(2) by (intro cp_out_back) (simp_all add: unat_gt_0)
    moreover have "unat virtual_token_reserves' < 2 ^ 64" "unat virtual_sol_reserves' < 2 ^ 64"
      using vt' vs' assms(3,5) x by simp_all
    ultimately show ?thesis
      using sell_sol_refines [OF t0 False _ _ refl, where creator = creator
          and virtual_sol_reserves = virtual_sol_reserves'] x
      by (auto simp: word_le_nat_alt)
  qed
qed

theorem buy_then_sell_no_gain_witness:
  "\<exists>tokens sol. get_buy_token_amount_from_sol_amount (\<lambda>_. None) 1000000000000 30000000000
      800000000000 0 1000000000 = Ok tokens
    \<and> get_sell_sol_amount_from_token_amount 968035799926 30990589400 0 tokens = Ok sol
    \<and> sol \<le> 1000000000"
proof -
  have in_value: "curve_input 0 1000000000 = 990589400"
    by (simp add: curve_input_def curve_bps_def)
  have buy: "get_buy_token_amount_from_sol_amount (\<lambda>_. None) 1000000000000 30000000000
      800000000000 0 1000000000 = Ok 31964200074"
    by (simp add: get_buy_token_amount_from_sol_amount_def checked_mul_def checked_div_def Let_def
        FEE_BASIS_POINTS_def u128_of_def u64_of_def)
  show ?thesis
    using buy_then_sell_no_gain [of 1000000000 1000000000000 30000000000 0 800000000000 "\<lambda>_. None"
        31964200074 968035799926 30990589400] buy
    by (auto simp: in_value cp_out_def)
qed

end
