(* ===== verification/Solana_Types.thy ===== *)
theory Solana_Types
  imports Prelude
begin

text \<open>
  The Solana data the program builds: public-key constants, account metas,
  instructions, byte encodings of integers and keys, and program-derived addresses.
  The address derivation of the Solana SDK is not code of this repository: it is the
  parameter \<open>fpa\<close> (\<open>Pubkey::try_find_program_address\<close>: the seeds and the program
  give an address and a bump, or nothing) of every definition that derives an address.
  Constants of \<open>src/constants/accounts.rs\<close> are read from their base58 literals.
\<close>

section \<open>Public-key literals\<close>

text \<open>\<open>pubkey!("...")\<close> is the number whose base58 digits the literal spells, most
  significant first, read as 32 big-endian bytes.\<close>

definition b58_alphabet :: string where
  "b58_alphabet = ''123456789ABCDEFGHJKLMNPQRSTUVWXYZabcdefghijkmnopqrstuvwxyz''"

primrec digit_in :: "string \<Rightarrow> char \<Rightarrow> int" where
  "digit_in [] c = 0"
| "digit_in (d # ds) c = (if c = d then 0 else 1 + digit_in ds c)"

definition b58_value :: "string \<Rightarrow> int" where
  "b58_value s = foldl (\<lambda>acc c. acc * 58 + digit_in b58_alphabet c) 0 s"

definition pk :: "string \<Rightarrow> pubkey" where
  "pk s = word_of_int (b58_value s)"

definition SYSTEM_PROGRAM :: pubkey where
  "SYSTEM_PROGRAM = pk ''11111111111111111111111111111111''"
definition TOKEN_PROGRAM :: pubkey where
  "TOKEN_PROGRAM = pk ''TokenkegQfeZyiNwAJbNbGKPFXCWuBvf9Ss623VQ5DA''"
definition TOKEN_PROGRAM_2022 :: pubkey where
  "TOKEN_PROGRAM_2022 = pk ''TokenzQdBNbLqP5VEhdkAS6EPFLC1PHnBqCXEpPxuEb''"
definition SOL_TOKEN_ACCOUNT :: pubkey where
  "SOL_TOKEN_ACCOUNT = pk ''So11111111111111111111111111111111111111111''"
definition WSOL_TOKEN_ACCOUNT :: pubkey where
  "WSOL_TOKEN_ACCOUNT = pk ''So11111111111111111111111111111111111111112''"
definition USD1_TOKEN_ACCOUNT :: pubkey where
  "USD1_TOKEN_ACCOUNT = pk ''USD1ttGY1N17NEEHLmELoaybftRBUSErhqYiQzvEmuB''"
definition USDC_TOKEN_ACCOUNT :: pubkey where
  "USDC_TOKEN_ACCOUNT = pk ''EPjFWdd5AufqSSqeM2qN1xzybapC8G4wEGGkZwyTDt1v''"
definition ASSOCIATED_TOKEN_PROGRAM_ID :: pubkey where
  "ASSOCIATED_TOKEN_PROGRAM_ID = pk ''ATokenGPvbdGVxr1b2hvZbsiqW5xWH25efTNsLJA8knL''"

lemmas account_const_defs = SYSTEM_PROGRAM_def TOKEN_PROGRAM_def TOKEN_PROGRAM_2022_def
  SOL_TOKEN_ACCOUNT_def WSOL_TOKEN_ACCOUNT_def USD1_TOKEN_ACCOUNT_def USDC_TOKEN_ACCOUNT_def
  ASSOCIATED_TOKEN_PROGRAM_ID_def

lemma token_programs_distinct [simp]:
  "TOKEN_PROGRAM \<noteq> TOKEN_PROGRAM_2022" "TOKEN_PROGRAM_2022 \<noteq> TOKEN_PROGRAM"
  by code_simp+

lemma mints_distinct [simp]:
  "WSOL_TOKEN_ACCOUNT \<noteq> SOL_TOKEN_ACCOUNT" "WSOL_TOKEN_ACCOUNT \<noteq> USDC_TOKEN_ACCOUNT"
  "WSOL_TOKEN_ACCOUNT \<noteq> USD1_TOKEN_ACCOUNT" "USDC_TOKEN_ACCOUNT \<noteq> USD1_TOKEN_ACCOUNT"
  "SOL_TOKEN_ACCOUNT \<noteq> WSOL_TOKEN_ACCOUNT" "USDC_TOKEN_ACCOUNT \<noteq> WSOL_TOKEN_ACCOUNT"
  "USD1_TOKEN_ACCOUNT \<noteq> WSOL_TOKEN_ACCOUNT" "USD1_TOKEN_ACCOUNT \<noteq> USDC_TOKEN_ACCOUNT"
  by code_simp+

lemma SYSTEM_PROGRAM_zero: "SYSTEM_PROGRAM = pubkey_default"
  by code_simp

section \<open>Bytes\<close>

definition le_bytes :: "nat \<Rightarrow> 'a::len word \<Rightarrow> u8 list" where
  "le_bytes n w = map (\<lambda>i. ucast (drop_bit (8 * i) w)) [0..<n]"

primrec le_value :: "u8 list \<Rightarrow> nat" where
  "le_value [] = 0"
| "le_value (b # bs) = unat b + 256 * le_value bs"

definition pk_bytes :: "pubkey \<Rightarrow> u8 list" where
  "pk_bytes p = rev (le_bytes 32 p)"

definition str_bytes :: "string \<Rightarrow> u8 list" where
  "str_bytes s = map (\<lambda>c. of_nat (of_char c)) s"

abbreviation u64_le :: "u64 \<Rightarrow> u8 list" where
  "u64_le \<equiv> le_bytes 8"

lemma length_le_bytes [simp]: "length (le_bytes n w) = n"
  by (simp add: le_bytes_def)

lemma length_pk_bytes [simp]: "length (pk_bytes p) = 32"
  by (simp add: pk_bytes_def)

lemma le_bytes_Suc:
  "le_bytes (Suc n) w = ucast w # le_bytes n (drop_bit 8 w)"
proof -
  have "[0..<Suc n] = 0 # map Suc [0..<n]"
    by (simp add: map_Suc_upt upt_conv_Cons)
  then show ?thesis
    by (simp add: le_bytes_def del: upt_Suc) (simp add: add.commute)
qed

lemma unat_byte: "unat (ucast w :: u8) = unat w mod 256"
  for w :: "'a::len word"
  by (simp add: unsigned_ucast_eq take_bit_eq_mod)

lemma unat_shift8: "unat (drop_bit 8 w) = unat w div 256"
  for w :: "'a::len word"
  by (simp only: unat_drop_bit_eq drop_bit_eq_div [of 8 "unat w"]) simp

lemma le_value_le_bytes: "le_value (le_bytes n w) = unat w mod 256 ^ n"
  for w :: "'a::len word"
proof (induction n arbitrary: w)
  case 0
  then show ?case by (simp add: le_bytes_def)
next
  case (Suc n)
  have "unat w mod 256 ^ Suc n = unat w mod 256 + 256 * (unat w div 256 mod 256 ^ n)"
    by (simp add: mod_mult2_eq)
  then show ?case by (simp add: le_bytes_Suc Suc unat_byte unat_shift8)
qed

lemma le_value_u64_le [simp]: "le_value (u64_le w) = unat w"
  by (simp add: le_value_le_bytes)

lemma u64_le_inj [simp]: "u64_le v = u64_le w \<longleftrightarrow> v = w"
  by (metis le_value_u64_le word_unat_eq_iff)

lemma le_bytes_inj:
  fixes v w :: "'a::len word"
  assumes "LENGTH('a) \<le> 8 * n" "le_bytes n v = le_bytes n w"
  shows "v = w"
proof -
  have bound: "unat x < 256 ^ n" for x :: "'a word"
  proof -
    have "(2::nat) ^ LENGTH('a) \<le> 2 ^ (8 * n)" using assms(1) by (intro power_increasing) simp_all
    then show ?thesis using less_le_trans [OF unsigned_less [of x, where 'a = nat]] by (simp add: power_mult)
  qed
  have "unat v = unat w"
    using assms(2) bound [of v] bound [of w] le_value_le_bytes [of n v] le_value_le_bytes [of n w] by simp
  then show ?thesis by (simp add: word_unat_eq_iff)
qed

lemma pk_bytes_inj [simp]: "pk_bytes p = pk_bytes q \<longleftrightarrow> p = q"
  using le_bytes_inj [of 32 p q] by (auto simp: pk_bytes_def)

section \<open>Instructions\<close>

record AccountMeta =
  am_pubkey :: pubkey
  am_is_signer :: bool
  am_is_writable :: bool

record Instruction =
  ix_program_id :: pubkey
  ix_accounts :: "AccountMeta list"
  ix_data :: "u8 list"

text \<open>\<open>AccountMeta::new\<close> and \<open>AccountMeta::new_readonly\<close>.\<close>

definition meta_new :: "pubkey \<Rightarrow> bool \<Rightarrow> AccountMeta" where
  "meta_new p s = \<lparr> am_pubkey = p, am_is_signer = s, am_is_writable = True \<rparr>"

definition meta_readonly :: "pubkey \<Rightarrow> bool \<Rightarrow> AccountMeta" where
  "meta_readonly p s = \<lparr> am_pubkey = p, am_is_signer = s, am_is_writable = False \<rparr>"

lemma meta_simps [simp]:
  "am_pubkey (meta_new p s) = p" "am_is_signer (meta_new p s) = s" "am_is_writable (meta_new p s)"
  "am_pubkey (meta_readonly p s) = p" "am_is_signer (meta_readonly p s) = s"
  "\<not> am_is_writable (meta_readonly p s)"
  by (simp_all add: meta_new_def meta_readonly_def)

text \<open>The signers an instruction needs.\<close>

definition ix_signers :: "Instruction \<Rightarrow> pubkey set" where
  "ix_signers ix = set (map am_pubkey (filter am_is_signer (ix_accounts ix)))"

lemma filter_signer_readonly [simp]:
  "filter am_is_signer (map (\<lambda>p. meta_readonly p True) ps) = map (\<lambda>p. meta_readonly p True) ps"
  by (induction ps) simp_all

section \<open>Program-derived addresses\<close>

type_synonym find_pda = "u8 list list \<Rightarrow> pubkey \<Rightarrow> (pubkey \<times> u8) option"

definition derive :: "find_pda \<Rightarrow> u8 list list \<Rightarrow> pubkey \<Rightarrow> pubkey option" where
  "derive fpa seeds program = map_option fst (fpa seeds program)"

end
