(* ===== verification/Token_Instr.thy ===== *)
theory Token_Instr
  imports Solana_Types
begin

text \<open>
  The token-program instructions of \<open>src/common/spl_token.rs\<close>,
  \<open>src/common/spl_token_2022.rs\<close> and \<open>src/common/spl_associated_token_account.rs\<close>, and the
  seed-derived token accounts of \<open>src/common/seed.rs\<close>: the 8-digit hexadecimal seed of a
  mint, the rent cache and the pair of instructions that creates such an account.

  Code outside the repository is the record \<open>extern\<close>: address derivation, the FNV hasher of
  the fnv crate, \<open>Pubkey::create_with_seed\<close> and the system, nonce and compute-budget instruction
  constructors of the Solana crates.
\<close>

section \<open>Functions of other crates\<close>

record extern =
  x_find_pda :: find_pda
  x_fnv :: "u8 list \<Rightarrow> u64"
  x_create_with_seed :: "pubkey \<Rightarrow> u8 list \<Rightarrow> pubkey \<Rightarrow> string + pubkey"
  x_create_account_with_seed ::
    "pubkey \<Rightarrow> pubkey \<Rightarrow> pubkey \<Rightarrow> u8 list \<Rightarrow> u64 \<Rightarrow> u64 \<Rightarrow> pubkey \<Rightarrow> Instruction"
  x_system_transfer :: "pubkey \<Rightarrow> pubkey \<Rightarrow> u64 \<Rightarrow> Instruction"
  x_set_compute_unit_price :: "u64 \<Rightarrow> Instruction"
  x_set_compute_unit_limit :: "u32 \<Rightarrow> Instruction"
  x_advance_nonce_account :: "pubkey \<Rightarrow> pubkey \<Rightarrow> Instruction"
  x_sol_str_to_lamports :: "string \<Rightarrow> u64 option"

definition of_sum :: "'e + 'a \<Rightarrow> ('a, 'e) outcome" where
  "of_sum x = (case x of Inl e \<Rightarrow> Err e | Inr y \<Rightarrow> Ok y)"

lemma of_sum_simps [simp]: "of_sum (Inl e) = Err e" "of_sum (Inr y) = Ok y"
  by (simp_all add: of_sum_def)

lemma of_sum_not_Panic [simp]: "of_sum x \<noteq> Panic"
  by (cases x) simp_all

section \<open>Token program instructions\<close>

definition close_account ::
  "pubkey \<Rightarrow> pubkey \<Rightarrow> pubkey \<Rightarrow> pubkey \<Rightarrow> pubkey list \<Rightarrow> (Instruction, string) outcome" where
  "close_account token_program_id account destination owner signers =
    Ok \<lparr> ix_program_id = token_program_id,
         ix_accounts = [meta_new account False, meta_new destination False,
                        meta_readonly owner (signers = [])]
                       @ map (\<lambda>s. meta_readonly s True) signers,
         ix_data = [9] \<rparr>"

definition transfer ::
  "pubkey \<Rightarrow> pubkey \<Rightarrow> pubkey \<Rightarrow> pubkey \<Rightarrow> u64 \<Rightarrow> pubkey list \<Rightarrow> (Instruction, string) outcome" where
  "transfer token_program_id source destination owner amount signers =
    Ok \<lparr> ix_program_id = token_program_id,
         ix_accounts = [meta_new source False, meta_new destination False,
                        meta_readonly owner (signers = [])]
                       @ map (\<lambda>s. meta_readonly s True) signers,
         ix_data = 3 # u64_le amount \<rparr>"

definition initialize_account3 ::
  "pubkey \<Rightarrow> pubkey \<Rightarrow> pubkey \<Rightarrow> pubkey \<Rightarrow> (Instruction, string) outcome" where
  "initialize_account3 token_program_id account mint owner =
    Ok \<lparr> ix_program_id = token_program_id,
         ix_accounts = [meta_new account False, meta_readonly mint False],
         ix_data = 18 # pk_bytes owner \<rparr>"

text \<open>The same encoder for the Token-2022 program.\<close>

definition initialize_account3_2022 ::
  "pubkey \<Rightarrow> pubkey \<Rightarrow> pubkey \<Rightarrow> pubkey \<Rightarrow> (Instruction, string) outcome" where
  "initialize_account3_2022 token_program_id account mint owner =
    Ok \<lparr> ix_program_id = token_program_id,
         ix_accounts = [meta_new account False, meta_readonly mint False],
         ix_data = 18 # pk_bytes owner \<rparr>"

text \<open>The owner signs a close or a transfer exactly when no other signer is named, and then
  nobody else does; the amount can be read back from the data of a transfer.\<close>

lemma close_account_signers:
  "close_account t a d w ss = Ok ix \<Longrightarrow> ix_signers ix = (if ss = [] then {w} else set ss)"
  by (auto simp: close_account_def ix_signers_def o_def image_image simp del: set_filter)

lemma transfer_signers:
  "transfer t a d w n ss = Ok ix \<Longrightarrow> ix_signers ix = (if ss = [] then {w} else set ss)"
  by (auto simp: transfer_def ix_signers_def o_def image_image simp del: set_filter)

lemma transfer_amount:
  "transfer t a d w n ss = Ok ix \<Longrightarrow> ix_data ix = 3 # u64_le n \<and> le_value (tl (ix_data ix)) = unat n"
  by (auto simp: transfer_def)

section \<open>Associated token accounts\<close>

definition get_associated_token_address_with_program_id ::
  "extern \<Rightarrow> pubkey \<Rightarrow> pubkey \<Rightarrow> pubkey \<Rightarrow> (pubkey, string) outcome" where
  "get_associated_token_address_with_program_id X wallet mint token_program =
    unwrap_option (derive (x_find_pda X) [pk_bytes wallet, pk_bytes token_program, pk_bytes mint]
      ASSOCIATED_TOKEN_PROGRAM_ID)"

definition get_associated_token_address :: "extern \<Rightarrow> pubkey \<Rightarrow> pubkey \<Rightarrow> (pubkey, string) outcome" where
  "get_associated_token_address X wallet mint =
    get_associated_token_address_with_program_id X wallet mint TOKEN_PROGRAM"

definition create_associated_token_account_idempotent ::
  "extern \<Rightarrow> pubkey \<Rightarrow> pubkey \<Rightarrow> pubkey \<Rightarrow> pubkey \<Rightarrow> (Instruction, string) outcome" where
  "create_associated_token_account_idempotent X funding wallet mint token_program =
    obind (get_associated_token_address_with_program_id X wallet mint token_program) (\<lambda>ata.
      Ok \<lparr> ix_program_id = ASSOCIATED_TOKEN_PROGRAM_ID,
           ix_accounts = [meta_new funding True, meta_new ata False, meta_readonly wallet False,
                          meta_readonly mint False, meta_readonly SYSTEM_PROGRAM False,
                          meta_readonly token_program False],
           ix_data = [1] \<rparr>)"

section \<open>Seed-derived token accounts\<close>

text \<open>The loop over \<open>buf\<close>: eight nibbles of the low half of the hash, most significant first,
  as lowercase hexadecimal digits.\<close>

definition hex_digit :: "u8 \<Rightarrow> u8" where
  "hex_digit nibble = (if nibble \<le> 9 then 48 + nibble else 97 + (nibble - 10))"

definition seed_nibble :: "u32 \<Rightarrow> nat \<Rightarrow> u8" where
  "seed_nibble v i = ucast (and (drop_bit (28 - i * 4) v) 0xF)"

definition mint_seed :: "extern \<Rightarrow> pubkey \<Rightarrow> u8 list" where
  "mint_seed X mint =
    (let hash = x_fnv X (pk_bytes mint);
         v = (ucast (and hash 0xFFFFFFFF) :: u32)
     in map (\<lambda>i. hex_digit (seed_nibble v i)) [0..<8])"

text \<open>The two rent atomics; \<open>u64::MAX\<close> means not initialised.\<close>

record rents =
  spl_token_rent :: u64
  spl_token_2022_rent :: u64

definition initial_rents :: rents where
  "initial_rents = \<lparr> spl_token_rent = - 1, spl_token_2022_rent = - 1 \<rparr>"

text \<open>One run of the updater, from the replies of the two RPC calls: each rent is stored as soon
  as its reply is there, and the first failing call ends the run.\<close>

definition update_rents :: "string + u64 \<Rightarrow> string + u64 \<Rightarrow> rents \<Rightarrow> rents \<times> (unit, string) outcome" where
  "update_rents reply1 reply2 s =
    (case reply1 of
       Inl e \<Rightarrow> (s, Err e)
     | Inr r1 \<Rightarrow>
        let s1 = s \<lparr> spl_token_rent := r1 \<rparr>
        in (case reply2 of
              Inl e \<Rightarrow> (s1, Err e)
            | Inr r2 \<Rightarrow> (s1 \<lparr> spl_token_2022_rent := r2 \<rparr>, Ok ())))"

text \<open>The background task after some of its hourly rounds, each with the two replies it would get; it ignores errors.\<close>

fun rent_updater :: "((string + u64) \<times> (string + u64)) list \<Rightarrow> rents \<Rightarrow> rents" where
  "rent_updater [] s = s"
| "rent_updater ((reply1, reply2) # rounds) s = rent_updater rounds (fst (update_rents reply1 reply2 s))"

definition err_rent :: string where "err_rent = ''Rent not initialized''"

definition create_associated_token_account_use_seed ::
  "extern \<Rightarrow> rents \<Rightarrow> pubkey \<Rightarrow> pubkey \<Rightarrow> pubkey \<Rightarrow> pubkey \<Rightarrow> (Instruction list, string) outcome" where
  "create_associated_token_account_use_seed X rs payer owner mint token_program =
    (let is_2022_token = (token_program = TOKEN_PROGRAM_2022)
     in obind (if is_2022_token
               then let v = spl_token_2022_rent rs in if v = - 1 then Err err_rent else Ok v
               else let v = spl_token_rent rs in if v = - 1 then Err err_rent else Ok v) (\<lambda>rent.
        let seed = mint_seed X mint
        in obind (of_sum (x_create_with_seed X payer seed token_program)) (\<lambda>ata_like.
        let create_acc = x_create_account_with_seed X payer ata_like owner seed rent 165 token_program
        in obind (if is_2022_token then initialize_account3_2022 token_program ata_like mint owner
                  else initialize_account3 token_program ata_like mint owner) (\<lambda>init_acc.
        Ok [create_acc, init_acc]))))"

definition get_associated_token_address_with_program_id_use_seed ::
  "extern \<Rightarrow> pubkey \<Rightarrow> pubkey \<Rightarrow> pubkey \<Rightarrow> (pubkey, string) outcome" where
  "get_associated_token_address_with_program_id_use_seed X wallet mint token_program =
    of_sum (x_create_with_seed X wallet (mint_seed X mint) token_program)"

section \<open>The seed\<close>

definition hex_value :: "u8 \<Rightarrow> nat" where
  "hex_value d = (if d \<le> 57 then unat d - 48 else unat d - 87)"

definition seed_value :: "u8 list \<Rightarrow> nat" where
  "seed_value ds = foldl (\<lambda>acc d. acc * 16 + hex_value d) 0 ds"

lemma hex_value_hex_digit:
  assumes "unat n < 16"
  shows "hex_value (hex_digit n) = unat n"
proof (cases "n \<le> 9")
  case True
  then have n: "unat n \<le> 9" by (simp add: word_le_nat_alt)
  then have "unat (48 + n) = 48 + unat n" using unat_add_exact [of 48 n] by simp
  then show ?thesis using True n by (simp add: hex_value_def hex_digit_def word_le_nat_alt)
next
  case False
  then have n: "10 \<le> unat n" by (simp add: word_le_nat_alt)
  then have s: "unat (n - 10) = unat n - 10" using unat_sub [of 10 n] by (simp add: word_le_nat_alt)
  then have "unat (97 + (n - 10)) = 97 + (unat n - 10)"
    using unat_add_exact [of 97 "n - 10"] assms by simp
  then show ?thesis using False n assms by (simp add: hex_value_def hex_digit_def word_le_nat_alt)
qed

lemma hex_digit_range:
  assumes "unat n < 16"
  shows "(48 \<le> hex_digit n \<and> hex_digit n \<le> 57) \<or> (97 \<le> hex_digit n \<and> hex_digit n \<le> 102)"
proof (cases "n \<le> 9")
  case True
  then have n: "unat n \<le> 9" by (simp add: word_le_nat_alt)
  then have "unat (48 + n) = 48 + unat n" using unat_add_exact [of 48 n] by simp
  then show ?thesis using True n by (simp add: hex_digit_def word_le_nat_alt)
next
  case False
  then have n: "10 \<le> unat n" by (simp add: word_le_nat_alt)
  then have s: "unat (n - 10) = unat n - 10" using unat_sub [of 10 n] by (simp add: word_le_nat_alt)
  then have "unat (97 + (n - 10)) = 97 + (unat n - 10)"
    using unat_add_exact [of 97 "n - 10"] assms by simp
  then show ?thesis using False n assms by (simp add: hex_digit_def word_le_nat_alt)
qed

lemma unat_and_mask4: "unat (and w 15) = unat w mod 16" for w :: u32
proof -
  have "and (unat w) 15 = take_bit 4 (unat w)"
    by (simp add: take_bit_eq_mask mask_eq_exp_minus_1)
  then show ?thesis by (simp add: unsigned_and_eq take_bit_eq_mod)
qed

lemma drop_bit_nibbles: "drop_bit (4 * k) n = n div 16 ^ k" for n :: nat
  by (simp add: drop_bit_eq_div power_mult)

lemma unat_seed_nibble: "unat (seed_nibble v i) = unat v div 16 ^ (7 - i) mod 16"
proof -
  have "28 - i * 4 = 4 * (7 - i)" by (simp add: diff_mult_distrib)
  then have "unat (drop_bit (28 - i * 4) v) = unat v div 16 ^ (7 - i)"
    by (simp only: unat_drop_bit_eq drop_bit_nibbles)
  then have "unat (and (drop_bit (28 - i * 4) v) 15) = unat v div 16 ^ (7 - i) mod 16"
    by (simp only: unat_and_mask4)
  then show ?thesis by (simp add: seed_nibble_def unsigned_ucast_eq take_bit_eq_mod mod_less)
qed

lemma digits_value:
  "n \<le> 8 \<Longrightarrow> foldl (\<lambda>acc i. acc * 16 + v div 16 ^ (7 - i) mod 16) 0 [0..<n]
    = v div 16 ^ (8 - n) mod 16 ^ n" for v :: nat
proof (induction n)
  case 0
  then show ?case by simp
next
  case (Suc n)
  let ?w = "v div 16 ^ (7 - n)"
  have "8 - n = Suc (7 - n)" using Suc.prems by simp
  then have "v div 16 ^ (8 - n) = ?w div 16"
    by (simp add: mult.commute [of 16] flip: div_mult2_eq)
  moreover have "?w mod 16 ^ Suc n = ?w mod 16 + 16 * (?w div 16 mod 16 ^ n)"
    by (simp add: mod_mult2_eq)
  ultimately show ?case using Suc by simp
qed

lemma seed_value_digits:
  "seed_value (map (\<lambda>i. hex_digit (seed_nibble v i)) [0..<8]) = unat v"
proof -
  have "seed_value (map (\<lambda>i. hex_digit (seed_nibble v i)) [0..<8])
      = foldl (\<lambda>acc i. acc * 16 + unat v div 16 ^ (7 - i) mod 16) 0 [0..<8]"
    by (simp only: seed_value_def foldl_map)
       (simp add: hex_value_hex_digit unat_seed_nibble)
  also have "\<dots> = unat v mod 16 ^ 8" using digits_value [of 8 "unat v"] by simp
  also have "\<dots> = unat v"
    using unsigned_less [of v, where 'a = nat] by simp
  finally show ?thesis .
qed

section \<open>Properties\<close>

definition is_lower_hex :: "u8 \<Rightarrow> bool" where
  "is_lower_hex d = ((48 \<le> d \<and> d \<le> 57) \<or> (97 \<le> d \<and> d \<le> 102))"

text \<open>A concrete instance of the external functions: the 64-bit FNV-1a hash, and addresses
  that are sums of their ingredients. It only serves the witnesses.\<close>

definition sample_extern :: extern where
  "sample_extern = \<lparr>
     x_find_pda = (\<lambda>seeds program. Some (program + of_nat (sum_list (map le_value seeds)), 255)),
     x_fnv = foldl (\<lambda>h b. (xor h (ucast b)) * 0x100000001b3) 0xcbf29ce484222325,
     x_create_with_seed = (\<lambda>base seed program. Inr (base + of_nat (le_value seed) + program)),
     x_create_account_with_seed = (\<lambda>from to base seed lamports space owner.
       \<lparr> ix_program_id = SYSTEM_PROGRAM,
         ix_accounts = [meta_new from True, meta_new to False, meta_readonly base True],
         ix_data = [3, 0, 0, 0] @ pk_bytes base @ u64_le (of_nat (length seed)) @ seed
                   @ u64_le lamports @ u64_le space @ pk_bytes owner \<rparr>),
     x_system_transfer = (\<lambda>from to lamports. \<lparr> ix_program_id = SYSTEM_PROGRAM,
       ix_accounts = [meta_new from True, meta_new to False],
       ix_data = [2, 0, 0, 0] @ u64_le lamports \<rparr>),
     x_set_compute_unit_price = (\<lambda>p. \<lparr> ix_program_id = 3, ix_accounts = [], ix_data = 3 # u64_le p \<rparr>),
     x_set_compute_unit_limit = (\<lambda>l. \<lparr> ix_program_id = 3, ix_accounts = [], ix_data = 2 # le_bytes 4 l \<rparr>),
     x_advance_nonce_account = (\<lambda>nonce authority. \<lparr> ix_program_id = SYSTEM_PROGRAM,
       ix_accounts = [meta_new nonce False, meta_readonly authority True], ix_data = [4, 0, 0, 0] \<rparr>),
     x_sol_str_to_lamports = (\<lambda>s. if s = ''0.01'' then Some 10000000 else None) \<rparr>"

text \<open>The seed of a mint is eight lowercase hexadecimal digits, and reading them
  as a number gives back the low 32 bits of the mint's hash, so two mints share a seed
  exactly when their hashes agree in these bits.\<close>

theorem mint_seed_hex:
  "length (mint_seed X mint) = 8 \<and> list_all is_lower_hex (mint_seed X mint)
   \<and> seed_value (mint_seed X mint) = unat (x_fnv X (pk_bytes mint)) mod 2 ^ 32"
proof -
  let ?h = "x_fnv X (pk_bytes mint)"
  let ?v = "ucast (and ?h 0xFFFFFFFF) :: u32"
  have s: "mint_seed X mint = map (\<lambda>i. hex_digit (seed_nibble ?v i)) [0..<8]"
    by (simp add: mint_seed_def Let_def)
  have "list_all is_lower_hex (map (\<lambda>i. hex_digit (seed_nibble ?v i)) [0..<8])"
    by (simp add: list_all_iff hex_digit_range [folded is_lower_hex_def] unat_seed_nibble)
  moreover have "seed_value (mint_seed X mint) = unat ?v"
    by (simp only: s seed_value_digits)
  moreover have "unat ?v = unat ?h mod 2 ^ 32"
  proof -
    have "and n 0xFFFFFFFF = n mod 2 ^ 32" for n :: nat
      using take_bit_eq_mask [of 32 n] by (simp add: mask_eq_exp_minus_1 take_bit_eq_mod)
    then show ?thesis by (simp add: unsigned_ucast_eq take_bit_eq_mod unsigned_and_eq)
  qed
  ultimately show ?thesis by (simp add: s)
qed

text \<open>The instructions that create a seed-derived token account agree with the
  address lookup. Once the rent of the token program is known and the address derivation
  succeeds, the call returns exactly two instructions, the account creation with the cached
  rent and 165 bytes and the \<open>InitializeAccount3\<close> of the same address, and for a payer
  that owns the account this address is the one
  \<open>get_associated_token_address_with_program_id_use_seed\<close> returns.\<close>

theorem seed_account_agrees:
  assumes "get_associated_token_address_with_program_id_use_seed X owner mint tp = Ok ata"
    and "rent = (if tp = TOKEN_PROGRAM_2022 then spl_token_2022_rent rs else spl_token_rent rs)"
    and "rent \<noteq> - 1"
  shows "create_associated_token_account_use_seed X rs owner owner mint tp =
    Ok [x_create_account_with_seed X owner ata owner (mint_seed X mint) rent 165 tp,
        \<lparr> ix_program_id = tp,
          ix_accounts = [meta_new ata False, meta_readonly mint False],
          ix_data = 18 # pk_bytes owner \<rparr>]"
  using assms
  by (cases "x_create_with_seed X owner (mint_seed X mint) tp")
    (simp_all add: create_associated_token_account_use_seed_def initialize_account3_def
      get_associated_token_address_with_program_id_use_seed_def initialize_account3_2022_def
      Let_def split: if_splits)

theorem seed_account_agrees_witness:
  "\<exists>ata. create_associated_token_account_use_seed sample_extern
      \<lparr> spl_token_rent = 2039280, spl_token_2022_rent = - 1 \<rparr> 5 5 77 TOKEN_PROGRAM =
    Ok [x_create_account_with_seed sample_extern 5 ata 5 (mint_seed sample_extern 77) 2039280 165 TOKEN_PROGRAM,
        \<lparr> ix_program_id = TOKEN_PROGRAM,
          ix_accounts = [meta_new ata False, meta_readonly 77 False],
          ix_data = 18 # pk_bytes 5 \<rparr>]"
proof
  let ?a = "5 + of_nat (le_value (mint_seed sample_extern 77)) + TOKEN_PROGRAM"
  show "create_associated_token_account_use_seed sample_extern
      \<lparr> spl_token_rent = 2039280, spl_token_2022_rent = - 1 \<rparr> 5 5 77 TOKEN_PROGRAM =
    Ok [x_create_account_with_seed sample_extern 5 ?a 5 (mint_seed sample_extern 77) 2039280 165 TOKEN_PROGRAM,
        \<lparr> ix_program_id = TOKEN_PROGRAM,
          ix_accounts = [meta_new ?a False, meta_readonly 77 False],
          ix_data = 18 # pk_bytes 5 \<rparr>]"
    by (rule seed_account_agrees)
      (simp_all add: get_associated_token_address_with_program_id_use_seed_def sample_extern_def)
qed

lemma seed_account_needs_rent:
  "spl_token_rent rs = - 1 \<Longrightarrow> tp \<noteq> TOKEN_PROGRAM_2022 \<Longrightarrow>
    create_associated_token_account_use_seed X rs payer owner mint tp = Err err_rent"
  by (simp add: create_associated_token_account_use_seed_def)

text \<open>A failing run of the updater never loses a rent that was known.\<close>

lemma update_rents_keeps:
  "fst (update_rents r1 r2 s) = s'  \<Longrightarrow>
    spl_token_rent s' \<in> {spl_token_rent s} \<union> {r. r1 = Inr r} \<and>
    spl_token_2022_rent s' \<in> {spl_token_2022_rent s} \<union> {r. r2 = Inr r}"
  by (auto simp: update_rents_def Let_def split: sum.splits)

text \<open>The task keeps the last answers: of the first call, and of the second one in the rounds in which the first succeeded.\<close>

lemma rent_updater_last:
  "spl_token_rent (rent_updater rounds s) = last (spl_token_rent s # [r. (Inr r, _) \<leftarrow> rounds])"
  "spl_token_2022_rent (rent_updater rounds s) = last (spl_token_2022_rent s # [r. (Inr _, Inr r) \<leftarrow> rounds])"
proof (induction rounds arbitrary: s)
  case (Cons round rounds)
  obtain r1 r2 where round: "round = (r1, r2)" by fastforce
  { case 1 show ?case using Cons.IH(1) by (cases r1; cases r2) (simp_all add: round update_rents_def) }
  { case 2 show ?case using Cons.IH(2) by (cases r1; cases r2) (simp_all add: round update_rents_def) }
qed simp_all

end
