(* ===== verification/Accounts.thy ===== *)
theory Accounts
  imports Token_Instr
begin

text \<open>
  The fixed accounts, seeds and discriminators of the two programs the crate trades on,
  from \<open>src/instruction/utils/pumpfun.rs\<close> and \<open>src/instruction/utils/pumpswap.rs\<close>, and the
  address derivations that use them (the closures given to the PDA cache, without the
  cache).
\<close>

section \<open>PumpFun\<close>

definition BONDING_CURVE_SEED :: "u8 list" where "BONDING_CURVE_SEED = str_bytes ''bonding-curve''"
definition BONDING_CURVE_V2_SEED :: "u8 list" where "BONDING_CURVE_V2_SEED = str_bytes ''bonding-curve-v2''"
definition CREATOR_VAULT_SEED :: "u8 list" where "CREATOR_VAULT_SEED = str_bytes ''creator-vault''"
definition USER_VOLUME_ACCUMULATOR_SEED :: "u8 list" where
  "USER_VOLUME_ACCUMULATOR_SEED = str_bytes ''user_volume_accumulator''"

definition PUMPFUN :: pubkey where "PUMPFUN = pk ''6EF8rrecthR5Dkzon8Nwu78hRvfCKubJ14M5uBEwF6P''"
definition PF_FEE_RECIPIENT :: pubkey where
  "PF_FEE_RECIPIENT = pk ''62qc2CNXwrYqQScmEdiZFFAnJR262PxWEuNQtxfafNgV''"
definition PF_MAYHEM_FEE_RECIPIENT :: pubkey where
  "PF_MAYHEM_FEE_RECIPIENT = pk ''GesfTA3X2arioaHp8bbKdjG9vJtskViWACZoYvxp4twS''"
definition PF_GLOBAL_ACCOUNT :: pubkey where
  "PF_GLOBAL_ACCOUNT = pk ''4wTV1YmiEkRvAtNtsSGPtUrqRYQMe5SKy2uB4Jjaxnjf''"
definition PF_AUTHORITY :: pubkey where
  "PF_AUTHORITY = pk ''FFWtrEQ4B4PKQoVuHYzZq8FabGkVatYzDpEVHsK5rrhF''"
definition PF_WITHDRAW_AUTHORITY :: pubkey where
  "PF_WITHDRAW_AUTHORITY = pk ''39azUYFWPz3VHgKCf3VChUwbpURdCHRxjWVowf5jUJjg''"
definition PUMPFUN_AMM_FEES :: "pubkey list" where
  "PUMPFUN_AMM_FEES = map pk
    [''7VtfL8fvgNfhz17qKRMjzQEXgbdpnHHHQRh54R9jP2RJ'', ''7hTckgnGnLQR6sdH7YkqFTAA7VwTfYFaZ6EhEsU3saCX'',
     ''9rPYyANsfQZw3DnDmKE3YCQF5E8oD89UXoHn9JFEhJUz'', ''AVmoTthdrX6tKt4nDjco2D775W2YK3sDhxPcMmzUAmTY'',
     ''CebN5WGQ4jvEPvsVU4EoHEpgzq1VV7AbicfhtW4xC9iM'', ''FWsW1xNtWscwNmKv6wVsU1iTzRN6wmmk3MjxRP5tT7hz'',
     ''G5UZAVbAf46s7cKWoyKu8kYTip9DGTpbLZ2qa9Aq69dP'']"
definition PF_EVENT_AUTHORITY :: pubkey where
  "PF_EVENT_AUTHORITY = pk ''Ce6TQqeHC9p8KetsN6JsjHK7UTZk7nasjjnr7XxXp9F1''"
definition PF_FEE_PROGRAM :: pubkey where
  "PF_FEE_PROGRAM = pk ''pfeeUxB6jkeY1Hxd7CsFCAjcbHA9rWtchMGdZ6VojVZ''"
definition PF_GLOBAL_VOLUME_ACCUMULATOR :: pubkey where
  "PF_GLOBAL_VOLUME_ACCUMULATOR = pk ''Hq2wp8uJ9jCPsYgNHex8RtqdvMPfVGoYwjvF1ATiwn2Y''"
definition PF_FEE_CONFIG :: pubkey where
  "PF_FEE_CONFIG = pk ''8Wf5TiAheLUqBrKXeYg2JtAFFMWtKdG2BSFgqUcPVwTt''"

definition PF_FEE_RECIPIENT_META :: AccountMeta where
  "PF_FEE_RECIPIENT_META = meta_new PF_FEE_RECIPIENT False"
definition PF_MAYHEM_FEE_RECIPIENT_META :: AccountMeta where
  "PF_MAYHEM_FEE_RECIPIENT_META = meta_new PF_MAYHEM_FEE_RECIPIENT False"
definition PF_GLOBAL_ACCOUNT_META :: AccountMeta where
  "PF_GLOBAL_ACCOUNT_META = meta_readonly PF_GLOBAL_ACCOUNT False"
definition PUMPFUN_META :: AccountMeta where "PUMPFUN_META = meta_readonly PUMPFUN False"
definition PF_EVENT_AUTHORITY_META :: AccountMeta where
  "PF_EVENT_AUTHORITY_META = meta_readonly PF_EVENT_AUTHORITY False"
definition PF_FEE_PROGRAM_META :: AccountMeta where
  "PF_FEE_PROGRAM_META = meta_readonly PF_FEE_PROGRAM False"
definition PF_GLOBAL_VOLUME_ACCUMULATOR_META :: AccountMeta where
  "PF_GLOBAL_VOLUME_ACCUMULATOR_META = meta_new PF_GLOBAL_VOLUME_ACCUMULATOR False"
definition PF_FEE_CONFIG_META :: AccountMeta where
  "PF_FEE_CONFIG_META = meta_readonly PF_FEE_CONFIG False"

text \<open>\<open>SYSTEM_PROGRAM_META\<close> and \<open>TOKEN_PROGRAM_META\<close> of \<open>src/constants/accounts.rs\<close>.\<close>

definition SYSTEM_PROGRAM_META :: AccountMeta where
  "SYSTEM_PROGRAM_META = meta_readonly SYSTEM_PROGRAM False"
definition TOKEN_PROGRAM_META :: AccountMeta where
  "TOKEN_PROGRAM_META = meta_readonly TOKEN_PROGRAM False"
definition WSOL_TOKEN_ACCOUNT_META :: AccountMeta where
  "WSOL_TOKEN_ACCOUNT_META = meta_readonly WSOL_TOKEN_ACCOUNT False"

definition BUY_DISCRIMINATOR :: "u8 list" where
  "BUY_DISCRIMINATOR = [102, 6, 61, 18, 1, 218, 235, 234]"
definition BUY_EXACT_SOL_IN_DISCRIMINATOR :: "u8 list" where
  "BUY_EXACT_SOL_IN_DISCRIMINATOR = [56, 252, 116, 8, 158, 223, 205, 95]"
definition SELL_DISCRIMINATOR :: "u8 list" where
  "SELL_DISCRIMINATOR = [51, 230, 133, 164, 1, 127, 131, 173]"

definition bonding_curve_pda :: "extern \<Rightarrow> pubkey \<Rightarrow> pubkey option" where
  "bonding_curve_pda X mint = derive (x_find_pda X) [BONDING_CURVE_SEED, pk_bytes mint] PUMPFUN"
definition bonding_curve_v2_pda :: "extern \<Rightarrow> pubkey \<Rightarrow> pubkey option" where
  "bonding_curve_v2_pda X mint = derive (x_find_pda X) [BONDING_CURVE_V2_SEED, pk_bytes mint] PUMPFUN"
definition creator_vault_pda :: "extern \<Rightarrow> pubkey \<Rightarrow> pubkey option" where
  "creator_vault_pda X creator = derive (x_find_pda X) [CREATOR_VAULT_SEED, pk_bytes creator] PUMPFUN"
definition pf_user_volume_accumulator_pda :: "extern \<Rightarrow> pubkey \<Rightarrow> pubkey option" where
  "pf_user_volume_accumulator_pda X user =
    derive (x_find_pda X) [USER_VOLUME_ACCUMULATOR_SEED, pk_bytes user] PUMPFUN"

section \<open>PumpSwap\<close>

definition POOL_V2_SEED :: "u8 list" where "POOL_V2_SEED = str_bytes ''pool-v2''"
definition PS_CREATOR_VAULT_SEED :: "u8 list" where "PS_CREATOR_VAULT_SEED = str_bytes ''creator_vault''"

definition PS_FEE_RECIPIENT :: pubkey where
  "PS_FEE_RECIPIENT = pk ''62qc2CNXwrYqQScmEdiZFFAnJR262PxWEuNQtxfafNgV''"
definition PS_GLOBAL_ACCOUNT :: pubkey where
  "PS_GLOBAL_ACCOUNT = pk ''ADyA8hdefvWN2dbGGWFotbzWxrAvLW83WG6QCVXvJKqw''"
definition PS_EVENT_AUTHORITY :: pubkey where
  "PS_EVENT_AUTHORITY = pk ''GS4CU59F31iL7aR2Q8zVS8DRrcRnXX1yjQ66TqNVQnaR''"
definition PS_ASSOCIATED_TOKEN_PROGRAM :: pubkey where
  "PS_ASSOCIATED_TOKEN_PROGRAM = pk ''ATokenGPvbdGVxr1b2hvZbsiqW5xWH25efTNsLJA8knL''"
definition AMM_PROGRAM :: pubkey where
  "AMM_PROGRAM = pk ''pAMMBay6oceH9fJKBRHGP5D4bD4sWpmSwMn52FMfXEA''"
definition PS_FEE_PROGRAM :: pubkey where
  "PS_FEE_PROGRAM = pk ''pfeeUxB6jkeY1Hxd7CsFCAjcbHA9rWtchMGdZ6VojVZ''"
definition PS_GLOBAL_VOLUME_ACCUMULATOR :: pubkey where
  "PS_GLOBAL_VOLUME_ACCUMULATOR = pk ''C2aFPdENg4A2HQsmrd5rTw5TaYBX5Ku887cWjbFKtZpw''"
definition PS_FEE_CONFIG :: pubkey where
  "PS_FEE_CONFIG = pk ''5PHirr8joyTMp9JMm6nW7hNDVyEYdkzDqazxPD7RaTjx''"
definition DEFAULT_COIN_CREATOR_VAULT_AUTHORITY :: pubkey where
  "DEFAULT_COIN_CREATOR_VAULT_AUTHORITY = pk ''8N3GDaZ2iwN65oxVatKTLPNooAVUJTbfiVJ1ahyqwjSk''"
definition PS_MAYHEM_FEE_RECIPIENT :: pubkey where
  "PS_MAYHEM_FEE_RECIPIENT = pk ''GesfTA3X2arioaHp8bbKdjG9vJtskViWACZoYvxp4twS''"

definition PS_GLOBAL_ACCOUNT_META :: AccountMeta where
  "PS_GLOBAL_ACCOUNT_META = meta_readonly PS_GLOBAL_ACCOUNT False"
definition PS_FEE_RECIPIENT_META :: AccountMeta where
  "PS_FEE_RECIPIENT_META = meta_readonly PS_FEE_RECIPIENT False"
definition PS_MAYHEM_FEE_RECIPIENT_META :: AccountMeta where
  "PS_MAYHEM_FEE_RECIPIENT_META = meta_readonly PS_MAYHEM_FEE_RECIPIENT False"
definition PS_ASSOCIATED_TOKEN_PROGRAM_META :: AccountMeta where
  "PS_ASSOCIATED_TOKEN_PROGRAM_META = meta_readonly PS_ASSOCIATED_TOKEN_PROGRAM False"
definition PS_EVENT_AUTHORITY_META :: AccountMeta where
  "PS_EVENT_AUTHORITY_META = meta_readonly PS_EVENT_AUTHORITY False"
definition AMM_PROGRAM_META :: AccountMeta where "AMM_PROGRAM_META = meta_readonly AMM_PROGRAM False"
definition PS_GLOBAL_VOLUME_ACCUMULATOR_META :: AccountMeta where
  "PS_GLOBAL_VOLUME_ACCUMULATOR_META = meta_new PS_GLOBAL_VOLUME_ACCUMULATOR False"
definition PS_FEE_CONFIG_META :: AccountMeta where
  "PS_FEE_CONFIG_META = meta_readonly PS_FEE_CONFIG False"
definition PS_FEE_PROGRAM_META :: AccountMeta where
  "PS_FEE_PROGRAM_META = meta_readonly PS_FEE_PROGRAM False"

definition BUY_EXACT_QUOTE_IN_DISCRIMINATOR :: "u8 list" where
  "BUY_EXACT_QUOTE_IN_DISCRIMINATOR = [198, 46, 21, 82, 180, 217, 232, 112]"

definition ps_user_volume_accumulator_pda :: "extern \<Rightarrow> pubkey \<Rightarrow> pubkey option" where
  "ps_user_volume_accumulator_pda X user =
    derive (x_find_pda X) [USER_VOLUME_ACCUMULATOR_SEED, pk_bytes user] AMM_PROGRAM"

text \<open>\<open>Pubkey::find_program_address\<close> panics where the try variant gives nothing.\<close>

definition get_pool_v2_pda :: "extern \<Rightarrow> pubkey \<Rightarrow> (pubkey option, string) outcome" where
  "get_pool_v2_pda X base_mint =
    obind (unwrap_option (derive (x_find_pda X) [POOL_V2_SEED, pk_bytes base_mint] AMM_PROGRAM))
      (\<lambda>pda. Ok (Some pda))"

definition coin_creator_vault_authority :: "extern \<Rightarrow> pubkey \<Rightarrow> (pubkey, string) outcome" where
  "coin_creator_vault_authority X coin_creator =
    unwrap_option (derive (x_find_pda X) [PS_CREATOR_VAULT_SEED, pk_bytes coin_creator] AMM_PROGRAM)"

definition coin_creator_vault_ata :: "extern \<Rightarrow> pubkey \<Rightarrow> pubkey \<Rightarrow> (pubkey, string) outcome" where
  "coin_creator_vault_ata X coin_creator quote_mint =
    obind (coin_creator_vault_authority X coin_creator) (\<lambda>creator_vault_authority.
      get_associated_token_address_with_program_id X creator_vault_authority quote_mint TOKEN_PROGRAM)"

end
