(* ===== verification/Caches.thy ===== *)
theory Caches
  imports Accounts
begin

text \<open>
  The process-wide caches of \<open>src/common/fast_fn.rs\<close> and
  \<open>src/trading/common/compute_budget_manager.rs\<close>: program-derived addresses, associated token
  addresses, instruction lists and compute-budget instructions. A cache is a map in the
  state; \<open>get\<close> looks the key up, or computes, stores and returns. The locale \<open>memo\<close> is the
  interface the callers rely on: a cache whose entries agree with a function answers like
  the function. It is interpreted on the four caches.

  The caches are concurrent maps: an insertion by another thread between the lookup and
  the insertion stores the same value when the computation is a function of the key, which
  is what the invariant \<open>coherent\<close> says.
\<close>

section \<open>The state\<close>

datatype InstructionCacheKey =
    CreateAssociatedTokenAccount pubkey pubkey pubkey pubkey bool
  | CloseWsolAccount pubkey pubkey

datatype PdaCacheKey =
    PumpFunUserVolume pubkey
  | PumpFunBondingCurve pubkey
  | PumpFunBondingCurveV2 pubkey
  | PumpFunCreatorVault pubkey
  | PumpSwapUserVolume pubkey
  | PumpSwapPoolV2 pubkey

record AtaCacheKey =
  ak_wallet_address :: pubkey
  ak_token_mint_address :: pubkey
  ak_token_program_id :: pubkey
  ak_use_seed :: bool

record ComputeBudgetCacheKey =
  cb_unit_price :: u64
  cb_unit_limit :: u32

record caches =
  instruction_cache :: "InstructionCacheKey \<rightharpoonup> Instruction list"
  pda_cache :: "PdaCacheKey \<rightharpoonup> pubkey"
  ata_cache :: "AtaCacheKey \<rightharpoonup> pubkey"
  compute_budget_cache :: "ComputeBudgetCacheKey \<rightharpoonup> Instruction list"

definition empty_caches :: caches where
  "empty_caches = \<lparr> instruction_cache = Map.empty, pda_cache = Map.empty, ata_cache = Map.empty,
     compute_budget_cache = Map.empty \<rparr>"

type_synonym 'a cached = "(caches, 'a, string) stateful"

section \<open>The operations\<close>

definition get_cached_pda :: "PdaCacheKey \<Rightarrow> pubkey option \<Rightarrow> caches \<Rightarrow> pubkey option \<times> caches" where
  "get_cached_pda key compute c =
    (case pda_cache c key of
       Some pda \<Rightarrow> (Some pda, c)
     | None \<Rightarrow> (case compute of
          Some pda \<Rightarrow> (Some pda, c \<lparr> pda_cache := (pda_cache c)(key \<mapsto> pda) \<rparr>)
        | None \<Rightarrow> (None, c)))"

definition get_bonding_curve_pda :: "extern \<Rightarrow> pubkey \<Rightarrow> caches \<Rightarrow> pubkey option \<times> caches" where
  "get_bonding_curve_pda X mint = get_cached_pda (PumpFunBondingCurve mint) (bonding_curve_pda X mint)"

definition get_bonding_curve_v2_pda :: "extern \<Rightarrow> pubkey \<Rightarrow> caches \<Rightarrow> pubkey option \<times> caches" where
  "get_bonding_curve_v2_pda X mint = get_cached_pda (PumpFunBondingCurveV2 mint) (bonding_curve_v2_pda X mint)"

definition get_creator_vault_pda :: "extern \<Rightarrow> pubkey \<Rightarrow> caches \<Rightarrow> pubkey option \<times> caches" where
  "get_creator_vault_pda X creator = get_cached_pda (PumpFunCreatorVault creator) (creator_vault_pda X creator)"

definition get_pf_user_volume_accumulator_pda :: "extern \<Rightarrow> pubkey \<Rightarrow> caches \<Rightarrow> pubkey option \<times> caches" where
  "get_pf_user_volume_accumulator_pda X user =
    get_cached_pda (PumpFunUserVolume user) (pf_user_volume_accumulator_pda X user)"

definition get_ps_user_volume_accumulator_pda :: "extern \<Rightarrow> pubkey \<Rightarrow> caches \<Rightarrow> pubkey option \<times> caches" where
  "get_ps_user_volume_accumulator_pda X user =
    get_cached_pda (PumpSwapUserVolume user) (ps_user_volume_accumulator_pda X user)"

text \<open>A caller that unwraps the optional address, or reports an error.\<close>

definition unwrap_pda :: "(caches \<Rightarrow> pubkey option \<times> caches) \<Rightarrow> pubkey cached" where
  "unwrap_pda m = (\<lambda>c. case m c of (x, c') \<Rightarrow> (unwrap_option x, c'))"

definition ok_or_pda :: "string \<Rightarrow> (caches \<Rightarrow> pubkey option \<times> caches) \<Rightarrow> pubkey cached" where
  "ok_or_pda e m = (\<lambda>c. case m c of (x, c') \<Rightarrow> (ok_or e x, c'))"

text \<open>The seed-derived address is used for the two token programs and every mint but the
  native ones.\<close>

definition seed_allowed :: "pubkey \<Rightarrow> pubkey \<Rightarrow> bool \<Rightarrow> bool" where
  "seed_allowed mint token_program use_seed =
    (use_seed \<and> mint \<noteq> WSOL_TOKEN_ACCOUNT \<and> mint \<noteq> SOL_TOKEN_ACCOUNT
     \<and> (token_program = TOKEN_PROGRAM \<or> token_program = TOKEN_PROGRAM_2022))"

definition ata_compute :: "extern \<Rightarrow> AtaCacheKey \<Rightarrow> (pubkey, string) outcome" where
  "ata_compute X k =
    (if seed_allowed (ak_token_mint_address k) (ak_token_program_id k) (ak_use_seed k)
     then unwrap_result (get_associated_token_address_with_program_id_use_seed X
            (ak_wallet_address k) (ak_token_mint_address k) (ak_token_program_id k)
            :: (pubkey, string) outcome)
     else get_associated_token_address_with_program_id X (ak_wallet_address k)
            (ak_token_mint_address k) (ak_token_program_id k))"

definition ata_get :: "AtaCacheKey \<Rightarrow> (pubkey, string) outcome \<Rightarrow> pubkey cached" where
  "ata_get k compute c =
    (case ata_cache c k of
       Some a \<Rightarrow> (Ok a, c)
     | None \<Rightarrow> (case compute of
          Ok a \<Rightarrow> (Ok a, c \<lparr> ata_cache := (ata_cache c)(k \<mapsto> a) \<rparr>)
        | Err e \<Rightarrow> (Err e, c)
        | Panic \<Rightarrow> (Panic, c)))"

definition get_ata_fast_use_seed :: "extern \<Rightarrow> pubkey \<Rightarrow> pubkey \<Rightarrow> pubkey \<Rightarrow> bool \<Rightarrow> pubkey cached" where
  "get_ata_fast_use_seed X wallet mint token_program use_seed =
    (let k = \<lparr> ak_wallet_address = wallet, ak_token_mint_address = mint,
               ak_token_program_id = token_program, ak_use_seed = use_seed \<rparr>
     in ata_get k (ata_compute X k))"

definition get_ata_fast :: "extern \<Rightarrow> pubkey \<Rightarrow> pubkey \<Rightarrow> pubkey \<Rightarrow> pubkey cached" where
  "get_ata_fast X wallet mint token_program = get_ata_fast_use_seed X wallet mint token_program False"

text \<open>\<open>entry(key).or_insert_with(compute)\<close>; the computation may itself use the other caches.\<close>

definition get_cached_instructions ::
  "InstructionCacheKey \<Rightarrow> Instruction list cached \<Rightarrow> Instruction list cached" where
  "get_cached_instructions key compute c =
    (case instruction_cache c key of
       Some ixs \<Rightarrow> (Ok ixs, c)
     | None \<Rightarrow> (case compute c of
          (Ok ixs, c') \<Rightarrow> (Ok ixs, c' \<lparr> instruction_cache := (instruction_cache c')(key \<mapsto> ixs) \<rparr>)
        | (Err e, c') \<Rightarrow> (Err e, c')
        | (Panic, c') \<Rightarrow> (Panic, c')))"

definition create_ata_instruction :: "pubkey \<Rightarrow> pubkey \<Rightarrow> pubkey \<Rightarrow> pubkey \<Rightarrow> pubkey \<Rightarrow> Instruction" where
  "create_ata_instruction payer ata owner mint token_program =
    \<lparr> ix_program_id = ASSOCIATED_TOKEN_PROGRAM_ID,
      ix_accounts = [meta_new payer True, meta_new ata False, meta_readonly owner False,
                     meta_readonly mint False, SYSTEM_PROGRAM_META, meta_readonly token_program False],
      ix_data = [1] \<rparr>"

definition create_ata_fast_use_seed ::
  "extern \<Rightarrow> rents \<Rightarrow> pubkey \<Rightarrow> pubkey \<Rightarrow> pubkey \<Rightarrow> pubkey \<Rightarrow> bool \<Rightarrow> Instruction list cached" where
  "create_ata_fast_use_seed X rs payer owner mint token_program use_seed =
    (let key = CreateAssociatedTokenAccount payer owner mint token_program use_seed
     in if seed_allowed mint token_program use_seed
        then get_cached_instructions key
          (slift (unwrap_result (create_associated_token_account_use_seed X rs payer owner mint token_program
            :: (Instruction list, string) outcome)))
        else get_cached_instructions key
          (sbind (get_ata_fast X owner mint token_program) (\<lambda>ata.
            sret [create_ata_instruction payer ata owner mint token_program])))"

definition create_ata_fast ::
  "extern \<Rightarrow> rents \<Rightarrow> pubkey \<Rightarrow> pubkey \<Rightarrow> pubkey \<Rightarrow> pubkey \<Rightarrow> Instruction list cached" where
  "create_ata_fast X rs payer owner mint token_program =
    create_ata_fast_use_seed X rs payer owner mint token_program False"

definition close_wsol_cached :: "pubkey \<Rightarrow> pubkey \<Rightarrow> Instruction list cached" where
  "close_wsol_cached payer wsol_token_account =
    get_cached_instructions (CloseWsolAccount payer wsol_token_account)
      (slift (obind (unwrap_result (close_account TOKEN_PROGRAM wsol_token_account payer payer []
          :: (Instruction, string) outcome)) (\<lambda>ix. Ok [ix])))"

text \<open>\<open>fast_init\<close> fills the caches for a payer; the two address results are not used.\<close>

definition fast_init :: "extern \<Rightarrow> pubkey \<Rightarrow> unit cached" where
  "fast_init X payer = (\<lambda>c.
    let c1 = snd (get_pf_user_volume_accumulator_pda X payer c);
        c2 = snd (get_ps_user_volume_accumulator_pda X payer c1)
    in sbind (get_ata_fast X payer WSOL_TOKEN_ACCOUNT TOKEN_PROGRAM) (\<lambda>wsol_token_account.
       sbind (close_wsol_cached payer wsol_token_account) (\<lambda>_. sret ())) c2)"

definition cb_compute :: "extern \<Rightarrow> ComputeBudgetCacheKey \<Rightarrow> Instruction list" where
  "cb_compute X k =
    (if cb_unit_price k > 0 then [x_set_compute_unit_price X (cb_unit_price k)] else [])
    @ (if cb_unit_limit k > 0 then [x_set_compute_unit_limit X (cb_unit_limit k)] else [])"

definition cb_get :: "ComputeBudgetCacheKey \<Rightarrow> Instruction list \<Rightarrow> caches \<Rightarrow> Instruction list \<times> caches" where
  "cb_get k insts c =
    (case compute_budget_cache c k of
       Some ixs \<Rightarrow> (ixs, c)
     | None \<Rightarrow> (insts, c \<lparr> compute_budget_cache := (compute_budget_cache c)(k \<mapsto> insts) \<rparr>))"

definition compute_budget_instructions :: "extern \<Rightarrow> u64 \<Rightarrow> u32 \<Rightarrow> caches \<Rightarrow> Instruction list \<times> caches" where
  "compute_budget_instructions X unit_price unit_limit =
    (let k = \<lparr> cb_unit_price = unit_price, cb_unit_limit = unit_limit \<rparr>
     in cb_get k (cb_compute X k))"

section \<open>The interface: a memo table\<close>

text \<open>A table that answers a key from its entry, or from the given result, which it keeps when
  it holds a value. \<open>ret\<close> is the result that a stored value stands for, \<open>val\<close> the value
  of a result, \<open>rest\<close> what a lookup leaves alone.\<close>

locale memo =
  fixes lookup :: "'s \<Rightarrow> 'k \<Rightarrow> 'v option"
    and rest :: "'s \<Rightarrow> 'r"
    and ret :: "'v \<Rightarrow> 'o"
    and val :: "'o \<Rightarrow> 'v option"
    and get :: "'k \<Rightarrow> 'o \<Rightarrow> 's \<Rightarrow> 'o \<times> 's"
  assumes hit: "lookup s k = Some v \<Longrightarrow> get k r s = (ret v, s)"
    and miss: "lookup s k = None \<Longrightarrow> fst (get k r s) = r"
    and store: "lookup s k = None \<Longrightarrow>
      lookup (snd (get k r s)) = (case val r of Some v \<Rightarrow> (lookup s)(k \<mapsto> v) | None \<Rightarrow> lookup s)"
    and frame: "rest (snd (get k r s)) = rest s"
    and val_ret: "val r = Some v \<longleftrightarrow> r = ret v"
begin

definition agrees :: "('k \<Rightarrow> 'o) \<Rightarrow> 's \<Rightarrow> bool" where
  "agrees f s = (\<forall>k v. lookup s k = Some v \<longrightarrow> ret v = f k)"

lemma get_result: "agrees f s \<Longrightarrow> fst (get k (f k) s) = f k"
  by (cases "lookup s k") (auto simp: hit miss agrees_def)

lemma get_agrees: "agrees f s \<Longrightarrow> agrees f (snd (get k (f k) s))"
  by (cases "lookup s k")
    (auto simp: hit store agrees_def val_ret split: option.splits if_splits)

lemma get_again:
  assumes "val (fst (get k r s)) = Some v"
  shows "get k r' (snd (get k r s)) = (ret v, snd (get k r s))"
proof (cases "lookup s k")
  case None
  then show ?thesis using assms by (intro hit) (simp add: store miss)
next
  case (Some w)
  then have "v = w" using assms hit [of s k w r] by (metis fst_conv option.inject val_ret)
  then show ?thesis using Some by (simp add: hit)
qed

lemma get_keeps: "lookup s k' = Some v \<Longrightarrow> lookup (snd (get k r s)) k' = Some v"
  by (cases "lookup s k") (auto simp: hit store split: option.splits)

end

text \<open>A table whose computation also works on the state; without effect it is a memo table.\<close>

locale memo_effect =
  fixes lookup :: "'s \<Rightarrow> 'k \<Rightarrow> 'v option"
    and rest :: "'s \<Rightarrow> 'r"
    and ret :: "'v \<Rightarrow> 'o"
    and val :: "'o \<Rightarrow> 'v option"
    and get :: "'k \<Rightarrow> ('s \<Rightarrow> 'o \<times> 's) \<Rightarrow> 's \<Rightarrow> 'o \<times> 's"
  assumes ehit: "lookup s k = Some v \<Longrightarrow> get k m s = (ret v, s)"
    and emiss: "lookup s k = None \<Longrightarrow> fst (get k m s) = fst (m s)"
    and estore: "lookup s k = None \<Longrightarrow> lookup (snd (get k m s)) =
      (case val (fst (m s)) of Some v \<Rightarrow> (lookup (snd (m s)))(k \<mapsto> v) | None \<Rightarrow> lookup (snd (m s)))"
    and eframe: "lookup s k = None \<Longrightarrow> rest (snd (get k m s)) = rest (snd (m s))"
    and eval_ret: "val r = Some v \<longleftrightarrow> r = ret v"

sublocale memo_effect \<subseteq> memo lookup rest ret val "\<lambda>k r. get k (\<lambda>s. (r, s))"
proof
  fix s k v r
  show "lookup s k = Some v \<Longrightarrow> get k (\<lambda>s. (r, s)) s = (ret v, s)" by (rule ehit)
  show "lookup s k = None \<Longrightarrow> fst (get k (\<lambda>s. (r, s)) s) = r" by (simp add: emiss)
  show "lookup s k = None \<Longrightarrow> lookup (snd (get k (\<lambda>s. (r, s)) s)) =
      (case val r of Some v \<Rightarrow> (lookup s)(k \<mapsto> v) | None \<Rightarrow> lookup s)"
    by (cases "val r") (simp_all add: estore)
  show "rest (snd (get k (\<lambda>s. (r, s)) s)) = rest s"
    by (cases "lookup s k") (simp_all add: ehit eframe)
  show "(val r = Some v) = (r = ret v)" by (rule eval_ret)
qed

context memo_effect
begin

lemma effect_result:
  assumes "agrees f s" "lookup s k = None \<Longrightarrow> fst (m s) = f k"
  shows "fst (get k m s) = f k"
  using assms by (cases "lookup s k") (auto simp: ehit emiss agrees_def)

lemma effect_agrees:
  assumes "agrees f s" "lookup s k = None \<Longrightarrow> fst (m s) = f k \<and> agrees f (snd (m s))"
  shows "agrees f (snd (get k m s))"
  using assms by (cases "lookup s k")
    (auto simp: ehit estore agrees_def val_ret split: option.splits if_splits)

lemma effect_frame: "rest (snd (get k m s)) = (if lookup s k = None then rest (snd (m s)) else rest s)"
  by (cases "lookup s k") (simp_all add: ehit eframe)

end

definition ok_value :: "('a, 'e) outcome \<Rightarrow> 'a option" where
  "ok_value r = (case r of Ok x \<Rightarrow> Some x | Err _ \<Rightarrow> None | Panic \<Rightarrow> None)"

interpretation pda: memo pda_cache
  "\<lambda>c. (instruction_cache c, ata_cache c, compute_budget_cache c)" Some id get_cached_pda
  by unfold_locales (auto simp: get_cached_pda_def split: option.splits)

interpretation ata: memo ata_cache
  "\<lambda>c. (instruction_cache c, pda_cache c, compute_budget_cache c)" Ok ok_value ata_get
  by unfold_locales (auto simp: ata_get_def ok_value_def split: option.splits outcome.splits)

interpretation cb: memo compute_budget_cache
  "\<lambda>c. (instruction_cache c, pda_cache c, ata_cache c)" id Some cb_get
  by unfold_locales (auto simp: cb_get_def split: option.splits)

interpretation ixc: memo_effect instruction_cache
  "\<lambda>c. (pda_cache c, ata_cache c, compute_budget_cache c)" Ok ok_value get_cached_instructions
  by unfold_locales
    (auto simp: get_cached_instructions_def ok_value_def split: option.splits outcome.splits prod.splits)

section \<open>Coherence\<close>

text \<open>What each key stands for. No code fills the \<open>PumpSwapPoolV2\<close> entry.\<close>

fun pda_of :: "extern \<Rightarrow> PdaCacheKey \<Rightarrow> pubkey option" where
  "pda_of X (PumpFunUserVolume u) = pf_user_volume_accumulator_pda X u"
| "pda_of X (PumpFunBondingCurve m) = bonding_curve_pda X m"
| "pda_of X (PumpFunBondingCurveV2 m) = bonding_curve_v2_pda X m"
| "pda_of X (PumpFunCreatorVault c) = creator_vault_pda X c"
| "pda_of X (PumpSwapUserVolume u) = ps_user_volume_accumulator_pda X u"
| "pda_of X (PumpSwapPoolV2 m) = None"

definition ata_address :: "extern \<Rightarrow> pubkey \<Rightarrow> pubkey \<Rightarrow> pubkey \<Rightarrow> bool \<Rightarrow> (pubkey, string) outcome" where
  "ata_address X wallet mint tp use_seed = ata_compute X
    \<lparr> ak_wallet_address = wallet, ak_token_mint_address = mint, ak_token_program_id = tp,
      ak_use_seed = use_seed \<rparr>"

fun instructions_of :: "extern \<Rightarrow> rents \<Rightarrow> InstructionCacheKey \<Rightarrow> (Instruction list, string) outcome" where
  "instructions_of X rs (CreateAssociatedTokenAccount payer owner mint tp use_seed) =
    (if seed_allowed mint tp use_seed
     then unwrap_result (create_associated_token_account_use_seed X rs payer owner mint tp
            :: (Instruction list, string) outcome)
     else obind (ata_address X owner mint tp False) (\<lambda>ata.
            Ok [create_ata_instruction payer ata owner mint tp]))"
| "instructions_of X rs (CloseWsolAccount payer a) =
    obind (unwrap_result (close_account TOKEN_PROGRAM a payer payer [] :: (Instruction, string) outcome))
      (\<lambda>ix. Ok [ix])"

definition coherent :: "extern \<Rightarrow> rents \<Rightarrow> caches \<Rightarrow> bool" where
  "coherent X rs c \<longleftrightarrow> pda.agrees (pda_of X) c \<and> ata.agrees (ata_compute X) c
    \<and> ixc.agrees (instructions_of X rs) c \<and> cb.agrees (cb_compute X) c"

lemma coherent_empty: "coherent X rs empty_caches"
  by (simp add: coherent_def pda.agrees_def ata.agrees_def ixc.agrees_def cb.agrees_def empty_caches_def)

text \<open>A step that touches one cache keeps coherence when that cache still agrees.\<close>

lemmas agrees_defs = pda.agrees_def ata.agrees_def ixc.agrees_def cb.agrees_def

lemma coherent_step:
  assumes "coherent X rs c"
  shows "pda.agrees (pda_of X) d \<Longrightarrow>
      (instruction_cache d, ata_cache d, compute_budget_cache d) =
      (instruction_cache c, ata_cache c, compute_budget_cache c) \<Longrightarrow> coherent X rs d"
    and "ata.agrees (ata_compute X) d \<Longrightarrow>
      (instruction_cache d, pda_cache d, compute_budget_cache d) =
      (instruction_cache c, pda_cache c, compute_budget_cache c) \<Longrightarrow> coherent X rs d"
    and "cb.agrees (cb_compute X) d \<Longrightarrow>
      (instruction_cache d, pda_cache d, ata_cache d) =
      (instruction_cache c, pda_cache c, ata_cache c) \<Longrightarrow> coherent X rs d"
    and "ixc.agrees (instructions_of X rs) d \<Longrightarrow>
      (pda_cache d, ata_cache d, compute_budget_cache d) =
      (pda_cache c, ata_cache c, compute_budget_cache c) \<Longrightarrow> coherent X rs d"
  using assms by (simp_all add: coherent_def agrees_defs)

lemma pda_runs:
  assumes "coherent X rs c"
  shows "fst (get_cached_pda k (pda_of X k) c) = pda_of X k"
    and "coherent X rs (snd (get_cached_pda k (pda_of X k) c))"
proof -
  show "fst (get_cached_pda k (pda_of X k) c) = pda_of X k"
    using assms by (intro pda.get_result) (simp add: coherent_def)
  show "coherent X rs (snd (get_cached_pda k (pda_of X k) c))"
    using assms pda.get_agrees [of "pda_of X" c k]
    by (intro coherent_step(1) [OF assms _ pda.frame]) (simp add: coherent_def)
qed

lemma unwrap_pda_runs:
  assumes "m = get_cached_pda k (pda_of X k)"
  shows "runs (coherent X rs) (unwrap_pda m) (unwrap_option (pda_of X k))"
    and "runs (coherent X rs) (ok_or_pda e m) (ok_or e (pda_of X k))"
  using pda_runs [of X rs _ k] assms
  by (auto simp: runs_def unwrap_pda_def ok_or_pda_def case_prod_beta)

lemmas pda_getter_defs = get_bonding_curve_pda_def get_bonding_curve_v2_pda_def get_creator_vault_pda_def
  get_pf_user_volume_accumulator_pda_def get_ps_user_volume_accumulator_pda_def

lemma pda_getters_runs [runs_intros]:
  "runs (coherent X rs) (unwrap_pda (get_bonding_curve_pda X m)) (unwrap_option (bonding_curve_pda X m))"
  "runs (coherent X rs) (ok_or_pda e (get_bonding_curve_pda X m)) (ok_or e (bonding_curve_pda X m))"
  "runs (coherent X rs) (unwrap_pda (get_bonding_curve_v2_pda X m)) (unwrap_option (bonding_curve_v2_pda X m))"
  "runs (coherent X rs) (ok_or_pda e (get_bonding_curve_v2_pda X m)) (ok_or e (bonding_curve_v2_pda X m))"
  "runs (coherent X rs) (unwrap_pda (get_creator_vault_pda X m)) (unwrap_option (creator_vault_pda X m))"
  "runs (coherent X rs) (unwrap_pda (get_pf_user_volume_accumulator_pda X m))
     (unwrap_option (pf_user_volume_accumulator_pda X m))"
  "runs (coherent X rs) (ok_or_pda e (get_pf_user_volume_accumulator_pda X m))
     (ok_or e (pf_user_volume_accumulator_pda X m))"
  "runs (coherent X rs) (unwrap_pda (get_ps_user_volume_accumulator_pda X m))
     (unwrap_option (ps_user_volume_accumulator_pda X m))"
  "runs (coherent X rs) (ok_or_pda e (get_ps_user_volume_accumulator_pda X m))
     (ok_or e (ps_user_volume_accumulator_pda X m))"
  using unwrap_pda_runs(1) [of _ "PumpFunBondingCurve m" X rs] unwrap_pda_runs(2) [of _ "PumpFunBondingCurve m" X rs e]
    unwrap_pda_runs(1) [of _ "PumpFunBondingCurveV2 m" X rs] unwrap_pda_runs(2) [of _ "PumpFunBondingCurveV2 m" X rs e]
    unwrap_pda_runs(1) [of _ "PumpFunCreatorVault m" X rs]
    unwrap_pda_runs(1) [of _ "PumpFunUserVolume m" X rs] unwrap_pda_runs(2) [of _ "PumpFunUserVolume m" X rs e]
    unwrap_pda_runs(1) [of _ "PumpSwapUserVolume m" X rs] unwrap_pda_runs(2) [of _ "PumpSwapUserVolume m" X rs e]
  by (simp_all add: pda_getter_defs)

lemma get_ata_use_seed_runs [runs_intros]:
  "runs (coherent X rs) (get_ata_fast_use_seed X w m tp b) (ata_address X w m tp b)"
proof -
  let ?k = "\<lparr> ak_wallet_address = w, ak_token_mint_address = m, ak_token_program_id = tp, ak_use_seed = b \<rparr>"
  have "fst (ata_get ?k (ata_compute X ?k) c) = ata_compute X ?k
      \<and> coherent X rs (snd (ata_get ?k (ata_compute X ?k) c))" if "coherent X rs c" for c
    using ata.get_result [of "ata_compute X" c ?k] ata.get_agrees [of "ata_compute X" c ?k] that
    by (intro conjI coherent_step(2) [OF that _ ata.frame]) (simp_all add: coherent_def)
  then show ?thesis by (simp add: runs_def get_ata_fast_use_seed_def ata_address_def Let_def)
qed

lemma get_ata_runs [runs_intros]:
  "runs (coherent X rs) (get_ata_fast X w m tp) (ata_address X w m tp False)"
  unfolding get_ata_fast_def by (rule get_ata_use_seed_runs)

lemma cached_instructions_runs:
  assumes m: "runs (coherent X rs) m (instructions_of X rs k)"
  shows "runs (coherent X rs) (get_cached_instructions k m) (instructions_of X rs k)"
proof -
  have "fst (get_cached_instructions k m c) = instructions_of X rs k
      \<and> coherent X rs (snd (get_cached_instructions k m c))" if c: "coherent X rs c" for c
  proof
    have mc: "fst (m c) = instructions_of X rs k" "coherent X rs (snd (m c))"
      using m c by (simp_all add: runs_def)
    show "fst (get_cached_instructions k m c) = instructions_of X rs k"
      using c mc by (intro ixc.effect_result) (simp_all add: coherent_def)
    have "ixc.agrees (instructions_of X rs) (snd (get_cached_instructions k m c))"
      using c mc by (intro ixc.effect_agrees) (simp_all add: coherent_def)
    then show "coherent X rs (snd (get_cached_instructions k m c))"
      using coherent_step(4) [OF c] coherent_step(4) [OF mc(2)] ixc.effect_frame [of k m c]
      by (cases "instruction_cache c k") simp_all
  qed
  then show ?thesis by (simp add: runs_def)
qed

lemma create_ata_use_seed_runs [runs_intros]:
  "runs (coherent X rs) (create_ata_fast_use_seed X rs p w m tp b)
    (instructions_of X rs (CreateAssociatedTokenAccount p w m tp b))"
proof (cases "seed_allowed m tp b")
  case True
  let ?k = "CreateAssociatedTokenAccount p w m tp b"
  show ?thesis
    using cached_instructions_runs [OF runs_slift, of X rs ?k] True
    by (simp add: create_ata_fast_use_seed_def)
next
  case False
  have "runs (coherent X rs)
     (sbind (get_ata_fast X w m tp) (\<lambda>ata. sret [create_ata_instruction p ata w m tp]))
     (obind (ata_address X w m tp False) (\<lambda>ata. Ok [create_ata_instruction p ata w m tp]))"
    by (intro runs_intros)
  then show ?thesis
    using cached_instructions_runs [of X rs _ "CreateAssociatedTokenAccount p w m tp b"] False
    by (simp add: create_ata_fast_use_seed_def)
qed

lemma create_ata_runs [runs_intros]:
  "runs (coherent X rs) (create_ata_fast X rs p w m tp)
    (instructions_of X rs (CreateAssociatedTokenAccount p w m tp False))"
  unfolding create_ata_fast_def by (rule create_ata_use_seed_runs)

lemma close_wsol_runs [runs_intros]:
  "runs (coherent X rs) (close_wsol_cached p a) (instructions_of X rs (CloseWsolAccount p a))"
  using cached_instructions_runs [OF runs_slift, of X rs "CloseWsolAccount p a"]
  by (simp add: close_wsol_cached_def)

lemma compute_budget_runs:
  assumes "coherent X rs c"
  shows "fst (compute_budget_instructions X p l c) = cb_compute X \<lparr> cb_unit_price = p, cb_unit_limit = l \<rparr>"
    and "coherent X rs (snd (compute_budget_instructions X p l c))"
proof -
  let ?k = "\<lparr> cb_unit_price = p, cb_unit_limit = l \<rparr>"
  show "fst (compute_budget_instructions X p l c) = cb_compute X ?k"
    using assms cb.get_result [of "cb_compute X" c ?k]
    by (simp add: compute_budget_instructions_def coherent_def Let_def)
  show "coherent X rs (snd (compute_budget_instructions X p l c))"
    using assms cb.get_agrees [of "cb_compute X" c ?k]
      coherent_step(3) [OF assms _ cb.frame [of ?k "cb_compute X ?k" c]]
    by (simp add: coherent_def compute_budget_instructions_def Let_def)
qed

lemma fast_init_coherent:
  assumes "coherent X rs c"
  shows "coherent X rs (snd (fast_init X p c))"
proof -
  let ?c1 = "snd (get_pf_user_volume_accumulator_pda X p c)"
  let ?c2 = "snd (get_ps_user_volume_accumulator_pda X p ?c1)"
  have "coherent X rs ?c2"
    using pda_runs(2) [of X rs _ "PumpFunUserVolume p"] pda_runs(2) [of X rs _ "PumpSwapUserVolume p"] assms
    by (simp add: pda_getter_defs)
  moreover have "runs (coherent X rs)
     (sbind (get_ata_fast X p WSOL_TOKEN_ACCOUNT TOKEN_PROGRAM) (\<lambda>a.
       sbind (close_wsol_cached p a) (\<lambda>_. sret ())))
     (obind (ata_address X p WSOL_TOKEN_ACCOUNT TOKEN_PROGRAM False) (\<lambda>a.
       obind (instructions_of X rs (CloseWsolAccount p a)) (\<lambda>_. Ok ())))"
    by (intro runs_intros)
  ultimately show ?thesis by (simp add: fast_init_def runs_def Let_def)
qed

section \<open>Properties\<close>



text \<open>The instructions that create a token account are computed once per key
  and never again. After a call that succeeded, the same call returns the same list and
  changes nothing, whatever the rents have become: a rent that the hourly updater stores
  later does not reach the account-creation instruction of a key that was used before.\<close>

theorem create_ata_frozen:
  assumes "create_ata_fast_use_seed X rs p w m tp b c = (Ok ixs, c')"
  shows "create_ata_fast_use_seed X rs' p w m tp b c' = (Ok ixs, c')"
proof -
  let ?k = "CreateAssociatedTokenAccount p w m tp b"
  have "instruction_cache c' ?k = Some ixs"
    using assms
    by (auto simp: create_ata_fast_use_seed_def get_cached_instructions_def Let_def
        split: if_splits option.splits prod.splits outcome.splits)
  then show ?thesis by (simp add: create_ata_fast_use_seed_def ixc.ehit Let_def)
qed

theorem create_ata_frozen_witness:
  "\<exists>ixs c'. create_ata_fast_use_seed sample_extern \<lparr> spl_token_rent = 1, spl_token_2022_rent = 1 \<rparr>
      5 5 77 TOKEN_PROGRAM True empty_caches = (Ok ixs, c')
    \<and> create_ata_fast_use_seed sample_extern \<lparr> spl_token_rent = 2, spl_token_2022_rent = 2 \<rparr>
      5 5 77 TOKEN_PROGRAM True c' = (Ok ixs, c')"
proof -
  let ?m = "create_ata_fast_use_seed sample_extern \<lparr> spl_token_rent = 1, spl_token_2022_rent = 1 \<rparr>
      5 5 77 TOKEN_PROGRAM True empty_caches"
  have "seed_allowed 77 TOKEN_PROGRAM True" by code_simp
  then have "\<exists>ixs c'. ?m = (Ok ixs, c')"
    by (simp add: create_ata_fast_use_seed_def get_cached_instructions_def empty_caches_def
        create_associated_token_account_use_seed_def sample_extern_def initialize_account3_def Let_def)
  then show ?thesis using create_ata_frozen by blast
qed

end
