(* ===== verification/Bonding_Curve.thy ===== *)
theory Bonding_Curve
  imports Caches Calc_PumpFun
begin

text \<open>
  The bonding-curve account of \<open>src/common/bonding_curve.rs\<close> and the global account of
  \<open>src/common/global.rs\<close>: their constructors and price queries, and the free-standing
  \<open>get_buy_price\<close> and \<open>get_creator\<close> of \<open>src/instruction/utils/pumpfun.rs\<close>. The constructors use the address
  cache, so they are stateful. The floating-point \<open>get_token_price\<close> is in Prices.
\<close>

section \<open>Constants\<close>

definition INITIAL_VIRTUAL_TOKEN_RESERVES :: u64 where "INITIAL_VIRTUAL_TOKEN_RESERVES = 1073000000000000"
definition INITIAL_VIRTUAL_SOL_RESERVES :: u64 where "INITIAL_VIRTUAL_SOL_RESERVES = 30000000000"
definition INITIAL_REAL_TOKEN_RESERVES :: u64 where "INITIAL_REAL_TOKEN_RESERVES = 793100000000000"
definition TOKEN_TOTAL_SUPPLY :: u64 where "TOKEN_TOTAL_SUPPLY = 1000000000000000"
definition POOL_MIGRATION_FEE :: u64 where "POOL_MIGRATION_FEE = 15000001"

lemmas curve_const_defs = INITIAL_VIRTUAL_TOKEN_RESERVES_def INITIAL_VIRTUAL_SOL_RESERVES_def
  INITIAL_REAL_TOKEN_RESERVES_def TOKEN_TOTAL_SUPPLY_def

section \<open>The bonding-curve account\<close>

record BondingCurveAccount =
  bc_discriminator :: u64
  bc_account :: pubkey
  virtual_token_reserves :: u64
  virtual_sol_reserves :: u64
  real_token_reserves :: u64
  real_sol_reserves :: u64
  token_total_supply :: u64
  complete :: bool
  bc_creator :: pubkey
  bc_is_mayhem_mode :: bool
  bc_is_cashback_coin :: bool

definition curve_address :: "extern \<Rightarrow> pubkey \<Rightarrow> pubkey \<Rightarrow> pubkey cached" where
  "curve_address X bonding_curve mint =
    (if bonding_curve \<noteq> pubkey_default then sret bonding_curve
     else unwrap_pda (get_bonding_curve_pda X mint))"

definition from_dev_trade ::
  "extern \<Rightarrow> pubkey \<Rightarrow> pubkey \<Rightarrow> u64 \<Rightarrow> u64 \<Rightarrow> pubkey \<Rightarrow> bool \<Rightarrow> bool \<Rightarrow> BondingCurveAccount cached" where
  "from_dev_trade X bonding_curve mint dev_token_amount dev_sol_amount creator is_mayhem_mode is_cashback_coin =
    sbind (curve_address X bonding_curve mint) (\<lambda>account. sret
      \<lparr> bc_discriminator = 0, bc_account = account,
        virtual_token_reserves = INITIAL_VIRTUAL_TOKEN_RESERVES - dev_token_amount,
        virtual_sol_reserves = INITIAL_VIRTUAL_SOL_RESERVES + dev_sol_amount,
        real_token_reserves = INITIAL_REAL_TOKEN_RESERVES - dev_token_amount,
        real_sol_reserves = dev_sol_amount,
        token_total_supply = TOKEN_TOTAL_SUPPLY, complete = False, bc_creator = creator,
        bc_is_mayhem_mode = is_mayhem_mode, bc_is_cashback_coin = is_cashback_coin \<rparr>)"

definition from_trade ::
  "extern \<Rightarrow> pubkey \<Rightarrow> pubkey \<Rightarrow> pubkey \<Rightarrow> u64 \<Rightarrow> u64 \<Rightarrow> u64 \<Rightarrow> u64 \<Rightarrow> bool \<Rightarrow> bool \<Rightarrow> BondingCurveAccount cached" where
  "from_trade X bonding_curve mint creator vtr vsr rtr rsr is_mayhem_mode is_cashback_coin =
    sbind (curve_address X bonding_curve mint) (\<lambda>account. sret
      \<lparr> bc_discriminator = 0, bc_account = account,
        virtual_token_reserves = vtr, virtual_sol_reserves = vsr,
        real_token_reserves = rtr, real_sol_reserves = rsr,
        token_total_supply = TOKEN_TOTAL_SUPPLY, complete = False, bc_creator = creator,
        bc_is_mayhem_mode = is_mayhem_mode, bc_is_cashback_coin = is_cashback_coin \<rparr>)"

definition account_creator_vault_pda :: "extern \<Rightarrow> BondingCurveAccount \<Rightarrow> pubkey cached" where
  "account_creator_vault_pda X self = unwrap_pda (get_creator_vault_pda X (bc_creator self))"

definition err_complete :: string where "err_complete = ''Curve is complete''"

definition get_buy_price :: "BondingCurveAccount \<Rightarrow> u64 \<Rightarrow> (u64, string) outcome" where
  "get_buy_price self amount =
    (if complete self then Err err_complete
     else if amount = 0 then Ok 0
     else
       let n = u128_of (virtual_sol_reserves self) * u128_of (virtual_token_reserves self);
           i = u128_of (virtual_sol_reserves self) + u128_of amount
       in obind (div_or_panic n i) (\<lambda>d.
       let r = d + 1;
           s = u128_of (virtual_token_reserves self) - r;
           s_u64 = u64_of s
       in Ok (if s_u64 < real_token_reserves self then s_u64 else real_token_reserves self)))"

definition get_sell_price :: "BondingCurveAccount \<Rightarrow> u64 \<Rightarrow> u64 \<Rightarrow> (u64, string) outcome" where
  "get_sell_price self amount fee_basis_points =
    (if complete self then Err err_complete
     else if amount = 0 then Ok 0
     else obind (div_or_panic (u128_of amount * u128_of (virtual_sol_reserves self))
                  (u128_of (virtual_token_reserves self) + u128_of amount)) (\<lambda>n.
       obind (div_or_panic (n * u128_of fee_basis_points) 10000) (\<lambda>a.
       Ok (u64_of (n - a)))))"

definition get_market_cap_sol :: "BondingCurveAccount \<Rightarrow> (u64, string) outcome" where
  "get_market_cap_sol self =
    (if virtual_token_reserves self = 0 then Ok 0
     else obind (div_or_panic (u128_of (token_total_supply self) * u128_of (virtual_sol_reserves self))
                  (u128_of (virtual_token_reserves self))) (\<lambda>c. Ok (u64_of c)))"

definition get_buy_out_price :: "BondingCurveAccount \<Rightarrow> u64 \<Rightarrow> u64 \<Rightarrow> (u64, string) outcome" where
  "get_buy_out_price self amount fee_basis_points =
    (let sol_tokens = (if amount < real_sol_reserves self then u128_of (real_sol_reserves self)
                       else u128_of amount)
     in obind (div_or_panic (sol_tokens * u128_of (virtual_sol_reserves self))
                (u128_of (virtual_token_reserves self) - sol_tokens)) (\<lambda>d.
        let total_sell_value = d + 1
        in obind (div_or_panic (total_sell_value * u128_of fee_basis_points) 10000) (\<lambda>fee.
           Ok (u64_of (total_sell_value + fee)))))"

definition get_final_market_cap_sol :: "BondingCurveAccount \<Rightarrow> u64 \<Rightarrow> (u64, string) outcome" where
  "get_final_market_cap_sol self fee_basis_points =
    obind (get_buy_out_price self (real_token_reserves self) fee_basis_points) (\<lambda>p.
    let total_sell_value = u128_of p;
        total_virtual_value = u128_of (virtual_sol_reserves self) + total_sell_value;
        total_virtual_tokens = u128_of (virtual_token_reserves self) - u128_of (real_token_reserves self)
    in if total_virtual_tokens = 0 then Ok 0
       else obind (div_or_panic (u128_of (token_total_supply self) * total_virtual_value) total_virtual_tokens)
              (\<lambda>c. Ok (u64_of c)))"

section \<open>The free-standing buy price, the creator and the global account\<close>

definition curve_buy_price :: "u64 \<Rightarrow> u64 \<Rightarrow> u64 \<Rightarrow> u64 \<Rightarrow> (u64, string) outcome" where
  "curve_buy_price amount vsr vtr rtr =
    (if amount = 0 then Ok 0
     else
       let n = u128_of vsr * u128_of vtr;
           i = u128_of vsr + u128_of amount
       in obind (div_or_panic n i) (\<lambda>d.
       let r = d + 1;
           s = u128_of vtr - r;
           s_u64 = u64_of s
       in Ok (min s_u64 rtr)))"

text \<open>\<open>get_creator\<close> maps the vault of the default creator back to the default key. The vault
  of the default creator is a lazily initialised static, computed once through the cache.\<close>

definition get_creator :: "extern \<Rightarrow> pubkey \<Rightarrow> pubkey cached" where
  "get_creator X vault =
    (if vault = pubkey_default then sret pubkey_default
     else sbind (unwrap_pda (get_creator_vault_pda X pubkey_default)) (\<lambda>default_vault.
       if vault = default_vault then sret pubkey_default
       else sret vault))"

record GlobalAccount =
  ga_discriminator :: u64
  ga_account :: pubkey
  ga_initialized :: bool
  ga_authority :: pubkey
  ga_fee_recipient :: pubkey
  initial_virtual_token_reserves :: u64
  initial_virtual_sol_reserves :: u64
  initial_real_token_reserves :: u64
  ga_token_total_supply :: u64
  ga_fee_basis_points :: u64
  ga_withdraw_authority :: pubkey
  ga_enable_migrate :: bool
  ga_pool_migration_fee :: u64
  ga_creator_fee :: u64
  ga_fee_recipients :: "pubkey list"

definition global_new :: GlobalAccount where
  "global_new = \<lparr> ga_discriminator = 0, ga_account = PF_GLOBAL_ACCOUNT, ga_initialized = True,
     ga_authority = PF_AUTHORITY, ga_fee_recipient = PF_FEE_RECIPIENT,
     initial_virtual_token_reserves = INITIAL_VIRTUAL_TOKEN_RESERVES,
     initial_virtual_sol_reserves = INITIAL_VIRTUAL_SOL_RESERVES,
     initial_real_token_reserves = INITIAL_REAL_TOKEN_RESERVES,
     ga_token_total_supply = TOKEN_TOTAL_SUPPLY, ga_fee_basis_points = FEE_BASIS_POINTS,
     ga_withdraw_authority = PF_WITHDRAW_AUTHORITY, ga_enable_migrate = False,
     ga_pool_migration_fee = POOL_MIGRATION_FEE, ga_creator_fee = CREATOR_FEE,
     ga_fee_recipients = PUMPFUN_AMM_FEES \<rparr>"

definition get_initial_buy_price :: "GlobalAccount \<Rightarrow> u64 \<Rightarrow> (u64, string) outcome" where
  "get_initial_buy_price self amount =
    (if amount = 0 then Ok 0
     else
       let n = u128_of (initial_virtual_sol_reserves self) * u128_of (initial_virtual_token_reserves self);
           i = u128_of (initial_virtual_sol_reserves self) + u128_of amount
       in obind (div_or_panic n i) (\<lambda>d.
       let r = d + 1;
           s = u128_of (initial_virtual_token_reserves self) - r
       in Ok (if s < u128_of (initial_real_token_reserves self) then u64_of s
              else initial_real_token_reserves self)))"

section \<open>Lemmas\<close>

text \<open>The amount the curve gives before the cap of the real reserves.\<close>

definition curve_out :: "nat \<Rightarrow> nat \<Rightarrow> nat \<Rightarrow> nat" where
  "curve_out vs vt x = vt - (vs * vt div (vs + x) + 1)"

lemma curve_out_room:
  fixes vs vt x :: nat
  assumes "0 < vt" "0 < x"
  shows "vs * vt div (vs + x) + 1 \<le> vt"
proof -
  have "vs * vt < vt * vs + vt * x"
    using mult_pos_pos [OF assms] by (simp add: mult.commute)
  then have "vs * vt < vt * (vs + x)" by (simp add: distrib_left)
  then have "vs * vt div (vs + x) < vt" using assms by (simp add: div_less_iff_less_mult)
  then show ?thesis by simp
qed

lemma curve_out_product:
  assumes "0 < vt" "0 < x" "p \<le> curve_out vs vt x"
  shows "vs * vt < (vs + x) * (vt - p)"
proof -
  have "vs * vt < (vs * vt div (vs + x) + 1) * (vs + x)"
    using dividend_less_div_times [of "vs + x" "vs * vt"] assms(2) by simp
  also have "\<dots> \<le> (vt - p) * (vs + x)"
    using assms curve_out_room [OF assms(1,2), of vs] by (intro mult_le_mono1) (simp add: curve_out_def)
  finally show ?thesis by (simp add: mult.commute)
qed

lemma price_run:
  assumes "vt \<noteq> 0" "x \<noteq> 0"
  shows "\<exists>d. div_or_panic (u128_of vs * u128_of vt) (u128_of vs + u128_of x) = (Ok d :: (u128, string) outcome)
    \<and> unat (u128_of vt - (d + 1)) = curve_out (unat vs) (unat vt) (unat x)"
proof -
  have v0: "0 < unat vt" and x0: "0 < unat x" using assms by (simp_all add: unat_gt_0)
  have i0: "u128_of vs + u128_of x \<noteq> 0"
    using u128_sum_nonzero [of x vs] assms(2) by (simp add: add.commute)
  let ?d = "u128_of vs * u128_of vt div (u128_of vs + u128_of x)"
  have d: "unat ?d = unat vs * unat vt div (unat vs + unat x)" by (simp add: unat_div_distrib)
  have room: "unat ?d + 1 \<le> unat vt" using curve_out_room [OF v0 x0, of "unat vs"] d by simp
  then have "unat ?d + unat (1 :: u128) < 2 ^ 128"
    using u64_bound [of vt] by (simp del: u64_bound)
  then have r: "unat (?d + 1) = unat ?d + 1" using unat_add_exact [of ?d 1] by simp
  then have "?d + 1 \<le> u128_of vt" using room by (simp add: word_le_nat_alt)
  then have "unat (u128_of vt - (?d + 1)) = curve_out (unat vs) (unat vt) (unat x)"
    using r d by (simp add: unat_sub curve_out_def)
  then show ?thesis using i0 by (simp add: div_or_panic_def)
qed

lemma curve_out_le: "curve_out vs vt x \<le> vt"
  by (simp add: curve_out_def)

lemma buy_price_value:
  assumes "\<not> complete c" "x \<noteq> 0" "virtual_token_reserves c \<noteq> 0"
  shows "\<exists>p. get_buy_price c x = Ok p \<and> unat p =
    min (curve_out (unat (virtual_sol_reserves c)) (unat (virtual_token_reserves c)) (unat x))
        (unat (real_token_reserves c))"
proof -
  obtain d where d: "div_or_panic (u128_of (virtual_sol_reserves c) * u128_of (virtual_token_reserves c))
      (u128_of (virtual_sol_reserves c) + u128_of x) = (Ok d :: (u128, string) outcome)"
    "unat (u128_of (virtual_token_reserves c) - (d + 1)) =
      curve_out (unat (virtual_sol_reserves c)) (unat (virtual_token_reserves c)) (unat x)"
    using price_run [OF assms(3,2)] by blast
  have "unat (u64_of (u128_of (virtual_token_reserves c) - (d + 1))) =
      curve_out (unat (virtual_sol_reserves c)) (unat (virtual_token_reserves c)) (unat x)"
    using d(2) le_less_trans [OF curve_out_le u64_bound] by (simp add: unat_u64_of_exact)
  then show ?thesis
    using assms d(1) by (auto simp: get_buy_price_def Let_def word_less_nat_alt min_def)
qed

lemma sell_price_value:
  assumes "\<not> complete c" "x \<noteq> 0" "unat bps \<le> 10000"
    and q: "q = cp_out (unat (virtual_token_reserves c)) (unat (virtual_sol_reserves c)) (unat x)"
  shows "\<exists>p. get_sell_price c x bps = Ok p \<and> unat p = q - q * unat bps div 10000"
proof -
  let ?n = "u128_of x * u128_of (virtual_sol_reserves c) div (u128_of (virtual_token_reserves c) + u128_of x)"
  have d0: "u128_of (virtual_token_reserves c) + u128_of x \<noteq> 0"
    using u128_sum_nonzero [OF assms(2), of "virtual_token_reserves c"] by (simp add: add.commute)
  have n: "unat ?n = q" by (simp add: unat_div_distrib q cp_out_def mult.commute)
  have q64: "q < 18446744073709551616"
    unfolding q using le_less_trans [OF cp_out_le u64_bound] by blast
  have "q * unat bps \<le> 18446744073709551616 * 10000"
    using q64 assms(3) by (intro mult_le_mono) simp_all
  then have m: "unat (?n * u128_of bps) = q * unat bps"
    using unat_mult_exact [of ?n "u128_of bps"] n by simp
  have "q * unat bps \<le> q * 10000" using assms(3) by simp
  then have "q * unat bps div 10000 \<le> q" by (rule order_trans [OF div_le_mono]) simp
  then have "unat (?n - ?n * u128_of bps div 10000) = q - q * unat bps div 10000"
    using n m by (simp add: unat_sub word_le_nat_alt unat_div_distrib)
  then show ?thesis
    using assms(1,2) d0 q64
    by (simp add: get_sell_price_def div_or_panic_def unat_u64_of_exact)
qed

section \<open>Properties\<close>

text \<open>The buy price of an open curve. With tokens on the virtual side the
  call returns, the result is the smaller of the curve's amount and the real reserves, and
  taking it leaves the product of the virtual reserves strictly larger than before.\<close>

theorem buy_price_on_curve:
  assumes "\<not> complete c" "x \<noteq> 0" "virtual_token_reserves c \<noteq> 0"
  shows "\<exists>p. get_buy_price c x = Ok p
    \<and> unat p = min (curve_out (unat (virtual_sol_reserves c)) (unat (virtual_token_reserves c)) (unat x))
                   (unat (real_token_reserves c))
    \<and> p \<le> real_token_reserves c
    \<and> unat (virtual_sol_reserves c) * unat (virtual_token_reserves c)
        < (unat (virtual_sol_reserves c) + unat x) * (unat (virtual_token_reserves c) - unat p)"
proof -
  obtain p where p: "get_buy_price c x = Ok p" "unat p =
    min (curve_out (unat (virtual_sol_reserves c)) (unat (virtual_token_reserves c)) (unat x))
        (unat (real_token_reserves c))"
    using buy_price_value [OF assms] by blast
  then show ?thesis
    using curve_out_product [of "unat (virtual_token_reserves c)" "unat x" "unat p" "unat (virtual_sol_reserves c)"]
      assms by (simp add: unat_gt_0 word_le_nat_alt)
qed

definition sample_curve :: BondingCurveAccount where
  "sample_curve = \<lparr> bc_discriminator = 0, bc_account = 1,
     virtual_token_reserves = 1073000000000000, virtual_sol_reserves = 30000000000,
     real_token_reserves = 793100000000000, real_sol_reserves = 0,
     token_total_supply = 1000000000000000, complete = False, bc_creator = 5,
     bc_is_mayhem_mode = False, bc_is_cashback_coin = False \<rparr>"

theorem buy_price_on_curve_witness:
  "\<exists>p. get_buy_price sample_curve 1000000000 = Ok p \<and> p \<le> 793100000000000"
  using buy_price_on_curve [of sample_curve 1000000000] by (auto simp: sample_curve_def)

text \<open>The three copies of the buy formula agree. The free-standing
  \<open>get_buy_price\<close> is the account's method on an open curve, and
  \<open>GlobalAccount::get_initial_buy_price\<close> is the method on the curve that
  \<open>from_dev_trade\<close> builds for a token without a developer trade.\<close>

theorem buy_price_copies_agree:
  "(\<not> complete c \<longrightarrow> get_buy_price c x =
      curve_buy_price x (virtual_sol_reserves c) (virtual_token_reserves c) (real_token_reserves c))
   \<and> (fst (from_dev_trade X bonding_curve mint 0 0 creator mm cb s) = Ok c \<longrightarrow>
      get_initial_buy_price global_new x = get_buy_price c x)"
proof (intro conjI impI)
  show "get_buy_price c x =
      curve_buy_price x (virtual_sol_reserves c) (virtual_token_reserves c) (real_token_reserves c)"
    if "\<not> complete c"
  proof -
    have "(if a < b then a else b) = min a b" for a b :: u64 by (simp add: min_def less_le)
    then show ?thesis using that by (simp add: get_buy_price_def curve_buy_price_def)
  qed
next
  assume "fst (from_dev_trade X bonding_curve mint 0 0 creator mm cb s) = Ok c"
  then have c: "\<not> complete c" "virtual_token_reserves c = INITIAL_VIRTUAL_TOKEN_RESERVES"
    "virtual_sol_reserves c = INITIAL_VIRTUAL_SOL_RESERVES" "real_token_reserves c = INITIAL_REAL_TOKEN_RESERVES"
    by (auto simp: from_dev_trade_def sbind_run split: outcome.splits)
  show "get_initial_buy_price global_new x = get_buy_price c x"
  proof (cases "x = 0")
    case True
    then show ?thesis using c by (simp add: get_initial_buy_price_def get_buy_price_def)
  next
    case False
    have "INITIAL_VIRTUAL_TOKEN_RESERVES \<noteq> 0" by (simp add: curve_const_defs)
    from price_run [OF this False, of INITIAL_VIRTUAL_SOL_RESERVES]
    obtain d where d: "div_or_panic (u128_of INITIAL_VIRTUAL_SOL_RESERVES * u128_of INITIAL_VIRTUAL_TOKEN_RESERVES)
        (u128_of INITIAL_VIRTUAL_SOL_RESERVES + u128_of x) = (Ok d :: (u128, string) outcome)"
      "unat (u128_of INITIAL_VIRTUAL_TOKEN_RESERVES - (d + 1)) < 2 ^ 64"
      using le_less_trans [OF curve_out_le u64_bound [of INITIAL_VIRTUAL_TOKEN_RESERVES]] by auto
    then show ?thesis using c False
      by (simp add: get_initial_buy_price_def get_buy_price_def global_new_def Let_def
          word_less_nat_alt unat_u64_of_exact)
  qed
qed

theorem buy_price_copies_agree_witness:
  "get_buy_price sample_curve 5 = curve_buy_price 5 30000000000 1073000000000000 793100000000000
   \<and> get_initial_buy_price global_new 5 = get_buy_price
      \<lparr> bc_discriminator = 0, bc_account = 9, virtual_token_reserves = INITIAL_VIRTUAL_TOKEN_RESERVES,
        virtual_sol_reserves = INITIAL_VIRTUAL_SOL_RESERVES, real_token_reserves = INITIAL_REAL_TOKEN_RESERVES,
        real_sol_reserves = 0, token_total_supply = TOKEN_TOTAL_SUPPLY, complete = False, bc_creator = 3,
        bc_is_mayhem_mode = False, bc_is_cashback_coin = False \<rparr> 5"
  using buy_price_copies_agree [of sample_curve 5 sample_extern 9 7 3 False False empty_caches]
    buy_price_copies_agree [of "\<lparr> bc_discriminator = 0, bc_account = 9, virtual_token_reserves = INITIAL_VIRTUAL_TOKEN_RESERVES,
        virtual_sol_reserves = INITIAL_VIRTUAL_SOL_RESERVES, real_token_reserves = INITIAL_REAL_TOKEN_RESERVES,
        real_sol_reserves = 0, token_total_supply = TOKEN_TOTAL_SUPPLY, complete = False, bc_creator = 3,
        bc_is_mayhem_mode = False, bc_is_cashback_coin = False \<rparr>" 5 sample_extern 9 7 3 False False empty_caches]
  by (simp add: sample_curve_def from_dev_trade_def curve_address_def sbind_run)

text \<open>A round trip on the curve never gains. If a buy of \<open>x\<close> lamports gives
  \<open>p\<close> tokens, and the account then holds the reserves after this buy, selling the \<open>p\<close> tokens
  back returns less than \<open>x\<close>, at every fee up to 100 percent.\<close>

theorem curve_round_trip:
  assumes "\<not> complete c" "x \<noteq> 0" "virtual_token_reserves c \<noteq> 0" "unat bps \<le> 10000"
    and "unat (virtual_sol_reserves c) + unat x < 2 ^ 64"
    and buy: "get_buy_price c x = Ok p"
    and c': "\<not> complete c'" "virtual_token_reserves c' = virtual_token_reserves c - p"
      "virtual_sol_reserves c' = virtual_sol_reserves c + x"
  shows "\<exists>y. get_sell_price c' p bps = Ok y \<and> y < x"
proof -
  let ?vs = "unat (virtual_sol_reserves c)" and ?vt = "unat (virtual_token_reserves c)"
  have v0: "0 < ?vt" and x0: "0 < unat x" using assms(2,3) by (simp_all add: unat_gt_0)
  have ple: "unat p \<le> curve_out ?vs ?vt (unat x)"
    using buy_price_value [OF assms(1-3)] buy by auto
  show ?thesis
  proof (cases "p = 0")
    case True
    then show ?thesis using c'(1) assms(2) by (simp add: get_sell_price_def word_gt_0)
  next
    case False
    have pvt: "unat p \<le> ?vt" using ple curve_out_le order_trans by blast
    have vt': "unat (virtual_token_reserves c') = ?vt - unat p"
      unfolding c'(2) using pvt by (simp add: unat_sub word_le_nat_alt)
    have vs': "unat (virtual_sol_reserves c') = ?vs + unat x"
      unfolding c'(3) using assms(5) by (intro unat_add_exact) simp
    have "?vs * ?vt < (?vs + unat x) * (?vt - unat p)" by (rule curve_out_product [OF v0 x0 ple])
    then have "(?vs + unat x) * unat p < unat x * ?vt"
      using pvt by (simp add: diff_mult_distrib2 algebra_simps)
    then have "cp_out (?vt - unat p) (?vs + unat x) (unat p) < unat x"
      using pvt v0 by (simp add: cp_out_def div_less_iff_less_mult)
    then show ?thesis
      using sell_price_value [OF c'(1) False assms(4) refl] vt' vs'
      by (auto simp: word_less_nat_alt less_imp_diff_less)
  qed
qed

theorem curve_round_trip_witness:
  "\<exists>p y. get_buy_price sample_curve 1000000000 = Ok p
    \<and> get_sell_price (sample_curve \<lparr> virtual_token_reserves := virtual_token_reserves sample_curve - p,
         virtual_sol_reserves := virtual_sol_reserves sample_curve + 1000000000 \<rparr>) p 95 = Ok y
    \<and> y < 1000000000"
proof -
  have c: "\<not> complete sample_curve" "(1000000000 :: u64) \<noteq> 0" "virtual_token_reserves sample_curve \<noteq> 0"
    by (simp_all add: sample_curve_def)
  obtain p where p: "get_buy_price sample_curve 1000000000 = Ok p"
    using buy_price_value [OF c] by blast
  then show ?thesis
    using curve_round_trip [OF c _ _ p, of 95 "sample_curve \<lparr> virtual_token_reserves :=
        virtual_token_reserves sample_curve - p,
        virtual_sol_reserves := virtual_sol_reserves sample_curve + 1000000000 \<rparr>"]
    by (simp add: sample_curve_def)
qed

end
