(* ===== verification/Swqos_Types.thy ===== *)
theory Swqos_Types
  imports Token_Instr Complex_Main
begin

text \<open>
  The relay providers of \<open>src/swqos/mod.rs\<close> and the tables of \<open>src/constants/swqos.rs\<close>:
  the provider and trade enumerations, the configuration of a provider, its endpoint by
  region, the least tip it accepts, the blacklist, and the client that a configuration
  gives. A client is what the constructor keeps of its arguments; the network connections
  behind it are not modelled.

  Tips are floating-point numbers of SOL in the code. The model has them as rationals: the
  code under verification only stores, copies and compares them, and a decimal literal of
  the source is the same number on both sides of a comparison.
\<close>

type_synonym f64 = rat

section \<open>Enumerations\<close>

datatype TradeType = Create | CreateAndBuy | Buy | Sell

datatype SwqosType =
  SwqosJito | SwqosNextBlock | SwqosZeroSlot | SwqosTemporal | SwqosBloxroute | SwqosNode1 | SwqosFlashBlock
  | SwqosBlockRazor | SwqosAstralane | SwqosStellium | SwqosLightspeed | SwqosSoyas | SwqosSpeedlanding | SwqosHelius | SwqosDefault

definition swqos_values :: "SwqosType list" where
  "swqos_values =
   [SwqosJito, SwqosNextBlock, SwqosZeroSlot, SwqosTemporal, SwqosBloxroute, SwqosNode1, SwqosFlashBlock,
    SwqosBlockRazor, SwqosAstralane, SwqosStellium, SwqosLightspeed, SwqosSoyas, SwqosSpeedlanding, SwqosHelius, SwqosDefault]"

datatype SwqosRegion = NewYork | Frankfurt | Amsterdam | SLC | Tokyo | London | LosAngeles | RegionDefault

text \<open>\<open>region as usize\<close>: the position in the declaration.\<close>

fun region_index :: "SwqosRegion \<Rightarrow> nat" where
  "region_index NewYork = 0"
| "region_index Frankfurt = 1"
| "region_index Amsterdam = 2"
| "region_index SLC = 3"
| "region_index Tokyo = 4"
| "region_index London = 5"
| "region_index LosAngeles = 6"
| "region_index RegionDefault = 7"

text \<open>The provider type is finite, listed by \<open>values\<close>; with the instance the library decides
  statements about all providers.\<close>

lemma swqos_values_complete: "x \<in> set swqos_values"
  by (cases x) (simp_all add: swqos_values_def)

lemma swqos_values_distinct: "distinct swqos_values"
  by (simp add: swqos_values_def)

instantiation SwqosType :: enum
begin

definition enum_SwqosType :: "SwqosType list" where "enum_SwqosType = swqos_values"

definition enum_all_SwqosType :: "(SwqosType \<Rightarrow> bool) \<Rightarrow> bool" where
  "enum_all_SwqosType P = list_all P swqos_values"

definition enum_ex_SwqosType :: "(SwqosType \<Rightarrow> bool) \<Rightarrow> bool" where
  "enum_ex_SwqosType P = list_ex P swqos_values"

instance
  by standard (auto simp: enum_SwqosType_def enum_all_SwqosType_def enum_ex_SwqosType_def
      swqos_values_complete swqos_values_distinct list_all_iff list_ex_iff)

end

section \<open>Tables\<close>

definition JITO_TIP_ACCOUNTS :: "pubkey list" where
  "JITO_TIP_ACCOUNTS = map pk
    [''96gYZGLnJYVFmbjzopPSU6QiEV5fGqZNyN9nmNhvrZU5'',
     ''HFqU5x63VTqvQss8hp11i4wVV8bD44PvwucfZ2bU7gRe'',
     ''Cw8CFyM9FkoMi7K7Crf6HNQqf4uEMzpKw6QNghXLvLkY'',
     ''ADaUMid9yfUytqMBgopwjb2DTLSokTSzL1zt6iGPaS49'',
     ''DfXygSm4jCyNCybVYYK6DwvWqjKee8pbDmJGcLWNDXjh'',
     ''ADuUkR4vqLUMWXxW9gh6D6L8pMSawimctcNZ5pGwDcEt'',
     ''DttWaMuVvTiduZRnguLF7jNxTgiMBZ1hyAumKUiL2KRL'',
     ''3AVi9Tg9Uo68tJfuvoKvqKNWKkC5wPdSSdeBnizKZ6jT'']"

definition HELIUS_TIP_ACCOUNTS :: "pubkey list" where
  "HELIUS_TIP_ACCOUNTS = map pk
    [''4ACfpUFoaSD9bfPdeu6DBt89gB6ENTeHBXCAi87NhDEE'',
     ''D2L6yPZ2FmmmTKPgzaMKdhu6EWZcTpLy1Vhx8uvZe7NZ'',
     ''9bnz4RShgq1hAnLnZbP8kbgBg1kEmcJBYQq3gQbmnSta'',
     ''5VY91ws6B2hMmBFRsXkoAAdsPHBJwRfBht4DXox3xkwn'',
     ''2nyhqdwKcJZR2vcqCyrYsaPVdAnFoJjiksCXJ7hfEYgD'',
     ''2q5pghRs6arqVjRvT5gfgWfWcHWmw1ZuCzphgd5KfWGJ'',
     ''wyvPkWjVZz1M8fHQnMMCDTQDbkManefNNhweYk5WkcF'',
     ''3KCKozbAaF75qEU33jtzozcJ29yJuaLJTy2jFdzUY8bT'',
     ''4vieeGHPYPG2MmyPRcYjdiDmmhN3ww7hsFNap8pVN3Ey'',
     ''4TQLFNWK8AovT1gFvda5jfw2oJeRMKEmw7aH6MGBJ3or'']"

definition NEXTBLOCK_TIP_ACCOUNTS :: "pubkey list" where
  "NEXTBLOCK_TIP_ACCOUNTS = map pk
    [''NextbLoCkVtMGcV47JzewQdvBpLqT9TxQFozQkN98pE'',
     ''NexTbLoCkWykbLuB1NkjXgFWkX9oAtcoagQegygXXA2'',
     ''NeXTBLoCKs9F1y5PJS9CKrFNNLU1keHW71rfh7KgA1X'',
     ''NexTBLockJYZ7QD7p2byrUa6df8ndV2WSd8GkbWqfbb'',
     ''neXtBLock1LeC67jYd1QdAa32kbVeubsfPNTJC1V5At'',
     ''nEXTBLockYgngeRmRrjDV31mGSekVPqZoMGhQEZtPVG'',
     ''NEXTbLoCkB51HpLBLojQfpyVAMorm3zzKg7w9NFdqid'',
     ''nextBLoCkPMgmG8ZgJtABeScP35qLa2AMCNKntAP7Xc'']"

definition ZEROSLOT_TIP_ACCOUNTS :: "pubkey list" where
  "ZEROSLOT_TIP_ACCOUNTS = map pk
    [''Eb2KpSC8uMt9GmzyAEm5Eb1AAAgTjRaXWFjKyFXHZxF3'',
     ''FCjUJZ1qozm1e8romw216qyfQMaaWKxWsuySnumVCCNe'',
     ''ENxTEjSQ1YabmUpXAdCgevnHQ9MHdLv8tzFiuiYJqa13'',
     ''6rYLG55Q9RpsPGvqdPNJs4z5WTxJVatMB8zV3WJhs5EK'',
     ''Cix2bHfqPcKcM233mzxbLk14kSggUUiz2A87fJtGivXr'']"

definition NOZOMI_TIP_ACCOUNTS :: "pubkey list" where
  "NOZOMI_TIP_ACCOUNTS = map pk
    [''TEMPaMeCRFAS9EKF53Jd6KpHxgL47uWLcpFArU1Fanq'',
     ''noz3jAjPiHuBPqiSPkkugaJDkJscPuRhYnSpbi8UvC4'',
     ''noz3str9KXfpKknefHji8L1mPgimezaiUyCHYMDv1GE'',
     ''noz6uoYCDijhu1V7cutCpwxNiSovEwLdRHPwmgCGDNo'',
     ''noz9EPNcT7WH6Sou3sr3GGjHQYVkN3DNirpbvDkv9YJ'',
     ''nozc5yT15LazbLTFVZzoNZCwjh3yUtW86LoUyqsBu4L'',
     ''nozFrhfnNGoyqwVuwPAW4aaGqempx4PU6g6D9CJMv7Z'',
     ''nozievPk7HyK1Rqy1MPJwVQ7qQg2QoJGyP71oeDwbsu'',
     ''noznbgwYnBLDHu8wcQVCEw6kDrXkPdKkydGJGNXGvL7'',
     ''nozNVWs5N8mgzuD3qigrCG2UoKxZttxzZ85pvAQVrbP'',
     ''nozpEGbwx4BcGp6pvEdAh1JoC2CQGZdU6HbNP1v2p6P'',
     ''nozrhjhkCr3zXT3BiT4WCodYCUFeQvcdUkM7MqhKqge'',
     ''nozrwQtWhEdrA6W8dkbt9gnUaMs52PdAv5byipnadq3'',
     ''nozUacTVWub3cL4mJmGCYjKZTnE9RbdY5AP46iQgbPJ'',
     ''nozWCyTPppJjRuw2fpzDhhWbW355fzosWSzrrMYB1Qk'',
     ''nozWNju6dY353eMkMqURqwQEoM3SFgEKC6psLCSfUne'',
     ''nozxNBgWohjR75vdspfxR5H9ceC7XXH99xpxhVGt3Bb'']"

definition BLOX_TIP_ACCOUNTS :: "pubkey list" where
  "BLOX_TIP_ACCOUNTS = map pk
    [''HWEoBxYs7ssKuudEjzjmpfJVX7Dvi7wescFsVx2L5yoY'',
     ''95cfoy472fcQHaw4tPGBTKpn6ZQnfEPfBgDQx6gcRmRg'',
     ''3UQUKjhMKaY2S6bjcQD6yHB7utcZt5bfarRCmctpRtUd'',
     ''FogxVNs6Mm2w9rnGL1vkARSwJxvLE8mujTv3LK8RnUhF'']"

definition NODE1_TIP_ACCOUNTS :: "pubkey list" where
  "NODE1_TIP_ACCOUNTS = map pk
    [''node1PqAa3BWWzUnTHVbw8NJHC874zn9ngAkXjgWEej'',
     ''node1UzzTxAAeBTpfZkQPJXBAqixsbdth11ba1NXLBG'',
     ''node1Qm1bV4fwYnCurP8otJ9s5yrkPq7SPZ5uhj3Tsv'',
     ''node1PUber6SFmSQgvf2ECmXsHP5o3boRSGhvJyPMX1'',
     ''node1AyMbeqiVN6eoQzEAwCA6Pk826hrdqdAHR7cdJ3'',
     ''node1YtWCoTwwVYTFLfS19zquRQzYX332hs1HEuRBjC'']"

definition FLASHBLOCK_TIP_ACCOUNTS :: "pubkey list" where
  "FLASHBLOCK_TIP_ACCOUNTS = map pk
    [''FLaShB3iXXTWE1vu9wQsChUKq3HFtpMAhb8kAh1pf1wi'',
     ''FLashhsorBmM9dLpuq6qATawcpqk1Y2aqaZfkd48iT3W'',
     ''FLaSHJNm5dWYzEgnHJWWJP5ccu128Mu61NJLxUf7mUXU'',
     ''FLaSHR4Vv7sttd6TyDF4yR1bJyAxRwWKbohDytEMu3wL'',
     ''FLASHRzANfcAKDuQ3RXv9hbkBy4WVEKDzoAgxJ56DiE4'',
     ''FLasHstqx11M8W56zrSEqkCyhMCCpr6ze6Mjdvqope5s'',
     ''FLAShWTjcweNT4NSotpjpxAkwxUr2we3eXQGhpTVzRwy'',
     ''FLasHXTqrbNvpWFB6grN47HGZfK6pze9HLNTgbukfPSk'',
     ''FLAshyAyBcKb39KPxSzXcepiS8iDYUhDGwJcJDPX4g2B'',
     ''FLAsHZTRcf3Dy1APaz6j74ebdMC6Xx4g6i9YxjyrDybR'']"

definition BLOCKRAZOR_TIP_ACCOUNTS :: "pubkey list" where
  "BLOCKRAZOR_TIP_ACCOUNTS = map pk
    [''FjmZZrFvhnqqb9ThCuMVnENaM3JGVuGWNyCAxRJcFpg9'',
     ''6No2i3aawzHsjtThw81iq1EXPJN6rh8eSJCLaYZfKDTG'',
     ''A9cWowVAiHe9pJfKAj3TJiN9VpbzMUq6E4kEvf5mUT22'',
     ''Gywj98ophM7GmkDdaWs4isqZnDdFCW7B46TXmKfvyqSm'',
     ''68Pwb4jS7eZATjDfhmTXgRJjCiZmw1L7Huy4HNpnxJ3o'',
     ''4ABhJh5rZPjv63RBJBuyWzBK3g9gWMUQdTZP2kiW31V9'',
     ''B2M4NG5eyZp5SBQrSdtemzk5TqVuaWGQnowGaCBt8GyM'',
     ''5jA59cXMKQqZAVdtopv8q3yyw9SYfiE3vUCbt7p8MfVf'',
     ''5YktoWygr1Bp9wiS1xtMtUki1PeYuuzuCF98tqwYxf61'',
     ''295Avbam4qGShBYK7E9H5Ldew4B3WyJGmgmXfiWdeeyV'',
     ''EDi4rSy2LZgKJX74mbLTFk4mxoTgT6F7HxxzG2HBAFyK'',
     ''BnGKHAC386n4Qmv9xtpBVbRaUTKixjBe3oagkPFKtoy6'',
     ''Dd7K2Fp7AtoN8xCghKDRmyqr5U169t48Tw5fEd3wT9mq'',
     ''AP6qExwrbRgBAVaehg4b5xHENX815sMabtBzUzVB4v8S'']"

definition ASTRALANE_TIP_ACCOUNTS :: "pubkey list" where
  "ASTRALANE_TIP_ACCOUNTS = map pk
    [''astrazznxsGUhWShqgNtAdfrzP2G83DzcWVJDxwV9bF'',
     ''astra4uejePWneqNaJKuFFA8oonqCE1sqF6b45kDMZm'',
     ''astra9xWY93QyfG6yM8zwsKsRodscjQ2uU2HKNL5prk'',
     ''astraRVUuTHjpwEVvNBeQEgwYx9w9CFyfxjYoobCZhL'',
     ''astraEJ2fEj8Xmy6KLG7B3VfbKfsHXhHrNdCQx7iGJK'',
     ''astraubkDw81n4LuutzSQ8uzHCv4BhPVhfvTcYv8SKC'',
     ''astraZW5GLFefxNPAatceHhYjfA1ciq9gvfEg2S47xk'',
     ''astrawVNP4xDBKT7rAdxrLYiTSTdqtUr63fSMduivXK'']"

definition STELLIUM_TIP_ACCOUNTS :: "pubkey list" where
  "STELLIUM_TIP_ACCOUNTS = map pk
    [''ste11JV3MLMM7x7EJUM2sXcJC1H7F4jBLnP9a9PG8PH'',
     ''ste11MWPjXCRfQryCshzi86SGhuXjF4Lv6xMXD2AoSt'',
     ''ste11p5x8tJ53H1NbNQsRBg1YNRd4GcVpxtDw8PBpmb'',
     ''ste11p7e2KLYou5bwtt35H7BM6uMdo4pvioGjJXKFcN'',
     ''ste11TMV68LMi1BguM4RQujtbNCZvf1sjsASpqgAvSX'']"

definition LIGHTSPEED_TIP_ACCOUNTS :: "pubkey list" where
  "LIGHTSPEED_TIP_ACCOUNTS = map pk
    [''53PhM3UTdMQWu5t81wcd35AHGc5xpmHoRjem7GQPvXjA'',
     ''9tYF5yPDC1NP8s6diiB3kAX6ZZnva9DM3iDwJkBRarBB'']"

definition SOYAS_TIP_ACCOUNTS :: "pubkey list" where
  "SOYAS_TIP_ACCOUNTS = map pk
    [''soyas4s6L8KWZ8rsSk1mF3d1mQScoTGGAgjk98bF8nP'',
     ''soyascXFW5wEEYiwfEmHy2pNwomqzvggJosGVD6TJdY'',
     ''soyasDBdKjADwPz3xk82U3TNPRDKEWJj7wWLajNHZ1L'',
     ''soyasE2abjBAynmHbGWgEwk4ctBy7JMTUCNrMbjcnyH'']"

definition SPEEDLANDING_TIP_ACCOUNTS :: "pubkey list" where
  "SPEEDLANDING_TIP_ACCOUNTS = map pk
    [''SpEEdz8S1KorkMZqjMUxfxrmWwofmp6ReNP2Nx6CUmq'',
     ''SpeeDy3GJM4wcrQmk1itRFWgidvxX4rwjTLMv78wwjE'',
     ''SPeEdva37vW8vRtqgYjprQs1g3965icfVN5Rt7SMAyh'',
     ''speEdrSEpox5GUfHWcBc7tQjRuSfUin2yvB7qoYvvJh'',
     ''SPeEDmkHkN3A2roSZf6aZyEMsmrGqTHKqwP51y2Y4rV'',
     ''SpeedLdTJXh2RKpXEaP8JCxkWoUVXhtdPQ1EnxBJMxc'',
     ''SpEediGKLbbXndSYTzwmz6Z3NDgHQLDcTDEvGFkSMH9'',
     ''speede8xCcUq2Tiv1efXeTuE3k9TDNq8TnGKaKSc6J4'']"

definition SWQOS_ENDPOINTS_JITO :: "string list" where
  "SWQOS_ENDPOINTS_JITO =
    [''https://ny.mainnet.block-engine.jito.wtf'',
     ''https://frankfurt.mainnet.block-engine.jito.wtf'',
     ''https://amsterdam.mainnet.block-engine.jito.wtf'',
     ''https://slc.mainnet.block-engine.jito.wtf'',
     ''https://tokyo.mainnet.block-engine.jito.wtf'',
     ''https://london.mainnet.block-engine.jito.wtf'',
     ''https://ny.mainnet.block-engine.jito.wtf'',
     ''https://mainnet.block-engine.jito.wtf'']"

definition SWQOS_ENDPOINTS_NEXTBLOCK :: "string list" where
  "SWQOS_ENDPOINTS_NEXTBLOCK =
    [''http://ny.nextblock.io'',
     ''http://frankfurt.nextblock.io'',
     ''http://amsterdam.nextblock.io'',
     ''http://slc.nextblock.io'',
     ''http://tokyo.nextblock.io'',
     ''http://london.nextblock.io'',
     ''http://singapore.nextblock.io'',
     ''http://frankfurt.nextblock.io'']"

definition SWQOS_ENDPOINTS_ZERO_SLOT :: "string list" where
  "SWQOS_ENDPOINTS_ZERO_SLOT =
    [''http://ny.0slot.trade'',
     ''http://de2.0slot.trade'',
     ''http://ams.0slot.trade'',
     ''http://ny.0slot.trade'',
     ''http://jp.0slot.trade'',
     ''http://ams.0slot.trade'',
     ''http://la.0slot.trade'',
     ''http://de2.0slot.trade'']"

definition SWQOS_ENDPOINTS_TEMPORAL :: "string list" where
  "SWQOS_ENDPOINTS_TEMPORAL =
    [''http://ewr1.nozomi.temporal.xyz'',
     ''http://fra2.nozomi.temporal.xyz'',
     ''http://ams1.nozomi.temporal.xyz'',
     ''http://ewr1.nozomi.temporal.xyz'',
     ''http://tyo1.nozomi.temporal.xyz'',
     ''http://sgp1.nozomi.temporal.xyz'',
     ''http://pit1.nozomi.temporal.xyz'',
     ''http://fra2.nozomi.temporal.xyz'']"

definition SWQOS_ENDPOINTS_BLOX :: "string list" where
  "SWQOS_ENDPOINTS_BLOX =
    [''https://ny.solana.dex.blxrbdn.com'',
     ''https://germany.solana.dex.blxrbdn.com'',
     ''https://amsterdam.solana.dex.blxrbdn.com'',
     ''https://ny.solana.dex.blxrbdn.com'',
     ''https://tokyo.solana.dex.blxrbdn.com'',
     ''https://uk.solana.dex.blxrbdn.com'',
     ''https://la.solana.dex.blxrbdn.com'',
     ''https://global.solana.dex.blxrbdn.com'']"

definition SWQOS_ENDPOINTS_NODE1 :: "string list" where
  "SWQOS_ENDPOINTS_NODE1 =
    [''http://ny.node1.me'',
     ''http://fra.node1.me'',
     ''http://ams.node1.me'',
     ''http://ny.node1.me'',
     ''http://tk.node1.me'',
     ''http://lon.node1.me'',
     ''http://ny.node1.me'',
     ''http://fra.node1.me'']"

definition SWQOS_ENDPOINTS_FLASHBLOCK :: "string list" where
  "SWQOS_ENDPOINTS_FLASHBLOCK =
    [''http://ny.flashblock.trade'',
     ''http://fra.flashblock.trade'',
     ''http://ams.flashblock.trade'',
     ''http://slc.flashblock.trade'',
     ''http://singapore.flashblock.trade'',
     ''http://london.flashblock.trade'',
     ''http://ny.flashblock.trade'',
     ''http://ny.flashblock.trade'']"

definition SWQOS_ENDPOINTS_BLOCKRAZOR :: "string list" where
  "SWQOS_ENDPOINTS_BLOCKRAZOR =
    [''http://newyork.solana.blockrazor.xyz:443/v2/sendTransaction'',
     ''http://frankfurt.solana.blockrazor.xyz:443/v2/sendTransaction'',
     ''http://amsterdam.solana.blockrazor.xyz:443/v2/sendTransaction'',
     ''http://newyork.solana.blockrazor.xyz:443/v2/sendTransaction'',
     ''http://tokyo.solana.blockrazor.xyz:443/v2/sendTransaction'',
     ''http://london.solana.blockrazor.xyz:443/v2/sendTransaction'',
     ''http://newyork.solana.blockrazor.xyz:443/v2/sendTransaction'',
     ''http://frankfurt.solana.blockrazor.xyz:443/v2/sendTransaction'']"

definition SWQOS_ENDPOINTS_ASTRALANE :: "string list" where
  "SWQOS_ENDPOINTS_ASTRALANE =
    [''http://ny.gateway.astralane.io/irisb'',
     ''http://fr.gateway.astralane.io/irisb'',
     ''http://ams.gateway.astralane.io/irisb'',
     ''http://ny.gateway.astralane.io/irisb'',
     ''http://jp.gateway.astralane.io/irisb'',
     ''http://ny.gateway.astralane.io/irisb'',
     ''http://lax.gateway.astralane.io/irisb'',
     ''http://lim.gateway.astralane.io/irisb'']"

definition SWQOS_ENDPOINTS_STELLIUM :: "string list" where
  "SWQOS_ENDPOINTS_STELLIUM =
    [''http://ewr1.flashrpc.com'',
     ''http://fra1.flashrpc.com'',
     ''http://ams1.flashrpc.com'',
     ''http://ewr1.flashrpc.com'',
     ''http://tyo1.flashrpc.com'',
     ''http://lhr1.flashrpc.com'',
     ''http://ewr1.flashrpc.com'',
     ''http://fra1.flashrpc.com'']"

definition SWQOS_ENDPOINTS_SOYAS :: "string list" where
  "SWQOS_ENDPOINTS_SOYAS =
    [''nyc.landing.soyas.xyz:9000'',
     ''fra.landing.soyas.xyz:9000'',
     ''ams.landing.soyas.xyz:9000'',
     ''nyc.landing.soyas.xyz:9000'',
     ''tyo.landing.soyas.xyz:9000'',
     ''lon.landing.soyas.xyz:9000'',
     ''nyc.landing.soyas.xyz:9000'',
     ''fra.landing.soyas.xyz:9000'']"

definition SWQOS_ENDPOINTS_SPEEDLANDING :: "string list" where
  "SWQOS_ENDPOINTS_SPEEDLANDING =
    [''nyc.speedlanding.trade:17778'',
     ''fra.speedlanding.trade:17778'',
     ''ams.speedlanding.trade:17778'',
     ''nyc.speedlanding.trade:17778'',
     ''tyo.speedlanding.trade:17778'',
     ''fra.speedlanding.trade:17778'',
     ''nyc.speedlanding.trade:17778'',
     ''fra.speedlanding.trade:17778'']"

definition SWQOS_ENDPOINTS_HELIUS :: "string list" where
  "SWQOS_ENDPOINTS_HELIUS =
    [''http://ewr-sender.helius-rpc.com/fast'',
     ''http://fra-sender.helius-rpc.com/fast'',
     ''http://ams-sender.helius-rpc.com/fast'',
     ''http://slc-sender.helius-rpc.com/fast'',
     ''http://tyo-sender.helius-rpc.com/fast'',
     ''http://lon-sender.helius-rpc.com/fast'',
     ''http://sg-sender.helius-rpc.com/fast'',
     ''https://sender.helius-rpc.com/fast'']"

definition SWQOS_MIN_TIP_DEFAULT :: f64 where "SWQOS_MIN_TIP_DEFAULT = 1 / 100000"
definition SWQOS_MIN_TIP_JITO :: f64 where "SWQOS_MIN_TIP_JITO = 1 / 100000"
definition SWQOS_MIN_TIP_NEXTBLOCK :: f64 where "SWQOS_MIN_TIP_NEXTBLOCK = 1 / 1000"
definition SWQOS_MIN_TIP_ZERO_SLOT :: f64 where "SWQOS_MIN_TIP_ZERO_SLOT = 1 / 10000"
definition SWQOS_MIN_TIP_TEMPORAL :: f64 where "SWQOS_MIN_TIP_TEMPORAL = 1 / 10000"
definition SWQOS_MIN_TIP_BLOXROUTE :: f64 where "SWQOS_MIN_TIP_BLOXROUTE = 1 / 10000"
definition SWQOS_MIN_TIP_NODE1 :: f64 where "SWQOS_MIN_TIP_NODE1 = 1 / 10000"
definition SWQOS_MIN_TIP_FLASHBLOCK :: f64 where "SWQOS_MIN_TIP_FLASHBLOCK = 1 / 10000"
definition SWQOS_MIN_TIP_BLOCKRAZOR :: f64 where "SWQOS_MIN_TIP_BLOCKRAZOR = 1 / 10000"
definition SWQOS_MIN_TIP_ASTRALANE :: f64 where "SWQOS_MIN_TIP_ASTRALANE = 1 / 100000"
definition SWQOS_MIN_TIP_STELLIUM :: f64 where "SWQOS_MIN_TIP_STELLIUM = 1 / 10000"
definition SWQOS_MIN_TIP_LIGHTSPEED :: f64 where "SWQOS_MIN_TIP_LIGHTSPEED = 1 / 10000"
definition SWQOS_MIN_TIP_SOYAS :: f64 where "SWQOS_MIN_TIP_SOYAS = 1 / 1000"
definition SWQOS_MIN_TIP_SPEEDLANDING :: f64 where "SWQOS_MIN_TIP_SPEEDLANDING = 1 / 1000"
definition SWQOS_MIN_TIP_HELIUS :: f64 where "SWQOS_MIN_TIP_HELIUS = 2 / 10000"
definition SWQOS_MIN_TIP_HELIUS_SWQOS_ONLY :: f64 where "SWQOS_MIN_TIP_HELIUS_SWQOS_ONLY = 5 / 1000000"

text \<open>The default \<open>min_tip_sol\<close> of the client trait.\<close>

fun min_tip_of_type :: "SwqosType \<Rightarrow> f64" where
  "min_tip_of_type SwqosJito = SWQOS_MIN_TIP_JITO"
| "min_tip_of_type SwqosNextBlock = SWQOS_MIN_TIP_NEXTBLOCK"
| "min_tip_of_type SwqosZeroSlot = SWQOS_MIN_TIP_ZERO_SLOT"
| "min_tip_of_type SwqosTemporal = SWQOS_MIN_TIP_TEMPORAL"
| "min_tip_of_type SwqosBloxroute = SWQOS_MIN_TIP_BLOXROUTE"
| "min_tip_of_type SwqosNode1 = SWQOS_MIN_TIP_NODE1"
| "min_tip_of_type SwqosFlashBlock = SWQOS_MIN_TIP_FLASHBLOCK"
| "min_tip_of_type SwqosBlockRazor = SWQOS_MIN_TIP_BLOCKRAZOR"
| "min_tip_of_type SwqosAstralane = SWQOS_MIN_TIP_ASTRALANE"
| "min_tip_of_type SwqosStellium = SWQOS_MIN_TIP_STELLIUM"
| "min_tip_of_type SwqosLightspeed = SWQOS_MIN_TIP_LIGHTSPEED"
| "min_tip_of_type SwqosSoyas = SWQOS_MIN_TIP_SOYAS"
| "min_tip_of_type SwqosSpeedlanding = SWQOS_MIN_TIP_SPEEDLANDING"
| "min_tip_of_type SwqosHelius = SWQOS_MIN_TIP_HELIUS"
| "min_tip_of_type SwqosDefault = SWQOS_MIN_TIP_DEFAULT"

section \<open>Configurations\<close>

datatype SwqosConfig =
    CfgDefault string
  | CfgJito string SwqosRegion "string option"
  | CfgNextBlock string SwqosRegion "string option"
  | CfgBloxroute string SwqosRegion "string option"
  | CfgTemporal string SwqosRegion "string option"
  | CfgZeroSlot string SwqosRegion "string option"
  | CfgNode1 string SwqosRegion "string option"
  | CfgFlashBlock string SwqosRegion "string option"
  | CfgBlockRazor string SwqosRegion "string option"
  | CfgAstralane string SwqosRegion "string option"
  | CfgStellium string SwqosRegion "string option"
  | CfgLightspeed string SwqosRegion "string option"
  | CfgSoyas string SwqosRegion "string option"
  | CfgSpeedlanding string SwqosRegion "string option"
  | CfgHelius string SwqosRegion "string option" "bool option"

fun swqos_type_of :: "SwqosConfig \<Rightarrow> SwqosType" where
  "swqos_type_of (CfgDefault _) = SwqosDefault"
| "swqos_type_of (CfgJito _ _ _) = SwqosJito"
| "swqos_type_of (CfgNextBlock _ _ _) = SwqosNextBlock"
| "swqos_type_of (CfgBloxroute _ _ _) = SwqosBloxroute"
| "swqos_type_of (CfgTemporal _ _ _) = SwqosTemporal"
| "swqos_type_of (CfgZeroSlot _ _ _) = SwqosZeroSlot"
| "swqos_type_of (CfgNode1 _ _ _) = SwqosNode1"
| "swqos_type_of (CfgFlashBlock _ _ _) = SwqosFlashBlock"
| "swqos_type_of (CfgBlockRazor _ _ _) = SwqosBlockRazor"
| "swqos_type_of (CfgAstralane _ _ _) = SwqosAstralane"
| "swqos_type_of (CfgStellium _ _ _) = SwqosStellium"
| "swqos_type_of (CfgLightspeed _ _ _) = SwqosLightspeed"
| "swqos_type_of (CfgSoyas _ _ _) = SwqosSoyas"
| "swqos_type_of (CfgSpeedlanding _ _ _) = SwqosSpeedlanding"
| "swqos_type_of (CfgHelius _ _ _ _) = SwqosHelius"

definition SWQOS_BLACKLIST :: "SwqosType list" where "SWQOS_BLACKLIST = [SwqosNextBlock]"

definition is_blacklisted :: "SwqosConfig \<Rightarrow> bool" where
  "is_blacklisted c = List.member SWQOS_BLACKLIST (swqos_type_of c)"

fun endpoint_table :: "SwqosType \<Rightarrow> string list option" where
  "endpoint_table SwqosLightspeed = None"
| "endpoint_table SwqosDefault = None"
| "endpoint_table SwqosJito = Some SWQOS_ENDPOINTS_JITO"
| "endpoint_table SwqosNextBlock = Some SWQOS_ENDPOINTS_NEXTBLOCK"
| "endpoint_table SwqosZeroSlot = Some SWQOS_ENDPOINTS_ZERO_SLOT"
| "endpoint_table SwqosTemporal = Some SWQOS_ENDPOINTS_TEMPORAL"
| "endpoint_table SwqosBloxroute = Some SWQOS_ENDPOINTS_BLOX"
| "endpoint_table SwqosNode1 = Some SWQOS_ENDPOINTS_NODE1"
| "endpoint_table SwqosFlashBlock = Some SWQOS_ENDPOINTS_FLASHBLOCK"
| "endpoint_table SwqosBlockRazor = Some SWQOS_ENDPOINTS_BLOCKRAZOR"
| "endpoint_table SwqosAstralane = Some SWQOS_ENDPOINTS_ASTRALANE"
| "endpoint_table SwqosStellium = Some SWQOS_ENDPOINTS_STELLIUM"
| "endpoint_table SwqosSoyas = Some SWQOS_ENDPOINTS_SOYAS"
| "endpoint_table SwqosSpeedlanding = Some SWQOS_ENDPOINTS_SPEEDLANDING"
| "endpoint_table SwqosHelius = Some SWQOS_ENDPOINTS_HELIUS"

text \<open>A custom URL wins; otherwise the table of the provider at the region, and the empty string
  for the two providers without a table.\<close>

definition get_endpoint :: "SwqosType \<Rightarrow> SwqosRegion \<Rightarrow> string option \<Rightarrow> string" where
  "get_endpoint swqos_type region url =
    (case url of
       Some custom_url \<Rightarrow> custom_url
     | None \<Rightarrow> (case endpoint_table swqos_type of
          Some table \<Rightarrow> table ! region_index region
        | None \<Rightarrow> []))"

section \<open>Clients\<close>

record swqos_client =
  sc_type :: SwqosType
  sc_rpc_url :: string
  sc_endpoint :: string
  sc_auth_token :: "string option"
  sc_swqos_only :: bool

text \<open>\<open>min_tip_sol\<close>: the trait's default, which only the Helius client overrides.\<close>

definition min_tip_sol :: "swqos_client \<Rightarrow> f64" where
  "min_tip_sol c =
    (if sc_type c = SwqosHelius
     then if sc_swqos_only c then SWQOS_MIN_TIP_HELIUS_SWQOS_ONLY else SWQOS_MIN_TIP_HELIUS
     else min_tip_of_type (sc_type c))"

definition http_client :: "SwqosType \<Rightarrow> string \<Rightarrow> string \<Rightarrow> string \<Rightarrow> swqos_client" where
  "http_client ty rpc_url endpoint auth_token =
    \<lparr> sc_type = ty, sc_rpc_url = rpc_url, sc_endpoint = endpoint, sc_auth_token = Some auth_token,
      sc_swqos_only = False \<rparr>"

text \<open>\<open>get_swqos_client\<close>. The two QUIC clients connect while they are built; \<open>connect\<close> is the
  outcome of that connection for the endpoint.\<close>

fun get_swqos_client ::
  "(string \<Rightarrow> (unit, string) outcome) \<Rightarrow> string \<Rightarrow> SwqosConfig \<Rightarrow> (swqos_client, string) outcome" where
  "get_swqos_client connect rpc_url (CfgJito auth_token region url) =
    Ok (http_client SwqosJito rpc_url (get_endpoint SwqosJito region url) auth_token)"
| "get_swqos_client connect rpc_url (CfgNextBlock auth_token region url) =
    Ok (http_client SwqosNextBlock rpc_url (get_endpoint SwqosNextBlock region url) auth_token)"
| "get_swqos_client connect rpc_url (CfgZeroSlot auth_token region url) =
    Ok (http_client SwqosZeroSlot rpc_url (get_endpoint SwqosZeroSlot region url) auth_token)"
| "get_swqos_client connect rpc_url (CfgTemporal auth_token region url) =
    Ok (http_client SwqosTemporal rpc_url (get_endpoint SwqosTemporal region url) auth_token)"
| "get_swqos_client connect rpc_url (CfgBloxroute auth_token region url) =
    Ok (http_client SwqosBloxroute rpc_url (get_endpoint SwqosBloxroute region url) auth_token)"
| "get_swqos_client connect rpc_url (CfgNode1 auth_token region url) =
    Ok (http_client SwqosNode1 rpc_url (get_endpoint SwqosNode1 region url) auth_token)"
| "get_swqos_client connect rpc_url (CfgFlashBlock auth_token region url) =
    Ok (http_client SwqosFlashBlock rpc_url (get_endpoint SwqosFlashBlock region url) auth_token)"
| "get_swqos_client connect rpc_url (CfgBlockRazor auth_token region url) =
    Ok (http_client SwqosBlockRazor rpc_url (get_endpoint SwqosBlockRazor region url) auth_token)"
| "get_swqos_client connect rpc_url (CfgAstralane auth_token region url) =
    Ok (http_client SwqosAstralane rpc_url (get_endpoint SwqosAstralane region url) auth_token)"
| "get_swqos_client connect rpc_url (CfgStellium auth_token region url) =
    Ok (http_client SwqosStellium rpc_url (get_endpoint SwqosStellium region url) auth_token)"
| "get_swqos_client connect rpc_url (CfgLightspeed auth_token region url) =
    Ok (http_client SwqosLightspeed rpc_url (get_endpoint SwqosLightspeed region url) auth_token)"
| "get_swqos_client connect rpc_url (CfgSoyas auth_token region url) =
    (let endpoint = get_endpoint SwqosSoyas region url
     in obind (connect endpoint) (\<lambda>_. Ok (http_client SwqosSoyas rpc_url endpoint auth_token)))"
| "get_swqos_client connect rpc_url (CfgSpeedlanding auth_token region url) =
    (let endpoint = get_endpoint SwqosSpeedlanding region url
     in obind (connect endpoint) (\<lambda>_. Ok (http_client SwqosSpeedlanding rpc_url endpoint auth_token)))"
| "get_swqos_client connect rpc_url (CfgHelius api_key region url swqos_only) =
    (let swqos_only = unwrap_or False swqos_only;
         endpoint = get_endpoint SwqosHelius region url;
         api_key_opt = (if api_key = [] then None else Some api_key)
     in Ok \<lparr> sc_type = SwqosHelius, sc_rpc_url = rpc_url, sc_endpoint = endpoint,
             sc_auth_token = api_key_opt, sc_swqos_only = swqos_only \<rparr>)"
| "get_swqos_client connect rpc_url (CfgDefault endpoint) =
    Ok \<lparr> sc_type = SwqosDefault, sc_rpc_url = endpoint, sc_endpoint = endpoint, sc_auth_token = None,
         sc_swqos_only = False \<rparr>"

section \<open>Lemmas\<close>

lemma region_index_less: "region_index r < 8"
  by (cases r) simp_all

lemma get_swqos_client_type:
  "get_swqos_client connect rpc c = Ok cl \<Longrightarrow> sc_type cl = swqos_type_of c"
  by (cases c) (auto simp: http_client_def Let_def obind_Ok_iff)

lemma endpoint_table_length: "endpoint_table t = Some tab \<Longrightarrow> length tab = 8"
  by (cases t) (auto simp: SWQOS_ENDPOINTS_JITO_def SWQOS_ENDPOINTS_NEXTBLOCK_def SWQOS_ENDPOINTS_ZERO_SLOT_def
      SWQOS_ENDPOINTS_TEMPORAL_def SWQOS_ENDPOINTS_BLOX_def SWQOS_ENDPOINTS_NODE1_def
      SWQOS_ENDPOINTS_FLASHBLOCK_def SWQOS_ENDPOINTS_BLOCKRAZOR_def SWQOS_ENDPOINTS_ASTRALANE_def
      SWQOS_ENDPOINTS_STELLIUM_def SWQOS_ENDPOINTS_SOYAS_def SWQOS_ENDPOINTS_SPEEDLANDING_def
      SWQOS_ENDPOINTS_HELIUS_def)

lemma min_tip_pos: "0 < min_tip_sol c"
  by (cases "sc_type c") (simp_all add: min_tip_sol_def SWQOS_MIN_TIP_JITO_def SWQOS_MIN_TIP_NEXTBLOCK_def
      SWQOS_MIN_TIP_ZERO_SLOT_def SWQOS_MIN_TIP_TEMPORAL_def SWQOS_MIN_TIP_BLOXROUTE_def SWQOS_MIN_TIP_NODE1_def
      SWQOS_MIN_TIP_FLASHBLOCK_def SWQOS_MIN_TIP_BLOCKRAZOR_def SWQOS_MIN_TIP_ASTRALANE_def
      SWQOS_MIN_TIP_STELLIUM_def SWQOS_MIN_TIP_LIGHTSPEED_def SWQOS_MIN_TIP_SOYAS_def
      SWQOS_MIN_TIP_SPEEDLANDING_def SWQOS_MIN_TIP_HELIUS_def SWQOS_MIN_TIP_HELIUS_SWQOS_ONLY_def
      SWQOS_MIN_TIP_DEFAULT_def)

text \<open>The constants for Stellium and Lightspeed are a tenth of the 0.001 SOL that the comments
  beside them, and the comment at the Lightspeed configuration, call the minimum.\<close>

lemma stellium_lightspeed_tips:
  "10 * min_tip_of_type SwqosStellium = 1 / 1000" "10 * min_tip_of_type SwqosLightspeed = 1 / 1000"
  by (simp_all add: SWQOS_MIN_TIP_STELLIUM_def SWQOS_MIN_TIP_LIGHTSPEED_def)

end
