(* ===== verification/Gas_Fee.thy ===== *)
theory Gas_Fee
  imports Swqos_Types
begin

text \<open>
  The fee-strategy table of \<open>src/common/gas_fee_strategy.rs\<close>: a map from provider, trade and
  strategy kind to a compute limit, a compute price and a tip. Every operation of the code
  is a sequence of atomic updates of the shared map (\<open>rcu\<close>), so the model has the atomic
  steps and each operation as the fold of its steps; interleavings of two operations are
  then shuffles of their step lists. \<open>get_strategies\<close> collects the providers in a hash set
  first; the order in which that set is walked is its parameter.
\<close>

section \<open>State and atomic steps\<close>

datatype GasFeeStrategyType = Normal | LowTipHighCuPrice | HighTipLowCuPrice

definition strategy_values :: "GasFeeStrategyType list" where
  "strategy_values = [Normal, LowTipHighCuPrice, HighTipLowCuPrice]"

record GasFeeStrategyValue =
  gv_cu_limit :: u32
  gv_cu_price :: u64
  gv_tip :: f64

type_synonym gas_key = "SwqosType \<times> TradeType \<times> GasFeeStrategyType"
type_synonym gas_map = "gas_key \<rightharpoonup> GasFeeStrategyValue"

definition gas_new :: gas_map where
  "gas_new = Map.empty"

datatype gas_step =
    Remove "gas_key list"
  | Insert gas_key GasFeeStrategyValue

fun run_step :: "gas_step \<Rightarrow> gas_map \<Rightarrow> gas_map" where
  "run_step (Remove ks) m = foldl (\<lambda>m k. m(k := None)) m ks"
| "run_step (Insert k v) m = m(k \<mapsto> v)"

definition run_steps :: "gas_step list \<Rightarrow> gas_map \<Rightarrow> gas_map" where
  "run_steps ss m = fold run_step ss m"

section \<open>Operations\<close>

definition del_steps :: "SwqosType \<Rightarrow> TradeType \<Rightarrow> GasFeeStrategyType \<Rightarrow> gas_step list" where
  "del_steps s t g = [Remove [(s, t, g)]]"

definition del_all_steps :: "SwqosType \<Rightarrow> TradeType \<Rightarrow> gas_step list" where
  "del_all_steps s t = [Remove [(s, t, Normal), (s, t, LowTipHighCuPrice), (s, t, HighTipLowCuPrice)]]"

definition set_steps ::
  "SwqosType \<Rightarrow> TradeType \<Rightarrow> GasFeeStrategyType \<Rightarrow> u32 \<Rightarrow> u64 \<Rightarrow> f64 \<Rightarrow> gas_step list" where
  "set_steps s t g cu_limit cu_price tip =
    (if g = Normal then del_steps s t HighTipLowCuPrice @ del_steps s t LowTipHighCuPrice
     else del_steps s t Normal)
    @ [Insert (s, t, g) \<lparr> gv_cu_limit = cu_limit, gv_cu_price = cu_price, gv_tip = tip \<rparr>]"

definition set_global_steps :: "u32 \<Rightarrow> u32 \<Rightarrow> u64 \<Rightarrow> u64 \<Rightarrow> f64 \<Rightarrow> f64 \<Rightarrow> gas_step list" where
  "set_global_steps buy_cu_limit sell_cu_limit buy_cu_price sell_cu_price buy_tip sell_tip =
    concat (map (\<lambda>s. if s = SwqosDefault then []
        else set_steps s Buy Normal buy_cu_limit buy_cu_price buy_tip
           @ set_steps s Sell Normal sell_cu_limit sell_cu_price sell_tip) swqos_values)
    @ set_steps SwqosDefault Buy Normal buy_cu_limit buy_cu_price 0
    @ set_steps SwqosDefault Sell Normal sell_cu_limit sell_cu_price 0"

definition high_low_steps ::
  "SwqosType \<Rightarrow> TradeType \<Rightarrow> u32 \<Rightarrow> u64 \<Rightarrow> u64 \<Rightarrow> f64 \<Rightarrow> f64 \<Rightarrow> gas_step list" where
  "high_low_steps s t cu_limit low_cu_price high_cu_price low_tip high_tip =
    del_steps s t Normal
    @ set_steps s t LowTipHighCuPrice cu_limit high_cu_price low_tip
    @ set_steps s t HighTipLowCuPrice cu_limit low_cu_price high_tip"

definition set_high_low_fee_strategies_steps ::
  "SwqosType list \<Rightarrow> TradeType \<Rightarrow> u32 \<Rightarrow> u64 \<Rightarrow> u64 \<Rightarrow> f64 \<Rightarrow> f64 \<Rightarrow> gas_step list" where
  "set_high_low_fee_strategies_steps ss t cu_limit low_cu_price high_cu_price low_tip high_tip =
    concat (map (\<lambda>s. high_low_steps s t cu_limit low_cu_price high_cu_price low_tip high_tip) ss)"

definition set_high_low_fee_strategy_steps ::
  "SwqosType \<Rightarrow> TradeType \<Rightarrow> u32 \<Rightarrow> u64 \<Rightarrow> u64 \<Rightarrow> f64 \<Rightarrow> f64 \<Rightarrow> gas_step list" where
  "set_high_low_fee_strategy_steps s t cu_limit low_cu_price high_cu_price low_tip high_tip =
    (if s = SwqosDefault then []
     else high_low_steps s t cu_limit low_cu_price high_cu_price low_tip high_tip)"

definition set_normal_fee_strategy_steps ::
  "SwqosType \<Rightarrow> u32 \<Rightarrow> u64 \<Rightarrow> f64 \<Rightarrow> f64 \<Rightarrow> gas_step list" where
  "set_normal_fee_strategy_steps s cu_limit cu_price buy_tip sell_tip =
    del_all_steps s Buy @ del_all_steps s Sell
    @ set_steps s Buy Normal cu_limit cu_price buy_tip
    @ set_steps s Sell Normal cu_limit cu_price sell_tip"

definition set_normal_fee_strategies_steps ::
  "SwqosType list \<Rightarrow> u32 \<Rightarrow> u64 \<Rightarrow> f64 \<Rightarrow> f64 \<Rightarrow> gas_step list" where
  "set_normal_fee_strategies_steps ss cu_limit cu_price buy_tip sell_tip =
    concat (map (\<lambda>s. set_normal_fee_strategy_steps s cu_limit cu_price buy_tip sell_tip) ss)"

text \<open>The four updates of one field rewrite every entry of a trade type in one atomic step.\<close>

definition update_where ::
  "TradeType \<Rightarrow> (GasFeeStrategyValue \<Rightarrow> GasFeeStrategyValue) \<Rightarrow> gas_map \<Rightarrow> gas_map" where
  "update_where t f m = (\<lambda>k. case k of (s, t', g) \<Rightarrow> if t' = t then map_option f (m k) else m k)"

definition update_buy_tip :: "f64 \<Rightarrow> gas_map \<Rightarrow> gas_map" where
  "update_buy_tip x = update_where Buy (\<lambda>v. v \<lparr> gv_tip := x \<rparr>)"
definition update_sell_tip :: "f64 \<Rightarrow> gas_map \<Rightarrow> gas_map" where
  "update_sell_tip x = update_where Sell (\<lambda>v. v \<lparr> gv_tip := x \<rparr>)"
definition update_buy_cu_price :: "u64 \<Rightarrow> gas_map \<Rightarrow> gas_map" where
  "update_buy_cu_price x = update_where Buy (\<lambda>v. v \<lparr> gv_cu_price := x \<rparr>)"
definition update_sell_cu_price :: "u64 \<Rightarrow> gas_map \<Rightarrow> gas_map" where
  "update_sell_cu_price x = update_where Sell (\<lambda>v. v \<lparr> gv_cu_price := x \<rparr>)"

definition clear :: "gas_map \<Rightarrow> gas_map" where
  "clear m = gas_new"

definition get_strategies ::
  "SwqosType list \<Rightarrow> TradeType \<Rightarrow> gas_map \<Rightarrow> (SwqosType \<times> GasFeeStrategyType \<times> GasFeeStrategyValue) list" where
  "get_strategies order t m =
    concat (map (\<lambda>s. concat (map (\<lambda>g. case m (s, t, g) of Some v \<Rightarrow> [(s, g, v)] | None \<Rightarrow> []) strategy_values))
      (filter (\<lambda>s. \<exists>g \<in> set strategy_values. m (s, t, g) \<noteq> None) order))"

section \<open>The invariant\<close>

text \<open>A provider and trade has a normal strategy or high/low strategies, never both.\<close>

definition exclusive_at :: "gas_map \<Rightarrow> SwqosType \<Rightarrow> TradeType \<Rightarrow> bool" where
  "exclusive_at m s t =
    (m (s, t, Normal) = None \<or> (m (s, t, LowTipHighCuPrice) = None \<and> m (s, t, HighTipLowCuPrice) = None))"

definition exclusive :: "gas_map \<Rightarrow> bool" where
  "exclusive m \<longleftrightarrow> (\<forall>s t. exclusive_at m s t)"

definition preserves :: "gas_step list \<Rightarrow> bool" where
  "preserves ss \<longleftrightarrow> (\<forall>m. exclusive m \<longrightarrow> exclusive (run_steps ss m))"

named_theorems gas_steps \<open>step lists that keep the table exclusive\<close>

lemma run_steps_simps [simp]:
  "run_steps [] m = m" "run_steps (s # ss) m = run_steps ss (run_step s m)"
  "run_steps (xs @ ys) m = run_steps ys (run_steps xs m)"
  by (simp_all add: run_steps_def)

lemma preserves_Nil [gas_steps]: "preserves []"
  by (simp add: preserves_def)

lemma preserves_append [gas_steps]: "preserves xs \<Longrightarrow> preserves ys \<Longrightarrow> preserves (xs @ ys)"
  by (simp add: preserves_def)

lemma preserves_concat [gas_steps]: "(\<And>x. x \<in> set xs \<Longrightarrow> preserves (f x)) \<Longrightarrow> preserves (concat (map f xs))"
  by (induction xs) (auto intro: gas_steps)

lemma preserves_if [gas_steps]: "(b \<Longrightarrow> preserves x) \<Longrightarrow> (\<not> b \<Longrightarrow> preserves y) \<Longrightarrow> preserves (if b then x else y)"
  by simp

lemma preserves_del [gas_steps]: "preserves (del_steps s t g)"
  unfolding preserves_def del_steps_def exclusive_def exclusive_at_def
  by (cases g; simp; metis option.distinct(1))

lemma preserves_del_all [gas_steps]: "preserves (del_all_steps s t)"
  by (simp add: preserves_def del_all_steps_def exclusive_def exclusive_at_def)

lemma preserves_set [gas_steps]: "preserves (set_steps s t g l p x)"
  by (cases g) (auto simp: preserves_def set_steps_def del_steps_def exclusive_def exclusive_at_def)

lemma preserves_high_low [gas_steps]: "preserves (high_low_steps s t l lp hp lt ht)"
  unfolding high_low_steps_def by (intro gas_steps)

lemma preserves_normal [gas_steps]: "preserves (set_normal_fee_strategy_steps s l p bt st)"
  unfolding set_normal_fee_strategy_steps_def by (intro gas_steps)

lemma preserves_operations [gas_steps]:
  "preserves (set_global_steps bl sl bp sp bt st)"
  "preserves (set_high_low_fee_strategies_steps ss t l lp hp lt ht)"
  "preserves (set_high_low_fee_strategy_steps s t l lp hp lt ht)"
  "preserves (set_normal_fee_strategies_steps ss l p bt st)"
  unfolding set_global_steps_def set_high_low_fee_strategies_steps_def
    set_high_low_fee_strategy_steps_def set_normal_fee_strategies_steps_def
  by (intro gas_steps)+

lemma exclusive_at_update_where: "exclusive_at (update_where t f m) s t' = exclusive_at m s t'"
  by (simp add: exclusive_at_def update_where_def)

lemma exclusive_update_where: "exclusive (update_where t f m) \<longleftrightarrow> exclusive m"
  by (simp add: exclusive_def exclusive_at_update_where)

lemmas update_defs = update_buy_tip_def update_sell_tip_def update_buy_cu_price_def update_sell_cu_price_def

text \<open>Effect of a normal strategy and of a high/low strategy on their own key.\<close>

lemma set_normal_at:
  "run_steps (set_steps s t Normal l p x) m (s', t', g) =
    (if (s', t') = (s, t) then if g = Normal then Some \<lparr> gv_cu_limit = l, gv_cu_price = p, gv_tip = x \<rparr> else None
     else m (s', t', g))"
  by (cases g) (auto simp: set_steps_def del_steps_def)

lemma set_other_at:
  "g \<noteq> Normal \<Longrightarrow> run_steps (set_steps s t g l p x) m (s', t', g') =
    (if (s', t') = (s, t) then if g' = g then Some \<lparr> gv_cu_limit = l, gv_cu_price = p, gv_tip = x \<rparr>
       else if g' = Normal then None else m (s', t', g')
     else m (s', t', g'))"
  by (auto simp: set_steps_def del_steps_def)

section \<open>The operations as a transition system\<close>

inductive gas_op :: "gas_map \<Rightarrow> gas_map \<Rightarrow> bool" where
  op_set: "gas_op m (run_steps (set_steps s t g l p x) m)"
| op_del: "gas_op m (run_steps (del_steps s t g) m)"
| op_del_all: "gas_op m (run_steps (del_all_steps s t) m)"
| op_global: "gas_op m (run_steps (set_global_steps bl sl bp sp bt st) m)"
| op_high_lows: "gas_op m (run_steps (set_high_low_fee_strategies_steps ss t l lp hp lt ht) m)"
| op_high_low: "gas_op m (run_steps (set_high_low_fee_strategy_steps s t l lp hp lt ht) m)"
| op_normals: "gas_op m (run_steps (set_normal_fee_strategies_steps ss l p bt st) m)"
| op_normal: "gas_op m (run_steps (set_normal_fee_strategy_steps s l p bt st) m)"
| op_clear: "gas_op m (clear m)"
| op_buy_tip: "gas_op m (update_buy_tip x m)"
| op_sell_tip: "gas_op m (update_sell_tip x m)"
| op_buy_price: "gas_op m (update_buy_cu_price y m)"
| op_sell_price: "gas_op m (update_sell_cu_price y m)"

lemma exclusive_new: "exclusive gas_new"
  by (simp add: exclusive_def exclusive_at_def gas_new_def)

lemma gas_op_exclusive: "gas_op m m' \<Longrightarrow> exclusive m \<Longrightarrow> exclusive m'"
proof (induction rule: gas_op.induct)
  case (op_clear m)
  then show ?case by (simp add: clear_def exclusive_new)
qed (use gas_steps in \<open>auto simp: preserves_def update_defs exclusive_update_where\<close>)

section \<open>Properties\<close>

text \<open>No sequence of operations on a fresh table leaves a provider and trade
  with both a normal and a high/low strategy: every operation that adds one kind first
  removes the other.\<close>

theorem gas_table_exclusive:
  assumes "gas_op\<^sup>*\<^sup>* gas_new m"
  shows "exclusive m"
  using assms
proof (induction rule: rtranclp_induct)
  case base
  show ?case by (rule exclusive_new)
next
  case (step m m')
  then show ?case using gas_op_exclusive by blast
qed

theorem gas_table_exclusive_witness:
  "exclusive (update_buy_tip 3 (run_steps (set_high_low_fee_strategy_steps SwqosJito Buy 1 2 3 4 5)
     (run_steps (set_global_steps 1 1 1 1 1 1) gas_new)))"
proof (rule gas_table_exclusive)
  show "gas_op\<^sup>*\<^sup>* gas_new (update_buy_tip 3 (run_steps (set_high_low_fee_strategy_steps SwqosJito Buy 1 2 3 4 5)
     (run_steps (set_global_steps 1 1 1 1 1 1) gas_new)))"
    by (meson op_buy_tip op_global op_high_low rtranclp.rtrancl_into_rtrancl rtranclp.rtrancl_refl)
qed

text \<open>Exclusivity is a property of whole operations, not of their steps. Two
  threads that set a normal and a high strategy of the same provider at the same time
  can leave both in the table: there is an interleaving of the atomic steps of two
  \<open>set\<close> calls, starting from a fresh table, whose result is not exclusive.\<close>

theorem gas_set_race:
  "\<exists>ss \<in> shuffles (set_steps s t Normal l p x) (set_steps s t HighTipLowCuPrice l' p' x').
     \<not> exclusive (run_steps ss gas_new)"
proof
  let ?v = "\<lparr> gv_cu_limit = l, gv_cu_price = p, gv_tip = x \<rparr>"
  let ?v' = "\<lparr> gv_cu_limit = l', gv_cu_price = p', gv_tip = x' \<rparr>"
  let ?ss = "[Remove [(s, t, HighTipLowCuPrice)], Remove [(s, t, LowTipHighCuPrice)],
    Remove [(s, t, Normal)], Insert (s, t, Normal) ?v, Insert (s, t, HighTipLowCuPrice) ?v']"
  show "\<not> exclusive (run_steps ?ss gas_new)"
    by (auto simp: exclusive_def exclusive_at_def intro!: exI [of _ s] exI [of _ t])
  show "?ss \<in> shuffles (set_steps s t Normal l p x) (set_steps s t HighTipLowCuPrice l' p' x')"
    by (simp add: set_steps_def del_steps_def Cons_in_shuffles_iff)
qed

lemma get_strategies_set:
  "set (get_strategies order t m) = {(s, g, v). s \<in> set order \<and> m (s, t, g) = Some v}"
proof -
  have "g \<in> set strategy_values" for g by (cases g) (simp_all add: strategy_values_def)
  then show ?thesis by (force simp: get_strategies_def split: option.splits)
qed

text \<open>\<open>get_strategies\<close> lists the table. In every order in which the hash set of
  providers may be walked, the result holds exactly the entries of the trade type, each
  once.\<close>

lemma get_strategies_lists_table:
  assumes "distinct order" "set order = UNIV"
  shows "set (get_strategies order t m) = {(s, g, v). m (s, t, g) = Some v}
    \<and> distinct (get_strategies order t m)"
proof
  show "set (get_strategies order t m) = {(s, g, v). m (s, t, g) = Some v}"
    using assms(2) by (simp add: get_strategies_set)
  let ?row = "\<lambda>s. concat (map (\<lambda>g. case m (s, t, g) of Some v \<Rightarrow> [(s, g, v)] | None \<Rightarrow> []) strategy_values)"
  have row: "distinct (?row s)" "set (?row s) \<subseteq> {(s', g, v). s' = s}" for s
    by (auto simp: strategy_values_def split: option.splits)
  have "distinct (concat (map ?row xs)) \<and> set (concat (map ?row xs)) \<subseteq> {(s', g, v). s' \<in> set xs}"
    if "distinct xs" for xs
    using that
  proof (induction xs)
    case (Cons a xs)
    then show ?case using row [of a] by auto
  qed simp
  then show "distinct (get_strategies order t m)"
    using assms(1) by (simp only: get_strategies_def distinct_filter)
qed

lemma gas_steps_other:
  "s' \<noteq> s \<Longrightarrow> run_steps (set_steps s t g l p x) m (s', t', g') = m (s', t', g')"
  by (auto simp: set_steps_def del_steps_def)

lemma global_row:
  "run_steps (concat (map (\<lambda>s. if s = SwqosDefault then []
      else set_steps s Buy Normal bl bp bt @ set_steps s Sell Normal sl sp st) ss)) m (s', Buy, g) =
    (if s' \<in> set ss \<and> s' \<noteq> SwqosDefault
     then if g = Normal then Some \<lparr> gv_cu_limit = bl, gv_cu_price = bp, gv_tip = bt \<rparr> else None
     else m (s', Buy, g))"
proof (induction ss arbitrary: m)
  case (Cons a ss)
  show ?case by (simp add: Cons.IH set_normal_at)
qed simp

lemma global_strategy_list:
  assumes "distinct order" "set order = UNIV"
  shows "get_strategies order Buy (run_steps (set_global_steps bl sl bp sp bt st) m) =
    map (\<lambda>s. (s, Normal, \<lparr> gv_cu_limit = bl, gv_cu_price = bp,
      gv_tip = (if s = SwqosDefault then 0 else bt) \<rparr>)) order"
proof -
  let ?m = "run_steps (set_global_steps bl sl bp sp bt st) m"
  let ?val = "\<lambda>s. \<lparr> gv_cu_limit = bl, gv_cu_price = bp, gv_tip = (if s = SwqosDefault then 0 else bt) \<rparr>"
  have at: "?m (s, Buy, g) = (if g = Normal then Some (?val s) else None)" for s g
    using swqos_values_complete by (simp add: set_global_steps_def set_normal_at global_row)
  then have "filter (\<lambda>s. \<exists>g \<in> set strategy_values. ?m (s, Buy, g) \<noteq> None) order = order"
    by (intro filter_True) (auto simp: strategy_values_def)
  moreover have "concat (map (\<lambda>g. case ?m (s, Buy, g) of Some v \<Rightarrow> [(s, g, v)] | None \<Rightarrow> []) strategy_values)
      = [(s, Normal, ?val s)]" for s
    by (simp add: strategy_values_def at)
  ultimately show ?thesis by (simp add: get_strategies_def concat_map_singleton)
qed

text \<open>The global strategy. After \<open>set_global_fee_strategy\<close>, on any table, the
  strategies of a buy are one normal strategy per provider, with the given limit, price and
  tip, except that the default provider has no tip; the high/low strategies that were there
  are gone.\<close>

lemma global_strategy_buys:
  assumes "distinct order" "set order = UNIV"
  shows "get_strategies order Buy (run_steps (set_global_steps bl sl bp sp bt st) m) =
    map (\<lambda>s. (s, Normal, \<lparr> gv_cu_limit = bl, gv_cu_price = bp,
      gv_tip = (if s = SwqosDefault then 0 else bt) \<rparr>)) order"
  using assms by (rule global_strategy_list)

end
