(* ===== verification/Trade_Params.thy ===== *)
theory Trade_Params
  imports Bonding_Curve Gas_Fee
begin

text \<open>
  The parameters of one swap, from \<open>src/trading/core/params.rs\<close>, with the instruction
  middlewares of \<open>src/trading/middleware\<close> and the durable-nonce information of
  \<open>src/common/nonce_cache.rs\<close>. A keypair appears as its public key. An RPC client, a logger
  and CPU pinning carry no data that the modelled code computes with; the presence of the
  RPC client is a flag.
\<close>

section \<open>Middlewares\<close>

record middleware =
  mw_name :: string
  mw_protocol :: "Instruction list \<Rightarrow> string \<Rightarrow> bool \<Rightarrow> (Instruction list, string) outcome"
  mw_full :: "Instruction list \<Rightarrow> string \<Rightarrow> bool \<Rightarrow> (Instruction list, string) outcome"

definition manager_new :: "middleware list" where
  "manager_new = []"

definition add_middleware :: "middleware list \<Rightarrow> middleware \<Rightarrow> middleware list" where
  "add_middleware ms m = ms @ [m]"

text \<open>The two loops over the middlewares: stop at the first error, and after a middleware that
  returns no instruction.\<close>

primrec apply_middlewares_process_full_instructions ::
  "middleware list \<Rightarrow> Instruction list \<Rightarrow> string \<Rightarrow> bool \<Rightarrow> (Instruction list, string) outcome" where
  "apply_middlewares_process_full_instructions [] ixs name is_buy = Ok ixs"
| "apply_middlewares_process_full_instructions (m # ms) ixs name is_buy =
    obind (mw_full m ixs name is_buy) (\<lambda>ixs'.
      if ixs' = [] then Ok ixs' else apply_middlewares_process_full_instructions ms ixs' name is_buy)"

primrec apply_middlewares_process_protocol_instructions ::
  "middleware list \<Rightarrow> Instruction list \<Rightarrow> string \<Rightarrow> bool \<Rightarrow> (Instruction list, string) outcome" where
  "apply_middlewares_process_protocol_instructions [] ixs name is_buy = Ok ixs"
| "apply_middlewares_process_protocol_instructions (m # ms) ixs name is_buy =
    obind (mw_protocol m ixs name is_buy) (\<lambda>ixs'.
      if ixs' = [] then Ok ixs' else apply_middlewares_process_protocol_instructions ms ixs' name is_buy)"

text \<open>\<open>LoggingMiddleware\<close> prints and returns its input.\<close>

definition LoggingMiddleware :: middleware where
  "LoggingMiddleware = \<lparr> mw_name = ''LoggingMiddleware'',
     mw_protocol = (\<lambda>ixs name is_buy. Ok ixs), mw_full = (\<lambda>ixs name is_buy. Ok ixs) \<rparr>"

definition with_common_middlewares :: "middleware list" where
  "with_common_middlewares = add_middleware manager_new LoggingMiddleware"

section \<open>Protocol parameters\<close>

record PumpFunParams =
  pf_bonding_curve :: BondingCurveAccount
  pf_associated_bonding_curve :: pubkey
  pf_creator_vault :: pubkey
  pf_token_program :: pubkey
  pf_close_token_account_when_sell :: "bool option"

definition default_curve :: BondingCurveAccount where
  "default_curve = \<lparr> bc_discriminator = 0, bc_account = pubkey_default, virtual_token_reserves = 0,
     virtual_sol_reserves = 0, real_token_reserves = 0, real_sol_reserves = 0, token_total_supply = 0,
     complete = False, bc_creator = pubkey_default, bc_is_mayhem_mode = False, bc_is_cashback_coin = False \<rparr>"

definition immediate_sell :: "pubkey \<Rightarrow> pubkey \<Rightarrow> bool \<Rightarrow> PumpFunParams" where
  "immediate_sell creator_vault token_program close_token_account_when_sell =
    \<lparr> pf_bonding_curve = default_curve, pf_associated_bonding_curve = pubkey_default,
      pf_creator_vault = creator_vault, pf_token_program = token_program,
      pf_close_token_account_when_sell = Some close_token_account_when_sell \<rparr>"

definition pf_from_dev_trade ::
  "extern \<Rightarrow> pubkey \<Rightarrow> u64 \<Rightarrow> u64 \<Rightarrow> pubkey \<Rightarrow> pubkey \<Rightarrow> pubkey \<Rightarrow> pubkey \<Rightarrow> bool option \<Rightarrow> pubkey \<Rightarrow> pubkey
    \<Rightarrow> bool \<Rightarrow> PumpFunParams cached" where
  "pf_from_dev_trade X mint token_amount max_sol_cost creator bonding_curve associated_bonding_curve
      creator_vault close_when_sell fee_recipient token_program is_cashback_coin =
    (let is_mayhem_mode = (fee_recipient = PF_MAYHEM_FEE_RECIPIENT)
     in sbind (from_dev_trade X bonding_curve mint token_amount max_sol_cost creator is_mayhem_mode
                 is_cashback_coin) (\<lambda>curve. sret
          \<lparr> pf_bonding_curve = curve, pf_associated_bonding_curve = associated_bonding_curve,
            pf_creator_vault = creator_vault, pf_token_program = token_program,
            pf_close_token_account_when_sell = close_when_sell \<rparr>))"

definition pf_from_trade ::
  "extern \<Rightarrow> pubkey \<Rightarrow> pubkey \<Rightarrow> pubkey \<Rightarrow> pubkey \<Rightarrow> pubkey \<Rightarrow> u64 \<Rightarrow> u64 \<Rightarrow> u64 \<Rightarrow> u64 \<Rightarrow> bool option
    \<Rightarrow> pubkey \<Rightarrow> pubkey \<Rightarrow> bool \<Rightarrow> PumpFunParams cached" where
  "pf_from_trade X bonding_curve associated_bonding_curve mint creator creator_vault vtr vsr rtr rsr
      close_when_sell fee_recipient token_program is_cashback_coin =
    (let is_mayhem_mode = (fee_recipient = PF_MAYHEM_FEE_RECIPIENT)
     in sbind (from_trade X bonding_curve mint creator vtr vsr rtr rsr is_mayhem_mode is_cashback_coin)
          (\<lambda>curve. sret
          \<lparr> pf_bonding_curve = curve, pf_associated_bonding_curve = associated_bonding_curve,
            pf_creator_vault = creator_vault, pf_token_program = token_program,
            pf_close_token_account_when_sell = close_when_sell \<rparr>))"

record PumpSwapParams =
  ps_pool :: pubkey
  ps_base_mint :: pubkey
  ps_quote_mint :: pubkey
  ps_pool_base_token_account :: pubkey
  ps_pool_quote_token_account :: pubkey
  ps_pool_base_token_reserves :: u64
  ps_pool_quote_token_reserves :: u64
  ps_coin_creator_vault_ata :: pubkey
  ps_coin_creator_vault_authority :: pubkey
  ps_base_token_program :: pubkey
  ps_quote_token_program :: pubkey
  ps_is_mayhem_mode :: bool
  ps_is_cashback_coin :: bool

definition pump_swap_params_new ::
  "pubkey \<Rightarrow> pubkey \<Rightarrow> pubkey \<Rightarrow> pubkey \<Rightarrow> pubkey \<Rightarrow> u64 \<Rightarrow> u64 \<Rightarrow> pubkey \<Rightarrow> pubkey \<Rightarrow> pubkey \<Rightarrow> pubkey
    \<Rightarrow> pubkey \<Rightarrow> bool \<Rightarrow> PumpSwapParams" where
  "pump_swap_params_new pool base_mint quote_mint base_account quote_account base_reserves quote_reserves
      vault_ata vault_authority base_program quote_program fee_recipient is_cashback_coin =
    \<lparr> ps_pool = pool, ps_base_mint = base_mint, ps_quote_mint = quote_mint,
      ps_pool_base_token_account = base_account, ps_pool_quote_token_account = quote_account,
      ps_pool_base_token_reserves = base_reserves, ps_pool_quote_token_reserves = quote_reserves,
      ps_coin_creator_vault_ata = vault_ata, ps_coin_creator_vault_authority = vault_authority,
      ps_base_token_program = base_program, ps_quote_token_program = quote_program,
      ps_is_mayhem_mode = (fee_recipient = PS_MAYHEM_FEE_RECIPIENT), ps_is_cashback_coin = is_cashback_coin \<rparr>"

definition ps_from_trade ::
  "pubkey \<Rightarrow> pubkey \<Rightarrow> pubkey \<Rightarrow> pubkey \<Rightarrow> pubkey \<Rightarrow> u64 \<Rightarrow> u64 \<Rightarrow> pubkey \<Rightarrow> pubkey \<Rightarrow> pubkey \<Rightarrow> pubkey
    \<Rightarrow> pubkey \<Rightarrow> bool \<Rightarrow> PumpSwapParams" where
  "ps_from_trade = pump_swap_params_new"

datatype DexParamEnum = DexPumpFun PumpFunParams | DexPumpSwap PumpSwapParams

fun as_pumpfun :: "DexParamEnum \<Rightarrow> PumpFunParams option" where
  "as_pumpfun (DexPumpFun p) = Some p"
| "as_pumpfun (DexPumpSwap p) = None"

fun as_pumpswap :: "DexParamEnum \<Rightarrow> PumpSwapParams option" where
  "as_pumpswap (DexPumpFun p) = None"
| "as_pumpswap (DexPumpSwap p) = Some p"

section \<open>Swap parameters\<close>

type_synonym hash = "256 word"

text \<open>An address lookup table: its key and the addresses it holds.\<close>

record lookup_table =
  lt_key :: pubkey
  lt_addresses :: "pubkey list"

record DurableNonceInfo =
  dn_nonce_account :: "pubkey option"
  dn_current_nonce :: "hash option"

record SwapParams =
  sp_has_rpc :: bool
  sp_payer :: pubkey
  sp_trade_type :: TradeType
  sp_input_mint :: pubkey
  sp_input_token_program :: "pubkey option"
  sp_output_mint :: pubkey
  sp_output_token_program :: "pubkey option"
  sp_input_amount :: "u64 option"
  sp_slippage_basis_points :: "u64 option"
  sp_lookup_table :: "lookup_table option"
  sp_recent_blockhash :: "hash option"
  sp_wait_transaction_confirmed :: bool
  sp_protocol_params :: DexParamEnum
  sp_open_seed_optimize :: bool
  sp_swqos_clients :: "swqos_client list"
  sp_middleware_manager :: "middleware list option"
  sp_durable_nonce :: "DurableNonceInfo option"
  sp_with_tip :: bool
  sp_create_input_mint_ata :: bool
  sp_close_input_mint_ata :: bool
  sp_create_output_mint_ata :: bool
  sp_close_output_mint_ata :: bool
  sp_fixed_output_amount :: "u64 option"
  sp_gas_fee_strategy :: gas_map
  sp_simulate :: bool
  sp_log_enabled :: bool
  sp_use_core_affinity :: bool
  sp_check_min_tip :: bool
  sp_grpc_recv_us :: "int option"
  sp_use_exact_sol_amount :: "bool option"

definition DEFAULT_SLIPPAGE :: u64 where "DEFAULT_SLIPPAGE = 1000"

section \<open>Middleware lemmas\<close>

text \<open>A middleware that changes nothing can be left out, wherever it stands in the list; a list of
  such middlewares is the identity.\<close>

definition mw_transparent :: "middleware \<Rightarrow> bool" where
  "mw_transparent m \<longleftrightarrow> (\<forall>ixs n b. mw_full m ixs n b = Ok ixs \<and> mw_protocol m ixs n b = Ok ixs)"

lemma logging_transparent: "mw_transparent LoggingMiddleware"
  by (simp add: mw_transparent_def LoggingMiddleware_def)

lemma apply_full_append:
  "apply_middlewares_process_full_instructions (xs @ ys) ixs n b =
    obind (apply_middlewares_process_full_instructions xs ixs n b) (\<lambda>ixs'.
      if ixs' = [] \<and> xs \<noteq> [] then Ok [] else apply_middlewares_process_full_instructions ys ixs' n b)"
proof (induction xs arbitrary: ixs)
  case (Cons m xs)
  show ?case
  proof (cases "mw_full m ixs n b")
    case (Ok ixs')
    then show ?thesis using Cons.IH [of ixs'] by (cases xs) auto
  qed simp_all
qed simp

lemma apply_full_transparent:
  assumes "list_all mw_transparent xs"
  shows "apply_middlewares_process_full_instructions xs ixs n b = Ok ixs"
  using assms by (induction xs) (auto simp: mw_transparent_def)

text \<open>A logging middleware is invisible. Inserting \<open>LoggingMiddleware\<close> anywhere
  into a list of middlewares changes neither the instructions that come out nor the error, as
  long as there is an instruction to log.\<close>

lemma logging_invisible:
  assumes "ixs \<noteq> []"
  shows "apply_middlewares_process_full_instructions (xs @ LoggingMiddleware # ys) ixs n b
    = apply_middlewares_process_full_instructions (xs @ ys) ixs n b"
proof -
  have "apply_middlewares_process_full_instructions xs ixs n b = Ok [] \<Longrightarrow> xs \<noteq> []"
    using assms by (cases xs) auto
  then show ?thesis
    by (cases "apply_middlewares_process_full_instructions xs ixs n b")
      (auto simp: apply_full_append LoggingMiddleware_def)
qed

end
