(* ===== verification/PumpFun_Instr.thy ===== *)
theory PumpFun_Instr
  imports Trade_Params
begin

text \<open>
  The PumpFun instruction builder of \<open>src/instruction/pumpfun.rs\<close>: the buy and sell
  instructions with their data, account list and guards, and the cashback claim. The
  builders read the global caches, so they are stateful. The lemmas say that their result does
  not depend on what the caches hold (\<open>settles\<close>), and give the instructions of a swap whose
  parameters are valid.
\<close>

section \<open>The code\<close>

definition err_zero_amount :: string where "err_zero_amount = ''Amount cannot be zero''"
definition err_no_token_amount :: string where "err_no_token_amount = ''Amount token is required''"
definition err_pf_params :: string where "err_pf_params = ''Invalid protocol params for PumpFun''"

definition token_program_meta :: "pubkey \<Rightarrow> AccountMeta" where
  "token_program_meta token_program =
    (if token_program = TOKEN_PROGRAM_2022 then meta_readonly TOKEN_PROGRAM_2022 False
     else TOKEN_PROGRAM_META)"

definition pf_fee_recipient_meta :: "bool \<Rightarrow> AccountMeta" where
  "pf_fee_recipient_meta is_mayhem_mode =
    (if is_mayhem_mode then PF_MAYHEM_FEE_RECIPIENT_META else PF_FEE_RECIPIENT_META)"

definition pf_buy_data :: "SwapParams \<Rightarrow> u64 \<Rightarrow> u64 \<Rightarrow> u8 list" where
  "pf_buy_data params buy_token_amount max_sol_cost =
    (if unwrap_or True (sp_use_exact_sol_amount params)
     then let min_tokens_out = calculate_with_slippage_sell buy_token_amount
                (unwrap_or DEFAULT_SLIPPAGE (sp_slippage_basis_points params))
          in BUY_EXACT_SOL_IN_DISCRIMINATOR @ u64_le (unwrap_or 0 (sp_input_amount params)) @ u64_le min_tokens_out
     else BUY_DISCRIMINATOR @ u64_le buy_token_amount @ u64_le max_sol_cost)"

definition pf_buy_accounts ::
  "bool \<Rightarrow> pubkey \<Rightarrow> pubkey \<Rightarrow> pubkey \<Rightarrow> pubkey \<Rightarrow> pubkey \<Rightarrow> pubkey \<Rightarrow> pubkey \<Rightarrow> pubkey \<Rightarrow> pubkey \<Rightarrow> AccountMeta list" where
  "pf_buy_accounts is_mayhem_mode mint curve associated_curve user_account payer token_program
      creator_vault volume_accumulator curve_v2 =
    [PF_GLOBAL_ACCOUNT_META, pf_fee_recipient_meta is_mayhem_mode, meta_readonly mint False,
     meta_new curve False, meta_new associated_curve False, meta_new user_account False,
     meta_new payer True, SYSTEM_PROGRAM_META, token_program_meta token_program,
     meta_new creator_vault False, PF_EVENT_AUTHORITY_META, PUMPFUN_META,
     PF_GLOBAL_VOLUME_ACCUMULATOR_META, meta_new volume_accumulator False,
     PF_FEE_CONFIG_META, PF_FEE_PROGRAM_META]
    @ [meta_readonly curve_v2 False]"

definition pf_build_buy_instructions :: "extern \<Rightarrow> rents \<Rightarrow> SwapParams \<Rightarrow> Instruction list cached" where
  "pf_build_buy_instructions X rs params =
    sbind (slift (ok_or err_pf_params (as_pumpfun (sp_protocol_params params)))) (\<lambda>protocol_params.
    if unwrap_or 0 (sp_input_amount params) = 0 then slift (Err err_zero_amount) else
    let bonding_curve = pf_bonding_curve protocol_params;
        creator_vault_pda = pf_creator_vault protocol_params
    in sbind (get_creator X creator_vault_pda) (\<lambda>creator.
    sbind (case sp_fixed_output_amount params of
             Some amount \<Rightarrow> sret amount
           | None \<Rightarrow> slift (get_buy_token_amount_from_sol_amount (x_sol_str_to_lamports X)
               (u128_of (virtual_token_reserves bonding_curve)) (u128_of (virtual_sol_reserves bonding_curve))
               (u128_of (real_token_reserves bonding_curve)) creator
               (unwrap_or 0 (sp_input_amount params)))) (\<lambda>buy_token_amount.
    let max_sol_cost = calculate_with_slippage_buy (unwrap_or 0 (sp_input_amount params))
          (unwrap_or DEFAULT_SLIPPAGE (sp_slippage_basis_points params))
    in sbind (if bc_account bonding_curve = pubkey_default
           then unwrap_pda (get_bonding_curve_pda X (sp_output_mint params))
           else sret (bc_account bonding_curve)) (\<lambda>bonding_curve_addr.
    let is_mayhem_mode = bc_is_mayhem_mode bonding_curve;
        token_program = pf_token_program protocol_params
    in sbind (if pf_associated_bonding_curve protocol_params = pubkey_default
           then get_ata_fast X bonding_curve_addr (sp_output_mint params) token_program
           else sret (pf_associated_bonding_curve protocol_params)) (\<lambda>associated_bonding_curve.
    sbind (get_ata_fast_use_seed X (sp_payer params) (sp_output_mint params) token_program
             (sp_open_seed_optimize params)) (\<lambda>user_token_account.
    sbind (unwrap_pda (get_pf_user_volume_accumulator_pda X (sp_payer params))) (\<lambda>user_volume_accumulator.
    sbind (if sp_create_output_mint_ata params
           then create_ata_fast_use_seed X rs (sp_payer params) (sp_payer params) (sp_output_mint params)
                  token_program (sp_open_seed_optimize params)
           else sret []) (\<lambda>create_ixs.
    let buy_data = pf_buy_data params buy_token_amount max_sol_cost
    in sbind (unwrap_pda (get_bonding_curve_v2_pda X (sp_output_mint params))) (\<lambda>bonding_curve_v2.
    sret (create_ixs @
      [\<lparr> ix_program_id = PUMPFUN,
         ix_accounts = pf_buy_accounts is_mayhem_mode (sp_output_mint params) bonding_curve_addr
           associated_bonding_curve user_token_account (sp_payer params) token_program creator_vault_pda
           user_volume_accumulator bonding_curve_v2,
         ix_data = buy_data \<rparr>]))))))))))"

definition pf_sell_accounts ::
  "bool \<Rightarrow> pubkey \<Rightarrow> pubkey \<Rightarrow> pubkey \<Rightarrow> pubkey \<Rightarrow> pubkey \<Rightarrow> pubkey \<Rightarrow> pubkey \<Rightarrow> pubkey option \<Rightarrow> pubkey \<Rightarrow> AccountMeta list" where
  "pf_sell_accounts is_mayhem_mode mint curve associated_curve user_account payer token_program
      creator_vault volume_accumulator curve_v2 =
    [PF_GLOBAL_ACCOUNT_META, pf_fee_recipient_meta is_mayhem_mode, meta_readonly mint False,
     meta_new curve False, meta_new associated_curve False, meta_new user_account False,
     meta_new payer True, SYSTEM_PROGRAM_META, meta_new creator_vault False,
     token_program_meta token_program, PF_EVENT_AUTHORITY_META, PUMPFUN_META,
     PF_FEE_CONFIG_META, PF_FEE_PROGRAM_META]
    @ (case volume_accumulator of Some a \<Rightarrow> [meta_new a False] | None \<Rightarrow> [])
    @ [meta_readonly curve_v2 False]"

definition pf_build_sell_instructions :: "extern \<Rightarrow> SwapParams \<Rightarrow> Instruction list cached" where
  "pf_build_sell_instructions X params =
    sbind (slift (ok_or err_pf_params (as_pumpfun (sp_protocol_params params)))) (\<lambda>protocol_params.
    sbind (case sp_input_amount params of
             Some amount \<Rightarrow> if amount = 0 then slift (Err err_zero_amount) else sret amount
           | None \<Rightarrow> slift (Err err_no_token_amount)) (\<lambda>token_amount.
    let bonding_curve = pf_bonding_curve protocol_params;
        creator_vault_pda = pf_creator_vault protocol_params
    in sbind (get_creator X creator_vault_pda) (\<lambda>creator.
    sbind (slift (get_sell_sol_amount_from_token_amount
             (u128_of (virtual_token_reserves bonding_curve)) (u128_of (virtual_sol_reserves bonding_curve))
             creator token_amount)) (\<lambda>sol_amount.
    let min_sol_output = (case sp_fixed_output_amount params of
             Some fixed \<Rightarrow> fixed
           | None \<Rightarrow> calculate_with_slippage_sell sol_amount
               (unwrap_or DEFAULT_SLIPPAGE (sp_slippage_basis_points params)))
    in sbind (if bc_account bonding_curve = pubkey_default
           then unwrap_pda (get_bonding_curve_pda X (sp_input_mint params))
           else sret (bc_account bonding_curve)) (\<lambda>bonding_curve_addr.
    let is_mayhem_mode = bc_is_mayhem_mode bonding_curve;
        token_program = pf_token_program protocol_params
    in sbind (if pf_associated_bonding_curve protocol_params = pubkey_default
           then get_ata_fast X bonding_curve_addr (sp_input_mint params) token_program
           else sret (pf_associated_bonding_curve protocol_params)) (\<lambda>associated_bonding_curve.
    sbind (get_ata_fast_use_seed X (sp_payer params) (sp_input_mint params) token_program
             (sp_open_seed_optimize params)) (\<lambda>user_token_account.
    let sell_data = SELL_DISCRIMINATOR @ u64_le token_amount @ u64_le min_sol_output
    in sbind (if bc_is_cashback_coin bonding_curve
           then sbind (unwrap_pda (get_pf_user_volume_accumulator_pda X (sp_payer params))) (\<lambda>a. sret (Some a))
           else sret None) (\<lambda>user_volume_accumulator.
    sbind (unwrap_pda (get_bonding_curve_v2_pda X (sp_input_mint params))) (\<lambda>bonding_curve_v2.
    let sell_ix = \<lparr> ix_program_id = PUMPFUN,
          ix_accounts = pf_sell_accounts is_mayhem_mode (sp_input_mint params) bonding_curve_addr
            associated_bonding_curve user_token_account (sp_payer params) token_program creator_vault_pda
            user_volume_accumulator bonding_curve_v2,
          ix_data = sell_data \<rparr>
    in if unwrap_or False (pf_close_token_account_when_sell protocol_params) \<or> sp_close_input_mint_ata params
       then sbind (slift (close_account token_program user_token_account (sp_payer params) (sp_payer params)
                     [sp_payer params])) (\<lambda>close_ix. sret [sell_ix, close_ix])
       else sret [sell_ix])))))))))"

definition CLAIM_CASHBACK_DISCRIMINATOR :: "u8 list" where
  "CLAIM_CASHBACK_DISCRIMINATOR = [37, 58, 35, 126, 190, 53, 228, 197]"

definition claim_cashback_pumpfun_instruction :: "extern \<Rightarrow> pubkey \<Rightarrow> caches \<Rightarrow> Instruction option \<times> caches" where
  "claim_cashback_pumpfun_instruction X payer c =
    (case get_pf_user_volume_accumulator_pda X payer c of
       (None, c') \<Rightarrow> (None, c')
     | (Some user_volume_accumulator, c') \<Rightarrow>
        (Some \<lparr> ix_program_id = PUMPFUN,
           ix_accounts = [meta_new payer True, meta_new user_volume_accumulator False, SYSTEM_PROGRAM_META,
                          PF_EVENT_AUTHORITY_META, PUMPFUN_META],
           ix_data = CLAIM_CASHBACK_DISCRIMINATOR \<rparr>, c'))"

section \<open>Results do not depend on the caches\<close>

lemma pda_getters_settle [settles_intros]:
  "settles (coherent X rs) (unwrap_pda (get_bonding_curve_pda X m))"
  "settles (coherent X rs) (unwrap_pda (get_bonding_curve_v2_pda X m))"
  "settles (coherent X rs) (unwrap_pda (get_creator_vault_pda X m))"
  "settles (coherent X rs) (unwrap_pda (get_pf_user_volume_accumulator_pda X m))"
  "settles (coherent X rs) (unwrap_pda (get_ps_user_volume_accumulator_pda X m))"
  "settles (coherent X rs) (ok_or_pda e (get_ps_user_volume_accumulator_pda X m))"
  by (rule settlesI, rule runs_intros)+

lemma ata_getters_settle [settles_intros]:
  "settles (coherent X rs) (get_ata_fast X w m tp)"
  "settles (coherent X rs) (get_ata_fast_use_seed X w m tp b)"
  "settles (coherent X rs) (create_ata_fast X rs p w m tp)"
  "settles (coherent X rs) (create_ata_fast_use_seed X rs p w m tp b)"
  "settles (coherent X rs) (close_wsol_cached p a)"
  by (rule settlesI, rule runs_intros)+

lemma get_creator_settles [settles_intros]: "settles (coherent X rs) (get_creator X v)"
  unfolding get_creator_def by (intro settles_intros)

lemma pf_builders_settle:
  "settles (coherent X rs) (pf_build_buy_instructions X rs params)"
  "settles (coherent X rs) (pf_build_sell_instructions X params)"
  unfolding pf_build_buy_instructions_def pf_build_sell_instructions_def Let_def
  by (intro settles_intros)+

section \<open>The builders without the caches\<close>

definition pf_creator :: "extern \<Rightarrow> pubkey \<Rightarrow> (pubkey, string) outcome" where
  "pf_creator X vault =
    (if vault = pubkey_default then Ok pubkey_default
     else obind (unwrap_option (creator_vault_pda X pubkey_default)) (\<lambda>d. Ok (if vault = d then pubkey_default else vault)))"

definition pf_curve_address :: "extern \<Rightarrow> PumpFunParams \<Rightarrow> pubkey \<Rightarrow> (pubkey, string) outcome" where
  "pf_curve_address X p mint =
    (if bc_account (pf_bonding_curve p) = pubkey_default then unwrap_option (bonding_curve_pda X mint)
     else Ok (bc_account (pf_bonding_curve p)))"

definition pf_curve_account :: "extern \<Rightarrow> PumpFunParams \<Rightarrow> pubkey \<Rightarrow> pubkey \<Rightarrow> (pubkey, string) outcome" where
  "pf_curve_account X p mint curve =
    (if pf_associated_bonding_curve p = pubkey_default then ata_address X curve mint (pf_token_program p) False
     else Ok (pf_associated_bonding_curve p))"

definition pf_buy_tokens :: "extern \<Rightarrow> PumpFunParams \<Rightarrow> SwapParams \<Rightarrow> (u64, string) outcome" where
  "pf_buy_tokens X p params =
    obind (pf_creator X (pf_creator_vault p)) (\<lambda>creator.
      case sp_fixed_output_amount params of
        Some amount \<Rightarrow> Ok amount
      | None \<Rightarrow> get_buy_token_amount_from_sol_amount (x_sol_str_to_lamports X)
          (u128_of (virtual_token_reserves (pf_bonding_curve p)))
          (u128_of (virtual_sol_reserves (pf_bonding_curve p)))
          (u128_of (real_token_reserves (pf_bonding_curve p))) creator (unwrap_or 0 (sp_input_amount params)))"

definition pf_max_cost :: "SwapParams \<Rightarrow> u64" where
  "pf_max_cost params = calculate_with_slippage_buy (unwrap_or 0 (sp_input_amount params))
     (unwrap_or DEFAULT_SLIPPAGE (sp_slippage_basis_points params))"

definition pf_create_output :: "extern \<Rightarrow> rents \<Rightarrow> PumpFunParams \<Rightarrow> SwapParams \<Rightarrow> (Instruction list, string) outcome" where
  "pf_create_output X rs p params =
    (if sp_create_output_mint_ata params
     then instructions_of X rs (CreateAssociatedTokenAccount (sp_payer params) (sp_payer params)
            (sp_output_mint params) (pf_token_program p) (sp_open_seed_optimize params))
     else Ok [])"

definition pf_buy_spec :: "extern \<Rightarrow> rents \<Rightarrow> SwapParams \<Rightarrow> (Instruction list, string) outcome" where
  "pf_buy_spec X rs params =
    (case sp_protocol_params params of
       DexPumpSwap _ \<Rightarrow> Err err_pf_params
     | DexPumpFun p \<Rightarrow>
        if unwrap_or 0 (sp_input_amount params) = 0 then Err err_zero_amount
        else obind (pf_buy_tokens X p params) (\<lambda>tokens.
          obind (pf_curve_address X p (sp_output_mint params)) (\<lambda>curve.
          obind (pf_curve_account X p (sp_output_mint params) curve) (\<lambda>curve_account.
          obind (ata_address X (sp_payer params) (sp_output_mint params) (pf_token_program p)
                   (sp_open_seed_optimize params)) (\<lambda>user_account.
          obind (unwrap_option (pf_user_volume_accumulator_pda X (sp_payer params))) (\<lambda>volume.
          obind (pf_create_output X rs p params) (\<lambda>create_ixs.
          obind (unwrap_option (bonding_curve_v2_pda X (sp_output_mint params))) (\<lambda>curve_v2.
          Ok (create_ixs @ [\<lparr> ix_program_id = PUMPFUN,
            ix_accounts = pf_buy_accounts (bc_is_mayhem_mode (pf_bonding_curve p)) (sp_output_mint params)
              curve curve_account user_account (sp_payer params) (pf_token_program p) (pf_creator_vault p)
              volume curve_v2,
            ix_data = pf_buy_data params tokens (pf_max_cost params) \<rparr>])))))))))"

definition pf_sell_spec :: "extern \<Rightarrow> SwapParams \<Rightarrow> (Instruction list, string) outcome" where
  "pf_sell_spec X params =
    (case (sp_protocol_params params, sp_input_amount params) of
       (DexPumpSwap _, _) \<Rightarrow> Err err_pf_params
     | (_, None) \<Rightarrow> Err err_no_token_amount
     | (DexPumpFun p, Some amount) \<Rightarrow>
        if amount = 0 then Err err_zero_amount
        else obind (pf_creator X (pf_creator_vault p)) (\<lambda>creator.
          obind (get_sell_sol_amount_from_token_amount
                   (u128_of (virtual_token_reserves (pf_bonding_curve p)))
                   (u128_of (virtual_sol_reserves (pf_bonding_curve p))) creator amount) (\<lambda>sol.
          obind (pf_curve_address X p (sp_input_mint params)) (\<lambda>curve.
          obind (pf_curve_account X p (sp_input_mint params) curve) (\<lambda>curve_account.
          obind (ata_address X (sp_payer params) (sp_input_mint params) (pf_token_program p)
                   (sp_open_seed_optimize params)) (\<lambda>user_account.
          obind (if bc_is_cashback_coin (pf_bonding_curve p)
                 then obind (unwrap_option (pf_user_volume_accumulator_pda X (sp_payer params))) (\<lambda>a. Ok (Some a))
                 else Ok None) (\<lambda>volume.
          obind (unwrap_option (bonding_curve_v2_pda X (sp_input_mint params))) (\<lambda>curve_v2.
          let sell_ix = \<lparr> ix_program_id = PUMPFUN,
            ix_accounts = pf_sell_accounts (bc_is_mayhem_mode (pf_bonding_curve p)) (sp_input_mint params)
              curve curve_account user_account (sp_payer params) (pf_token_program p) (pf_creator_vault p)
              volume curve_v2,
            ix_data = SELL_DISCRIMINATOR @ u64_le amount @ u64_le (case sp_fixed_output_amount params of
                Some fixed \<Rightarrow> fixed
              | None \<Rightarrow> calculate_with_slippage_sell sol
                  (unwrap_or DEFAULT_SLIPPAGE (sp_slippage_basis_points params))) \<rparr>
          in if unwrap_or False (pf_close_token_account_when_sell p) \<or> sp_close_input_mint_ata params
             then obind (close_account (pf_token_program p) user_account (sp_payer params) (sp_payer params)
                    [sp_payer params]) (\<lambda>close_ix. Ok [sell_ix, close_ix])
             else Ok [sell_ix]))))))))"

lemma get_creator_runs: "runs (coherent X rs) (get_creator X v) (pf_creator X v)"
proof -
  have "runs (coherent X rs) (get_creator X v) (if v = pubkey_default then Ok pubkey_default
     else obind (unwrap_option (creator_vault_pda X pubkey_default)) (\<lambda>d. if v = d then Ok pubkey_default else Ok v))"
    unfolding get_creator_def by (intro runs_intros)
  then show ?thesis by (simp add: pf_creator_def if_distrib [of Ok] cong: if_cong)
qed

lemma pf_curve_address_runs:
  "runs (coherent X rs) (if bc_account (pf_bonding_curve p) = pubkey_default
     then unwrap_pda (get_bonding_curve_pda X mint) else sret (bc_account (pf_bonding_curve p)))
   (pf_curve_address X p mint)"
  unfolding pf_curve_address_def by (intro runs_intros)

lemma pf_curve_account_runs:
  "runs (coherent X rs) (if pf_associated_bonding_curve p = pubkey_default
     then get_ata_fast X curve mint (pf_token_program p) else sret (pf_associated_bonding_curve p))
   (pf_curve_account X p mint curve)"
  unfolding pf_curve_account_def by (intro runs_intros)

lemma pf_create_output_runs:
  "runs (coherent X rs) (if sp_create_output_mint_ata params
     then create_ata_fast_use_seed X rs (sp_payer params) (sp_payer params) (sp_output_mint params)
            (pf_token_program p) (sp_open_seed_optimize params)
     else sret []) (pf_create_output X rs p params)"
  unfolding pf_create_output_def by (intro runs_intros)

lemmas pf_runs = get_creator_runs pf_curve_address_runs pf_curve_account_runs pf_create_output_runs


lemma pf_buy_runs: "runs (coherent X rs) (pf_build_buy_instructions X rs params) (pf_buy_spec X rs params)"
proof (cases "sp_protocol_params params")
  case (DexPumpSwap q)
  then show ?thesis by (simp add: pf_build_buy_instructions_def pf_buy_spec_def run_simps runs_def)
next
  case (DexPumpFun p)
  show ?thesis
    unfolding pf_build_buy_instructions_def pf_buy_spec_def DexPumpFun Let_def pf_buy_tokens_def obind_assoc
      as_pumpfun.simps ok_or_simps sbind_simps DexParamEnum.case pf_max_cost_def
    by (intro runs_intros pf_runs runs_option)
qed

lemma pf_sell_runs: "runs (coherent X rs) (pf_build_sell_instructions X params) (pf_sell_spec X params)"
proof (cases "sp_protocol_params params")
  case (DexPumpSwap q)
  then show ?thesis by (simp add: pf_build_sell_instructions_def pf_sell_spec_def run_simps runs_def)
next
  case p: (DexPumpFun p)
  show ?thesis
  proof (cases "sp_input_amount params")
    case None
    then show ?thesis by (simp add: p pf_build_sell_instructions_def pf_sell_spec_def run_simps runs_def)
  next
    case (Some amount)
    show ?thesis
    proof (cases "amount = 0")
      case True
      then show ?thesis by (simp add: p Some pf_build_sell_instructions_def pf_sell_spec_def run_simps runs_def)
    next
      case False
      show ?thesis
        unfolding pf_build_sell_instructions_def pf_sell_spec_def p Some Let_def as_pumpfun.simps ok_or_simps
          sbind_simps DexParamEnum.case option.case prod.case if_not_P [OF False]
        by (intro runs_intros pf_runs)
    qed
  qed
qed

section \<open>What the builders send\<close>

text \<open>The three parts of the 24 bytes of a swap instruction.\<close>

definition swap_fields :: "u8 list \<Rightarrow> u8 list \<times> nat \<times> nat" where
  "swap_fields d = (take 8 d, le_value (take 8 (drop 8 d)), le_value (drop 16 d))"

lemma swap_fields_data:
  "length disc = 8 \<Longrightarrow> swap_fields (disc @ u64_le a @ u64_le b) = (disc, unat a, unat b)"
  by (simp add: swap_fields_def)

lemma discriminator_lengths [simp]:
  "length BUY_DISCRIMINATOR = 8" "length BUY_EXACT_SOL_IN_DISCRIMINATOR = 8" "length SELL_DISCRIMINATOR = 8"
  "length BUY_EXACT_QUOTE_IN_DISCRIMINATOR = 8"
  by (simp_all add: BUY_DISCRIMINATOR_def BUY_EXACT_SOL_IN_DISCRIMINATOR_def SELL_DISCRIMINATOR_def
      BUY_EXACT_QUOTE_IN_DISCRIMINATOR_def)

lemmas fixed_metas = PF_GLOBAL_ACCOUNT_META_def PF_FEE_RECIPIENT_META_def PF_MAYHEM_FEE_RECIPIENT_META_def
  SYSTEM_PROGRAM_META_def TOKEN_PROGRAM_META_def PF_EVENT_AUTHORITY_META_def PUMPFUN_META_def
  PF_GLOBAL_VOLUME_ACCUMULATOR_META_def PF_FEE_CONFIG_META_def PF_FEE_PROGRAM_META_def
  token_program_meta_def pf_fee_recipient_meta_def

lemma token_program_meta_alt:
  "tp = TOKEN_PROGRAM \<or> tp = TOKEN_PROGRAM_2022 \<Longrightarrow> token_program_meta tp = meta_readonly tp False"
  by (auto simp: token_program_meta_def TOKEN_PROGRAM_META_def)

lemma pf_accounts_signers:
  "map am_pubkey (filter am_is_signer (pf_buy_accounts b m c ac u pay tp v vol v2)) = [pay]"
  "map am_pubkey (filter am_is_signer (pf_sell_accounts b m c ac u pay tp v ovol v2)) = [pay]"
  by (simp_all add: pf_buy_accounts_def pf_sell_accounts_def fixed_metas split: option.split)

lemma pf_accounts_length:
  "length (pf_buy_accounts b m c ac u pay tp v vol v2) = 17"
  "length (pf_sell_accounts b m c ac u pay tp v ovol v2) = (if ovol = None then 15 else 16)"
  by (simp_all add: pf_buy_accounts_def pf_sell_accounts_def split: option.split)

lemma pf_buy_specE:
  assumes "pf_buy_spec X rs params = Ok ixs"
  obtains p tokens curve curve_account user_account volume create_ixs curve_v2
  where "sp_protocol_params params = DexPumpFun p" "unwrap_or 0 (sp_input_amount params) \<noteq> 0"
    "pf_buy_tokens X p params = Ok tokens" "pf_curve_address X p (sp_output_mint params) = Ok curve"
    "pf_create_output X rs p params = Ok create_ixs"
    "ixs = create_ixs @ [\<lparr> ix_program_id = PUMPFUN,
            ix_accounts = pf_buy_accounts (bc_is_mayhem_mode (pf_bonding_curve p)) (sp_output_mint params)
              curve curve_account user_account (sp_payer params) (pf_token_program p) (pf_creator_vault p)
              volume curve_v2,
            ix_data = pf_buy_data params tokens (pf_max_cost params) \<rparr>]"
  using assms
  by (auto simp: pf_buy_spec_def obind_Ok_iff split: DexParamEnum.splits if_splits)

text \<open>C10 (refinement): the PumpFun builders compute the same instructions whatever the caches hold.
  From every coherent state of the caches the buy and the sell builder give the result of the
  cache-free specification, and leave the caches coherent.\<close>

theorem pf_builders_refine:
  assumes "coherent X rs c"
  shows "fst (pf_build_buy_instructions X rs params c) = pf_buy_spec X rs params
    \<and> coherent X rs (snd (pf_build_buy_instructions X rs params c))
    \<and> fst (pf_build_sell_instructions X params c) = pf_sell_spec X params
    \<and> coherent X rs (snd (pf_build_sell_instructions X params c))"
  using assms pf_buy_runs [of X rs params] pf_sell_runs [of X rs params] by (simp add: runs_def)

definition sample_params :: "PumpFunParams \<Rightarrow> SwapParams" where
  "sample_params p = \<lparr> sp_has_rpc = True, sp_payer = 5, sp_trade_type = Buy, sp_input_mint = 11,
     sp_input_token_program = None, sp_output_mint = 77, sp_output_token_program = None,
     sp_input_amount = Some 1000000, sp_slippage_basis_points = Some 500, sp_lookup_table = None,
     sp_recent_blockhash = None, sp_wait_transaction_confirmed = False, sp_protocol_params = DexPumpFun p,
     sp_open_seed_optimize = False, sp_swqos_clients = [], sp_middleware_manager = None,
     sp_durable_nonce = None, sp_with_tip = False, sp_create_input_mint_ata = False,
     sp_close_input_mint_ata = False, sp_create_output_mint_ata = False, sp_close_output_mint_ata = False,
     sp_fixed_output_amount = Some 2000000, sp_gas_fee_strategy = gas_new, sp_simulate = False,
     sp_log_enabled = False, sp_use_core_affinity = False, sp_check_min_tip = False,
     sp_grpc_recv_us = None, sp_use_exact_sol_amount = None \<rparr>"

theorem pf_builders_refine_witness:
  "fst (pf_build_buy_instructions sample_extern initial_rents (sample_params (immediate_sell 0 TOKEN_PROGRAM True))
      (snd (fast_init sample_extern 5 empty_caches)))
    = pf_buy_spec sample_extern initial_rents (sample_params (immediate_sell 0 TOKEN_PROGRAM True))"
  using pf_builders_refine [OF fast_init_coherent [OF coherent_empty]] by blast

text \<open>What a PumpFun buy sends. A successful buy ends with one instruction of the
  PumpFun program with 17 accounts that only the payer signs. Its data commit either to spend
  exactly the input amount for at least the estimate less the slippage, or to buy exactly the
  estimate for at most the input amount plus the slippage. Nothing is in front of it unless the
  caller asked to create the token account.\<close>

lemma pf_buy_sends:
  assumes "coherent X rs c" "fst (pf_build_buy_instructions X rs params c) = Ok ixs"
  shows "\<exists>p tokens before ix. sp_protocol_params params = DexPumpFun p
    \<and> pf_buy_tokens X p params = Ok tokens \<and> ixs = before @ [ix]
    \<and> ix_program_id ix = PUMPFUN \<and> length (ix_accounts ix) = 17 \<and> ix_signers ix = {sp_payer params}
    \<and> (let amount = unwrap_or 0 (sp_input_amount params);
           bps = unwrap_or DEFAULT_SLIPPAGE (sp_slippage_basis_points params)
       in amount \<noteq> 0 \<and> swap_fields (ix_data ix) =
         (if unwrap_or True (sp_use_exact_sol_amount params)
          then (BUY_EXACT_SOL_IN_DISCRIMINATOR, unat amount, unat (calculate_with_slippage_sell tokens bps))
          else (BUY_DISCRIMINATOR, unat tokens, unat (calculate_with_slippage_buy amount bps))))
    \<and> (sp_create_output_mint_ata params \<or> before = [])"
proof -
  have "pf_buy_spec X rs params = Ok ixs"
    using assms runsD [OF pf_buy_runs] by metis
  then show ?thesis
    by (rule pf_buy_specE)
      (auto simp: pf_accounts_signers pf_accounts_length ix_signers_def pf_buy_data_def swap_fields_data
        pf_max_cost_def Let_def pf_create_output_def simp del: set_map set_filter split: if_splits)
qed

text \<open>What a PumpFun sell sends. A successful sell starts with one instruction of the
  PumpFun program that only the payer signs, with 15 accounts, or 16 for a cashback coin. It
  sells exactly the input amount, for at least the fixed output or the estimate less the slippage.
  The payer's token account is closed after it, and only then, when the caller asked for it.\<close>

lemma pf_sell_sends:
  assumes "coherent X rs c" "fst (pf_build_sell_instructions X params c) = Ok ixs"
  shows "\<exists>p amount user_account creator sol ix. sp_protocol_params params = DexPumpFun p
    \<and> sp_input_amount params = Some amount \<and> amount \<noteq> 0
    \<and> ata_address X (sp_payer params) (sp_input_mint params) (pf_token_program p) (sp_open_seed_optimize params)
        = Ok user_account
    \<and> pf_creator X (pf_creator_vault p) = Ok creator
    \<and> get_sell_sol_amount_from_token_amount (u128_of (virtual_token_reserves (pf_bonding_curve p)))
         (u128_of (virtual_sol_reserves (pf_bonding_curve p))) creator amount = Ok sol
    \<and> ix_program_id ix = PUMPFUN \<and> ix_signers ix = {sp_payer params}
    \<and> length (ix_accounts ix) = (if bc_is_cashback_coin (pf_bonding_curve p) then 16 else 15)
    \<and> swap_fields (ix_data ix) = (SELL_DISCRIMINATOR, unat amount, unat (case sp_fixed_output_amount params of
        Some fixed \<Rightarrow> fixed
      | None \<Rightarrow> calculate_with_slippage_sell sol
          (unwrap_or DEFAULT_SLIPPAGE (sp_slippage_basis_points params))))
    \<and> ixs = ix # (if pf_close_token_account_when_sell p = Some True \<or> sp_close_input_mint_ata params
        then [\<lparr> ix_program_id = pf_token_program p,
                ix_accounts = [meta_new user_account False, meta_new (sp_payer params) False,
                  meta_readonly (sp_payer params) False, meta_readonly (sp_payer params) True],
                ix_data = [9] \<rparr>]
        else [])"
proof -
  have ok: "pf_sell_spec X params = Ok ixs"
    using assms runsD [OF pf_sell_runs] by metis
  then obtain p where p: "sp_protocol_params params = DexPumpFun p"
    by (auto simp: pf_sell_spec_def split: DexParamEnum.splits)
  from ok obtain amount where a: "sp_input_amount params = Some amount" "amount \<noteq> 0"
    by (auto simp: pf_sell_spec_def p split: option.splits if_splits)
  have closes: "unwrap_or False x = (x = Some True)" for x by (cases x) auto
  have volume: "(if b then obind (unwrap_option y) (\<lambda>a. Ok (Some a)) else Ok None) = Ok v
      \<longleftrightarrow> (v = None \<longleftrightarrow> \<not> b) \<and> (b \<longrightarrow> v = y)" for b y and v :: "pubkey option"
    by (cases y; cases v) auto
  show ?thesis
    using ok unfolding pf_sell_spec_def p a(1)
    by (auto simp: p a closes volume obind_Ok_iff Let_def pf_accounts_signers pf_accounts_length ix_signers_def
        swap_fields_data close_account_def split: if_splits option.splits simp del: set_map set_filter)
qed

lemma token_amount_no_Err:
  "get_buy_token_amount_from_sol_amount f a b d k e \<noteq> Err x"
  "get_sell_sol_amount_from_token_amount a b k e \<noteq> Err x"
  by (auto simp: get_buy_token_amount_from_sol_amount_def get_sell_sol_amount_from_token_amount_def Let_def
      unwrap_option_def compute_fee_def ceil_div_def div_or_panic_def split: option.split)

lemma obind_Err_iff: "obind m f = Err e \<longleftrightarrow> m = Err e \<or> (\<exists>x. m = Ok x \<and> f x = Err e)"
  by (cases m) auto

lemma unwrap_option_no_Err [simp]: "unwrap_option x \<noteq> Err e"
  by (cases x) simp_all

lemma unwrap_result_no_Err [simp]: "unwrap_result x \<noteq> Err e"
  by (cases x) simp_all

lemma address_no_Err [simp]:
  "ata_address X w m tp b \<noteq> Err e" "pf_curve_address X p m \<noteq> Err e" "pf_creator X v \<noteq> Err e"
  "pf_curve_account X p m cu \<noteq> Err e"
  by (simp_all add: ata_address_def ata_compute_def pf_curve_address_def pf_creator_def pf_curve_account_def
      get_associated_token_address_with_program_id_def obind_Err_iff)

lemma pf_tokens_no_Err [simp]: "pf_buy_tokens X p params \<noteq> Err e" "pf_create_output X rs p params \<noteq> Err e"
  by (auto simp: pf_buy_tokens_def obind_Err_iff token_amount_no_Err pf_create_output_def split: option.splits)

lemma pf_spec_errors:
  "pf_buy_spec X rs params = Err e \<longleftrightarrow>
      (case sp_protocol_params params of
         DexPumpSwap _ \<Rightarrow> e = err_pf_params
       | DexPumpFun _ \<Rightarrow> sp_input_amount params \<in> {None, Some 0} \<and> e = err_zero_amount)"
  "pf_sell_spec X params = Err e \<longleftrightarrow>
      (case sp_protocol_params params of
         DexPumpSwap _ \<Rightarrow> e = err_pf_params
       | DexPumpFun _ \<Rightarrow> (sp_input_amount params = None \<and> e = err_no_token_amount)
           \<or> (sp_input_amount params = Some 0 \<and> e = err_zero_amount))"
  by (auto simp: pf_buy_spec_def pf_sell_spec_def obind_Err_iff token_amount_no_Err close_account_def Let_def
      unwrap_or_def split: DexParamEnum.splits option.splits)

text \<open>The only errors of the PumpFun builders are the parameters they refuse: parameters
  of another protocol, and a missing or zero amount, each with its own message; everything else
  either succeeds or panics on an address that cannot be derived.\<close>

theorem pf_build_errors:
  assumes "coherent X rs c"
  shows "(fst (pf_build_buy_instructions X rs params c) = Err e \<longleftrightarrow>
      (case sp_protocol_params params of
         DexPumpSwap _ \<Rightarrow> e = err_pf_params
       | DexPumpFun _ \<Rightarrow> sp_input_amount params \<in> {None, Some 0} \<and> e = err_zero_amount))
    \<and> (fst (pf_build_sell_instructions X params c) = Err e \<longleftrightarrow>
      (case sp_protocol_params params of
         DexPumpSwap _ \<Rightarrow> e = err_pf_params
       | DexPumpFun _ \<Rightarrow> (sp_input_amount params = None \<and> e = err_no_token_amount)
           \<or> (sp_input_amount params = Some 0 \<and> e = err_zero_amount)))"
  unfolding runsD [OF pf_buy_runs assms] runsD [OF pf_sell_runs assms] by (intro conjI pf_spec_errors)

theorem pf_build_errors_witness:
  "fst (pf_build_sell_instructions sample_extern
      ((sample_params (immediate_sell 0 TOKEN_PROGRAM True)) \<lparr> sp_input_amount := None \<rparr>) empty_caches)
    = Err err_no_token_amount"
  using pf_build_errors [OF coherent_empty, where e = err_no_token_amount]
  by (simp add: sample_params_def)

end
