(* ===== verification/Wsol_Manager.thy ===== *)
theory Wsol_Manager
  imports Trade_Params
begin

text \<open>
  The wrapped-SOL helpers of \<open>src/trading/common/wsol_manager.rs\<close>: create, fund and close the
  wrapped-SOL account of a payer, and unwrap an amount through a temporary account derived
  from a seed. Each is a list of instructions; the account addresses come from the caches.
\<close>

section \<open>The code\<close>

text \<open>The \<open>SyncNative\<close> instruction of the token program.\<close>

definition sync_native :: "pubkey \<Rightarrow> Instruction" where
  "sync_native wsol_token_account =
    \<lparr> ix_program_id = TOKEN_PROGRAM, ix_accounts = [meta_new wsol_token_account False], ix_data = [17] \<rparr>"

definition handle_wsol :: "extern \<Rightarrow> rents \<Rightarrow> pubkey \<Rightarrow> u64 \<Rightarrow> Instruction list cached" where
  "handle_wsol X rs payer amount_in =
    sbind (get_ata_fast X payer WSOL_TOKEN_ACCOUNT TOKEN_PROGRAM) (\<lambda>wsol_token_account.
    sbind (create_ata_fast X rs payer payer WSOL_TOKEN_ACCOUNT TOKEN_PROGRAM) (\<lambda>insts.
    sret (insts @ [x_system_transfer X payer wsol_token_account amount_in, sync_native wsol_token_account])))"

definition close_wsol :: "extern \<Rightarrow> pubkey \<Rightarrow> Instruction list cached" where
  "close_wsol X payer =
    sbind (get_ata_fast X payer WSOL_TOKEN_ACCOUNT TOKEN_PROGRAM) (\<lambda>wsol_token_account.
      close_wsol_cached payer wsol_token_account)"

definition create_wsol_ata :: "extern \<Rightarrow> rents \<Rightarrow> pubkey \<Rightarrow> Instruction list cached" where
  "create_wsol_ata X rs payer = create_ata_fast X rs payer payer WSOL_TOKEN_ACCOUNT TOKEN_PROGRAM"

definition wrap_sol_only :: "extern \<Rightarrow> pubkey \<Rightarrow> u64 \<Rightarrow> Instruction list cached" where
  "wrap_sol_only X payer amount_in =
    sbind (get_ata_fast X payer WSOL_TOKEN_ACCOUNT TOKEN_PROGRAM) (\<lambda>wsol_token_account.
    sret [x_system_transfer X payer wsol_token_account amount_in, sync_native wsol_token_account])"

definition wrap_wsol_to_sol :: "extern \<Rightarrow> rents \<Rightarrow> pubkey \<Rightarrow> u64 \<Rightarrow> Instruction list cached" where
  "wrap_wsol_to_sol X rs payer amount =
    sbind (slift (create_associated_token_account_use_seed X rs payer payer WSOL_TOKEN_ACCOUNT TOKEN_PROGRAM))
      (\<lambda>seed_account_instructions.
    sbind (slift (get_associated_token_address_with_program_id_use_seed X payer WSOL_TOKEN_ACCOUNT TOKEN_PROGRAM))
      (\<lambda>seed_ata_address.
    sbind (get_ata_fast X payer WSOL_TOKEN_ACCOUNT TOKEN_PROGRAM) (\<lambda>user_wsol_ata.
    sbind (slift (transfer TOKEN_PROGRAM user_wsol_ata seed_ata_address payer amount [])) (\<lambda>transfer_instruction.
    sbind (slift (close_account TOKEN_PROGRAM seed_ata_address payer payer [])) (\<lambda>close_instruction.
    sret (seed_account_instructions @ [transfer_instruction, close_instruction]))))))"

definition wrap_wsol_to_sol_without_create :: "extern \<Rightarrow> pubkey \<Rightarrow> u64 \<Rightarrow> Instruction list cached" where
  "wrap_wsol_to_sol_without_create X payer amount =
    sbind (slift (get_associated_token_address_with_program_id_use_seed X payer WSOL_TOKEN_ACCOUNT TOKEN_PROGRAM))
      (\<lambda>seed_ata_address.
    sbind (get_ata_fast X payer WSOL_TOKEN_ACCOUNT TOKEN_PROGRAM) (\<lambda>user_wsol_ata.
    sbind (slift (transfer TOKEN_PROGRAM user_wsol_ata seed_ata_address payer amount [])) (\<lambda>transfer_instruction.
    sbind (slift (close_account TOKEN_PROGRAM seed_ata_address payer payer [])) (\<lambda>close_instruction.
    sret [transfer_instruction, close_instruction]))))"

section \<open>Results without the caches\<close>

definition wsol_account :: "extern \<Rightarrow> pubkey \<Rightarrow> (pubkey, string) outcome" where
  "wsol_account X payer = ata_address X payer WSOL_TOKEN_ACCOUNT TOKEN_PROGRAM False"

definition wsol_create :: "pubkey \<Rightarrow> pubkey \<Rightarrow> Instruction" where
  "wsol_create payer a = create_ata_instruction payer a payer WSOL_TOKEN_ACCOUNT TOKEN_PROGRAM"

definition wsol_close :: "pubkey \<Rightarrow> pubkey \<Rightarrow> Instruction" where
  "wsol_close payer a = \<lparr> ix_program_id = TOKEN_PROGRAM,
     ix_accounts = [meta_new a False, meta_new payer False, meta_readonly payer True], ix_data = [9] \<rparr>"

lemma wsol_account_runs [runs_intros]:
  "runs (coherent X rs) (get_ata_fast X payer WSOL_TOKEN_ACCOUNT TOKEN_PROGRAM) (wsol_account X payer)"
  unfolding wsol_account_def by (rule runs_intros)

lemma wsol_create_instructions:
  "instructions_of X rs (CreateAssociatedTokenAccount payer payer WSOL_TOKEN_ACCOUNT TOKEN_PROGRAM False)
    = obind (wsol_account X payer) (\<lambda>a. Ok [wsol_create payer a])"
  by (simp add: seed_allowed_def wsol_account_def wsol_create_def)

lemma create_wsol_ata_runs [runs_intros]:
  "runs (coherent X rs) (create_ata_fast X rs payer payer WSOL_TOKEN_ACCOUNT TOKEN_PROGRAM)
    (obind (wsol_account X payer) (\<lambda>a. Ok [wsol_create payer a]))"
  using create_ata_runs [of X rs payer payer WSOL_TOKEN_ACCOUNT TOKEN_PROGRAM]
  by (simp only: wsol_create_instructions)

lemma close_wsol_cached_runs [runs_intros]:
  "runs (coherent X rs) (close_wsol_cached payer a) (Ok [wsol_close payer a])"
  using close_wsol_runs [of X rs payer a] by (simp add: close_account_def wsol_close_def)

lemma obind_again: "obind m (\<lambda>x. obind m (f x)) = obind m (\<lambda>x. f x x)"
  by (cases m) simp_all

lemma wsol_runs:
  "runs (coherent X rs) (handle_wsol X rs payer n) (obind (wsol_account X payer) (\<lambda>a.
     Ok [wsol_create payer a, x_system_transfer X payer a n, sync_native a]))"
  "runs (coherent X rs) (close_wsol X payer) (obind (wsol_account X payer) (\<lambda>a. Ok [wsol_close payer a]))"
  "runs (coherent X rs) (wrap_sol_only X payer n) (obind (wsol_account X payer) (\<lambda>a.
     Ok [x_system_transfer X payer a n, sync_native a]))"
proof -
  have "runs (coherent X rs) (handle_wsol X rs payer n) (obind (wsol_account X payer) (\<lambda>a.
     obind (obind (wsol_account X payer) (\<lambda>a. Ok [wsol_create payer a])) (\<lambda>insts.
     Ok (insts @ [x_system_transfer X payer a n, sync_native a]))))"
    unfolding handle_wsol_def by (intro runs_intros)
  then show "runs (coherent X rs) (handle_wsol X rs payer n) (obind (wsol_account X payer) (\<lambda>a.
     Ok [wsol_create payer a, x_system_transfer X payer a n, sync_native a]))"
    by (simp add: obind_assoc obind_again)
  show "runs (coherent X rs) (close_wsol X payer) (obind (wsol_account X payer) (\<lambda>a. Ok [wsol_close payer a]))"
    unfolding close_wsol_def by (intro runs_intros)
  show "runs (coherent X rs) (wrap_sol_only X payer n) (obind (wsol_account X payer) (\<lambda>a.
     Ok [x_system_transfer X payer a n, sync_native a]))"
    unfolding wrap_sol_only_def by (intro runs_intros)
qed

text \<open>Funding and closing use one account. From every coherent state, \<open>handle_wsol\<close>
  followed by \<open>close_wsol\<close> creates, funds, synchronises and closes the same account, the
  wrapped-SOL account of the payer, which only the payer signs for, and the funding amount is
  the amount asked for; \<open>wrap_sol_only\<close> is the funding part alone.\<close>

theorem wsol_lifecycle:
  assumes "coherent X rs c" "wsol_account X payer = Ok a"
  shows "fst (sbind (handle_wsol X rs payer n) (\<lambda>xs. sbind (close_wsol X payer) (\<lambda>ys. sret (xs @ ys))) c)
      = Ok [create_ata_instruction payer a payer WSOL_TOKEN_ACCOUNT TOKEN_PROGRAM,
            x_system_transfer X payer a n, sync_native a,
            \<lparr> ix_program_id = TOKEN_PROGRAM,
              ix_accounts = [meta_new a False, meta_new payer False, meta_readonly payer True],
              ix_data = [9] \<rparr>]
    \<and> fst (wrap_sol_only X payer n c) = Ok [x_system_transfer X payer a n, sync_native a]"
proof -
  have "runs (coherent X rs) (sbind (handle_wsol X rs payer n) (\<lambda>xs. sbind (close_wsol X payer) (\<lambda>ys. sret (xs @ ys))))
    (obind (obind (wsol_account X payer) (\<lambda>a.
      Ok [wsol_create payer a, x_system_transfer X payer a n, sync_native a])) (\<lambda>xs.
      obind (obind (wsol_account X payer) (\<lambda>a. Ok [wsol_close payer a])) (\<lambda>ys. Ok (xs @ ys))))"
    by (intro runs_intros wsol_runs)
  from runsD [OF this assms(1)] runsD [OF wsol_runs(3) assms(1)] show ?thesis
    using assms(2) by (simp add: wsol_create_def wsol_close_def)
qed

theorem wsol_lifecycle_witness:
  "fst (wrap_sol_only sample_extern 5 900 empty_caches) =
    Ok [x_system_transfer sample_extern 5 (the (ok_value (wsol_account sample_extern 5))) 900,
        sync_native (the (ok_value (wsol_account sample_extern 5)))]"
proof -
  have "\<exists>a. wsol_account sample_extern 5 = Ok a"
    by (simp add: wsol_account_def ata_address_def ata_compute_def seed_allowed_def
        get_associated_token_address_with_program_id_def derive_def sample_extern_def)
  then obtain a where a: "wsol_account sample_extern 5 = Ok a" ..
  then show ?thesis using wsol_lifecycle [OF coherent_empty a] by (simp add: ok_value_def)
qed

text \<open>The two unwrapping functions agree. \<open>wrap_wsol_to_sol\<close> is the creation of the
  temporary account followed by \<open>wrap_wsol_to_sol_without_create\<close>, which moves the amount into
  that account and closes it to the payer; it fails exactly when one of the two parts fails.\<close>

theorem unwrap_splits:
  "wrap_wsol_to_sol X rs payer amount =
    sbind (slift (create_associated_token_account_use_seed X rs payer payer WSOL_TOKEN_ACCOUNT TOKEN_PROGRAM))
      (\<lambda>create. sbind (wrap_wsol_to_sol_without_create X payer amount) (\<lambda>ixs. sret (create @ ixs)))"
  by (simp only: wrap_wsol_to_sol_def wrap_wsol_to_sol_without_create_def sbind_assoc sbind_simps)

end
