(* ===== verification/Calc_PumpSwap.thy ===== *)
theory Calc_PumpSwap
  imports Constant_Product
begin

text \<open>
  The AMM quotes of \<open>src/utils/calc/pumpswap.rs\<close>: the four functions that turn a base
  or quote amount into the other side of a trade, with fees and slippage, on 64-bit
  integers with 128-bit intermediates. The specifications are functions on nat over
  the constant-product formula of \<open>Constant_Product\<close>.
\<close>

section \<open>The code\<close>

text \<open>Fee constants of \<open>src/instruction/utils/pumpswap.rs\<close>.\<close>

definition LP_FEE_BASIS_POINTS :: u64 where "LP_FEE_BASIS_POINTS = 25"
definition PROTOCOL_FEE_BASIS_POINTS :: u64 where "PROTOCOL_FEE_BASIS_POINTS = 5"
definition COIN_CREATOR_FEE_BASIS_POINTS :: u64 where "COIN_CREATOR_FEE_BASIS_POINTS = 5"
definition MAX_FEE_BASIS_POINTS :: u64 where "MAX_FEE_BASIS_POINTS = 10000"

lemmas swap_fee_defs = LP_FEE_BASIS_POINTS_def PROTOCOL_FEE_BASIS_POINTS_def
  COIN_CREATOR_FEE_BASIS_POINTS_def MAX_FEE_BASIS_POINTS_def

record BuyBaseInputResult =
  bb_internal_quote_amount :: u64
  bb_ui_quote :: u64
  bb_max_quote :: u64

record BuyQuoteInputResult =
  bq_base :: u64
  bq_internal_quote_without_fees :: u64
  bq_max_quote :: u64

record SellBaseInputResult =
  sb_ui_quote :: u64
  sb_min_quote :: u64
  sb_internal_quote_amount_out :: u64

record SellQuoteInputResult =
  sq_internal_raw_quote :: u64
  sq_base :: u64
  sq_min_quote :: u64

text \<open>The string errors of the four functions, by their text.\<close>

definition err_zero_reserve :: string where
  "err_zero_reserve = ''Invalid input: 'baseReserve' or 'quoteReserve' cannot be zero.''"
definition err_buy_too_much :: string where
  "err_buy_too_much = ''Cannot buy more base tokens than the pool reserves.''"
definition err_depleted :: string where
  "err_depleted = ''Pool would be depleted; denominator is zero.''"
definition err_fees_exceed :: string where
  "err_fees_exceed = ''Fees exceed total output; final quote is negative.''"
definition err_receive_too_much :: string where
  "err_receive_too_much = ''Cannot receive more quote tokens than the pool quote reserves.''"
definition err_exceeds_reserve :: string where
  "err_exceeds_reserve = ''Invalid input: Desired quote amount exceeds available reserve.''"

definition buy_base_input_internal ::
  "u64 \<Rightarrow> u64 \<Rightarrow> u64 \<Rightarrow> u64 \<Rightarrow> pubkey \<Rightarrow> (BuyBaseInputResult, string) outcome" where
  "buy_base_input_internal base slippage_basis_points base_reserve quote_reserve coin_creator =
    (if base_reserve = 0 \<or> quote_reserve = 0 then Err err_zero_reserve
     else if base > base_reserve then Err err_buy_too_much
     else let numerator = u128_of quote_reserve * u128_of base;
              denominator = base_reserve - base
       in if denominator = 0 then Err err_depleted
       else obind (ceil_div numerator (u128_of denominator)) (\<lambda>q.
         let quote_amount_in = u64_of q in
         obind (compute_fee (u128_of quote_amount_in) (u128_of LP_FEE_BASIS_POINTS)) (\<lambda>lp.
         obind (compute_fee (u128_of quote_amount_in) (u128_of PROTOCOL_FEE_BASIS_POINTS)) (\<lambda>pf.
         obind (if coin_creator = pubkey_default then Ok 0
                else compute_fee (u128_of quote_amount_in) (u128_of COIN_CREATOR_FEE_BASIS_POINTS)) (\<lambda>cf.
         let lp_fee = u64_of lp; protocol_fee = u64_of pf; coin_creator_fee = u64_of cf;
             total_quote = quote_amount_in + lp_fee + protocol_fee + coin_creator_fee;
             max_quote = calculate_with_slippage_buy total_quote slippage_basis_points
         in Ok \<lparr> bb_internal_quote_amount = quote_amount_in, bb_ui_quote = total_quote,
                 bb_max_quote = max_quote \<rparr>)))))"

definition buy_quote_input_internal ::
  "u64 \<Rightarrow> u64 \<Rightarrow> u64 \<Rightarrow> u64 \<Rightarrow> pubkey \<Rightarrow> (BuyQuoteInputResult, string) outcome" where
  "buy_quote_input_internal quote slippage_basis_points base_reserve quote_reserve coin_creator =
    (if base_reserve = 0 \<or> quote_reserve = 0 then Err err_zero_reserve
     else let total_fee_bps = LP_FEE_BASIS_POINTS + PROTOCOL_FEE_BASIS_POINTS
                + (if coin_creator = pubkey_default then 0 else COIN_CREATOR_FEE_BASIS_POINTS);
              denominator = 10000 + total_fee_bps
       in obind (div_or_panic (u128_of quote * 10000) (u128_of denominator)) (\<lambda>effective_quote.
       let numerator = u128_of base_reserve * effective_quote;
           denominator_effective = u128_of quote_reserve + effective_quote
       in if denominator_effective = 0 then Err err_depleted
       else obind (div_or_panic numerator denominator_effective) (\<lambda>b.
         let base_amount_out = u64_of b;
             max_quote = calculate_with_slippage_buy quote slippage_basis_points
         in Ok \<lparr> bq_base = base_amount_out, bq_internal_quote_without_fees = u64_of effective_quote,
                 bq_max_quote = max_quote \<rparr>)))"

definition sell_base_input_internal ::
  "u64 \<Rightarrow> u64 \<Rightarrow> u64 \<Rightarrow> u64 \<Rightarrow> pubkey \<Rightarrow> (SellBaseInputResult, string) outcome" where
  "sell_base_input_internal base slippage_basis_points base_reserve quote_reserve coin_creator =
    (if base_reserve = 0 \<or> quote_reserve = 0 then Err err_zero_reserve
     else obind (div_or_panic (u128_of quote_reserve * u128_of base) (u128_of base_reserve + u128_of base)) (\<lambda>q.
       let quote_amount_out = u64_of q in
       obind (compute_fee (u128_of quote_amount_out) (u128_of LP_FEE_BASIS_POINTS)) (\<lambda>lp.
       obind (compute_fee (u128_of quote_amount_out) (u128_of PROTOCOL_FEE_BASIS_POINTS)) (\<lambda>pf.
       obind (if coin_creator = pubkey_default then Ok 0
              else compute_fee (u128_of quote_amount_out) (u128_of COIN_CREATOR_FEE_BASIS_POINTS)) (\<lambda>cf.
       let lp_fee = u64_of lp; protocol_fee = u64_of pf; coin_creator_fee = u64_of cf;
           total_fees = lp_fee + protocol_fee + coin_creator_fee
       in if total_fees > quote_amount_out then Err err_fees_exceed
       else let final_quote = quote_amount_out - total_fees;
                min_quote = calculate_with_slippage_sell final_quote slippage_basis_points
         in Ok \<lparr> sb_ui_quote = final_quote, sb_min_quote = min_quote,
                 sb_internal_quote_amount_out = quote_amount_out \<rparr>)))))"

definition calculate_quote_amount_out :: "u64 \<Rightarrow> u64 \<Rightarrow> u64 \<Rightarrow> u64 \<Rightarrow> (u64, 'e) outcome" where
  "calculate_quote_amount_out user_quote_amount_out lp_bps protocol_bps creator_bps =
    (let total_fee_basis_points = lp_bps + protocol_bps + creator_bps;
         denominator = MAX_FEE_BASIS_POINTS - total_fee_basis_points
     in obind (ceil_div (u128_of user_quote_amount_out * u128_of MAX_FEE_BASIS_POINTS) (u128_of denominator))
          (\<lambda>q. Ok (u64_of q)))"

definition sell_quote_input_internal ::
  "u64 \<Rightarrow> u64 \<Rightarrow> u64 \<Rightarrow> u64 \<Rightarrow> pubkey \<Rightarrow> (SellQuoteInputResult, string) outcome" where
  "sell_quote_input_internal quote slippage_basis_points base_reserve quote_reserve coin_creator =
    (if base_reserve = 0 \<or> quote_reserve = 0 then Err err_zero_reserve
     else if quote > quote_reserve then Err err_receive_too_much
     else obind (calculate_quote_amount_out quote LP_FEE_BASIS_POINTS PROTOCOL_FEE_BASIS_POINTS
            (if coin_creator = pubkey_default then 0 else COIN_CREATOR_FEE_BASIS_POINTS)) (\<lambda>raw_quote.
       if raw_quote \<ge> quote_reserve then Err err_exceeds_reserve
       else obind (ceil_div (u128_of base_reserve * u128_of raw_quote) (u128_of (quote_reserve - raw_quote))) (\<lambda>b.
         let base_amount_in = u64_of b;
             min_quote = calculate_with_slippage_sell quote slippage_basis_points
         in Ok \<lparr> sq_internal_raw_quote = raw_quote, sq_base = base_amount_in, sq_min_quote = min_quote \<rparr>)))"

section \<open>Specification on natural numbers\<close>

definition creator_bps :: "pubkey \<Rightarrow> nat" where
  "creator_bps c = (if c = pubkey_default then 0 else 5)"

definition swap_fees :: "pubkey \<Rightarrow> nat \<Rightarrow> nat" where
  "swap_fees c q = nfee q 25 + nfee q 5 + nfee q (creator_bps c)"

lemma swap_fees_lower: "q * (30 + creator_bps c) \<le> 10000 * swap_fees c q"
  using nfee_lower [of q 25] nfee_lower [of q 5] nfee_lower [of q "creator_bps c"]
  by (simp add: swap_fees_def algebra_simps)

lemma swap_fees_upper: "10000 * swap_fees c q < q * (30 + creator_bps c) + 30000"
  using nfee_upper [of q 25] nfee_upper [of q 5] nfee_upper [of q "creator_bps c"]
  by (simp add: swap_fees_def algebra_simps)

lemma creator_bps_le: "creator_bps c \<le> 5"
  by (simp add: creator_bps_def)

section \<open>Refinement\<close>

lemma unat_fee_consts [simp]:
  "unat LP_FEE_BASIS_POINTS = 25" "unat PROTOCOL_FEE_BASIS_POINTS = 5"
  "unat COIN_CREATOR_FEE_BASIS_POINTS = 5" "unat MAX_FEE_BASIS_POINTS = 10000"
  by (simp_all add: swap_fee_defs)

lemma creator_fee_run:
  obtains cf where
    "(if c = pubkey_default then Ok 0
      else compute_fee (u128_of q) (u128_of COIN_CREATOR_FEE_BASIS_POINTS)) = (Ok cf :: (u128, string) outcome)"
    "unat cf = nfee (unat q) (creator_bps c)"
proof (cases "c = pubkey_default")
  case True
  then show thesis using that [of 0] by (simp add: creator_bps_def nfee_def)
next
  case False
  obtain f where "compute_fee (u128_of q) (u128_of COIN_CREATOR_FEE_BASIS_POINTS) = (Ok f :: (u128, string) outcome)"
    "unat f = nfee (unat q) 5"
    by (rule compute_fee_u64 [of "u128_of COIN_CREATOR_FEE_BASIS_POINTS" q]) (auto intro: that)
  then show thesis using that [of f] False by (simp add: creator_bps_def)
qed

text \<open>The three fees as one step: all three computations succeed, and when amount and fees
  fit in 64 bits together, so does each of them.\<close>

lemma fees_run:
  obtains lp pf cf where
    "compute_fee (u128_of q) (u128_of LP_FEE_BASIS_POINTS) = (Ok lp :: (u128, string) outcome)"
    "compute_fee (u128_of q) (u128_of PROTOCOL_FEE_BASIS_POINTS) = (Ok pf :: (u128, string) outcome)"
    "(if c = pubkey_default then Ok 0
      else compute_fee (u128_of q) (u128_of COIN_CREATOR_FEE_BASIS_POINTS)) = (Ok cf :: (u128, string) outcome)"
    "unat lp = nfee (unat q) 25" "unat pf = nfee (unat q) 5"
    "unat cf = nfee (unat q) (creator_bps c)"
proof -
  obtain lp where lp: "compute_fee (u128_of q) (u128_of LP_FEE_BASIS_POINTS) = (Ok lp :: (u128, string) outcome)"
    "unat lp = nfee (unat q) 25"
    by (rule compute_fee_u64 [of "u128_of LP_FEE_BASIS_POINTS" q]) auto
  obtain pf where pf: "compute_fee (u128_of q) (u128_of PROTOCOL_FEE_BASIS_POINTS) = (Ok pf :: (u128, string) outcome)"
    "unat pf = nfee (unat q) 5"
    by (rule compute_fee_u64 [of "u128_of PROTOCOL_FEE_BASIS_POINTS" q]) auto
  obtain cf where "(if c = pubkey_default then Ok 0
      else compute_fee (u128_of q) (u128_of COIN_CREATOR_FEE_BASIS_POINTS)) = (Ok cf :: (u128, string) outcome)"
    "unat cf = nfee (unat q) (creator_bps c)"
    by (rule creator_fee_run)
  then show thesis using that lp pf by blast
qed

lemma fee_sum_exact:
  assumes "unat lp = nfee (unat q) 25" "unat pf = nfee (unat q) 5"
    "unat cf = nfee (unat q) (creator_bps c)" "swap_fees c (unat q) < 2 ^ 64"
  shows "unat (u64_of lp + u64_of pf + u64_of cf) = swap_fees c (unat q)"
proof -
  have "unat (u64_of lp) = nfee (unat q) 25" "unat (u64_of pf) = nfee (unat q) 5"
    "unat (u64_of cf) = nfee (unat q) (creator_bps c)"
    using assms by (simp_all add: unat_u64_of_exact swap_fees_def)
  moreover have "unat (u64_of lp + u64_of pf) = unat (u64_of lp) + unat (u64_of pf)"
    using assms calculation by (intro unat_add_exact) (simp add: swap_fees_def)
  ultimately show ?thesis
    using assms(4) unat_add_exact [of "u64_of lp + u64_of pf" "u64_of cf"]
    by (simp add: swap_fees_def)
qed

text \<open>Buying by base amount.\<close>

lemma swap_fees_upper35: "10000 * swap_fees c q < q * 35 + 30000"
proof -
  have "q * (30 + creator_bps c) \<le> q * 35"
    using creator_bps_le [of c] by (intro mult_le_mono2) simp
  then show ?thesis using swap_fees_upper [of c q] by linarith
qed

lemma swap_fees_le: "swap_fees c q \<le> q + 3"
  using swap_fees_upper35 [of c q] by simp

lemma buy_base_refines:
  assumes "base_reserve \<noteq> 0" "quote_reserve \<noteq> 0" "base < base_reserve"
    and q: "q = cp_in (unat base_reserve) (unat quote_reserve) (unat base)"
    and fit: "q + swap_fees c q < 2 ^ 64"
  shows "\<exists>r. buy_base_input_internal base s base_reserve quote_reserve c = Ok r
    \<and> unat (bb_internal_quote_amount r) = q
    \<and> unat (bb_ui_quote r) = q + swap_fees c q
    \<and> bb_max_quote r = calculate_with_slippage_buy (bb_ui_quote r) s"
proof -
  have lt: "unat base < unat base_reserve" using assms(3) by (simp add: word_less_nat_alt)
  have d: "unat (base_reserve - base) = unat base_reserve - unat base"
    using assms(3) by (simp add: unat_sub less_imp_le)
  then have d0: "base_reserve - base \<noteq> 0" using lt by (metis unat_0 zero_less_diff less_irrefl)
  have num: "unat (u128_of quote_reserve * u128_of base) + unat (u128_of (base_reserve - base)) \<le> 2 ^ 128"
    using u64_mult_add_bound [of quote_reserve base "base_reserve - base"] by simp
  obtain x where x: "ceil_div (u128_of quote_reserve * u128_of base) (u128_of (base_reserve - base))
      = (Ok x :: (u128, string) outcome)" "unat x = q"
    using ceil_div_refines [OF _ num] d0 by (auto simp: q cp_in_def d)
  have ux: "unat (u64_of x) = q" using x(2) fit by (simp add: unat_u64_of_exact)
  obtain lp pf cf where f:
    "compute_fee (u128_of (u64_of x)) (u128_of LP_FEE_BASIS_POINTS) = (Ok lp :: (u128, string) outcome)"
    "compute_fee (u128_of (u64_of x)) (u128_of PROTOCOL_FEE_BASIS_POINTS) = (Ok pf :: (u128, string) outcome)"
    "(if c = pubkey_default then Ok 0
      else compute_fee (u128_of (u64_of x)) (u128_of COIN_CREATOR_FEE_BASIS_POINTS)) = (Ok cf :: (u128, string) outcome)"
    "unat lp = nfee (unat (u64_of x)) 25" "unat pf = nfee (unat (u64_of x)) 5"
    "unat cf = nfee (unat (u64_of x)) (creator_bps c)"
    by (rule fees_run)
  have fs: "unat (u64_of lp + u64_of pf + u64_of cf) = swap_fees c q"
    using fee_sum_exact [OF f(4-6)] fit ux by simp
  have "unat (u64_of x + (u64_of lp + u64_of pf + u64_of cf)) = q + swap_fees c q"
    using unat_add_exact [of "u64_of x" "u64_of lp + u64_of pf + u64_of cf"] fit ux fs by simp
  then show ?thesis
    using assms(1,2,3) d0 x f(1-3) ux
    by (simp add: buy_base_input_internal_def Let_def add.assoc)
qed

text \<open>Buying by quote amount.\<close>

definition effective_quote :: "pubkey \<Rightarrow> nat \<Rightarrow> nat" where
  "effective_quote c x = x * 10000 div (10030 + creator_bps c)"

lemma effective_quote_le: "effective_quote c x \<le> x"
proof -
  have "x * 10000 div (10030 + creator_bps c) \<le> x * (10030 + creator_bps c) div (10030 + creator_bps c)"
    by (intro div_le_mono mult_le_mono) simp_all
  then show ?thesis by (simp add: effective_quote_def)
qed

lemma effective_quote_of_total: "q \<le> effective_quote c (q + swap_fees c q)"
  using swap_fees_lower [of q c]
  by (simp add: effective_quote_def less_eq_div_iff_mult_less_eq algebra_simps)

lemma effective_quote_run:
  "\<exists>e. div_or_panic (u128_of quote * 10000) (u128_of (10000 + (LP_FEE_BASIS_POINTS +
      PROTOCOL_FEE_BASIS_POINTS + (if c = pubkey_default then 0 else COIN_CREATOR_FEE_BASIS_POINTS))))
    = Ok e \<and> unat e = effective_quote c (unat quote)"
proof -
  have "unat (u128_of quote * 10000) = unat quote * 10000"
    using unat_mult_exact [of "u128_of quote" 10000] u64_bound [of quote] by simp
  then show ?thesis
    by (auto simp: div_or_panic_def effective_quote_def creator_bps_def unat_div_distrib swap_fee_defs
        u128_of_def)
qed

lemma buy_quote_refines:
  assumes "base_reserve \<noteq> 0" "quote_reserve \<noteq> 0"
  shows "\<exists>r. buy_quote_input_internal quote s base_reserve quote_reserve c = Ok r
    \<and> unat (bq_internal_quote_without_fees r) = effective_quote c (unat quote)
    \<and> unat (bq_base r) = cp_out (unat quote_reserve) (unat base_reserve) (effective_quote c (unat quote))
    \<and> bq_max_quote r = calculate_with_slippage_buy quote s"
proof -
  let ?e = "effective_quote c (unat quote)"
  obtain e where e: "div_or_panic (u128_of quote * 10000) (u128_of (10000 + (LP_FEE_BASIS_POINTS +
      PROTOCOL_FEE_BASIS_POINTS + (if c = pubkey_default then 0 else COIN_CREATOR_FEE_BASIS_POINTS))))
      = (Ok e :: (u128, string) outcome)" "unat e = ?e"
    using effective_quote_run by blast
  have e64: "?e < 18446744073709551616"
    using effective_quote_le [of c "unat quote"] u64_bound [of quote] by linarith
  have "unat base_reserve * ?e < 18446744073709551616 * 18446744073709551616"
    using u64_bound [of base_reserve] e64 by (intro mult_strict_mono) simp_all
  then have num: "unat (u128_of base_reserve * e) = unat base_reserve * ?e"
    using unat_mult_exact [of "u128_of base_reserve" e] e(2) by simp
  have den: "unat (u128_of quote_reserve + e) = unat quote_reserve + ?e"
    using unat_add_exact [of "u128_of quote_reserve" e] e(2) e64 u64_bound [of quote_reserve] by simp
  have qr: "0 < unat quote_reserve" using assms(2) by (simp add: unat_gt_0)
  then have den0: "u128_of quote_reserve + e \<noteq> 0"
    using den by (metis add_is_0 less_irrefl unat_0)
  let ?o = "cp_out (unat quote_reserve) (unat base_reserve) ?e"
  have "unat (u128_of base_reserve * e div (u128_of quote_reserve + e)) = ?o"
    by (simp add: unat_div_distrib num den cp_out_def)
  moreover have "?o < 18446744073709551616"
    using cp_out_le [of "unat quote_reserve" "unat base_reserve" ?e] u64_bound [of base_reserve]
    by linarith
  ultimately show ?thesis
    using assms den0 e e64
    by (simp add: buy_quote_input_internal_def Let_def div_or_panic_def unat_u64_of_exact split: if_splits)
qed

text \<open>Selling by base amount.\<close>

lemma sell_base_refines:
  assumes "base_reserve \<noteq> 0" "quote_reserve \<noteq> 0"
    and q: "q = cp_out (unat base_reserve) (unat quote_reserve) (unat base)"
    and fit: "swap_fees c q < 2 ^ 64"
  shows "if q < swap_fees c q
    then sell_base_input_internal base s base_reserve quote_reserve c = Err err_fees_exceed
    else \<exists>r. sell_base_input_internal base s base_reserve quote_reserve c = Ok r
      \<and> unat (sb_internal_quote_amount_out r) = q
      \<and> unat (sb_ui_quote r) = q - swap_fees c q
      \<and> sb_min_quote r = calculate_with_slippage_sell (sb_ui_quote r) s"
proof -
  let ?d = "u128_of base_reserve + u128_of base"
  have d: "unat ?d = unat base_reserve + unat base"
    using unat_add_exact [of "u128_of base_reserve" "u128_of base"] u64_bound [of base_reserve] u64_bound [of base]
    by simp
  have "0 < unat base_reserve" using assms(1) by (simp add: unat_gt_0)
  then have d0: "?d \<noteq> 0" using d by (metis add_is_0 less_irrefl unat_0)
  let ?x = "u128_of quote_reserve * u128_of base div ?d"
  have x: "unat ?x = q" by (simp add: unat_div_distrib d q cp_out_def)
  have q64: "q < 18446744073709551616"
    using cp_out_le [of "unat base_reserve" "unat quote_reserve" "unat base"] u64_bound [of quote_reserve] q
    by linarith
  have ux: "unat (u64_of ?x) = q" using x q64 by (simp add: unat_u64_of_exact)
  obtain lp pf cf where f:
    "compute_fee (u128_of (u64_of ?x)) (u128_of LP_FEE_BASIS_POINTS) = (Ok lp :: (u128, string) outcome)"
    "compute_fee (u128_of (u64_of ?x)) (u128_of PROTOCOL_FEE_BASIS_POINTS) = (Ok pf :: (u128, string) outcome)"
    "(if c = pubkey_default then Ok 0
      else compute_fee (u128_of (u64_of ?x)) (u128_of COIN_CREATOR_FEE_BASIS_POINTS)) = (Ok cf :: (u128, string) outcome)"
    "unat lp = nfee (unat (u64_of ?x)) 25" "unat pf = nfee (unat (u64_of ?x)) 5"
    "unat cf = nfee (unat (u64_of ?x)) (creator_bps c)"
    by (rule fees_run)
  have fs: "unat (u64_of lp + u64_of pf + u64_of cf) = swap_fees c q"
    using fee_sum_exact [OF f(4-6)] fit ux by simp
  have cmp: "u64_of lp + u64_of pf + u64_of cf > u64_of ?x \<longleftrightarrow> q < swap_fees c q"
    by (simp add: word_less_nat_alt fs ux)
  show ?thesis
    using assms(1,2) d0 f(1-3) ux fs cmp
    by (auto simp: sell_base_input_internal_def Let_def div_or_panic_def unat_sub not_less)
qed

text \<open>Selling by quote amount.\<close>

definition raw_for_net :: "pubkey \<Rightarrow> nat \<Rightarrow> nat" where
  "raw_for_net c x = nceil (x * 10000) (9970 - creator_bps c)"

lemma raw_for_net_ge: "x * 10000 \<le> raw_for_net c x * (9970 - creator_bps c)"
  using nceil_lower [of "9970 - creator_bps c" "x * 10000"] creator_bps_le [of c]
  by (simp add: raw_for_net_def)

lemma raw_for_net_run:
  assumes "raw_for_net c (unat x) < 2 ^ 64"
  shows "\<exists>r. calculate_quote_amount_out x LP_FEE_BASIS_POINTS PROTOCOL_FEE_BASIS_POINTS
      (if c = pubkey_default then 0 else COIN_CREATOR_FEE_BASIS_POINTS) = (Ok r :: (u64, string) outcome)
    \<and> unat r = raw_for_net c (unat x)"
proof -
  let ?cb = "if c = pubkey_default then 0 else COIN_CREATOR_FEE_BASIS_POINTS"
  let ?d = "MAX_FEE_BASIS_POINTS - (LP_FEE_BASIS_POINTS + PROTOCOL_FEE_BASIS_POINTS + ?cb)"
  have d: "unat ?d = 9970 - creator_bps c"
    by (simp add: swap_fee_defs creator_bps_def)
  then have d0: "?d \<noteq> 0" using creator_bps_le [of c] by auto
  have num: "unat (u128_of x * u128_of MAX_FEE_BASIS_POINTS) = unat x * 10000"
    by simp
  have "unat x * 10000 + unat (u128_of ?d) \<le> 2 ^ 128"
    using u64_mult_add_bound [of x MAX_FEE_BASIS_POINTS ?d] by simp
  then obtain r where "ceil_div (u128_of x * u128_of MAX_FEE_BASIS_POINTS) (u128_of ?d) = (Ok r :: (u128, string) outcome)"
    "unat r = raw_for_net c (unat x)"
    using ceil_div_refines [of "u128_of ?d" "u128_of x * u128_of MAX_FEE_BASIS_POINTS"] d0 d
    by (auto simp: raw_for_net_def)
  then show ?thesis
    using assms by (auto simp: calculate_quote_amount_out_def Let_def unat_u64_of_exact)
qed

lemma sell_quote_refines:
  assumes "base_reserve \<noteq> 0" "quote_reserve \<noteq> 0"
    and raw: "raw = raw_for_net c (unat quote)" "raw < unat quote_reserve"
    and fit: "cp_in (unat quote_reserve) (unat base_reserve) raw < 2 ^ 64"
  shows "\<exists>r. sell_quote_input_internal quote s base_reserve quote_reserve c = Ok r
    \<and> unat (sq_internal_raw_quote r) = raw
    \<and> unat (sq_base r) = cp_in (unat quote_reserve) (unat base_reserve) raw
    \<and> sq_min_quote r = calculate_with_slippage_sell quote s"
proof -
  have "unat quote * 10000 \<le> raw * 9970"
    unfolding raw(1) by (rule order_trans [OF raw_for_net_ge [where c = c]]) simp
  then have qle: "quote \<le> quote_reserve"
    using raw(2) by (simp add: word_le_nat_alt)
  have r64: "raw < 2 ^ 64" using less_trans [OF raw(2) u64_bound] by simp
  obtain r where r: "calculate_quote_amount_out quote LP_FEE_BASIS_POINTS PROTOCOL_FEE_BASIS_POINTS
      (if c = pubkey_default then 0 else COIN_CREATOR_FEE_BASIS_POINTS) = (Ok r :: (u64, string) outcome)"
    "unat r = raw"
    using raw_for_net_run [of c quote] r64 raw(1) by auto
  have rlt: "r < quote_reserve" using r(2) raw(2) by (simp add: word_less_nat_alt)
  have d: "unat (quote_reserve - r) = unat quote_reserve - raw"
    using rlt r(2) by (simp add: unat_sub less_imp_le)
  then have d0: "quote_reserve - r \<noteq> 0" using raw(2) by (metis unat_0 zero_less_diff less_irrefl)
  have "unat (u128_of base_reserve * u128_of r) + unat (u128_of (quote_reserve - r)) \<le> 2 ^ 128"
    using u64_mult_add_bound [of base_reserve r "quote_reserve - r"] by simp
  then obtain b where b: "ceil_div (u128_of base_reserve * u128_of r) (u128_of (quote_reserve - r))
      = (Ok b :: (u128, string) outcome)" "unat b = cp_in (unat quote_reserve) (unat base_reserve) raw"
    using ceil_div_refines [of "u128_of (quote_reserve - r)" "u128_of base_reserve * u128_of r"] d0
    by (auto simp: cp_in_def d r(2))
  then show ?thesis
    using assms(1,2) qle r rlt fit
    by (simp add: sell_quote_input_internal_def Let_def not_le not_less unat_u64_of_exact)
qed

section \<open>Properties\<close>

lemma cp_in_fits:
  assumes "Ri * x < 2 ^ 63 * (Ro - x)"
  shows "cp_in Ro Ri x + swap_fees c (cp_in Ro Ri x) < 2 ^ 64"
proof -
  have "x < Ro" using assms by (cases "x < Ro") auto
  then have "cp_in Ro Ri x \<le> 2 ^ 63"
    using assms by (simp add: cp_in_least less_imp_le)
  then show ?thesis
    using swap_fees_upper35 [of c "cp_in Ro Ri x"] by simp
qed

text \<open>A buy by base amount pays the least quote amount that keeps the
  product of the reserves, plus the fees. While the price is below \<open>2 ^ 63\<close> the call
  succeeds, the raw quote is the exact ceiling of the constant-product formula, the pool's
  product does not shrink, and the total is the raw quote plus the three rounded-up fees.\<close>

theorem buy_base_priced:
  assumes "quote_reserve \<noteq> 0" "base < base_reserve"
    and "unat quote_reserve * unat base < 2 ^ 63 * (unat base_reserve - unat base)"
  shows "\<exists>r. buy_base_input_internal base s base_reserve quote_reserve c = Ok r
    \<and> (\<forall>n. unat (bb_internal_quote_amount r) \<le> n \<longleftrightarrow>
         unat quote_reserve * unat base \<le> n * (unat base_reserve - unat base))
    \<and> unat base_reserve * unat quote_reserve \<le>
         (unat base_reserve - unat base) * (unat quote_reserve + unat (bb_internal_quote_amount r))
    \<and> unat (bb_ui_quote r) =
         unat (bb_internal_quote_amount r) + swap_fees c (unat (bb_internal_quote_amount r))
    \<and> bb_max_quote r = calculate_with_slippage_buy (bb_ui_quote r) s"
proof -
  have lt: "unat base < unat base_reserve" using assms(2) by (simp add: word_less_nat_alt)
  have "base_reserve \<noteq> 0" using assms(2) by auto
  then show ?thesis
    using buy_base_refines [OF _ assms(1,2) refl cp_in_fits [OF assms(3)]]
      cp_in_least [OF lt] cp_in_product [OF lt] by metis
qed

theorem buy_base_priced_witness:
  "\<exists>r. buy_base_input_internal 1000 100 1000000 2000000 0 = Ok r
    \<and> unat (bb_ui_quote r) = unat (bb_internal_quote_amount r) + swap_fees 0 (unat (bb_internal_quote_amount r))"
  using buy_base_priced [of 2000000 1000 1000000 100 0] by auto

text \<open>The outcome of a buy by base amount is decided by the amounts alone. An empty
  reserve, an amount above the base reserve and an amount equal to it have their own
  error; in every other case the call returns a quote, and it never panics.\<close>

theorem buy_base_outcome:
  "\<exists>r. buy_base_input_internal base s base_reserve quote_reserve c =
    (if base_reserve = 0 \<or> quote_reserve = 0 then Err err_zero_reserve
     else if base_reserve < base then Err err_buy_too_much
     else if base = base_reserve then Err err_depleted
     else Ok r)"
  by (auto simp: buy_base_input_internal_def Let_def ceil_div_def compute_fee_def div_or_panic_def)

text \<open>Spending what \<open>buy_base_input_internal\<close> asks for buys at least the base
  amount it was asked for. The total it returns, given back to
  \<open>buy_quote_input_internal\<close> on the same reserves and creator, yields a base amount that
  is not smaller: the fees are removed again and no rounding is lost.\<close>

theorem buy_base_then_quote:
  assumes "quote_reserve \<noteq> 0" "base < base_reserve"
    and "unat quote_reserve * unat base < 2 ^ 63 * (unat base_reserve - unat base)"
  shows "\<exists>r r'. buy_base_input_internal base s base_reserve quote_reserve c = Ok r
    \<and> buy_quote_input_internal (bb_ui_quote r) t base_reserve quote_reserve c = Ok r'
    \<and> base \<le> bq_base r'"
proof -
  have lt: "unat base < unat base_reserve" using assms(2) by (simp add: word_less_nat_alt)
  have b0: "base_reserve \<noteq> 0" using assms(2) by auto
  have q0: "0 < unat quote_reserve" using assms(1) by (simp add: unat_gt_0)
  define q where "q = cp_in (unat base_reserve) (unat quote_reserve) (unat base)"
  obtain r where r: "buy_base_input_internal base s base_reserve quote_reserve c = Ok r"
    "unat (bb_ui_quote r) = q + swap_fees c q"
    using buy_base_refines [OF b0 assms(1,2) refl cp_in_fits [OF assms(3)]] by (auto simp: q_def)
  obtain r' where r': "buy_quote_input_internal (bb_ui_quote r) t base_reserve quote_reserve c = Ok r'"
    "unat (bq_base r') = cp_out (unat quote_reserve) (unat base_reserve) (effective_quote c (q + swap_fees c q))"
    using buy_quote_refines [OF b0 assms(1)] r(2) by metis
  have "unat base \<le> unat (bq_base r')"
    unfolding r'(2) using lt q0 effective_quote_of_total [of q c] q_def by (intro cp_in_out_ge) simp_all
  then show ?thesis using r(1) r'(1) by (auto simp: word_le_nat_alt)
qed

theorem buy_base_then_quote_witness:
  "\<exists>r r'. buy_base_input_internal 1000 100 1000000 2000000 7 = Ok r
    \<and> buy_quote_input_internal (bb_ui_quote r) 50 1000000 2000000 7 = Ok r' \<and> 1000 \<le> bq_base r'"
  by (rule buy_base_then_quote) simp_all

text \<open>A sell by base amount never takes more out of the pool than the
  constant product allows. The call either reports that the fees exceed the output, which
  happens exactly when the rounded-up fees are larger than the raw output, or returns the
  raw output minus the fees; the raw output is below the quote reserve, the product of the
  reserves does not shrink, and there is no other outcome and no panic.\<close>

theorem sell_base_outcome:
  fixes base base_reserve quote_reserve s :: u64 and c :: pubkey
  assumes "base_reserve \<noteq> 0" "quote_reserve \<noteq> 0" "unat quote_reserve \<le> 2 ^ 63"
  defines "q \<equiv> cp_out (unat base_reserve) (unat quote_reserve) (unat base)"
  shows "q < unat quote_reserve
    \<and> unat base_reserve * unat quote_reserve \<le>
        (unat base_reserve + unat base) * (unat quote_reserve - q)
    \<and> (if q < swap_fees c q
        then sell_base_input_internal base s base_reserve quote_reserve c = Err err_fees_exceed
        else \<exists>r. sell_base_input_internal base s base_reserve quote_reserve c = Ok r
          \<and> unat (sb_internal_quote_amount_out r) = q
          \<and> unat (sb_ui_quote r) = q - swap_fees c q
          \<and> sb_min_quote r = calculate_with_slippage_sell (sb_ui_quote r) s)"
proof -
  have "q \<le> 2 ^ 63"
    unfolding q_def using cp_out_le assms(3) order_trans by blast
  then have fit: "swap_fees c q < 2 ^ 64" using swap_fees_le [of c q] by simp
  have "q < unat quote_reserve"
    unfolding q_def using assms(1,2) by (intro cp_out_less) (simp_all add: unat_gt_0)
  then show ?thesis
    using sell_base_refines [OF assms(1,2) q_def [THEN meta_eq_to_obj_eq] fit, of s]
      cp_out_product [of "unat base_reserve" "unat quote_reserve" "unat base"]
    by (simp add: q_def)
qed

theorem sell_base_outcome_witness:
  "cp_out 1000000 2000000 1000 < 2000000
   \<and> (\<exists>r. sell_base_input_internal 1000 100 1000000 2000000 0 = Ok r
        \<and> unat (sb_ui_quote r) = 1998 - swap_fees 0 1998)"
  using sell_base_outcome [of 1000000 2000000 1000 0 100]
  by (auto simp: cp_out_def swap_fees_def nfee_def nceil_def creator_bps_def)

text \<open>The base amount that \<open>sell_quote_input_internal\<close> computes for a wanted
  quote amount, sold by \<open>sell_base_input_internal\<close> on the same pool, pays the wanted amount
  up to two units: the three fees are rounded up one by one, and this is all that is lost.\<close>

theorem sell_quote_then_base:
  assumes "base_reserve \<noteq> 0" "quote_reserve \<noteq> 0" "unat quote_reserve \<le> 2 ^ 63" "3 \<le> unat quote"
    and "raw_for_net c (unat quote) < unat quote_reserve"
    and "cp_in (unat quote_reserve) (unat base_reserve) (raw_for_net c (unat quote)) < 2 ^ 64"
  shows "\<exists>r r'. sell_quote_input_internal quote s base_reserve quote_reserve c = Ok r
    \<and> sell_base_input_internal (sq_base r) t base_reserve quote_reserve c = Ok r'
    \<and> unat quote \<le> unat (sb_ui_quote r') + 2"
proof -
  let ?B = "unat base_reserve" and ?Q = "unat quote_reserve" and ?w = "raw_for_net c (unat quote)"
  obtain r where r: "sell_quote_input_internal quote s base_reserve quote_reserve c = Ok r"
    "unat (sq_base r) = cp_in ?Q ?B ?w"
    using sell_quote_refines [OF assms(1,2) refl assms(5,6)] by blast
  define q where "q = cp_out ?B ?Q (unat (sq_base r))"
  have wq: "?w \<le> q"
    unfolding q_def using assms(1,5) r(2) by (intro cp_in_out_ge) (simp_all add: unat_gt_0)
  have "q \<le> 2 ^ 63" unfolding q_def using cp_out_le assms(3) order_trans by blast
  then have fit: "swap_fees c q < 2 ^ 64" using swap_fees_le [of c q] by simp
  have "unat quote * 10000 \<le> q * (9970 - creator_bps c)"
    using wq by (intro order_trans [OF raw_for_net_ge [where c = c]] mult_le_mono1)
  moreover have "q * (9970 - creator_bps c) + q * (30 + creator_bps c) = q * 10000"
    using creator_bps_le [of c] by (simp flip: add_mult_distrib2)
  ultimately have key: "unat quote * 10000 + 10000 * swap_fees c q < q * 10000 + 30000"
    using swap_fees_upper [of c q] by linarith
  then have "\<not> q < swap_fees c q" using assms(4) by linarith
  then obtain r' where "sell_base_input_internal (sq_base r) t base_reserve quote_reserve c = Ok r'"
    "unat (sb_ui_quote r') = q - swap_fees c q"
    using sell_base_refines [OF assms(1,2) q_def fit, of t] by auto
  moreover have "unat quote \<le> q - swap_fees c q + 2" using key by linarith
  ultimately show ?thesis using r(1) by auto
qed

theorem sell_quote_then_base_witness:
  "\<exists>r r'. sell_quote_input_internal 2009 100 1000000 2000000 1 = Ok r
    \<and> sell_base_input_internal (sq_base r) 100 1000000 2000000 1 = Ok r'
    \<and> unat (2009 :: u64) \<le> unat (sb_ui_quote r') + 2"
  by (rule sell_quote_then_base) (simp_all add: raw_for_net_def cp_in_def nceil_def creator_bps_def)

text \<open>None of the four swap quotes panics, whatever the amounts, reserves and
  creator are: every division they reach has a positive divisor.\<close>

theorem swap_quotes_never_panic:
  "buy_base_input_internal a s b q c \<noteq> Panic
   \<and> buy_quote_input_internal a s b q c \<noteq> Panic
   \<and> sell_base_input_internal a s b q c \<noteq> Panic
   \<and> sell_quote_input_internal a s b q c \<noteq> Panic"
proof (intro conjI)
  show "buy_base_input_internal a s b q c \<noteq> Panic"
    by (simp add: buy_base_input_internal_def Let_def ceil_div_def compute_fee_def div_or_panic_def)
  show "buy_quote_input_internal a s b q c \<noteq> Panic"
    by (simp add: buy_quote_input_internal_def Let_def div_or_panic_def swap_fee_defs u128_of_def)
  have "b \<noteq> 0 \<Longrightarrow> u128_of b + u128_of a \<noteq> 0"
    by (rule u128_sum_nonzero)
  then show "sell_base_input_internal a s b q c \<noteq> Panic"
    by (simp add: sell_base_input_internal_def Let_def ceil_div_def compute_fee_def div_or_panic_def)
  have "calculate_quote_amount_out a LP_FEE_BASIS_POINTS PROTOCOL_FEE_BASIS_POINTS
      (if c = pubkey_default then 0 else COIN_CREATOR_FEE_BASIS_POINTS) \<noteq> (Panic :: (u64, string) outcome)"
    by (simp add: calculate_quote_amount_out_def Let_def ceil_div_def div_or_panic_def swap_fee_defs
        u128_of_def)
  then show "sell_quote_input_internal a s b q c \<noteq> Panic"
    by (cases "calculate_quote_amount_out a LP_FEE_BASIS_POINTS PROTOCOL_FEE_BASIS_POINTS
          (if c = pubkey_default then 0 else COIN_CREATOR_FEE_BASIS_POINTS) :: (u64, string) outcome")
      (simp_all add: sell_quote_input_internal_def Let_def ceil_div_def div_or_panic_def)
qed

end
