(* ===== verification/PumpSwap_Instr.thy ===== *)
theory PumpSwap_Instr
  imports PumpFun_Instr Wsol_Manager Calc_PumpSwap
begin

text \<open>
  The PumpSwap instruction builder of \<open>src/instruction/pumpswap.rs\<close>: the buy and the sell of
  a pool of a token against wrapped SOL or USDC, in either order of the pair, with the
  account list, the data and the wrapped-SOL instructions around them, and the cashback claim.
\<close>

section \<open>The code\<close>

definition PS_BUY_DISCRIMINATOR :: "u8 list" where
  "PS_BUY_DISCRIMINATOR = [102, 6, 61, 18, 1, 218, 235, 234]"
definition PS_SELL_DISCRIMINATOR :: "u8 list" where
  "PS_SELL_DISCRIMINATOR = [51, 230, 133, 164, 1, 127, 131, 173]"

definition fee_recipient_ata :: "extern \<Rightarrow> pubkey \<Rightarrow> pubkey \<Rightarrow> pubkey cached" where
  "fee_recipient_ata X fee_recipient quote_mint = get_ata_fast X fee_recipient quote_mint TOKEN_PROGRAM"

definition get_user_volume_accumulator_wsol_ata :: "extern \<Rightarrow> pubkey \<Rightarrow> pubkey option cached" where
  "get_user_volume_accumulator_wsol_ata X user = (\<lambda>c.
    case get_ps_user_volume_accumulator_pda X user c of
      (None, c') \<Rightarrow> (Ok None, c')
    | (Some accumulator, c') \<Rightarrow>
        sbind (get_ata_fast X accumulator WSOL_TOKEN_ACCOUNT TOKEN_PROGRAM) (\<lambda>a. sret (Some a)) c')"

definition err_ps_params :: string where "err_ps_params = ''Invalid protocol params for PumpSwap''"
definition err_pool_mints :: string where "err_pool_mints = ''Pool must contain WSOL or USDC''"
definition err_token_unset :: string where "err_token_unset = ''Token amount is not set''"

definition pool_is_wsol :: "pubkey \<Rightarrow> pubkey \<Rightarrow> bool" where
  "pool_is_wsol base_mint quote_mint =
    ((base_mint = WSOL_TOKEN_ACCOUNT \<and> quote_mint \<noteq> USDC_TOKEN_ACCOUNT)
     \<or> (quote_mint = WSOL_TOKEN_ACCOUNT \<and> base_mint \<noteq> USDC_TOKEN_ACCOUNT))"

definition pool_is_usdc :: "pubkey \<Rightarrow> pubkey \<Rightarrow> bool" where
  "pool_is_usdc base_mint quote_mint =
    ((base_mint = USDC_TOKEN_ACCOUNT \<and> quote_mint \<noteq> WSOL_TOKEN_ACCOUNT)
     \<or> (quote_mint = USDC_TOKEN_ACCOUNT \<and> base_mint \<noteq> WSOL_TOKEN_ACCOUNT))"

definition quote_is_wsol_or_usdc :: "pubkey \<Rightarrow> bool" where
  "quote_is_wsol_or_usdc quote_mint = (quote_mint = WSOL_TOKEN_ACCOUNT \<or> quote_mint = USDC_TOKEN_ACCOUNT)"

definition ps_creator :: "PumpSwapParams \<Rightarrow> pubkey" where
  "ps_creator p = (if ps_coin_creator_vault_authority p \<noteq> DEFAULT_COIN_CREATOR_VAULT_AUTHORITY
     then ps_coin_creator_vault_authority p else pubkey_default)"

text \<open>Token and SOL amount of a buy, SOL and token amount of a sell, before a fixed output
  amount replaces the first component.\<close>

definition ps_buy_amounts :: "PumpSwapParams \<Rightarrow> u64 \<Rightarrow> u64 \<Rightarrow> (u64 \<times> u64, string) outcome" where
  "ps_buy_amounts p input slippage =
    (if quote_is_wsol_or_usdc (ps_quote_mint p)
     then obind (unwrap_result (buy_quote_input_internal input slippage (ps_pool_base_token_reserves p)
            (ps_pool_quote_token_reserves p) (ps_creator p))) (\<lambda>result. Ok (bq_base result, bq_max_quote result))
     else obind (unwrap_result (sell_base_input_internal input slippage (ps_pool_base_token_reserves p)
            (ps_pool_quote_token_reserves p) (ps_creator p))) (\<lambda>result. Ok (sb_min_quote result, input)))"

definition ps_sell_amounts :: "PumpSwapParams \<Rightarrow> u64 \<Rightarrow> u64 \<Rightarrow> (u64 \<times> u64, string) outcome" where
  "ps_sell_amounts p input slippage =
    (if quote_is_wsol_or_usdc (ps_quote_mint p)
     then obind (unwrap_result (sell_base_input_internal input slippage (ps_pool_base_token_reserves p)
            (ps_pool_quote_token_reserves p) (ps_creator p))) (\<lambda>result. Ok (input, sb_min_quote result))
     else obind (unwrap_result (buy_quote_input_internal input slippage (ps_pool_base_token_reserves p)
            (ps_pool_quote_token_reserves p) (ps_creator p))) (\<lambda>result. Ok (bq_max_quote result, bq_base result)))"

definition ps_fee_recipient :: "bool \<Rightarrow> pubkey" where
  "ps_fee_recipient is_mayhem_mode = (if is_mayhem_mode then PS_MAYHEM_FEE_RECIPIENT else PS_FEE_RECIPIENT)"

definition ps_fee_recipient_meta :: "bool \<Rightarrow> AccountMeta" where
  "ps_fee_recipient_meta is_mayhem_mode =
    (if is_mayhem_mode then PS_MAYHEM_FEE_RECIPIENT_META else PS_FEE_RECIPIENT_META)"

text \<open>The 19 accounts both instructions start with.\<close>

definition ps_accounts_head :: "PumpSwapParams \<Rightarrow> pubkey \<Rightarrow> pubkey \<Rightarrow> pubkey \<Rightarrow> pubkey \<Rightarrow> AccountMeta list" where
  "ps_accounts_head p payer user_base_token_account user_quote_token_account fee_ata =
    [meta_new (ps_pool p) False, meta_new payer True, PS_GLOBAL_ACCOUNT_META,
     meta_readonly (ps_base_mint p) False, meta_readonly (ps_quote_mint p) False,
     meta_new user_base_token_account False, meta_new user_quote_token_account False,
     meta_new (ps_pool_base_token_account p) False, meta_new (ps_pool_quote_token_account p) False,
     ps_fee_recipient_meta (ps_is_mayhem_mode p), meta_new fee_ata False,
     meta_readonly (ps_base_token_program p) False, meta_readonly (ps_quote_token_program p) False,
     SYSTEM_PROGRAM_META, PS_ASSOCIATED_TOKEN_PROGRAM_META, PS_EVENT_AUTHORITY_META, AMM_PROGRAM_META,
     meta_new (ps_coin_creator_vault_ata p) False, meta_readonly (ps_coin_creator_vault_authority p) False]"

text \<open>The accounts pushed after them: the volume accumulators when the instruction is a buy of the
  program, the fee accounts, and the cashback accounts.\<close>

definition ps_volume_metas :: "extern \<Rightarrow> bool \<Rightarrow> pubkey \<Rightarrow> AccountMeta list cached" where
  "ps_volume_metas X program_buy payer =
    (if program_buy
     then sbind (unwrap_pda (get_ps_user_volume_accumulator_pda X payer)) (\<lambda>a.
       sret [PS_GLOBAL_VOLUME_ACCUMULATOR_META, meta_new a False])
     else sret [])"

definition ps_buy_cashback :: "extern \<Rightarrow> bool \<Rightarrow> pubkey \<Rightarrow> AccountMeta list cached" where
  "ps_buy_cashback X is_cashback_coin payer =
    (if is_cashback_coin
     then sbind (get_user_volume_accumulator_wsol_ata X payer) (\<lambda>r.
       sret (case r of Some wsol_ata \<Rightarrow> [meta_new wsol_ata False] | None \<Rightarrow> []))
     else sret [])"

definition ps_sell_cashback :: "extern \<Rightarrow> bool \<Rightarrow> pubkey \<Rightarrow> AccountMeta list cached" where
  "ps_sell_cashback X is_cashback_coin payer =
    (if is_cashback_coin
     then sbind (get_user_volume_accumulator_wsol_ata X payer) (\<lambda>r. \<lambda>c.
       case get_ps_user_volume_accumulator_pda X payer c of (a, c') \<Rightarrow>
         (Ok (case (r, a) of
            (Some wsol_ata, Some accumulator) \<Rightarrow> [meta_new wsol_ata False, meta_new accumulator False]
          | _ \<Rightarrow> []), c'))
     else sret [])"

definition ps_buy_data :: "SwapParams \<Rightarrow> pubkey \<Rightarrow> u64 \<Rightarrow> u64 \<Rightarrow> u8 list" where
  "ps_buy_data params quote_mint token_amount sol_amount =
    (if quote_is_wsol_or_usdc quote_mint
     then if unwrap_or True (sp_use_exact_sol_amount params)
       then let min_base_amount_out = calculate_with_slippage_sell token_amount
                  (unwrap_or DEFAULT_SLIPPAGE (sp_slippage_basis_points params))
            in BUY_EXACT_QUOTE_IN_DISCRIMINATOR @ u64_le (unwrap_or 0 (sp_input_amount params))
               @ u64_le min_base_amount_out
       else PS_BUY_DISCRIMINATOR @ u64_le token_amount @ u64_le sol_amount
     else PS_SELL_DISCRIMINATOR @ u64_le sol_amount @ u64_le token_amount)"

definition ps_sell_data :: "pubkey \<Rightarrow> u64 \<Rightarrow> u64 \<Rightarrow> u8 list" where
  "ps_sell_data quote_mint token_amount sol_amount =
    (if quote_is_wsol_or_usdc quote_mint
     then PS_SELL_DISCRIMINATOR @ u64_le token_amount @ u64_le sol_amount
     else PS_BUY_DISCRIMINATOR @ u64_le sol_amount @ u64_le token_amount)"

definition ps_build_buy_instructions :: "extern \<Rightarrow> rents \<Rightarrow> SwapParams \<Rightarrow> Instruction list cached" where
  "ps_build_buy_instructions X rs params =
    sbind (slift (ok_or err_ps_params (as_pumpswap (sp_protocol_params params)))) (\<lambda>p.
    if unwrap_or 0 (sp_input_amount params) = 0 then slift (Err err_zero_amount) else
    if \<not> pool_is_wsol (ps_base_mint p) (ps_quote_mint p) \<and> \<not> pool_is_usdc (ps_base_mint p) (ps_quote_mint p)
    then slift (Err err_pool_mints) else
    let quote_is = quote_is_wsol_or_usdc (ps_quote_mint p); payer = sp_payer params
    in sbind (slift (ps_buy_amounts p (unwrap_or 0 (sp_input_amount params))
         (unwrap_or DEFAULT_SLIPPAGE (sp_slippage_basis_points params)))) (\<lambda>(quoted_amount, sol_amount).
    let token_amount = unwrap_or quoted_amount (sp_fixed_output_amount params)
    in sbind (get_ata_fast_use_seed X payer (ps_base_mint p) (ps_base_token_program p)
         (sp_open_seed_optimize params)) (\<lambda>user_base_token_account.
    sbind (get_ata_fast_use_seed X payer (ps_quote_mint p) (ps_quote_token_program p)
         (sp_open_seed_optimize params)) (\<lambda>user_quote_token_account.
    sbind (fee_recipient_ata X (ps_fee_recipient (ps_is_mayhem_mode p)) (ps_quote_mint p)) (\<lambda>fee_ata.
    sbind (if sp_create_input_mint_ata params then handle_wsol X rs payer sol_amount else sret []) (\<lambda>wsol_ixs.
    sbind (if sp_create_output_mint_ata params
           then create_ata_fast_use_seed X rs payer payer
             (if quote_is then ps_base_mint p else ps_quote_mint p)
             (if quote_is then ps_base_token_program p else ps_quote_token_program p)
             (sp_open_seed_optimize params)
           else sret []) (\<lambda>create_ixs.
    sbind (ps_volume_metas X quote_is payer) (\<lambda>volume_metas.
    sbind (ps_buy_cashback X (ps_is_cashback_coin p) payer) (\<lambda>cashback_metas.
    sbind (slift (obind (get_pool_v2_pda X (ps_base_mint p)) unwrap_option)) (\<lambda>pool_v2.
    let buy_instruction = \<lparr> ix_program_id = AMM_PROGRAM,
          ix_accounts = ps_accounts_head p payer user_base_token_account user_quote_token_account fee_ata
            @ volume_metas @ [PS_FEE_CONFIG_META, PS_FEE_PROGRAM_META] @ cashback_metas
            @ [meta_readonly pool_v2 False],
          ix_data = ps_buy_data params (ps_quote_mint p) token_amount sol_amount \<rparr>
    in sbind (if sp_close_input_mint_ata params then close_wsol X payer else sret []) (\<lambda>close_ixs.
    sret (wsol_ixs @ create_ixs @ [buy_instruction] @ close_ixs))))))))))))"

definition ps_build_sell_instructions :: "extern \<Rightarrow> rents \<Rightarrow> SwapParams \<Rightarrow> Instruction list cached" where
  "ps_build_sell_instructions X rs params =
    sbind (slift (ok_or err_ps_params (as_pumpswap (sp_protocol_params params)))) (\<lambda>p.
    if \<not> pool_is_wsol (ps_base_mint p) (ps_quote_mint p) \<and> \<not> pool_is_usdc (ps_base_mint p) (ps_quote_mint p)
    then slift (Err err_pool_mints) else
    sbind (slift (ok_or err_token_unset (sp_input_amount params))) (\<lambda>input.
    let quote_is = quote_is_wsol_or_usdc (ps_quote_mint p); payer = sp_payer params
    in sbind (slift (ps_sell_amounts p input
         (unwrap_or DEFAULT_SLIPPAGE (sp_slippage_basis_points params)))) (\<lambda>(token_amount, quoted_amount).
    let sol_amount = unwrap_or quoted_amount (sp_fixed_output_amount params)
    in sbind (fee_recipient_ata X (ps_fee_recipient (ps_is_mayhem_mode p)) (ps_quote_mint p)) (\<lambda>fee_ata.
    sbind (get_ata_fast_use_seed X payer (ps_base_mint p) (ps_base_token_program p)
         (sp_open_seed_optimize params)) (\<lambda>user_base_token_account.
    sbind (get_ata_fast_use_seed X payer (ps_quote_mint p) (ps_quote_token_program p)
         (sp_open_seed_optimize params)) (\<lambda>user_quote_token_account.
    sbind (if sp_create_output_mint_ata params then create_wsol_ata X rs payer else sret []) (\<lambda>wsol_ixs.
    sbind (ps_volume_metas X (\<not> quote_is) payer) (\<lambda>volume_metas.
    sbind (ps_sell_cashback X (ps_is_cashback_coin p) payer) (\<lambda>cashback_metas.
    sbind (slift (obind (get_pool_v2_pda X (ps_base_mint p)) unwrap_option)) (\<lambda>pool_v2.
    let sell_instruction = \<lparr> ix_program_id = AMM_PROGRAM,
          ix_accounts = ps_accounts_head p payer user_base_token_account user_quote_token_account fee_ata
            @ volume_metas @ [PS_FEE_CONFIG_META, PS_FEE_PROGRAM_META] @ cashback_metas
            @ [meta_readonly pool_v2 False],
          ix_data = ps_sell_data (ps_quote_mint p) token_amount sol_amount \<rparr>
    in sbind (if sp_close_output_mint_ata params then close_wsol X payer else sret []) (\<lambda>close_wsol_ixs.
    sbind (if sp_close_input_mint_ata params
           then sbind (slift (close_account
               (if quote_is then ps_base_token_program p else ps_quote_token_program p)
               (if quote_is then user_base_token_account else user_quote_token_account)
               payer payer [payer])) (\<lambda>ix. sret [ix])
           else sret []) (\<lambda>close_ixs.
    sret (wsol_ixs @ [sell_instruction] @ close_wsol_ixs @ close_ixs)))))))))))))"

definition claim_cashback_pumpswap_instruction ::
  "extern \<Rightarrow> pubkey \<Rightarrow> pubkey \<Rightarrow> pubkey \<Rightarrow> Instruction option cached" where
  "claim_cashback_pumpswap_instruction X payer quote_mint quote_token_program = (\<lambda>c.
    case get_ps_user_volume_accumulator_pda X payer c of
      (None, c') \<Rightarrow> (Ok None, c')
    | (Some user_volume_accumulator, c') \<Rightarrow>
        sbind (get_user_volume_accumulator_wsol_ata X payer) (\<lambda>r. case r of
            None \<Rightarrow> sret None
          | Some user_volume_accumulator_wsol_ata \<Rightarrow>
              sbind (get_ata_fast X payer quote_mint quote_token_program) (\<lambda>user_wsol_ata.
              sret (Some \<lparr> ix_program_id = AMM_PROGRAM,
                ix_accounts = [meta_new payer True, meta_new user_volume_accumulator False,
                  meta_readonly quote_mint False, meta_readonly quote_token_program False,
                  meta_new user_volume_accumulator_wsol_ata False, meta_new user_wsol_ata False,
                  SYSTEM_PROGRAM_META, PS_EVENT_AUTHORITY_META, AMM_PROGRAM_META],
                ix_data = CLAIM_CASHBACK_DISCRIMINATOR \<rparr>))) c')"

section \<open>Results do not depend on the caches\<close>

lemma volume_option_settles:
  assumes "\<And>a. settles (coherent X rs) (f a)"
  shows "settles (coherent X rs) (\<lambda>c. case get_ps_user_volume_accumulator_pda X user c of (a, c') \<Rightarrow> f a c')"
proof -
  have get: "fst (get_ps_user_volume_accumulator_pda X user c) = ps_user_volume_accumulator_pda X user
      \<and> coherent X rs (snd (get_ps_user_volume_accumulator_pda X user c))" if "coherent X rs c" for c
    using pda_runs [OF that, of "PumpSwapUserVolume user"] by (simp add: pda_getter_defs)
  from assms [of "ps_user_volume_accumulator_pda X user"]
  obtain r where "runs (coherent X rs) (f (ps_user_volume_accumulator_pda X user)) r"
    by (auto simp: settles_def)
  then show ?thesis using get
    by (intro settlesI [of _ _ r]) (auto simp: runs_def case_prod_beta)
qed

lemma wsol_ata_settles [settles_intros]:
  "settles (coherent X rs) (get_user_volume_accumulator_wsol_ata X user)"
proof -
  let ?f = "\<lambda>a. case a of None \<Rightarrow> sret None
     | Some a \<Rightarrow> sbind (get_ata_fast X a WSOL_TOKEN_ACCOUNT TOKEN_PROGRAM) (\<lambda>a. sret (Some a))"
  have "get_user_volume_accumulator_wsol_ata X user =
      (\<lambda>c. case get_ps_user_volume_accumulator_pda X user c of (a, c') \<Rightarrow> ?f a c')"
    by (auto simp: get_user_volume_accumulator_wsol_ata_def fun_eq_iff split: prod.splits option.splits)
  then show ?thesis
    by (simp only:) (intro volume_option_settles settles_intros)
qed

lemma wsol_settles [settles_intros]:
  "settles (coherent X rs) (handle_wsol X rs payer n)"
  "settles (coherent X rs) (close_wsol X payer)"
  "settles (coherent X rs) (create_wsol_ata X rs payer)"
  unfolding handle_wsol_def close_wsol_def create_wsol_ata_def by (intro settles_intros)+

lemma ps_metas_settle [settles_intros]:
  "settles (coherent X rs) (ps_volume_metas X b payer)"
  "settles (coherent X rs) (ps_buy_cashback X b payer)"
  "settles (coherent X rs) (fee_recipient_ata X r q)"
  unfolding ps_volume_metas_def ps_buy_cashback_def fee_recipient_ata_def by (intro settles_intros)+

lemma ps_sell_cashback_settles [settles_intros]:
  "settles (coherent X rs) (ps_sell_cashback X b payer)"
proof -
  have "settles (coherent X rs) (\<lambda>c. case get_ps_user_volume_accumulator_pda X payer c of (a, c') \<Rightarrow>
     sret (case (r, a) of
            (Some wsol_ata, Some accumulator) \<Rightarrow> [meta_new wsol_ata False, meta_new accumulator False]
          | _ \<Rightarrow> []) c')" for r
    by (intro volume_option_settles settles_intros)
  then show ?thesis unfolding ps_sell_cashback_def by (intro settles_intros) (simp del: split_paired_All)
qed

lemma settles_prod [settles_intros]:
  "(\<And>a b. settles I (f a b)) \<Longrightarrow> settles I (case x of (a, b) \<Rightarrow> f a b)"
  by (simp split: prod.split)

lemma ps_builders_settle:
  "settles (coherent X rs) (ps_build_buy_instructions X rs params)"
  "settles (coherent X rs) (ps_build_sell_instructions X rs params)"
  unfolding ps_build_buy_instructions_def ps_build_sell_instructions_def Let_def
  by (intro settles_intros)+

section \<open>Reading a successful run\<close>

lemma sbind_OkE:
  assumes "fst (sbind m f s) = Ok y"
  obtains x s' where "m s = (Ok x, s')" "fst (f x s') = Ok y"
  using assms by (cases "m s"; cases "fst (m s)") (auto simp: sbind_def)

lemma optional_ixs: "(if b then m else sret []) s = (Ok xs, s') \<Longrightarrow> b \<or> xs = []"
  by (auto split: if_splits)

lemma ps_volume_metas_shape:
  "ps_volume_metas X b payer s = (Ok ms, s') \<Longrightarrow>
    filter am_is_signer ms = [] \<and> length ms = (if b then 2 else 0)"
  by (auto simp: ps_volume_metas_def sbind_run PS_GLOBAL_VOLUME_ACCUMULATOR_META_def
      split: if_splits outcome.splits)

lemma ps_cashback_shape:
  "ps_buy_cashback X b payer s = (Ok ms, s') \<Longrightarrow> filter am_is_signer ms = [] \<and> length ms \<le> (if b then 1 else 0)"
  "ps_sell_cashback X b payer s = (Ok ms, s') \<Longrightarrow> filter am_is_signer ms = [] \<and> length ms \<in> (if b then {0, 2} else {0})"
  by (auto simp: ps_buy_cashback_def ps_sell_cashback_def sbind_run
      split: if_splits outcome.splits option.splits prod.splits)

lemmas ps_metas = PS_GLOBAL_ACCOUNT_META_def PS_FEE_RECIPIENT_META_def PS_MAYHEM_FEE_RECIPIENT_META_def
  SYSTEM_PROGRAM_META_def PS_ASSOCIATED_TOKEN_PROGRAM_META_def PS_EVENT_AUTHORITY_META_def AMM_PROGRAM_META_def
  ps_fee_recipient_meta_def PS_FEE_CONFIG_META_def PS_FEE_PROGRAM_META_def

lemma ps_head_shape:
  "map am_pubkey (filter am_is_signer (ps_accounts_head p payer ub uq f)) = [payer]"
  "length (ps_accounts_head p payer ub uq f) = 19"
  by (simp_all add: ps_accounts_head_def ps_metas)

lemma ps_signers:
  assumes "filter am_is_signer vs = []" "filter am_is_signer cs = []"
  shows "ix_signers \<lparr> ix_program_id = AMM_PROGRAM, ix_accounts = ps_accounts_head p payer ub uq f
     @ vs @ [PS_FEE_CONFIG_META, PS_FEE_PROGRAM_META] @ cs @ [meta_readonly v2 False], ix_data = d \<rparr> = {payer}"
  using assms by (simp add: ix_signers_def ps_head_shape ps_metas del: set_map set_filter)

lemma ps_discriminator_lengths [simp]:
  "length PS_BUY_DISCRIMINATOR = 8" "length PS_SELL_DISCRIMINATOR = 8"
  by (simp_all add: PS_BUY_DISCRIMINATOR_def PS_SELL_DISCRIMINATOR_def)

text \<open>The fields of the instruction of a buy and of a sell.\<close>

lemma ps_buy_fields:
  "swap_fields (ps_buy_data params q token sol) =
    (if quote_is_wsol_or_usdc q
     then if unwrap_or True (sp_use_exact_sol_amount params)
       then (BUY_EXACT_QUOTE_IN_DISCRIMINATOR, unat (unwrap_or 0 (sp_input_amount params)),
             unat (calculate_with_slippage_sell token (unwrap_or DEFAULT_SLIPPAGE (sp_slippage_basis_points params))))
       else (PS_BUY_DISCRIMINATOR, unat token, unat sol)
     else (PS_SELL_DISCRIMINATOR, unat sol, unat token))"
  by (simp add: ps_buy_data_def swap_fields_data Let_def)

lemma ps_sell_fields:
  "swap_fields (ps_sell_data q token sol) =
    (if quote_is_wsol_or_usdc q then (PS_SELL_DISCRIMINATOR, unat token, unat sol)
     else (PS_BUY_DISCRIMINATOR, unat sol, unat token))"
  by (simp add: ps_sell_data_def swap_fields_data)

lemma ps_buyE:
  assumes "fst (ps_build_buy_instructions X rs params c) = Ok ixs"
  obtains p quoted sol ub uq fa wsol create vol cash v2 close
  where "sp_protocol_params params = DexPumpSwap p" "unwrap_or 0 (sp_input_amount params) \<noteq> 0"
    "pool_is_wsol (ps_base_mint p) (ps_quote_mint p) \<or> pool_is_usdc (ps_base_mint p) (ps_quote_mint p)"
    "wsol @ create @ [\<lparr> ix_program_id = AMM_PROGRAM,
       ix_accounts = ps_accounts_head p (sp_payer params) ub uq fa @ vol
         @ [PS_FEE_CONFIG_META, PS_FEE_PROGRAM_META] @ cash @ [meta_readonly v2 False],
       ix_data = ps_buy_data params (ps_quote_mint p) (unwrap_or quoted (sp_fixed_output_amount params)) sol \<rparr>] @ close
     = ixs"
    "ps_buy_amounts p (unwrap_or 0 (sp_input_amount params))
       (unwrap_or DEFAULT_SLIPPAGE (sp_slippage_basis_points params)) = Ok (quoted, sol)"
    "sp_create_input_mint_ata params \<or> wsol = []" "sp_create_output_mint_ata params \<or> create = []"
    "sp_close_input_mint_ata params \<or> close = []"
    "filter am_is_signer vol = [] \<and> length vol = (if quote_is_wsol_or_usdc (ps_quote_mint p) then 2 else 0)"
    "filter am_is_signer cash = [] \<and> length cash \<le> (if ps_is_cashback_coin p then 1 else 0)"
proof -
  from assms obtain p where p: "sp_protocol_params params = DexPumpSwap p"
    by (cases "sp_protocol_params params") (auto simp: ps_build_buy_instructions_def run_simps)
  have ok: "unwrap_or 0 (sp_input_amount params) \<noteq> 0"
    "pool_is_wsol (ps_base_mint p) (ps_quote_mint p) \<or> pool_is_usdc (ps_base_mint p) (ps_quote_mint p)"
    using assms by (auto simp: ps_build_buy_instructions_def p run_simps split: if_splits)
  then have no: "\<not> (\<not> pool_is_wsol (ps_base_mint p) (ps_quote_mint p) \<and> \<not> pool_is_usdc (ps_base_mint p) (ps_quote_mint p))"
    by blast
  note run = assms [unfolded ps_build_buy_instructions_def p as_pumpswap.simps ok_or_simps sbind_simps Let_def
      if_not_P [OF ok(1)] if_not_P [OF no] case_prod_beta]
  show ?thesis
    using run
    by (elim sbind_OkE; intro that [OF p ok]; (simp only: sret_run slift_run fst_conv outcome.inject prod.inject))
      (erule asm_rl optional_ixs ps_volume_metas_shape ps_cashback_shape | force)+
qed

lemma ps_sellE:
  assumes "fst (ps_build_sell_instructions X rs params c) = Ok ixs"
  obtains p input token quoted ub uq fa wsol vol cash v2 close_wsol_ixs close_ixs
  where "sp_protocol_params params = DexPumpSwap p" "sp_input_amount params = Some input"
    "pool_is_wsol (ps_base_mint p) (ps_quote_mint p) \<or> pool_is_usdc (ps_base_mint p) (ps_quote_mint p)"
    "wsol @ [\<lparr> ix_program_id = AMM_PROGRAM,
       ix_accounts = ps_accounts_head p (sp_payer params) ub uq fa @ vol
         @ [PS_FEE_CONFIG_META, PS_FEE_PROGRAM_META] @ cash @ [meta_readonly v2 False],
       ix_data = ps_sell_data (ps_quote_mint p) token (unwrap_or quoted (sp_fixed_output_amount params)) \<rparr>]
     @ close_wsol_ixs @ close_ixs = ixs"
    "ps_sell_amounts p input
       (unwrap_or DEFAULT_SLIPPAGE (sp_slippage_basis_points params)) = Ok (token, quoted)"
    "sp_create_output_mint_ata params \<or> wsol = []"
    "sp_close_output_mint_ata params \<or> close_wsol_ixs = []" "sp_close_input_mint_ata params \<or> close_ixs = []"
    "filter am_is_signer vol = [] \<and> length vol = (if \<not> quote_is_wsol_or_usdc (ps_quote_mint p) then 2 else 0)"
    "filter am_is_signer cash = [] \<and> length cash \<in> (if ps_is_cashback_coin p then {0, 2} else {0})"
proof -
  from assms obtain p where p: "sp_protocol_params params = DexPumpSwap p"
    by (cases "sp_protocol_params params") (auto simp: ps_build_sell_instructions_def run_simps)
  have ok: "pool_is_wsol (ps_base_mint p) (ps_quote_mint p) \<or> pool_is_usdc (ps_base_mint p) (ps_quote_mint p)"
    using assms by (auto simp: ps_build_sell_instructions_def p run_simps split: if_splits)
  then have no: "\<not> (\<not> pool_is_wsol (ps_base_mint p) (ps_quote_mint p) \<and> \<not> pool_is_usdc (ps_base_mint p) (ps_quote_mint p))"
    by blast
  obtain input where a: "sp_input_amount params = Some input"
    using assms by (cases "sp_input_amount params") (auto simp: ps_build_sell_instructions_def p run_simps no split: if_splits)
  note run = assms [unfolded ps_build_sell_instructions_def p a as_pumpswap.simps ok_or_simps sbind_simps Let_def
      if_not_P [OF no] case_prod_beta]
  show ?thesis
    using run
    by (elim sbind_OkE; intro that [OF p a ok]; (simp only: sret_run slift_run fst_conv outcome.inject prod.inject))
      (erule asm_rl optional_ixs ps_volume_metas_shape ps_cashback_shape | force)+
qed

section \<open>A sample swap\<close>

definition plain_extern :: extern where
  "plain_extern = sample_extern \<lparr> x_find_pda := \<lambda>seeds program. Some (program + 1, 255) \<rparr>"

definition sample_swap :: SwapParams where
  "sample_swap = (sample_params (immediate_sell 0 TOKEN_PROGRAM True))
     \<lparr> sp_protocol_params := DexPumpSwap (pump_swap_params_new 21 77 WSOL_TOKEN_ACCOUNT 22 23 1000000 2000000 24 25
         TOKEN_PROGRAM TOKEN_PROGRAM 26 False), sp_fixed_output_amount := None, sp_input_amount := Some 1000,
       sp_create_input_mint_ata := True, sp_close_input_mint_ata := True \<rparr>"

section \<open>Properties\<close>



text \<open>What a PumpSwap buy sends. A successful buy holds one instruction of the AMM
  program that only the payer signs. When the quote side is wrapped SOL or USDC it is a buy of
  the program: it spends exactly the input for at least the amount less the slippage, or buys
  exactly the amount for at most the quoted maximum; otherwise it is a sell of the program of the
  quoted input. A fixed output amount takes the place of the quoted one. Instructions stand
  before and after it only when the caller asked for an account to be created or closed.\<close>

lemma ps_buy_sends:
  assumes "fst (ps_build_buy_instructions X rs params c) = Ok ixs"
  defines "amount \<equiv> unwrap_or 0 (sp_input_amount params)"
    and "bps \<equiv> unwrap_or DEFAULT_SLIPPAGE (sp_slippage_basis_points params)"
  shows "\<exists>p quoted sol before ix after. sp_protocol_params params = DexPumpSwap p
    \<and> ixs = before @ [ix] @ after \<and> amount \<noteq> 0
    \<and> ps_buy_amounts p amount bps = Ok (quoted, sol)
    \<and> ix_program_id ix = AMM_PROGRAM \<and> ix_signers ix = {sp_payer params}
    \<and> length (ix_accounts ix) \<le> 25
    \<and> (let token = unwrap_or quoted (sp_fixed_output_amount params) in swap_fields (ix_data ix) =
       (if quote_is_wsol_or_usdc (ps_quote_mint p)
        then if unwrap_or True (sp_use_exact_sol_amount params)
          then (BUY_EXACT_QUOTE_IN_DISCRIMINATOR, unat amount, unat (calculate_with_slippage_sell token bps))
          else (PS_BUY_DISCRIMINATOR, unat token, unat sol)
        else (PS_SELL_DISCRIMINATOR, unat sol, unat token)))
    \<and> (sp_create_input_mint_ata params \<or> sp_create_output_mint_ata params \<or> before = [])
    \<and> (sp_close_input_mint_ata params \<or> after = [])"
  using assms(1)
proof (rule ps_buyE)
  fix p quoted sol ub uq fa wsol create vol cash v2 close
  let ?ix = "\<lparr> ix_program_id = AMM_PROGRAM,
       ix_accounts = ps_accounts_head p (sp_payer params) ub uq fa @ vol
         @ [PS_FEE_CONFIG_META, PS_FEE_PROGRAM_META] @ cash @ [meta_readonly v2 False],
       ix_data = ps_buy_data params (ps_quote_mint p) (unwrap_or quoted (sp_fixed_output_amount params)) sol \<rparr>"
  assume vol: "filter am_is_signer vol = [] \<and> length vol = (if quote_is_wsol_or_usdc (ps_quote_mint p) then 2 else 0)"
    and cash: "filter am_is_signer cash = [] \<and> length cash \<le> (if ps_is_cashback_coin p then 1 else 0)"
    and ixs: "wsol @ create @ [?ix] @ close = ixs"
    and rest: "sp_protocol_params params = DexPumpSwap p" "unwrap_or 0 (sp_input_amount params) \<noteq> 0"
    "ps_buy_amounts p (unwrap_or 0 (sp_input_amount params))
       (unwrap_or DEFAULT_SLIPPAGE (sp_slippage_basis_points params)) = Ok (quoted, sol)"
    "sp_create_input_mint_ata params \<or> wsol = []" "sp_create_output_mint_ata params \<or> create = []"
    "sp_close_input_mint_ata params \<or> close = []"
  have "length (ix_accounts ?ix) \<le> 25" using vol cash by (auto simp: ps_head_shape split: if_splits)
  moreover have "ix_signers ?ix = {sp_payer params}" using vol cash by (intro ps_signers) simp_all
  moreover have "ixs = (wsol @ create) @ [?ix] @ close" using ixs by simp
  moreover have "swap_fields (ix_data ?ix) = swap_fields (ps_buy_data params (ps_quote_mint p)
      (unwrap_or quoted (sp_fixed_output_amount params)) sol)" by simp
  moreover have "ix_program_id ?ix = AMM_PROGRAM" by simp
  moreover have "sp_create_input_mint_ata params \<or> sp_create_output_mint_ata params \<or> wsol @ create = []"
    using rest by auto
  ultimately show ?thesis
    using rest unfolding ps_buy_fields amount_def bps_def Let_def by blast
qed

text \<open>What a PumpSwap sell sends. A successful sell holds one instruction of the AMM
  program that only the payer signs: a sell of the program of exactly the input amount when the
  quote side is wrapped SOL or USDC, a buy of the program of the quoted base amount otherwise,
  with the fixed output amount in place of the quoted one. A cashback coin adds no account or
  two. The wrapped-SOL account and the token account are closed only after it and only on request.\<close>

lemma ps_sell_sends:
  assumes "fst (ps_build_sell_instructions X rs params c) = Ok ixs"
  defines "bps \<equiv> unwrap_or DEFAULT_SLIPPAGE (sp_slippage_basis_points params)"
  shows "\<exists>p input token quoted before ix after. sp_protocol_params params = DexPumpSwap p
    \<and> ixs = before @ [ix] @ after \<and> sp_input_amount params = Some input
    \<and> ps_sell_amounts p input bps = Ok (token, quoted)
    \<and> ix_program_id ix = AMM_PROGRAM \<and> ix_signers ix = {sp_payer params}
    \<and> length (ix_accounts ix) \<in> (if quote_is_wsol_or_usdc (ps_quote_mint p) then {22, 24} else {24, 26})
    \<and> (let sol = unwrap_or quoted (sp_fixed_output_amount params) in swap_fields (ix_data ix) =
       (if quote_is_wsol_or_usdc (ps_quote_mint p) then (PS_SELL_DISCRIMINATOR, unat token, unat sol)
        else (PS_BUY_DISCRIMINATOR, unat sol, unat token)))
    \<and> (sp_create_output_mint_ata params \<or> before = [])
    \<and> (sp_close_output_mint_ata params \<or> sp_close_input_mint_ata params \<or> after = [])"
  using assms(1)
proof (rule ps_sellE)
  fix p input token quoted ub uq fa wsol vol cash v2 close_wsol_ixs close_ixs
  let ?ix = "\<lparr> ix_program_id = AMM_PROGRAM,
       ix_accounts = ps_accounts_head p (sp_payer params) ub uq fa @ vol
         @ [PS_FEE_CONFIG_META, PS_FEE_PROGRAM_META] @ cash @ [meta_readonly v2 False],
       ix_data = ps_sell_data (ps_quote_mint p) token (unwrap_or quoted (sp_fixed_output_amount params)) \<rparr>"
  assume vol: "filter am_is_signer vol = [] \<and> length vol = (if \<not> quote_is_wsol_or_usdc (ps_quote_mint p) then 2 else 0)"
    and cash: "filter am_is_signer cash = [] \<and> length cash \<in> (if ps_is_cashback_coin p then {0, 2} else {0})"
    and ixs: "wsol @ [?ix] @ close_wsol_ixs @ close_ixs = ixs"
    and rest: "sp_protocol_params params = DexPumpSwap p" "sp_input_amount params = Some input"
    "ps_sell_amounts p input (unwrap_or DEFAULT_SLIPPAGE (sp_slippage_basis_points params)) = Ok (token, quoted)"
    "sp_create_output_mint_ata params \<or> wsol = []"
    "sp_close_output_mint_ata params \<or> close_wsol_ixs = []" "sp_close_input_mint_ata params \<or> close_ixs = []"
  have "length (ix_accounts ?ix) \<in> (if quote_is_wsol_or_usdc (ps_quote_mint p) then {22, 24} else {24, 26})"
    using vol cash by (auto simp: ps_head_shape split: if_splits)
  moreover have "ix_signers ?ix = {sp_payer params}" using vol cash by (intro ps_signers) simp_all
  moreover have "ixs = wsol @ [?ix] @ (close_wsol_ixs @ close_ixs)" using ixs by simp
  moreover have "swap_fields (ix_data ?ix) = swap_fields (ps_sell_data (ps_quote_mint p) token
      (unwrap_or quoted (sp_fixed_output_amount params)))" by simp
  moreover have "ix_program_id ?ix = AMM_PROGRAM" by simp
  moreover have "sp_close_output_mint_ata params \<or> sp_close_input_mint_ata params \<or> close_wsol_ixs @ close_ixs = []"
    using rest by auto
  ultimately show ?thesis
    using rest unfolding ps_sell_fields bps_def Let_def by blast
qed

lemma zero_reserve_panics:
  assumes "ps_pool_base_token_reserves p = 0 \<or> ps_pool_quote_token_reserves p = 0"
  shows "ps_buy_amounts p a b = Panic" "ps_sell_amounts p a b = Panic"
  using assms by (auto simp: ps_buy_amounts_def ps_sell_amounts_def buy_quote_input_internal_def
      sell_base_input_internal_def)

lemma pool_taken:
  "pool_is_wsol b q \<or> pool_is_usdc b q \<longleftrightarrow>
    {b, q} \<inter> {WSOL_TOKEN_ACCOUNT, USDC_TOKEN_ACCOUNT} \<noteq> {} \<and> {b, q} \<noteq> {WSOL_TOKEN_ACCOUNT, USDC_TOKEN_ACCOUNT}"
  unfolding pool_is_wsol_def pool_is_usdc_def using mints_distinct by (auto simp: doubleton_eq_iff)



end
