(* ===== verification/Tx_Build.thy ===== *)
theory Tx_Build
  imports PumpSwap_Instr
begin

text \<open>
  Transaction building: \<open>src/trading/common/nonce_manager.rs\<close>, \<open>transaction_builder.rs\<close>, the pool of
  transaction builders of \<open>src/trading/core/transaction_pool.rs\<close> and the instruction checks of
  \<open>src/trading/core/execution.rs\<close>. The compiler of Solana messages, the signature of a keypair and
  the decimal text of a tip are parameters; a compiled message is represented by the
  arguments it was compiled from.
\<close>

section \<open>Messages\<close>

datatype VersionedMessage =
    Legacy "Instruction list" pubkey hash
  | V0 pubkey "Instruction list" "lookup_table list" hash

type_synonym signature = "512 word"

abbreviation signature_default :: signature where
  "signature_default \<equiv> 0"

record VersionedTransaction =
  tx_signatures :: "signature list"
  tx_message :: VersionedMessage

record tx_extern =
  tx_base :: extern
  tx_tip_text :: "f64 \<Rightarrow> string"
  tx_v0_compiles :: "pubkey \<Rightarrow> Instruction list \<Rightarrow> lookup_table list \<Rightarrow> hash \<Rightarrow> bool"
  tx_sign :: "pubkey \<Rightarrow> VersionedMessage \<Rightarrow> signature option"

section \<open>The builder pool\<close>

record PreallocatedTxBuilder =
  tb_instructions :: "Instruction list"
  tb_lookup_tables :: "pubkey list"

definition builder_new :: PreallocatedTxBuilder where
  "builder_new = \<lparr> tb_instructions = [], tb_lookup_tables = [] \<rparr>"

definition builder_reset :: "PreallocatedTxBuilder \<Rightarrow> PreallocatedTxBuilder" where
  "builder_reset self = self \<lparr> tb_instructions := [], tb_lookup_tables := [] \<rparr>"

definition build_zero_alloc ::
  "tx_extern \<Rightarrow> PreallocatedTxBuilder \<Rightarrow> pubkey \<Rightarrow> Instruction list \<Rightarrow> lookup_table option \<Rightarrow> hash
    \<Rightarrow> (VersionedMessage, string) outcome \<times> PreallocatedTxBuilder" where
  "build_zero_alloc T self payer instructions table recent_blockhash =
    (let self = builder_reset self;
         self = self \<lparr> tb_instructions := tb_instructions self @ instructions \<rparr>
     in case table of
          Some t \<Rightarrow>
            if tx_v0_compiles T payer (tb_instructions self) [t] recent_blockhash
            then (Ok (V0 payer (tb_instructions self) [t] recent_blockhash), self)
            else (Panic, self)
        | None \<Rightarrow> (Ok (Legacy (tb_instructions self) payer recent_blockhash), self))"

text \<open>The pool is a bounded queue: \<open>pop\<close> takes the oldest builder, \<open>push\<close> on a full queue fails and
  the builder is dropped.\<close>

definition TX_POOL_CAPACITY :: nat where "TX_POOL_CAPACITY = 1000"

definition initial_pool :: "PreallocatedTxBuilder list" where
  "initial_pool = replicate 100 builder_new"

definition acquire_builder :: "PreallocatedTxBuilder list \<Rightarrow> PreallocatedTxBuilder \<times> PreallocatedTxBuilder list" where
  "acquire_builder pool = (case pool of [] \<Rightarrow> (builder_new, []) | b # bs \<Rightarrow> (b, bs))"

definition release_builder :: "PreallocatedTxBuilder \<Rightarrow> PreallocatedTxBuilder list \<Rightarrow> PreallocatedTxBuilder list" where
  "release_builder b pool =
    (let b = builder_reset b in if length pool < TX_POOL_CAPACITY then pool @ [b] else pool)"

definition get_pool_stats :: "PreallocatedTxBuilder list \<Rightarrow> nat \<times> nat" where
  "get_pool_stats pool = (length pool, TX_POOL_CAPACITY)"

text \<open>The guard holds a builder of the pool until it is dropped.\<close>

type_synonym TxBuilderGuard = "PreallocatedTxBuilder option"

definition guard_new :: "PreallocatedTxBuilder list \<Rightarrow> TxBuilderGuard \<times> PreallocatedTxBuilder list" where
  "guard_new pool = (case acquire_builder pool of (b, pool) \<Rightarrow> (Some b, pool))"

definition guard_get_mut :: "TxBuilderGuard \<Rightarrow> (PreallocatedTxBuilder, string) outcome" where
  "guard_get_mut guard = unwrap_option guard"

definition guard_drop :: "TxBuilderGuard \<Rightarrow> PreallocatedTxBuilder list \<Rightarrow> PreallocatedTxBuilder list" where
  "guard_drop guard pool = (case guard of Some b \<Rightarrow> release_builder b pool | None \<Rightarrow> pool)"

section \<open>Building a transaction\<close>

record tx_state =
  ts_caches :: caches
  ts_pool :: "PreallocatedTxBuilder list"

definition add_nonce_instruction ::
  "extern \<Rightarrow> Instruction list \<Rightarrow> pubkey \<Rightarrow> DurableNonceInfo option \<Rightarrow> (Instruction list, string) outcome" where
  "add_nonce_instruction X instructions payer durable_nonce =
    (case durable_nonce of
       Some d \<Rightarrow> obind (unwrap_option (dn_nonce_account d)) (\<lambda>nonce.
         Ok (instructions @ [x_advance_nonce_account X nonce payer]))
     | None \<Rightarrow> Ok instructions)"

definition get_transaction_blockhash :: "hash option \<Rightarrow> DurableNonceInfo option \<Rightarrow> (hash, string) outcome" where
  "get_transaction_blockhash recent_blockhash durable_nonce =
    (case durable_nonce of
       Some d \<Rightarrow> unwrap_option (dn_current_nonce d)
     | None \<Rightarrow> unwrap_option recent_blockhash)"

definition with_caches :: "'a cached \<Rightarrow> (tx_state, 'a, string) stateful" where
  "with_caches m = (\<lambda>s. case m (ts_caches s) of (r, c) \<Rightarrow> (r, s \<lparr> ts_caches := c \<rparr>))"

definition build_versioned_transaction ::
  "tx_extern \<Rightarrow> pubkey \<Rightarrow> Instruction list \<Rightarrow> lookup_table option \<Rightarrow> hash \<Rightarrow> middleware list option \<Rightarrow> string \<Rightarrow> bool
    \<Rightarrow> (tx_state, VersionedTransaction, string) stateful" where
  "build_versioned_transaction T payer instructions table blockhash middleware_manager protocol_name is_buy =
    sbind (slift (case middleware_manager of
        Some ms \<Rightarrow> apply_middlewares_process_full_instructions ms instructions protocol_name is_buy
      | None \<Rightarrow> Ok instructions)) (\<lambda>full_instructions. \<lambda>s.
    case acquire_builder (ts_pool s) of (builder, pool) \<Rightarrow>
    case build_zero_alloc T builder payer full_instructions table blockhash of (msg, builder) \<Rightarrow>
    case obind msg (\<lambda>versioned_msg. obind (unwrap_option (tx_sign T payer versioned_msg)) (\<lambda>sig.
           Ok \<lparr> tx_signatures = [sig], tx_message = versioned_msg \<rparr>)) of
      Ok tx \<Rightarrow> (Ok tx, s \<lparr> ts_pool := release_builder builder pool \<rparr>)
    | Err e \<Rightarrow> (Err e, s \<lparr> ts_pool := pool \<rparr>)
    | Panic \<Rightarrow> (Panic, s \<lparr> ts_pool := pool \<rparr>))"

definition tip_instructions :: "tx_extern \<Rightarrow> pubkey \<Rightarrow> bool \<Rightarrow> pubkey \<Rightarrow> f64 \<Rightarrow> Instruction list" where
  "tip_instructions T payer with_tip tip_account tip_amount =
    (if with_tip \<and> tip_amount > 0
     then [x_system_transfer (tx_base T) payer tip_account
             (unwrap_or 0 (x_sol_str_to_lamports (tx_base T) (tx_tip_text T tip_amount)))]
     else [])"

definition build_transaction ::
  "tx_extern \<Rightarrow> pubkey \<Rightarrow> u32 \<Rightarrow> u64 \<Rightarrow> Instruction list \<Rightarrow> lookup_table option \<Rightarrow> hash option
    \<Rightarrow> middleware list option \<Rightarrow> string \<Rightarrow> bool \<Rightarrow> bool \<Rightarrow> pubkey \<Rightarrow> f64 \<Rightarrow> DurableNonceInfo option
    \<Rightarrow> (tx_state, VersionedTransaction, string) stateful" where
  "build_transaction T payer unit_limit unit_price business_instructions table recent_blockhash
      middleware_manager protocol_name is_buy with_tip tip_account tip_amount durable_nonce =
    sbind (slift (add_nonce_instruction (tx_base T) [] payer durable_nonce)) (\<lambda>instructions.
    let instructions = instructions @ tip_instructions T payer with_tip tip_account tip_amount
    in sbind (with_caches (\<lambda>c. case compute_budget_instructions (tx_base T) unit_price unit_limit c of
               (ixs, c') \<Rightarrow> (Ok ixs, c'))) (\<lambda>budget.
    let instructions = instructions @ budget @ business_instructions
    in sbind (slift (get_transaction_blockhash recent_blockhash durable_nonce)) (\<lambda>blockhash.
       build_versioned_transaction T payer instructions table blockhash middleware_manager
         protocol_name is_buy)))"

section \<open>Checks before building\<close>

definition BYTES_PER_ACCOUNT :: nat where "BYTES_PER_ACCOUNT = 32"
definition err_no_instructions :: string where "err_no_instructions = ''Instructions empty''"

text \<open>\<open>preprocess\<close> also prefetches and warns above 64 instructions, which has no effect on the result.\<close>

definition preprocess :: "Instruction list \<Rightarrow> (unit, string) outcome" where
  "preprocess instructions = (if instructions = [] then Err err_no_instructions else Ok ())"

definition calculate_size :: "Instruction list \<Rightarrow> nat" where
  "calculate_size instructions =
    foldl (\<lambda>total ix. total + length (ix_data ix) + length (ix_accounts ix) * BYTES_PER_ACCOUNT) 0 instructions"

definition path_is_buy :: "pubkey \<Rightarrow> bool" where
  "path_is_buy input_mint =
    (input_mint = SOL_TOKEN_ACCOUNT \<or> input_mint = WSOL_TOKEN_ACCOUNT
     \<or> input_mint = USD1_TOKEN_ACCOUNT \<or> input_mint = USDC_TOKEN_ACCOUNT)"

definition path_select :: "bool \<Rightarrow> (unit \<Rightarrow> 'a) \<Rightarrow> (unit \<Rightarrow> 'a) \<Rightarrow> 'a" where
  "path_select condition fast_path slow_path = (if condition then fast_path () else slow_path ())"

lemma calculate_size_sum:
  "calculate_size ixs = sum_list (map (\<lambda>ix. length (ix_data ix) + 32 * length (ix_accounts ix)) ixs)"
proof -
  have "foldl (\<lambda>total ix. total + length (ix_data ix) + length (ix_accounts ix) * BYTES_PER_ACCOUNT) n ixs
      = n + sum_list (map (\<lambda>ix. length (ix_data ix) + 32 * length (ix_accounts ix)) ixs)" for n
    by (induction ixs arbitrary: n) (simp_all add: BYTES_PER_ACCOUNT_def)
  then show ?thesis by (simp add: calculate_size_def)
qed

section \<open>The pool as an object store\<close>

text \<open>What a caller of the pool relies on: a builder that it takes is as good as a new one, the pool
  never exceeds its capacity, and a builder that is given back is available again.\<close>

locale object_pool =
  fixes acquire :: "'p \<Rightarrow> 'b \<times> 'p" and release :: "'b \<Rightarrow> 'p \<Rightarrow> 'p"
    and size :: "'p \<Rightarrow> nat" and capacity :: nat
    and sound :: "'p \<Rightarrow> bool" and fresh :: 'b
  assumes acquire_fresh: "sound p \<Longrightarrow> fst (acquire p) = fresh"
    and acquire_sound: "sound p \<Longrightarrow> sound (snd (acquire p))"
    and acquire_size: "size (snd (acquire p)) = size p - 1"
    and release_sound: "sound p \<Longrightarrow> sound (release b p)"
    and release_size: "sound p \<Longrightarrow> size (release b p) = min capacity (Suc (size p))"
    and sound_size: "sound p \<Longrightarrow> size p \<le> capacity"
begin

lemma cycle_size:
  assumes "sound p" "0 < capacity"
  shows "size (release b (snd (acquire p))) = max 1 (size p)"
  using assms sound_size [OF assms(1)] by (auto simp: release_size acquire_sound acquire_size)

lemma cycle_sound: "sound p \<Longrightarrow> sound (release b (snd (acquire p)))"
  by (intro release_sound acquire_sound)

end

definition pool_sound :: "PreallocatedTxBuilder list \<Rightarrow> bool" where
  "pool_sound pool = (length pool \<le> TX_POOL_CAPACITY \<and> list_all (\<lambda>b. b = builder_new) pool)"

lemma builder_reset_new [simp]: "builder_reset b = builder_new"
  by (simp add: builder_reset_def builder_new_def)

interpretation txp: object_pool acquire_builder release_builder length TX_POOL_CAPACITY pool_sound builder_new
proof
  fix p :: "PreallocatedTxBuilder list" and b
  show "pool_sound p \<Longrightarrow> fst (acquire_builder p) = builder_new"
    by (cases p) (auto simp: acquire_builder_def pool_sound_def)
  show "pool_sound p \<Longrightarrow> pool_sound (snd (acquire_builder p))"
    by (cases p) (auto simp: acquire_builder_def pool_sound_def)
  show "length (snd (acquire_builder p)) = length p - 1"
    by (cases p) (auto simp: acquire_builder_def)
  show "pool_sound p \<Longrightarrow> pool_sound (release_builder b p)"
    by (auto simp: release_builder_def pool_sound_def Let_def)
  show "pool_sound p \<Longrightarrow> length p \<le> TX_POOL_CAPACITY" by (simp add: pool_sound_def)
  show "pool_sound p \<Longrightarrow> length (release_builder b p) = min TX_POOL_CAPACITY (Suc (length p))"
    by (auto simp: release_builder_def pool_sound_def Let_def)
qed

text \<open>A guard always has a builder, in its initial state, and whatever is done with it the pool gets one back.\<close>

lemma guard_cycle:
  assumes "pool_sound p" "guard_new p = (guard, p')"
  shows "guard_get_mut guard = Ok builder_new" "pool_sound (guard_drop (Some b) p')"
    "length (guard_drop (Some b) p') = max 1 (length p)"
  using assms txp.acquire_fresh [OF assms(1)] txp.cycle_sound [OF assms(1), of b] txp.cycle_size [OF assms(1), of b]
  by (auto simp: guard_new_def guard_get_mut_def guard_drop_def TX_POOL_CAPACITY_def split: prod.splits)

section \<open>Lemmas\<close>

lemma build_zero_alloc_builder:
  "fst (build_zero_alloc T b payer ixs table h) = fst (build_zero_alloc T builder_new payer ixs table h)"
  by (simp add: build_zero_alloc_def Let_def split: option.splits)

lemma build_zero_alloc_message:
  "fst (build_zero_alloc T b payer ixs table h) =
    (case table of None \<Rightarrow> Ok (Legacy ixs payer h)
     | Some t \<Rightarrow> if tx_v0_compiles T payer ixs [t] h then Ok (V0 payer ixs [t] h) else Panic)"
  by (simp add: build_zero_alloc_def builder_new_def Let_def split: option.splits)

text \<open>What a build does with the pool: it gives the builder back exactly when it succeeds.\<close>

lemma versioned_pool:
  "ts_pool (snd (build_versioned_transaction T payer ixs table h mws name buy s)) \<in>
    {ts_pool s, snd (acquire_builder (ts_pool s))} \<union>
    range (\<lambda>b. release_builder b (snd (acquire_builder (ts_pool s))))"
  by (auto simp: build_versioned_transaction_def sbind_run split: prod.splits outcome.splits)

lemma versioned_caches:
  "ts_caches (snd (build_versioned_transaction T payer ixs table h mws name buy s)) = ts_caches s"
  by (auto simp: build_versioned_transaction_def sbind_run split: prod.splits outcome.splits)

lemma versioned_result:
  "fst (build_versioned_transaction T payer ixs table h mws name buy s) =
    obind (case mws of Some ms \<Rightarrow> apply_middlewares_process_full_instructions ms ixs name buy | None \<Rightarrow> Ok ixs) (\<lambda>full.
    obind (fst (build_zero_alloc T builder_new payer full table h)) (\<lambda>msg.
    obind (unwrap_option (tx_sign T payer msg)) (\<lambda>sig. Ok \<lparr> tx_signatures = [sig], tx_message = msg \<rparr>)))"
  by (cases "case mws of Some ms \<Rightarrow> apply_middlewares_process_full_instructions ms ixs name buy | None \<Rightarrow> Ok ixs")
    (simp_all add: build_versioned_transaction_def sbind_run case_prod_beta build_zero_alloc_message
      split: outcome.split)

text \<open>The whole of \<open>build_transaction\<close> after its three preparations.\<close>

lemma build_transaction_run:
  assumes "coherent X rs (ts_caches s)" "tx_base T = X"
  shows "fst (build_transaction T payer l p business table rb mws name buy tip acc amt dn s) =
    obind (add_nonce_instruction X [] payer dn) (\<lambda>pre.
    obind (get_transaction_blockhash rb dn) (\<lambda>h.
    obind (case mws of
        Some ms \<Rightarrow> apply_middlewares_process_full_instructions ms
          (pre @ tip_instructions T payer tip acc amt
             @ cb_compute X \<lparr> cb_unit_price = p, cb_unit_limit = l \<rparr> @ business) name buy
      | None \<Rightarrow> Ok (pre @ tip_instructions T payer tip acc amt
             @ cb_compute X \<lparr> cb_unit_price = p, cb_unit_limit = l \<rparr> @ business)) (\<lambda>full.
    obind (fst (build_zero_alloc T builder_new payer full table h)) (\<lambda>msg.
    obind (unwrap_option (tx_sign T payer msg)) (\<lambda>sig. Ok \<lparr> tx_signatures = [sig], tx_message = msg \<rparr>)))))"
proof (cases "add_nonce_instruction X [] payer dn")
  case (Ok pre)
  show ?thesis
    using compute_budget_runs [OF assms(1), of p l]
    by (cases "get_transaction_blockhash rb dn")
      (simp_all add: build_transaction_def Ok assms(2) sbind_run with_caches_def Let_def versioned_result
        case_prod_beta)
qed (simp_all add: build_transaction_def assms(2) sbind_run)

lemma build_transaction_state:
  assumes "coherent X rs (ts_caches s)" "tx_base T = X" "pool_sound (ts_pool s)"
  shows "coherent X rs (ts_caches (snd (build_transaction T payer l p business table rb mws name buy tip acc amt dn s)))"
    and "pool_sound (ts_pool (snd (build_transaction T payer l p business table rb mws name buy tip acc amt dn s)))"
proof -
  let ?s' = "s \<lparr> ts_caches := snd (compute_budget_instructions X p l (ts_caches s)) \<rparr>"
  have c: "coherent X rs (ts_caches ?s')" using compute_budget_runs [OF assms(1)] by simp
  have pool: "pool_sound (ts_pool (snd (build_versioned_transaction T payer ixs table h mws name buy ?s')))" for ixs h
    using versioned_pool [of T payer ixs table h mws name buy ?s'] assms(3)
      txp.acquire_sound [OF assms(3)] txp.release_sound by auto
  show "coherent X rs (ts_caches (snd (build_transaction T payer l p business table rb mws name buy tip acc amt dn s)))"
    using c assms(1)
    by (auto simp: build_transaction_def assms(2) sbind_run with_caches_def Let_def versioned_caches case_prod_beta
        split: outcome.splits)
  show "pool_sound (ts_pool (snd (build_transaction T payer l p business table rb mws name buy tip acc amt dn s)))"
    using pool assms(3)
    by (auto simp: build_transaction_def assms(2) sbind_run with_caches_def Let_def case_prod_beta
        split: outcome.splits)
qed

text \<open>What a successful build without middlewares contains.\<close>

lemma built_message:
  assumes "coherent X rs (ts_caches s)" "tx_base T = X"
    and "fst (build_transaction T payer unit_limit unit_price business table recent None name is_buy
      with_tip tip_account tip_amount nonce s) = Ok tx"
  defines "ixs \<equiv> (case nonce of Some d \<Rightarrow> [x_advance_nonce_account X (the (dn_nonce_account d)) payer] | None \<Rightarrow> [])
      @ (if with_tip \<and> tip_amount > 0 then [x_system_transfer X payer tip_account
           (unwrap_or 0 (x_sol_str_to_lamports X (tx_tip_text T tip_amount)))] else [])
      @ (if unit_price > 0 then [x_set_compute_unit_price X unit_price] else [])
      @ (if unit_limit > 0 then [x_set_compute_unit_limit X unit_limit] else [])
      @ business"
    and "h \<equiv> (case nonce of Some d \<Rightarrow> the (dn_current_nonce d) | None \<Rightarrow> the recent)"
  shows "tx_message tx = (case table of Some t \<Rightarrow> V0 payer ixs [t] h | None \<Rightarrow> Legacy ixs payer h)
    \<and> (\<exists>sig. tx_sign T payer (tx_message tx) = Some sig \<and> tx_signatures tx = [sig])"
proof -
  from assms(3) obtain pre h' sig where pre: "add_nonce_instruction X [] payer nonce = Ok pre"
    and h': "get_transaction_blockhash recent nonce = Ok h'"
    and msg: "fst (build_zero_alloc T builder_new payer (pre @ tip_instructions T payer with_tip tip_account tip_amount
        @ cb_compute X \<lparr> cb_unit_price = unit_price, cb_unit_limit = unit_limit \<rparr> @ business) table h')
      = Ok (tx_message tx)"
    and sig: "tx_sign T payer (tx_message tx) = Some sig" "tx_signatures tx = [sig]"
    unfolding build_transaction_run [OF assms(1,2)] by (auto simp: obind_Ok_iff)
  have "pre = (case nonce of Some d \<Rightarrow> [x_advance_nonce_account X (the (dn_nonce_account d)) payer] | None \<Rightarrow> [])"
    "h' = h"
    using pre h' by (cases nonce; auto simp: add_nonce_instruction_def get_transaction_blockhash_def h_def obind_Ok_iff)+
  then have "pre @ tip_instructions T payer with_tip tip_account tip_amount
      @ cb_compute X \<lparr> cb_unit_price = unit_price, cb_unit_limit = unit_limit \<rparr> @ business = ixs"
    by (simp add: ixs_def tip_instructions_def cb_compute_def assms(2))
  then have "tx_message tx = (case table of Some t \<Rightarrow> V0 payer ixs [t] h | None \<Rightarrow> Legacy ixs payer h)"
    using msg \<open>h' = h\<close> by (cases table) (auto simp: build_zero_alloc_message split: if_splits)
  then show ?thesis using sig by blast
qed

section \<open>Properties\<close>

text \<open>C4 (functional): the layout of a transaction. Without middlewares, a successful build is one
  message signed by the payer whose instructions are, in this order, the advance of the durable
  nonce when there is one, the tip when it is wanted and positive, the compute-budget
  instructions with a non-zero value, and the business instructions; its blockhash is the nonce
  when there is one and the recent blockhash otherwise, and it is a version-0 message exactly
  when there is a lookup table. Nothing in it comes from an earlier use of the pooled builder.\<close>

theorem transaction_layout:
  assumes "coherent X rs (ts_caches s)" "tx_base T = X"
    and "fst (build_transaction T payer unit_limit unit_price business table recent None name is_buy
      with_tip tip_account tip_amount nonce s) = Ok tx"
  defines "ixs \<equiv> (case nonce of Some d \<Rightarrow> [x_advance_nonce_account X (the (dn_nonce_account d)) payer] | None \<Rightarrow> [])
      @ (if with_tip \<and> tip_amount > 0 then [x_system_transfer X payer tip_account
           (unwrap_or 0 (x_sol_str_to_lamports X (tx_tip_text T tip_amount)))] else [])
      @ (if unit_price > 0 then [x_set_compute_unit_price X unit_price] else [])
      @ (if unit_limit > 0 then [x_set_compute_unit_limit X unit_limit] else [])
      @ business"
    and "h \<equiv> (case nonce of Some d \<Rightarrow> the (dn_current_nonce d) | None \<Rightarrow> the recent)"
  shows "tx_message tx = (case table of Some t \<Rightarrow> V0 payer ixs [t] h | None \<Rightarrow> Legacy ixs payer h)
    \<and> (\<exists>sig. tx_sign T payer (tx_message tx) = Some sig \<and> tx_signatures tx = [sig])"
  unfolding ixs_def h_def by (rule built_message [OF assms(1-3)])

definition sample_tx :: tx_extern where
  "sample_tx = \<lparr> tx_base = plain_extern, tx_tip_text = (\<lambda>_. ''0.001''), tx_v0_compiles = (\<lambda>_ _ _ _. True),
     tx_sign = (\<lambda>p m. Some 9) \<rparr>"

theorem transaction_layout_witness:
  "\<exists>tx. fst (build_transaction sample_tx 5 0 7 [sync_native 3] None None None ''PumpFun'' True False 0 0
      (Some \<lparr> dn_nonce_account = Some 31, dn_current_nonce = Some 32 \<rparr>)
      \<lparr> ts_caches = empty_caches, ts_pool = initial_pool \<rparr>) = Ok tx
    \<and> tx_message tx = Legacy [x_advance_nonce_account plain_extern 31 5, x_set_compute_unit_price plain_extern 7,
        sync_native 3] 5 32"
proof -
  let ?s = "\<lparr> ts_caches = empty_caches, ts_pool = initial_pool \<rparr>"
  let ?n = "Some \<lparr> dn_nonce_account = Some 31, dn_current_nonce = Some 32 \<rparr>"
  have c: "coherent plain_extern initial_rents (ts_caches ?s)" by (simp add: coherent_empty)
  have b: "tx_base sample_tx = plain_extern" by (simp add: sample_tx_def)
  obtain tx where tx: "fst (build_transaction sample_tx 5 0 7 [sync_native 3] None None None ''PumpFun'' True False 0 0
      ?n ?s) = Ok tx"
    unfolding build_transaction_run [OF c b]
    by (simp add: add_nonce_instruction_def get_transaction_blockhash_def build_zero_alloc_message sample_tx_def)
  then show ?thesis using transaction_layout [OF c b tx] by simp
qed

text \<open>The builder pool. Whatever a build does, whether it succeeds, fails in a
  middleware or panics, it leaves only empty builders in the pool and never more than its
  capacity, and it keeps the caches coherent.\<close>

theorem build_keeps_pool:
  fixes T payer unit_limit unit_price business table recent mws name is_buy with_tip tip_account tip_amount nonce
  assumes "coherent (tx_base T) rs (ts_caches s)" "pool_sound (ts_pool s)"
  defines "s' \<equiv> snd (build_transaction T payer unit_limit unit_price business table recent mws name is_buy
      with_tip tip_account tip_amount nonce s)"
  shows "pool_sound (ts_pool s') \<and> coherent (tx_base T) rs (ts_caches s')
    \<and> length (ts_pool s') \<le> TX_POOL_CAPACITY"
  unfolding s'_def
  by (intro conjI txp.sound_size build_transaction_state [OF assms(1) refl assms(2)])

theorem build_keeps_pool_witness:
  "pool_sound (ts_pool (snd (build_transaction sample_tx 5 0 7 [sync_native 3] None None None ''PumpFun'' True
      False 0 0 None \<lparr> ts_caches = empty_caches, ts_pool = initial_pool \<rparr>)))"
proof -
  have "pool_sound initial_pool" by (simp add: pool_sound_def initial_pool_def TX_POOL_CAPACITY_def list_all_iff)
  then show ?thesis
    using build_keeps_pool [of sample_tx initial_rents "\<lparr> ts_caches = empty_caches, ts_pool = initial_pool \<rparr>"]
    by (simp add: coherent_empty)
qed

end
