(* ===== verification/Async_Exec.thy ===== *)
theory Async_Exec
  imports Tx_Build "HOL-Library.Multiset" "HOL-Library.Sublist"
begin

text \<open>
  Parallel submission, \<open>src/trading/core/async_executor.rs\<close>: which (client, strategy) pairs a swap is
  sent through, the task that builds and sends one of them, and the collector that the tasks
  report to. Tasks run concurrently; a report is three atomic steps on the collector, and the
  transition relation \<open>task_step\<close> interleaves the steps of all tasks. Time enters through the
  number of rounds a waiting loop may make before its timeout. The network behind a client
  (\<open>send_transaction\<close>, \<open>get_tip_account\<close>) is a parameter.
\<close>

section \<open>Errors and results\<close>

record TradeError =
  te_code :: u32
  te_message :: string
  te_instruction :: "u8 option"

text \<open>An \<open>anyhow\<close> error that is a \<open>TradeError\<close>, or another one with its message.\<close>

datatype sdk_error = TradeErr TradeError | OtherErr string

definition is_landed_error :: "sdk_error \<Rightarrow> bool" where
  "is_landed_error error =
    (case error of
       TradeErr e \<Rightarrow> if te_code e = 500 \<and> sublist ''timed out'' (te_message e) then False else 0 < te_code e
     | OtherErr msg \<Rightarrow> False)"

text \<open>\<open>TradeError::from\<close>.\<close>

definition trade_error_from :: "sdk_error \<Rightarrow> TradeError" where
  "trade_error_from e =
    (case e of TradeErr te \<Rightarrow> te | OtherErr msg \<Rightarrow> \<lparr> te_code = 500, te_message = msg, te_instruction = None \<rparr>)"

record TaskResult =
  tr_success :: bool
  tr_signature :: signature
  tr_error :: "sdk_error option"
  tr_swqos_type :: SwqosType
  tr_landed_on_chain :: bool

type_synonym swap_result = "bool \<times> signature list \<times> sdk_error option"

section \<open>The collector\<close>

record ResultCollector =
  rc_results :: "TaskResult list"
  rc_success_flag :: bool
  rc_landed_failed_flag :: bool
  rc_completed_count :: nat
  rc_total_tasks :: nat

definition collector_new :: "nat \<Rightarrow> ResultCollector" where
  "collector_new n = \<lparr> rc_results = [], rc_success_flag = False, rc_landed_failed_flag = False,
     rc_completed_count = 0, rc_total_tasks = n \<rparr>"

text \<open>The three atomic steps of \<open>submit\<close>; the queue has the capacity of the task count, and a push on
  a full queue is ignored.\<close>

definition submit_push :: "TaskResult \<Rightarrow> ResultCollector \<Rightarrow> ResultCollector" where
  "submit_push r c =
    (if length (rc_results c) < rc_total_tasks c then c \<lparr> rc_results := rc_results c @ [r] \<rparr> else c)"

definition submit_flag :: "TaskResult \<Rightarrow> ResultCollector \<Rightarrow> ResultCollector" where
  "submit_flag r c =
    (if tr_success r then c \<lparr> rc_success_flag := True \<rparr>
     else if tr_landed_on_chain r \<and> \<not> tr_success r then c \<lparr> rc_landed_failed_flag := True \<rparr>
     else c)"

definition submit_count :: "ResultCollector \<Rightarrow> ResultCollector" where
  "submit_count c = c \<lparr> rc_completed_count := Suc (rc_completed_count c) \<rparr>"

definition submit :: "TaskResult \<Rightarrow> ResultCollector \<Rightarrow> ResultCollector" where
  "submit r c = submit_count (submit_flag r (submit_push r c))"

text \<open>The loops that drain the queue: signatures in arrival order, whether one succeeded, the last error.\<close>

definition last_error_of :: "(TaskResult \<Rightarrow> bool) \<Rightarrow> TaskResult list \<Rightarrow> sdk_error option" where
  "last_error_of P rs = fold (\<lambda>r e. if P r \<and> tr_error r \<noteq> None then tr_error r else e) rs None"

definition drained :: "ResultCollector \<Rightarrow> ResultCollector" where
  "drained c = c \<lparr> rc_results := [] \<rparr>"

definition get_first :: "ResultCollector \<Rightarrow> swap_result option \<times> ResultCollector" where
  "get_first c =
    (let rs = rc_results c; signatures = map tr_signature rs; has_success = list_ex tr_success rs;
         last_error = last_error_of (\<lambda>_. True) rs
     in (if signatures \<noteq> [] then Some (has_success, signatures, last_error) else None, drained c))"

text \<open>The three checks of one round of \<open>wait_for_success\<close>; \<open>None\<close> means the round goes on.\<close>

definition check_success :: "ResultCollector \<Rightarrow> swap_result option \<times> ResultCollector" where
  "check_success c =
    (if rc_success_flag c then
       let rs = rc_results c; signatures = map tr_signature rs; has_success = list_ex tr_success rs
       in (if has_success \<and> signatures \<noteq> [] then Some (True, signatures, None) else None, drained c)
     else (None, c))"

definition check_landed :: "ResultCollector \<Rightarrow> swap_result option \<times> ResultCollector" where
  "check_landed c =
    (if rc_landed_failed_flag c then
       let rs = rc_results c; signatures = map tr_signature rs;
           landed_error = last_error_of tr_landed_on_chain rs
       in (if signatures \<noteq> [] then Some (False, signatures, landed_error) else None, drained c)
     else (None, c))"

text \<open>\<open>wait_for_success\<close>, with what the tasks do before each check given by \<open>env\<close>, and the number of
  rounds before the timeout. The outer option of the result of \<open>wait_round\<close> says whether the loop ends.\<close>

definition wait_round ::
  "(nat \<Rightarrow> ResultCollector \<Rightarrow> ResultCollector) \<Rightarrow> nat \<Rightarrow> ResultCollector
    \<Rightarrow> swap_result option option \<times> ResultCollector" where
  "wait_round env t c =
    (case check_success (env t c) of
       (Some r, c1) \<Rightarrow> (Some (Some r), c1)
     | (None, c1) \<Rightarrow>
        (case check_landed (env (t + 1) c1) of
           (Some r, c2) \<Rightarrow> (Some (Some r), c2)
         | (None, c2) \<Rightarrow>
            let c3 = env (t + 2) c2
            in if rc_completed_count c3 \<ge> rc_total_tasks c3
               then (case get_first c3 of (r, c4) \<Rightarrow> (Some r, c4))
               else (None, c3)))"

fun wait_for_success ::
  "(nat \<Rightarrow> ResultCollector \<Rightarrow> ResultCollector) \<Rightarrow> nat \<Rightarrow> nat \<Rightarrow> ResultCollector
    \<Rightarrow> swap_result option \<times> ResultCollector" where
  "wait_for_success env 0 t c = (None, c)"
| "wait_for_success env (Suc rounds) t c =
    (case wait_round env t c of
       (Some r, c') \<Rightarrow> (r, c')
     | (None, c') \<Rightarrow> wait_for_success env rounds (t + 3) c')"

text \<open>\<open>wait_for_all_submitted\<close>: wait until every task has reported or the rounds are over, then drain.\<close>

fun wait_for_all_submitted ::
  "(nat \<Rightarrow> ResultCollector \<Rightarrow> ResultCollector) \<Rightarrow> nat \<Rightarrow> nat \<Rightarrow> ResultCollector
    \<Rightarrow> swap_result option \<times> ResultCollector" where
  "wait_for_all_submitted env 0 t c = get_first (env t c)"
| "wait_for_all_submitted env (Suc rounds) t c =
    (let c' = env t c
     in if rc_completed_count c' < rc_total_tasks c' then wait_for_all_submitted env rounds (t + 1) c'
        else get_first c')"

section \<open>Planning\<close>

type_synonym strategy_config = "SwqosType \<times> GasFeeStrategyType \<times> GasFeeStrategyValue"

definition err_no_clients :: string where "err_no_clients = ''swqos_clients is empty''"
definition err_no_default :: string where "err_no_default = ''No Rpc Default Swqos configured.''"
definition err_no_configs :: string where "err_no_configs = ''No available gas fee strategy configs''"
definition err_needs_nonce :: string where
  "err_needs_nonce = ''Multiple swqos transactions require durable_nonce to be set.''"

definition trade_of :: "bool \<Rightarrow> TradeType" where
  "trade_of is_buy = (if is_buy then Buy else Sell)"

definition client_configs ::
  "SwqosType list \<Rightarrow> gas_map \<Rightarrow> bool \<Rightarrow> bool \<Rightarrow> bool \<Rightarrow> swqos_client \<Rightarrow> strategy_config list" where
  "client_configs order gas is_buy with_tip check_min_tip client =
    (let swqos_type = sc_type client;
         configs = get_strategies order (trade_of is_buy) gas;
         check_tip = with_tip \<and> swqos_type \<noteq> SwqosDefault \<and> check_min_tip;
         min_tip = (if check_tip then min_tip_sol client else 0)
     in filter (\<lambda>(ty, g, v). if check_tip then gv_tip v \<ge> min_tip else True)
          (filter (\<lambda>(ty, g, v). ty = swqos_type) configs))"

definition task_configs ::
  "SwqosType list \<Rightarrow> swqos_client list \<Rightarrow> gas_map \<Rightarrow> bool \<Rightarrow> bool \<Rightarrow> bool \<Rightarrow> (nat \<times> swqos_client \<times> strategy_config) list" where
  "task_configs order clients gas is_buy with_tip check_min_tip =
    concat (map (\<lambda>(i, client). map (\<lambda>config. (i, client, config))
        (client_configs order gas is_buy with_tip check_min_tip client))
      (filter (\<lambda>(i, client). with_tip \<or> sc_type client = SwqosDefault) (List.enumerate 0 clients)))"

definition plan_tasks ::
  "SwqosType list \<Rightarrow> swqos_client list \<Rightarrow> gas_map \<Rightarrow> bool \<Rightarrow> bool \<Rightarrow> bool \<Rightarrow> DurableNonceInfo option
    \<Rightarrow> ((nat \<times> swqos_client \<times> strategy_config) list, string) outcome" where
  "plan_tasks order clients gas is_buy with_tip check_min_tip durable_nonce =
    (if clients = [] then Err err_no_clients
     else if \<not> with_tip \<and> find (\<lambda>client. sc_type client = SwqosDefault) clients = None then Err err_no_default
     else let configs = task_configs order clients gas is_buy with_tip check_min_tip
       in if configs = [] then Err err_no_configs
          else if is_buy \<and> length configs > 1 \<and> durable_nonce = None then Err err_needs_nonce
          else Ok configs)"

section \<open>One task\<close>

type_synonym send_fn =
  "swqos_client \<Rightarrow> TradeType \<Rightarrow> VersionedTransaction \<Rightarrow> bool \<Rightarrow> sdk_error + unit"

text \<open>What all tasks of one call share.\<close>

record exec_args =
  ea_payer :: pubkey
  ea_instructions :: "Instruction list"
  ea_table :: "lookup_table option"
  ea_recent_blockhash :: "hash option"
  ea_durable_nonce :: "DurableNonceInfo option"
  ea_middleware_manager :: "middleware list option"
  ea_protocol_name :: string
  ea_is_buy :: bool
  ea_wait :: bool
  ea_with_tip :: bool

definition send_result :: "swqos_client \<Rightarrow> VersionedTransaction \<Rightarrow> sdk_error + unit \<Rightarrow> TaskResult" where
  "send_result client tx r =
    \<lparr> tr_success = (case r of Inr _ \<Rightarrow> True | Inl e \<Rightarrow> False),
      tr_signature = (case tx_signatures tx of sig # _ \<Rightarrow> sig | [] \<Rightarrow> signature_default),
      tr_error = (case r of Inr _ \<Rightarrow> None | Inl e \<Rightarrow> Some e),
      tr_swqos_type = sc_type client,
      tr_landed_on_chain = (case r of Inr _ \<Rightarrow> True | Inl e \<Rightarrow> is_landed_error e) \<rparr>"

text \<open>The result a task submits; \<open>None\<close> when it panics and submits nothing.\<close>

definition run_task ::
  "tx_extern \<Rightarrow> send_fn \<Rightarrow> exec_args \<Rightarrow> swqos_client \<Rightarrow> pubkey \<Rightarrow> strategy_config \<Rightarrow> tx_state
    \<Rightarrow> TaskResult option \<times> tx_state" where
  "run_task T send a client tip_account config s =
    (case config of (_, _, v) \<Rightarrow>
     let tip_amount = (if ea_with_tip a then gv_tip v else 0)
     in case build_transaction T (ea_payer a) (gv_cu_limit v) (gv_cu_price v) (ea_instructions a) (ea_table a)
            (ea_recent_blockhash a) (ea_middleware_manager a) (ea_protocol_name a) (ea_is_buy a)
            (sc_type client \<noteq> SwqosDefault) tip_account tip_amount (ea_durable_nonce a) s of
          (Ok tx, s') \<Rightarrow> (Some (send_result client tx (send client (trade_of (ea_is_buy a)) tx (ea_wait a))), s')
        | (Err e, s') \<Rightarrow> (Some \<lparr> tr_success = False, tr_signature = signature_default,
            tr_error = Some (OtherErr e), tr_swqos_type = sc_type client, tr_landed_on_chain = False \<rparr>, s')
        | (Panic, s') \<Rightarrow> (None, s'))"

text \<open>The loop that spawns the tasks. \<open>tip_account\<close> is the account that the text of
  \<open>get_tip_account\<close> parses to, the default key when it does not parse, or the error of
  \<open>get_tip_account\<close>; on an error the tasks spawned before stay running. The result is the spawned tasks and the error.\<close>

fun spawn_tasks ::
  "(swqos_client \<Rightarrow> string + pubkey) \<Rightarrow> (nat \<times> swqos_client \<times> strategy_config) list
    \<Rightarrow> (swqos_client \<times> pubkey \<times> strategy_config) list \<times> string option" where
  "spawn_tasks tip_account [] = ([], None)"
| "spawn_tasks tip_account ((i, client, config) # rest) =
    (case tip_account client of
       Inl e \<Rightarrow> ([], Some e)
     | Inr acc \<Rightarrow> (case spawn_tasks tip_account rest of (ts, e) \<Rightarrow> ((client, acc, config) # ts, e)))"

fun run_tasks ::
  "tx_extern \<Rightarrow> send_fn \<Rightarrow> exec_args \<Rightarrow> (swqos_client \<times> pubkey \<times> strategy_config) list \<Rightarrow> tx_state
    \<Rightarrow> TaskResult list \<times> tx_state" where
  "run_tasks T send a [] s = ([], s)"
| "run_tasks T send a ((client, acc, config) # ts) s =
    (case run_task T send a client acc config s of (r, s1) \<Rightarrow>
     case run_tasks T send a ts s1 of (rs, s2) \<Rightarrow>
       ((case r of Some x \<Rightarrow> x # rs | None \<Rightarrow> rs), s2))"

definition err_all_failed :: string where "err_all_failed = ''All transactions failed''"
definition err_no_result :: string where "err_no_result = ''No SWQOS result within 30s''"

text \<open>\<open>execute_parallel\<close>. \<open>env\<close> says when the results of the tasks reach the collector, \<open>rounds\<close> how
  often the waiting loop looks before its timeout.\<close>

definition execute_parallel ::
  "tx_extern \<Rightarrow> (swqos_client \<Rightarrow> string + pubkey) \<Rightarrow> send_fn
    \<Rightarrow> (TaskResult list \<Rightarrow> nat \<Rightarrow> ResultCollector \<Rightarrow> ResultCollector) \<Rightarrow> nat
    \<Rightarrow> SwqosType list \<Rightarrow> swqos_client list \<Rightarrow> gas_map \<Rightarrow> bool \<Rightarrow> exec_args
    \<Rightarrow> (tx_state, swap_result, string) stateful" where
  "execute_parallel T tip_account send env rounds order clients gas check_min_tip a s =
    (case plan_tasks order clients gas (ea_is_buy a) (ea_with_tip a) check_min_tip (ea_durable_nonce a) of
       Err e \<Rightarrow> (Err e, s)
     | Panic \<Rightarrow> (Panic, s)
     | Ok configs \<Rightarrow>
        (case spawn_tasks tip_account configs of
           (ts, Some e) \<Rightarrow> (Err e, snd (run_tasks T send a ts s))
         | (ts, None) \<Rightarrow>
            (case run_tasks T send a ts s of (rs, s') \<Rightarrow>
             let collector = collector_new (length configs)
             in if \<not> ea_wait a
                then (Ok (case fst (wait_for_all_submitted (env rs) rounds 0 collector) of
                        Some r \<Rightarrow> r
                      | None \<Rightarrow> (False, [], Some (OtherErr err_no_result))), s')
                else (case fst (wait_for_success (env rs) rounds 0 collector) of
                        Some r \<Rightarrow> (Ok r, s')
                      | None \<Rightarrow> (Err err_all_failed, s')))))"

section \<open>Concurrent reports\<close>

text \<open>The state of all tasks: the collector, and each task's result with the number of its steps done.\<close>

type_synonym reports = "ResultCollector \<times> (TaskResult \<times> nat) list"

inductive task_step :: "reports \<Rightarrow> reports \<Rightarrow> bool" where
  step_push: "i < length ts \<Longrightarrow> ts ! i = (r, 0) \<Longrightarrow> task_step (c, ts) (submit_push r c, ts[i := (r, 1)])"
| step_flag: "i < length ts \<Longrightarrow> ts ! i = (r, 1) \<Longrightarrow> task_step (c, ts) (submit_flag r c, ts[i := (r, 2)])"
| step_count: "i < length ts \<Longrightarrow> ts ! i = (r, 2) \<Longrightarrow> task_step (c, ts) (submit_count c, ts[i := (r, 3)])"

definition reports_init :: "TaskResult list \<Rightarrow> reports" where
  "reports_init rs = (collector_new (length rs), map (\<lambda>r. (r, 0)) rs)"

text \<open>The invariant: the queue holds the results whose push is done, the counter counts the finished
  tasks, and the flags say what the flagged results say.\<close>

definition reports_inv :: "TaskResult list \<Rightarrow> reports \<Rightarrow> bool" where
  "reports_inv rs s = (case s of (c, ts) \<Rightarrow>
     map fst ts = rs \<and> rc_total_tasks c = length rs \<and> (\<forall>(r, k) \<in> set ts. k \<le> 3)
     \<and> mset (rc_results c) = mset (map fst (filter (\<lambda>(r, k). 1 \<le> k) ts))
     \<and> rc_completed_count c = length (filter (\<lambda>(r, k). k = 3) ts)
     \<and> (rc_success_flag c \<longleftrightarrow> (\<exists>(r, k) \<in> set ts. 2 \<le> k \<and> tr_success r))
     \<and> (rc_landed_failed_flag c \<longleftrightarrow> (\<exists>(r, k) \<in> set ts. 2 \<le> k \<and> tr_landed_on_chain r \<and> \<not> tr_success r)))"

lemma split_update:
  assumes "i < length ts"
  shows "ts = take i ts @ ts ! i # drop (Suc i) ts" "ts[i := x] = take i ts @ x # drop (Suc i) ts"
  using assms by (simp_all add: id_take_nth_drop upd_conv_take_nth_drop)

lemma reports_init_inv: "reports_inv rs (reports_init rs)"
  by (auto simp: reports_inv_def reports_init_def collector_new_def filter_map o_def split_beta)

lemma task_step_inv: "task_step s s' \<Longrightarrow> reports_inv rs s \<Longrightarrow> reports_inv rs s'"
proof (induction rule: task_step.induct)
  case (step_push i ts r c)
  obtain xs ys where ts: "ts = xs @ (r, 0) # ys" "ts[i := (r, 1)] = xs @ (r, 1) # ys"
    using split_update [OF step_push(1)] step_push(2) by metis
  have inv: "mset (rc_results c) = mset (map fst (filter (\<lambda>(r, k). 1 \<le> k) ts))" "rc_total_tasks c = length ts"
    using step_push.prems by (auto simp: reports_inv_def)
  have "length (filter (\<lambda>(r, k). 1 \<le> k) ts) < length ts"
    by (rule length_filter_less [of "(r, 0)"]) (simp_all add: ts(1))
  then have "length (rc_results c) < rc_total_tasks c"
    using mset_eq_length [OF inv(1)] inv(2) by simp
  then show ?case using step_push.prems unfolding ts(2) by (auto simp: ts(1) reports_inv_def submit_push_def)
next
  case (step_flag i ts r c)
  obtain xs ys where ts: "ts = xs @ (r, 1) # ys" "ts[i := (r, 2)] = xs @ (r, 2) # ys"
    using split_update [OF step_flag(1)] step_flag(2) by metis
  show ?case using step_flag.prems unfolding ts(2) by (auto simp: ts(1) reports_inv_def submit_flag_def)
next
  case (step_count i ts r c)
  obtain xs ys where ts: "ts = xs @ (r, 2) # ys" "ts[i := (r, 3)] = xs @ (r, 3) # ys"
    using split_update [OF step_count(1)] step_count(2) by metis
  show ?case using step_count.prems unfolding ts(2) by (auto simp: ts(1) reports_inv_def submit_count_def)
qed

lemma reports_reachable: "task_step\<^sup>*\<^sup>* (reports_init rs) s \<Longrightarrow> reports_inv rs s"
  by (induction rule: rtranclp_induct) (auto intro: reports_init_inv task_step_inv)

lemma all_counted:
  assumes "reports_inv rs (c, ts)" "rc_total_tasks c \<le> rc_completed_count c"
  shows "mset (rc_results c) = mset rs"
proof -
  have "length ts \<le> length (filter (\<lambda>(r, k). k = 3) ts)"
    using assms by (auto simp: reports_inv_def)
  then have "filter (\<lambda>(r, k). k = 3) ts = ts"
    using length_filter_less by (metis filter_id_conv leD)
  then have "\<forall>x \<in> set ts. snd x = 3" by (metis (mono_tags, lifting) case_prod_beta filter_id_conv)
  then have f: "filter (\<lambda>(r, k). 1 \<le> k) ts = ts" by (intro filter_True) auto
  have "mset (rc_results c) = mset (map fst (filter (\<lambda>(r, k). 1 \<le> k) ts))" "map fst ts = rs"
    using assms(1) by (simp_all add: reports_inv_def)
  then show ?thesis unfolding f by simp
qed

lemma results_subset:
  assumes "reports_inv rs (c, ts)"
  shows "mset (rc_results c) \<subseteq># mset rs"
proof -
  have "mset (map fst (filter P ts)) \<subseteq># mset (map fst ts)" for P
    using image_mset_subseteq_mono [of "filter_mset P (mset ts)" "mset ts" fst] by simp
  then show ?thesis using assms by (auto simp: reports_inv_def)
qed

lemma last_error_append:
  "last_error_of P (rs @ [r]) = (if P r \<and> tr_error r \<noteq> None then tr_error r else last_error_of P rs)"
  by (auto simp: last_error_of_def)

lemma last_error_None: "last_error_of P rs = None \<longleftrightarrow> (\<forall>r \<in> set rs. P r \<longrightarrow> tr_error r = None)"
proof (induction rs rule: rev_induct)
  case Nil
  show ?case by (simp add: last_error_of_def)
next
  case (snoc r rs)
  then show ?case by (cases "tr_error r") (auto simp: last_error_append)
qed

lemma last_error_Some: "last_error_of P rs = Some e \<Longrightarrow> \<exists>r \<in> set rs. P r \<and> tr_error r = Some e"
  by (induction rs rule: rev_induct) (auto simp: last_error_append last_error_of_def split: if_splits)

section \<open>Planning lemmas\<close>

lemma client_configs_set:
  "set (client_configs order gas buy tip chk cl) =
    {(ty, g, v). ty \<in> set order \<and> gas (ty, trade_of buy, g) = Some v \<and> ty = sc_type cl
      \<and> (tip \<and> ty \<noteq> SwqosDefault \<and> chk \<longrightarrow> min_tip_sol cl \<le> gv_tip v)}"
  by (auto simp: client_configs_def Let_def get_strategies_set)

lemma task_configs_set:
  "set (task_configs order clients gas buy tip chk) =
    {(i, cl, ty, g, v). i < length clients \<and> cl = clients ! i \<and> (tip \<or> sc_type cl = SwqosDefault)
      \<and> ty \<in> set order \<and> gas (ty, trade_of buy, g) = Some v \<and> ty = sc_type cl
      \<and> (tip \<and> ty \<noteq> SwqosDefault \<and> chk \<longrightarrow> min_tip_sol cl \<le> gv_tip v)}"
proof (rule set_eqI)
  fix x :: "nat \<times> swqos_client \<times> strategy_config"
  obtain i cl ty g v where x: "x = (i, cl, ty, g, v)" by (cases x)
  have "x \<in> set (task_configs order clients gas buy tip chk) \<longleftrightarrow>
      (i, cl) \<in> set (List.enumerate 0 clients) \<and> (tip \<or> sc_type cl = SwqosDefault)
      \<and> (ty, g, v) \<in> set (client_configs order gas buy tip chk cl)"
    unfolding x by (force simp: task_configs_def)
  then show "x \<in> set (task_configs order clients gas buy tip chk) \<longleftrightarrow>
    x \<in> {(i, cl, ty, g, v). i < length clients \<and> cl = clients ! i \<and> (tip \<or> sc_type cl = SwqosDefault)
      \<and> ty \<in> set order \<and> gas (ty, trade_of buy, g) = Some v \<and> ty = sc_type cl
      \<and> (tip \<and> ty \<noteq> SwqosDefault \<and> chk \<longrightarrow> min_tip_sol cl \<le> gv_tip v)}"
    by (simp add: in_set_enumerate_eq client_configs_set x) blast
qed

section \<open>Properties\<close>

text \<open>C1 (safety): what a swap is sent through. When planning succeeds, every task is a client of the
  call with a strategy of the table for that client's provider and for the trade's direction;
  without a tip only the default provider is used, and with the minimum-tip check no other
  provider is used below its minimum. There is at least one task, and a buy without a durable
  nonce has exactly one, so the same buy cannot be executed twice.\<close>

theorem planned_tasks:
  assumes "plan_tasks order clients gas is_buy with_tip check_min_tip nonce = Ok configs"
    and "set order = UNIV"
  shows "set configs = {(i, client, ty, g, v). i < length clients \<and> client = clients ! i \<and> ty = sc_type client
      \<and> gas (ty, trade_of is_buy, g) = Some v \<and> (with_tip \<or> ty = SwqosDefault)
      \<and> (with_tip \<and> ty \<noteq> SwqosDefault \<and> check_min_tip \<longrightarrow> min_tip_sol client \<le> gv_tip v)}
    \<and> configs \<noteq> [] \<and> (is_buy \<and> nonce = None \<longrightarrow> length configs = 1)"
proof -
  have c: "configs = task_configs order clients gas is_buy with_tip check_min_tip" "configs \<noteq> []"
    "is_buy \<and> nonce = None \<longrightarrow> \<not> 1 < length configs"
    using assms(1) by (auto simp: plan_tasks_def Let_def split: if_splits)
  then have "is_buy \<and> nonce = None \<longrightarrow> length configs = 1"
    by (metis One_nat_def length_0_conv less_one linorder_neqE_nat)
  then show ?thesis using c(2) unfolding c(1) task_configs_set assms(2) by auto
qed

definition default_client :: swqos_client where
  "default_client = \<lparr> sc_type = SwqosDefault, sc_rpc_url = [], sc_endpoint = [], sc_auth_token = None,
     sc_swqos_only = False \<rparr>"

theorem planned_tasks_witness:
  "\<exists>configs. plan_tasks swqos_values [default_client] (run_steps (set_global_steps 1 1 1 1 1 1) gas_new) True
      True True None = Ok configs \<and> length configs = 1"
proof -
  let ?gas = "run_steps (set_global_steps 1 1 1 1 1 1) gas_new"
  have all: "set swqos_values = UNIV" using swqos_values_complete by blast
  have g: "get_strategies swqos_values Buy ?gas = map (\<lambda>s. (s, Normal, \<lparr> gv_cu_limit = 1, gv_cu_price = 1,
      gv_tip = (if s = SwqosDefault then 0 else 1) \<rparr>)) swqos_values"
    using swqos_values_distinct all by (rule global_strategy_list)
  have "client_configs swqos_values ?gas True True True default_client =
      [(SwqosDefault, Normal, \<lparr> gv_cu_limit = 1, gv_cu_price = 1, gv_tip = 0 \<rparr>)]"
    unfolding client_configs_def trade_of_def if_True g by (simp add: default_client_def swqos_values_def)
  then have ok: "plan_tasks swqos_values [default_client] ?gas True True True None =
      Ok [(0, default_client, SwqosDefault, Normal, \<lparr> gv_cu_limit = 1, gv_cu_price = 1, gv_tip = 0 \<rparr>)]"
    by (simp add: plan_tasks_def task_configs_def)
  show ?thesis using planned_tasks [OF ok all] ok by simp
qed

text \<open>C22 (liveness): no report is lost. In every interleaving of the reports of the tasks, once the
  counter has reached the number of tasks, the drain returns the signature of every task exactly
  once, success exactly when some task succeeded, and no error exactly when no task had one.
  Before that, what it returns comes from the tasks' reports, each at most once.\<close>

theorem reports_collected:
  assumes "task_step\<^sup>*\<^sup>* (reports_init rs) (c, ts)" "rs \<noteq> []"
  shows "mset (rc_results c) \<subseteq># mset rs
    \<and> (rc_total_tasks c \<le> rc_completed_count c \<longrightarrow>
        (\<exists>sigs e. get_first c = (Some (list_ex tr_success rs, sigs, e), drained c)
          \<and> mset sigs = mset (map tr_signature rs) \<and> (e = None \<longleftrightarrow> list_all (\<lambda>r. tr_error r = None) rs)))"
proof (intro conjI impI)
  have inv: "reports_inv rs (c, ts)" using reports_reachable [OF assms(1)] .
  show "mset (rc_results c) \<subseteq># mset rs" using results_subset [OF inv] .
  assume "rc_total_tasks c \<le> rc_completed_count c"
  then have m: "mset (rc_results c) = mset rs" using all_counted [OF inv] by blast
  then have s: "set (rc_results c) = set rs" "rc_results c \<noteq> []"
    using assms(2) by (auto dest: mset_eq_setD)
  show "\<exists>sigs e. get_first c = (Some (list_ex tr_success rs, sigs, e), drained c)
          \<and> mset sigs = mset (map tr_signature rs) \<and> (e = None \<longleftrightarrow> list_all (\<lambda>r. tr_error r = None) rs)"
    using m s by (auto simp: get_first_def Let_def list_ex_iff list_all_iff last_error_None)
qed

definition sample_result :: "bool \<Rightarrow> signature \<Rightarrow> TaskResult" where
  "sample_result ok sig = \<lparr> tr_success = ok, tr_signature = sig,
     tr_error = (if ok then None else Some (TradeErr \<lparr> te_code = 6004, te_message = [], te_instruction = None \<rparr>)),
     tr_swqos_type = SwqosDefault, tr_landed_on_chain = True \<rparr>"

theorem reports_collected_witness:
  "get_first (submit (sample_result True 7) (collector_new 1)) =
    (Some (True, [7], None), drained (submit (sample_result True 7) (collector_new 1)))"
proof -
  let ?r = "sample_result True 7"
  have "task_step (reports_init [?r]) (submit_push ?r (collector_new 1), [(?r, 1)])"
    using step_push [of 0 "[(?r, 0)]"] by (simp add: reports_init_def)
  moreover have "task_step (submit_push ?r (collector_new 1), [(?r, 1)]) (submit_flag ?r (submit_push ?r (collector_new 1)), [(?r, 2)])"
    using step_flag [of 0 "[(?r, 1)]"] by simp
  moreover have "task_step (submit_flag ?r (submit_push ?r (collector_new 1)), [(?r, 2)]) (submit ?r (collector_new 1), [(?r, 3)])"
    using step_count [of 0 "[(?r, 2)]"] by (simp add: submit_def)
  ultimately have run: "task_step\<^sup>*\<^sup>* (reports_init [?r]) (submit ?r (collector_new 1), [(?r, 3)])"
    by (meson rtranclp.rtrancl_into_rtrancl rtranclp.rtrancl_refl)
  show ?thesis
    using reports_collected [OF run] by (auto simp: submit_def submit_push_def submit_flag_def submit_count_def
        collector_new_def sample_result_def)
qed

text \<open>C25 (safety): the waiting loop can call a swap failed that succeeded. For every landed failure
  and every success there is an interleaving in which the loop finds no success at its first check,
  then sees the landed failure, and returns failure with both signatures, although the queue it
  has just drained holds the success, whose flag is set too late.\<close>

theorem wait_misses_success:
  assumes "tr_landed_on_chain bad" "\<not> tr_success bad" "tr_success good"
  shows "\<exists>c ts. task_step\<^sup>*\<^sup>* (reports_init [bad, good]) (c, ts)
    \<and> check_success (fst (reports_init [bad, good])) = (None, fst (reports_init [bad, good]))
    \<and> good \<in> set (rc_results c)
    \<and> fst (wait_for_success (\<lambda>t d. if t = 1 then c else d) 1 0 (fst (reports_init [bad, good])))
        = Some (False, [tr_signature bad, tr_signature good], last_error_of tr_landed_on_chain [bad, good])"
proof -
  let ?c0 = "collector_new 2"
  let ?c1 = "submit_push bad ?c0"
  let ?c2 = "submit_flag bad ?c1"
  let ?c3 = "submit_push good ?c2"
  have "task_step (reports_init [bad, good]) (?c1, [(bad, 1), (good, 0)])"
    using step_push [of 0 "[(bad, 0), (good, 0)]"] by (simp add: reports_init_def numeral_2_eq_2)
  moreover have "task_step (?c1, [(bad, 1), (good, 0)]) (?c2, [(bad, 2), (good, 0)])"
    using step_flag [of 0 "[(bad, 1), (good, 0)]"] by simp
  moreover have "task_step (?c2, [(bad, 2), (good, 0)]) (?c3, [(bad, 2), (good, 1)])"
    using step_push [of 1 "[(bad, 2), (good, 0)]"] by simp
  ultimately have run: "task_step\<^sup>*\<^sup>* (reports_init [bad, good]) (?c3, [(bad, 2), (good, 1)])"
    by (meson rtranclp.rtrancl_into_rtrancl rtranclp.rtrancl_refl)
  have c3: "rc_results ?c3 = [bad, good]" "rc_landed_failed_flag ?c3" "fst (reports_init [bad, good]) = ?c0"
    using assms by (simp_all add: submit_push_def submit_flag_def collector_new_def reports_init_def numeral_2_eq_2)
  have none: "check_success ?c0 = (None, ?c0)" by (simp add: check_success_def collector_new_def)
  have "fst (wait_for_success (\<lambda>t d. if t = 1 then ?c3 else d) 1 0 ?c0)
        = Some (False, [tr_signature bad, tr_signature good], last_error_of tr_landed_on_chain [bad, good])"
    using c3 by (simp add: wait_round_def none check_landed_def)
  then show ?thesis using run c3 none by (intro exI [of _ ?c3] exI) auto
qed

theorem wait_misses_success_witness:
  "\<exists>c ts. task_step\<^sup>*\<^sup>* (reports_init [sample_result False 1, sample_result True 2]) (c, ts)
    \<and> sample_result True 2 \<in> set (rc_results c)
    \<and> fst (wait_for_success (\<lambda>t d. if t = 1 then c else d) 1 0 (collector_new 2))
        = Some (False, [1, 2], tr_error (sample_result False 1))"
  using wait_misses_success [of "sample_result False 1" "sample_result True 2"]
  by (auto simp: sample_result_def last_error_of_def reports_init_def numeral_2_eq_2)

end
