(* ===== verification/Confirm.thy ===== *)
theory Confirm
  imports Async_Exec
begin

text \<open>
  Confirmation, \<open>poll_any_transaction_confirmation\<close> of \<open>src/swqos/common.rs\<close>: poll the status of the
  signatures of one swap until one of them has landed or 15 seconds are over. The RPC node and the
  clock are parameters, indexed by the round of the loop; a round that goes on sleeps for one
  second. The loop is a function with fuel, and 16 rounds are always enough.
\<close>

section \<open>Error messages in the log\<close>

fun str_find :: "string \<Rightarrow> string \<Rightarrow> nat option" where
  "str_find pat [] = (if pat = [] then Some 0 else None)"
| "str_find pat (c # cs) = (if prefix pat (c # cs) then Some 0 else map_option Suc (str_find pat cs))"

definition trim_end_dots :: "string \<Rightarrow> string" where
  "trim_end_dots s = rev (dropWhile (\<lambda>c. c = CHR ''.'') (rev s))"

definition add_message :: "string \<Rightarrow> string \<Rightarrow> string" where
  "add_message error_msg msg = (if error_msg \<noteq> [] then error_msg @ ''; '' else error_msg) @ msg"

definition log_message :: "string \<Rightarrow> string option" where
  "log_message text =
    (case str_find ''Error Message: '' text of
       Some idx \<Rightarrow> Some (trim_end_dots (drop (idx + 15) text))
     | None \<Rightarrow> (case str_find ''Program log: Error: '' text of
          Some idx \<Rightarrow> Some (trim_end_dots (drop (idx + 20) text))
        | None \<Rightarrow> None))"

definition error_messages :: "string list option \<Rightarrow> string" where
  "error_messages logs =
    (case logs of
       Some ls \<Rightarrow> foldl (\<lambda>m l. case log_message l of Some msg \<Rightarrow> add_message m msg | None \<Rightarrow> m) [] ls
     | None \<Rightarrow> [])"

section \<open>Transaction errors\<close>

text \<open>The instruction errors that the code names; \<open>UnnamedError\<close> stands for every other one.\<close>

datatype InstructionError = Custom u32 | GenericError | InvalidArgument | InvalidInstructionData
  | InvalidAccountData | AccountDataTooSmall | InsufficientFunds | IncorrectProgramId
  | MissingRequiredSignature | AccountAlreadyInitialized | UninitializedAccount | UnnamedError

datatype TransactionError = AtInstruction u8 InstructionError | OtherTransactionError

fun instruction_error_code :: "InstructionError \<Rightarrow> u32" where
  "instruction_error_code (Custom c) = c"
| "instruction_error_code GenericError = 1"
| "instruction_error_code InvalidArgument = 2"
| "instruction_error_code InvalidInstructionData = 3"
| "instruction_error_code InvalidAccountData = 4"
| "instruction_error_code AccountDataTooSmall = 5"
| "instruction_error_code InsufficientFunds = 6"
| "instruction_error_code IncorrectProgramId = 7"
| "instruction_error_code MissingRequiredSignature = 8"
| "instruction_error_code AccountAlreadyInitialized = 9"
| "instruction_error_code UninitializedAccount = 10"
| "instruction_error_code UnnamedError = 999"

definition trade_error_of :: "(TransactionError \<Rightarrow> string \<Rightarrow> string) \<Rightarrow> TransactionError \<Rightarrow> string \<Rightarrow> TradeError" where
  "trade_error_of format_error tx_err error_msg =
    (case tx_err of
       AtInstruction i e \<Rightarrow> \<lparr> te_code = instruction_error_code e, te_message = format_error tx_err error_msg,
          te_instruction = Some i \<rparr>
     | OtherTransactionError \<Rightarrow> \<lparr> te_code = 0, te_message = format_error tx_err error_msg, te_instruction = None \<rparr>)"

section \<open>The loop\<close>

datatype confirmation_status = Processed | Confirmed | Finalized

record sig_status =
  ss_err :: bool
  ss_confirmation :: "confirmation_status option"

record tx_meta =
  tm_err :: "(string + TransactionError) option"
  tm_logs :: "string list option"

record confirm_rpc =
  cr_elapsed_ms :: "nat \<Rightarrow> nat"
  cr_statuses :: "nat \<Rightarrow> string + sig_status option list"
  cr_details :: "nat \<Rightarrow> signature \<Rightarrow> tx_meta option option"
  cr_format :: "TransactionError \<Rightarrow> string \<Rightarrow> string"
  cr_timeout_text :: "nat \<Rightarrow> string"

definition confirmed_ok :: "sig_status \<Rightarrow> bool" where
  "confirmed_ok s = (\<not> ss_err s
     \<and> (ss_confirmation s = Some Confirmed \<or> ss_confirmation s = Some Finalized))"

text \<open>The scan of one answer: a confirmed signature, and the first signature seen on chain so far.
  \<open>signatures[i]\<close> panics out of range.\<close>

fun scan_statuses ::
  "signature list \<Rightarrow> nat \<Rightarrow> sig_status option list \<Rightarrow> signature option
    \<Rightarrow> (signature option \<times> signature option, sdk_error) outcome" where
  "scan_statuses sigs i [] landed = Ok (None, landed)"
| "scan_statuses sigs i (None # ss) landed = scan_statuses sigs (Suc i) ss landed"
| "scan_statuses sigs i (Some s # ss) landed =
    (if confirmed_ok s
     then if i < length sigs then Ok (Some (sigs ! i), landed) else Panic
     else if landed = None
       then if i < length sigs then scan_statuses sigs (Suc i) ss (Some (sigs ! i)) else Panic
       else scan_statuses sigs (Suc i) ss landed)"

text \<open>Round \<open>k\<close> is the poll number \<open>k + 1\<close>; from the tenth poll on the details of the landed
  transaction are fetched.\<close>

fun poll_loop ::
  "nat \<Rightarrow> confirm_rpc \<Rightarrow> signature list \<Rightarrow> nat \<Rightarrow> signature option \<Rightarrow> (signature, sdk_error) outcome option" where
  "poll_loop 0 R sigs k landed = None"
| "poll_loop (Suc fuel) R sigs k landed =
    (if cr_elapsed_ms R k \<ge> 15000 then Some (Err (OtherErr (cr_timeout_text R (length sigs))))
     else case cr_statuses R k of
       Inl e \<Rightarrow> Some (Err (OtherErr e))
     | Inr statuses \<Rightarrow>
        (case scan_statuses sigs 0 statuses landed of
           Panic \<Rightarrow> Some Panic
         | Err e \<Rightarrow> Some (Err e)
         | Ok (Some sig, _) \<Rightarrow> Some (Ok sig)
         | Ok (None, None) \<Rightarrow> poll_loop fuel R sigs (Suc k) None
         | Ok (None, Some l) \<Rightarrow>
            if \<not> (Suc k \<ge> 10) then poll_loop fuel R sigs (Suc k) (Some l)
            else (case cr_details R k l of
                Some (Some meta) \<Rightarrow>
                  (case tm_err meta of
                     None \<Rightarrow> Some (Ok l)
                   | Some (Inl e) \<Rightarrow> Some (Err (OtherErr e))
                   | Some (Inr tx_err) \<Rightarrow>
                       Some (Err (TradeErr (trade_error_of (cr_format R) tx_err (error_messages (tm_logs meta))))))
              | _ \<Rightarrow> poll_loop fuel R sigs (Suc k) (Some l))))"

definition err_no_signatures :: string where "err_no_signatures = ''No signatures to confirm''"

definition poll_any_transaction_confirmation ::
  "nat \<Rightarrow> confirm_rpc \<Rightarrow> signature list \<Rightarrow> bool \<Rightarrow> (signature, sdk_error) outcome option" where
  "poll_any_transaction_confirmation fuel R signatures wait_confirmation =
    (if signatures = [] then Some (Err (OtherErr err_no_signatures))
     else if \<not> wait_confirmation then Some (Ok (signatures ! 0))
     else poll_loop fuel R signatures 0 None)"

definition poll_transaction_confirmation ::
  "nat \<Rightarrow> confirm_rpc \<Rightarrow> signature \<Rightarrow> bool \<Rightarrow> (signature, sdk_error) outcome option" where
  "poll_transaction_confirmation fuel R txt_sig wait_confirmation =
    poll_any_transaction_confirmation fuel R [txt_sig] wait_confirmation"

section \<open>Lemmas\<close>

lemma scan_confirmed:
  assumes "scan_statuses sigs i ss landed = Ok (Some sig, l)"
  shows "\<exists>j < length ss. i + j < length sigs \<and> sigs ! (i + j) = sig \<and> (\<exists>s. ss ! j = Some s \<and> confirmed_ok s)"
  using assms
proof (induction sigs i ss landed rule: scan_statuses.induct)
  case (2 sigs i ss landed)
  then obtain j where "j < length ss" "Suc i + j < length sigs" "sigs ! (Suc i + j) = sig"
    "\<exists>s. ss ! j = Some s \<and> confirmed_ok s" by auto
  then show ?case by (intro exI [of _ "Suc j"]) auto
next
  case (3 sigs i s ss landed)
  show ?case
  proof (cases "confirmed_ok s")
    case True
    then show ?thesis using 3(3) by (intro exI [of _ 0]) (auto split: if_splits)
  next
    case False
    then have "\<exists>j < length ss. Suc i + j < length sigs \<and> sigs ! (Suc i + j) = sig
        \<and> (\<exists>s. ss ! j = Some s \<and> confirmed_ok s)"
      using 3 by (auto split: if_splits)
    then obtain j where "j < length ss" "Suc i + j < length sigs" "sigs ! (Suc i + j) = sig"
      "\<exists>s. ss ! j = Some s \<and> confirmed_ok s" by blast
    then show ?thesis by (intro exI [of _ "Suc j"]) auto
  qed
qed simp

lemma scan_landed:
  assumes "scan_statuses sigs i ss landed = Ok (r, Some l)" "landed = None \<or> landed = Some l0 \<and> l0 \<in> set sigs"
  shows "l \<in> set sigs"
  using assms
proof (induction sigs i ss landed arbitrary: l0 rule: scan_statuses.induct)
  case (3 sigs i s ss landed)
  then show ?case by (cases "confirmed_ok s"; cases "landed = None"; cases "i < length sigs") auto
qed auto

lemma poll_loop_terminates:
  assumes "\<And>k. cr_elapsed_ms R k + 1000 \<le> cr_elapsed_ms R (Suc k)" "k \<le> 15" "16 \<le> fuel + k"
  shows "poll_loop fuel R sigs k landed \<noteq> None"
  using assms(2,3)
proof (induction fuel arbitrary: k landed)
  case (Suc fuel)
  have late: "1000 * n \<le> cr_elapsed_ms R n" for n
  proof (induction n)
    case (Suc n)
    then show ?case using assms(1) [of n] by simp
  qed simp
  show ?case
  proof (cases "k = 15")
    case True
    then show ?thesis using late [of 15] by simp
  next
    case False
    then have "\<And>l. poll_loop fuel R sigs (Suc k) l \<noteq> None" using Suc by simp
    then show ?thesis by (auto split: sum.splits outcome.splits option.splits prod.splits)
  qed
qed simp

section \<open>Properties\<close>

text \<open>C23 (termination): waiting for a confirmation ends. Whatever the node answers, when each
  round of the loop takes at least the one second it sleeps, sixteen rounds are enough for the
  result, which is a signature, an error, or a panic on a malformed answer.\<close>

theorem confirmation_terminates:
  assumes "\<And>k. cr_elapsed_ms R k + 1000 \<le> cr_elapsed_ms R (Suc k)"
  shows "\<exists>r. poll_any_transaction_confirmation 16 R sigs wait = Some r"
proof -
  have "poll_loop 16 R sigs 0 None \<noteq> None"
    using assms by (intro poll_loop_terminates) simp_all
  then show ?thesis by (simp add: poll_any_transaction_confirmation_def)
qed

definition silent_rpc :: confirm_rpc where
  "silent_rpc = \<lparr> cr_elapsed_ms = (\<lambda>k. 1000 * k), cr_statuses = (\<lambda>k. Inr [None]), cr_details = (\<lambda>k s. None),
     cr_format = (\<lambda>_ m. m), cr_timeout_text = (\<lambda>_. ''timed out'') \<rparr>"

theorem confirmation_terminates_witness:
  "\<exists>r. poll_any_transaction_confirmation 16 silent_rpc [7] True = Some r"
  using confirmation_terminates [of silent_rpc] by (simp add: silent_rpc_def)

text \<open>A signature that is reported as confirmed was seen on chain without an error. A
  successful wait returns one of the given signatures, and the node said of it, in some round,
  that it is confirmed or finalized without an error, or returned its transaction without one.\<close>

lemma confirmation_sound:
  assumes "poll_any_transaction_confirmation fuel R sigs True = Some (Ok sig)"
  shows "sig \<in> set sigs
    \<and> ((\<exists>k ss i s. cr_statuses R k = Inr ss \<and> i < length ss \<and> i < length sigs \<and> sigs ! i = sig
          \<and> ss ! i = Some s \<and> confirmed_ok s)
       \<or> (\<exists>k meta. 9 \<le> k \<and> cr_details R k sig = Some (Some meta) \<and> tm_err meta = None))"
proof -
  let ?status = "\<exists>k ss i s. cr_statuses R k = Inr ss \<and> i < length ss \<and> i < length sigs \<and> sigs ! i = sig
          \<and> ss ! i = Some s \<and> confirmed_ok s"
  let ?details = "\<exists>k meta. 9 \<le> k \<and> cr_details R k sig = Some (Some meta) \<and> tm_err meta = None"
  have loop: "poll_loop fuel R sigs k landed = Some (Ok sig) \<Longrightarrow> landed = None \<or> (\<exists>l. landed = Some l \<and> l \<in> set sigs)
      \<Longrightarrow> sig \<in> set sigs \<and> (?status \<or> ?details)" for k landed
  proof (induction fuel arbitrary: k landed)
    case (Suc fuel)
    from Suc.prems(1) obtain ss where ss: "cr_statuses R k = Inr ss"
      by (auto split: if_splits sum.splits)
    from Suc.prems(1) obtain r l where scan: "scan_statuses sigs 0 ss landed = Ok (r, l)"
      by (auto simp: ss split: if_splits outcome.splits)
    show ?case
    proof (cases r)
      case (Some sig')
      then have "sig' = sig" using Suc.prems(1) by (auto simp: ss scan split: if_splits)
      then obtain j s where "j < length ss" "j < length sigs" "sigs ! j = sig" "ss ! j = Some s" "confirmed_ok s"
        using scan_confirmed [of sigs 0 ss landed sig l] scan Some by auto
      then show ?thesis using ss nth_mem by blast
    next
      case None
      have l: "l = None \<or> (\<exists>x. l = Some x \<and> x \<in> set sigs)"
        using scan_landed [of sigs 0 ss landed r] scan Suc.prems(2) by (cases l) auto
      then show ?thesis
        using Suc.prems(1) Suc.IH [of "Suc k" l]
        by (auto simp: ss scan None split: if_splits option.splits sum.splits)
    qed
  qed simp
  show ?thesis
    using assms loop [of 0 None] by (auto simp: poll_any_transaction_confirmation_def split: if_splits)
qed

end
