(* ===== verification/Executor.thy ===== *)
theory Executor
  imports Confirm
begin

text \<open>
  The trade executor, \<open>src/trading/core/executor.rs\<close> and \<open>src/trading/factory.rs\<close>: build the instructions
  of a swap, pass them through the protocol middlewares, then simulate the transaction or submit it
  in parallel, and wait for its confirmation when the caller asked for it. What the executor needs
  of the outside world is the record \<open>world\<close>. Timing and logging have no effect on the result.
\<close>

section \<open>The code\<close>

record world =
  w_tx :: tx_extern
  w_rents :: rents
  w_tip_account :: "swqos_client \<Rightarrow> string + pubkey"
  w_send :: send_fn
  w_schedule :: "TaskResult list \<Rightarrow> nat \<Rightarrow> ResultCollector \<Rightarrow> ResultCollector"
  w_rounds :: nat
  w_order :: "SwqosType list"
  w_confirm :: confirm_rpc
  w_simulate :: "VersionedTransaction \<Rightarrow> string + string option"

datatype DexType = DexTypePumpFun | DexTypePumpSwap

record GenericTradeExecutor =
  te_build_buy :: "extern \<Rightarrow> rents \<Rightarrow> SwapParams \<Rightarrow> Instruction list cached"
  te_build_sell :: "extern \<Rightarrow> rents \<Rightarrow> SwapParams \<Rightarrow> Instruction list cached"
  te_protocol_name :: string

fun create_executor :: "DexType \<Rightarrow> GenericTradeExecutor" where
  "create_executor DexTypePumpFun =
    \<lparr> te_build_buy = pf_build_buy_instructions, te_build_sell = (\<lambda>X rs. pf_build_sell_instructions X),
      te_protocol_name = ''PumpFun'' \<rparr>"
| "create_executor DexTypePumpSwap =
    \<lparr> te_build_buy = ps_build_buy_instructions, te_build_sell = ps_build_sell_instructions,
      te_protocol_name = ''PumpSwap'' \<rparr>"

text \<open>\<open>format!("{}", e)\<close> of an error.\<close>

definition error_text :: "sdk_error \<Rightarrow> string" where
  "error_text e = (case e of TradeErr te \<Rightarrow> te_message te | OtherErr m \<Rightarrow> m)"

definition err_sim_rpc :: string where "err_sim_rpc = ''RPC client is required for simulation''"
definition err_sim_config :: string where "err_sim_config = ''No default gas fee strategy found''"
definition err_sim_signature :: string where "err_sim_signature = ''Transaction has no signatures''"

definition simulate_transaction ::
  "world \<Rightarrow> bool \<Rightarrow> exec_args \<Rightarrow> gas_map \<Rightarrow> (tx_state, swap_result, string) stateful" where
  "simulate_transaction W has_rpc a gas =
    (if \<not> has_rpc then slift (Err err_sim_rpc)
     else sbind (slift (ok_or err_sim_config (find (\<lambda>(ty, g, v). ty = SwqosDefault)
            (get_strategies (w_order W) (trade_of (ea_is_buy a)) gas)))) (\<lambda>(ty, g, v).
       let tip = (if ea_with_tip a then gv_tip v else 0)
       in sbind (build_transaction (w_tx W) (ea_payer a) (gv_cu_limit v) (gv_cu_price v) (ea_instructions a)
            (ea_table a) (ea_recent_blockhash a) (ea_middleware_manager a) (ea_protocol_name a) (ea_is_buy a)
            False pubkey_default tip (ea_durable_nonce a)) (\<lambda>transaction.
       sbind (slift (of_sum (w_simulate W transaction))) (\<lambda>value_err.
       sbind (slift (case tx_signatures transaction of
            sig # _ \<Rightarrow> Ok sig | [] \<Rightarrow> Err err_sim_signature)) (\<lambda>sig.
       sret (case value_err of
          Some err \<Rightarrow> (False, [sig], Some (OtherErr err))
        | None \<Rightarrow> (True, [sig], None)))))))"

definition POLL_ROUNDS :: nat where "POLL_ROUNDS = 16"

text \<open>The result after the confirmation step of a submitted swap.\<close>

definition confirm_result :: "world \<Rightarrow> bool \<Rightarrow> (swap_result, string) outcome \<Rightarrow> (swap_result, string) outcome" where
  "confirm_result W has_rpc result =
    (case result of
       Panic \<Rightarrow> Panic
     | _ \<Rightarrow>
        (let r = (case result of
             Ok (success, signatures, last_error) \<Rightarrow>
               (success, signatures, map_option (\<lambda>e. OtherErr (error_text e)) last_error)
           | Err e \<Rightarrow> (False, [], Some (OtherErr e))
           | Panic \<Rightarrow> (False, [], None))
         in case r of (ok, sigs, err) \<Rightarrow>
           if has_rpc \<and> sigs \<noteq> []
           then (case poll_any_transaction_confirmation POLL_ROUNDS (w_confirm W) sigs True of
               Some (Ok _) \<Rightarrow> Ok (True, sigs, None)
             | Some (Err e) \<Rightarrow> Ok (False, sigs, Some e)
             | _ \<Rightarrow> Panic)
           else Ok (ok, sigs, err)))"

definition swap_args :: "SwapParams \<Rightarrow> bool \<Rightarrow> string \<Rightarrow> Instruction list \<Rightarrow> exec_args" where
  "swap_args params is_buy protocol_name final_instructions =
    \<lparr> ea_payer = sp_payer params, ea_instructions = final_instructions, ea_table = sp_lookup_table params,
      ea_recent_blockhash = sp_recent_blockhash params, ea_durable_nonce = sp_durable_nonce params,
      ea_middleware_manager = sp_middleware_manager params, ea_protocol_name = protocol_name,
      ea_is_buy = is_buy, ea_wait = False, ea_with_tip = (if is_buy then True else sp_with_tip params) \<rparr>"

definition swap_is_buy :: "SwapParams \<Rightarrow> bool" where
  "swap_is_buy params = (sp_trade_type params = Buy \<or> sp_trade_type params = CreateAndBuy)"

text \<open>The instructions of a swap before they are submitted.\<close>

definition swap_instructions ::
  "world \<Rightarrow> GenericTradeExecutor \<Rightarrow> SwapParams \<Rightarrow> (tx_state, Instruction list, string) stateful" where
  "swap_instructions W self params =
    (let is_buy = swap_is_buy params
     in sbind (with_caches ((if is_buy then te_build_buy self else te_build_sell self)
          (tx_base (w_tx W)) (w_rents W) params)) (\<lambda>instructions.
       sbind (slift (preprocess instructions)) (\<lambda>_.
       slift (case sp_middleware_manager params of
          Some ms \<Rightarrow> apply_middlewares_process_protocol_instructions ms instructions (te_protocol_name self) is_buy
        | None \<Rightarrow> Ok instructions))))"

definition swap :: "world \<Rightarrow> GenericTradeExecutor \<Rightarrow> SwapParams \<Rightarrow> (tx_state, swap_result, string) stateful" where
  "swap W self params =
    (let is_buy = swap_is_buy params
     in sbind (swap_instructions W self params) (\<lambda>final_instructions.
       let a = swap_args params is_buy (te_protocol_name self) final_instructions
       in if sp_simulate params
          then simulate_transaction W (sp_has_rpc params) a (sp_gas_fee_strategy params)
          else (\<lambda>s. case execute_parallel (w_tx W) (w_tip_account W) (w_send W) (w_schedule W) (w_rounds W)
                  (w_order W) (sp_swqos_clients params) (sp_gas_fee_strategy params) (sp_check_min_tip params) a s of
               (result, s') \<Rightarrow>
                 (if sp_wait_transaction_confirmed params then confirm_result W (sp_has_rpc params) result
                  else result, s'))))"

section \<open>Lemmas\<close>

lemma run_tasks_length: "length (fst (run_tasks T send a ts s)) \<le> length ts"
proof (induction ts arbitrary: s)
  case (Cons t ts)
  obtain client acc config where t: "t = (client, acc, config)" by (cases t)
  show ?case
    using Cons.IH by (auto simp: t split: prod.splits option.splits) (metis Cons.IH fst_conv le_SucI)+
qed simp

lemma spawn_tasks_length: "length (fst (spawn_tasks tip cs)) \<le> length cs"
  by (induction cs) (auto split: sum.splits prod.splits)

lemma plan_not_Panic: "plan_tasks order clients gas buy tip chk n \<noteq> Panic"
  by (simp add: plan_tasks_def Let_def)

lemma execute_not_Panic: "fst (execute_parallel T tip send env k order clients gas chk a s) \<noteq> Panic"
  using plan_not_Panic [of order clients gas "ea_is_buy a" "ea_with_tip a" chk "ea_durable_nonce a"]
  by (auto simp: execute_parallel_def Let_def split: outcome.splits prod.splits option.splits)

lemma get_first_signatures: "fst (get_first c) = Some (ok, sigs, e) \<Longrightarrow> sigs \<noteq> []"
  by (auto simp: get_first_def Let_def split: if_splits)

lemma all_submitted_signatures:
  "fst (wait_for_all_submitted env k t c) = Some (ok, sigs, e) \<Longrightarrow> sigs \<noteq> []"
  by (induction env k t c rule: wait_for_all_submitted.induct)
    (auto simp: Let_def get_first_signatures split: if_splits)

lemma execute_success_signatures:
  assumes "fst (execute_parallel T tip send env k order clients gas chk a s) = Ok (True, sigs, e)" "\<not> ea_wait a"
  shows "sigs \<noteq> []"
  using assms all_submitted_signatures
  by (fastforce simp: execute_parallel_def Let_def split: outcome.splits prod.splits option.splits)

lemma confirm_result_success:
  assumes "confirm_result W True x = Ok (True, sigs, err)"
  shows "(\<exists>e. x = Ok (True, [], e))
    \<or> (err = None \<and> (\<exists>sig. poll_any_transaction_confirmation POLL_ROUNDS (w_confirm W) sigs True = Some (Ok sig)))"
proof (cases x)
  case (Ok r)
  then show ?thesis using assms
    by (cases r) (auto simp: confirm_result_def split: if_splits option.splits outcome.splits)
qed (use assms in \<open>simp_all add: confirm_result_def\<close>)

lemma swap_run:
  assumes "swap_instructions W self params s = (Ok ixs, s1)" "\<not> sp_simulate params"
  shows "fst (swap W self params s) =
    (let r = fst (execute_parallel (w_tx W) (w_tip_account W) (w_send W) (w_schedule W) (w_rounds W)
          (w_order W) (sp_swqos_clients params) (sp_gas_fee_strategy params) (sp_check_min_tip params)
          (swap_args params (swap_is_buy params) (te_protocol_name self) ixs) s1)
     in if sp_wait_transaction_confirmed params then confirm_result W (sp_has_rpc params) r else r)"
  using assms by (simp add: swap_def Let_def sbind_run split: prod.split)

section \<open>A sample world\<close>

definition sample_world :: world where
  "sample_world = \<lparr> w_tx = sample_tx, w_rents = initial_rents, w_tip_account = (\<lambda>_. Inr 0),
     w_send = (\<lambda>_ _ _ _. Inr ()), w_schedule = (\<lambda>rs t c. if t = 0 then fold submit rs c else c), w_rounds = 3,
     w_order = swqos_values,
     w_confirm = silent_rpc \<lparr> cr_statuses := \<lambda>k. Inr [Some \<lparr> ss_err = False, ss_confirmation = Some Confirmed \<rparr>] \<rparr>,
     w_simulate = (\<lambda>_. Inr None) \<rparr>"

definition plain_executor :: GenericTradeExecutor where
  "plain_executor = \<lparr> te_build_buy = (\<lambda>X rs params. sret [sync_native 3]),
     te_build_sell = (\<lambda>X rs params. sret [sync_native 3]), te_protocol_name = ''plain'' \<rparr>"

definition idle_state :: tx_state where
  "idle_state = \<lparr> ts_caches = empty_caches, ts_pool = initial_pool \<rparr>"

section \<open>Properties\<close>

text \<open>A confirmed success is real. When a swap that waits for confirmation reports success,
  there is no error, and one of the returned signatures was seen by the node as confirmed or
  finalized without an error, or its transaction was returned without one.\<close>

definition seen_confirmed :: "confirm_rpc \<Rightarrow> signature list \<Rightarrow> bool" where
  "seen_confirmed R sigs \<longleftrightarrow> (\<exists>sig \<in> set sigs.
      (\<exists>k ss i st. cr_statuses R k = Inr ss \<and> i < length ss \<and> i < length sigs \<and> sigs ! i = sig
          \<and> ss ! i = Some st \<and> confirmed_ok st)
    \<or> (\<exists>k meta. 9 \<le> k \<and> cr_details R k sig = Some (Some meta) \<and> tm_err meta = None))"

lemma swap_confirmed:
  assumes "fst (swap W self params s) = Ok (True, sigs, err)"
    and "\<not> sp_simulate params" "sp_wait_transaction_confirmed params" "sp_has_rpc params"
  shows "err = None \<and> seen_confirmed (w_confirm W) sigs"
proof -
  obtain r s1 where i: "swap_instructions W self params s = (r, s1)" by fastforce
  obtain ixs where r: "r = Ok ixs"
    using assms(1) by (cases r) (simp_all add: swap_def Let_def sbind_run i)
  let ?x = "fst (execute_parallel (w_tx W) (w_tip_account W) (w_send W) (w_schedule W) (w_rounds W)
          (w_order W) (sp_swqos_clients params) (sp_gas_fee_strategy params) (sp_check_min_tip params)
          (swap_args params (swap_is_buy params) (te_protocol_name self) ixs) s1)"
  have c: "confirm_result W True ?x = Ok (True, sigs, err)"
    using assms swap_run [OF i [unfolded r] assms(2)] by (simp add: Let_def)
  have "\<not> ea_wait (swap_args params (swap_is_buy params) (te_protocol_name self) ixs)"
    by (simp add: swap_args_def)
  note nonempty = execute_success_signatures [OF _ this]
  from confirm_result_success [OF c] show ?thesis
  proof (elim disjE exE conjE)
    fix e
    assume "?x = Ok (True, [], e)"
    from nonempty [OF this] show ?thesis by simp
  next
    fix sig
    assume "err = None" "poll_any_transaction_confirmation POLL_ROUNDS (w_confirm W) sigs True = Some (Ok sig)"
    then show ?thesis
      using confirmation_sound [of POLL_ROUNDS "w_confirm W" sigs sig] unfolding seen_confirmed_def by blast
  qed
qed

text \<open>Waiting for confirmation hides planning errors. When the instructions of a swap
  are built but no submission can be planned, for instance a buy through several providers
  without a durable nonce, a swap that does not wait returns the error, and a swap that waits
  returns an ordinary result with no success, no signature and the error inside.\<close>

theorem swap_planning_error:
  assumes "swap_instructions W self params s = (Ok ixs, s1)" "\<not> sp_simulate params"
    and "plan_tasks (w_order W) (sp_swqos_clients params) (sp_gas_fee_strategy params) (swap_is_buy params)
      (if swap_is_buy params then True else sp_with_tip params) (sp_check_min_tip params) (sp_durable_nonce params) = Err e"
  shows "fst (swap W self params s) =
    (if sp_wait_transaction_confirmed params then Ok (False, [], Some (OtherErr e)) else Err e)"
  using assms(3) unfolding swap_run [OF assms(1,2)]
  by (simp add: execute_parallel_def swap_args_def confirm_result_def)

theorem swap_planning_error_witness:
  "fst (swap sample_world plain_executor (sample_swap \<lparr> sp_wait_transaction_confirmed := True \<rparr>) idle_state)
    = Ok (False, [], Some (OtherErr err_no_clients))"
proof -
  let ?p = "sample_swap \<lparr> sp_wait_transaction_confirmed := True \<rparr>"
  have i: "swap_instructions sample_world plain_executor ?p idle_state = (Ok [sync_native 3], idle_state)"
    by (simp add: swap_instructions_def plain_executor_def sbind_run with_caches_def preprocess_def
        sample_swap_def sample_params_def Let_def)
  show ?thesis
    by (subst swap_planning_error [OF i, where e = err_no_clients])
      (simp_all add: sample_swap_def sample_params_def plan_tasks_def)
qed

end
