(* ===== verification/Pool_Types.thy ===== *)
theory Pool_Types
  imports Bonding_Curve
begin

text \<open>
  The on-chain accounts the program decodes: \<open>Pool\<close> of \<open>src/instruction/utils/pumpswap_types.rs\<close> and the
  Borsh form of \<open>BondingCurveAccount\<close> of \<open>src/common/bonding_curve.rs\<close>. The derived decoder of
  Borsh reads the fields in order, integers little-endian, a key as its 32 bytes, and a \<open>bool\<close> as one
  byte that must be 0 or 1. A field with its encoder and reader is a codec; the two structs are
  codecs because their fields are.
\<close>

section \<open>Field codecs\<close>

type_synonym 'a reader = "u8 list \<Rightarrow> ('a \<times> u8 list) option"

locale codec =
  fixes enc :: "'a \<Rightarrow> u8 list" and dec :: "'a reader" and width :: nat
  assumes dec_enc: "dec (enc x @ rest) = Some (x, rest)"
    and dec_inv: "dec bs = Some (x, rest) \<Longrightarrow> bs = enc x @ rest"
    and enc_length: "length (enc x) = width"
begin

lemma dec_iff: "dec bs = Some (x, rest) \<longleftrightarrow> bs = enc x @ rest"
  using dec_enc dec_inv by blast

lemma dec_at:
  assumes "dec bs = Some (x, rest)"
  shows "take width bs = enc x" "drop width bs = rest" "width \<le> length bs"
  using dec_inv [OF assms] enc_length [of x] by auto

end

text \<open>Two fields in a row.\<close>

definition read_pair :: "'a reader \<Rightarrow> 'b reader \<Rightarrow> ('a \<times> 'b) reader" where
  "read_pair ra rb bs =
    (case ra bs of None \<Rightarrow> None
     | Some (x, bs') \<Rightarrow> (case rb bs' of None \<Rightarrow> None | Some (y, bs'') \<Rightarrow> Some ((x, y), bs'')))"

locale codec_pair = a: codec ea ra wa + b: codec eb rb wb
  for ea :: "'a \<Rightarrow> u8 list" and ra wa and eb :: "'b \<Rightarrow> u8 list" and rb wb

sublocale codec_pair \<subseteq> pair: codec "\<lambda>(x, y). ea x @ eb y" "read_pair ra rb" "wa + wb"
proof
  fix x :: "'a \<times> 'b" and rest bs
  show "read_pair ra rb ((case x of (x, y) \<Rightarrow> ea x @ eb y) @ rest) = Some (x, rest)"
    by (cases x) (simp add: read_pair_def a.dec_enc b.dec_enc)
  show "bs = (case x of (x, y) \<Rightarrow> ea x @ eb y) @ rest" if "read_pair ra rb bs = Some (x, rest)"
    using that by (cases x) (auto simp: read_pair_def a.dec_iff b.dec_iff split: option.splits)
  show "length (case x of (x, y) \<Rightarrow> ea x @ eb y) = wa + wb"
    by (cases x) (simp add: a.enc_length b.enc_length)
qed

definition read_uint :: "nat \<Rightarrow> 'a::len word reader" where
  "read_uint n bs = (if n \<le> length bs then Some (word_of_nat (le_value (take n bs)), drop n bs) else None)"

definition read_pubkey :: "pubkey reader" where
  "read_pubkey bs =
    (if 32 \<le> length bs then Some (word_of_nat (le_value (rev (take 32 bs))), drop 32 bs) else None)"

fun read_bool :: "bool reader" where
  "read_bool [] = None"
| "read_bool (b # bs) = (if b = 0 then Some (False, bs) else if b = 1 then Some (True, bs) else None)"

definition bool_byte :: "bool \<Rightarrow> u8 list" where
  "bool_byte b = [if b then 1 else 0]"

section \<open>The accounts\<close>

record Pool =
  pool_bump :: u8
  pool_index :: u16
  pool_creator :: pubkey
  pool_base_mint :: pubkey
  pool_quote_mint :: pubkey
  pool_lp_mint :: pubkey
  pool_base_token_account :: pubkey
  pool_quote_token_account :: pubkey
  lp_supply :: u64
  pool_coin_creator :: pubkey
  pool_is_mayhem_mode :: bool
  pool_is_cashback_coin :: bool

definition POOL_SIZE :: nat where
  "POOL_SIZE = 1 + 2 + 32 * 6 + 8 + 32 + 1 + 1"

text \<open>The reader that \<open>#[derive(BorshDeserialize)]\<close> gives: field after field.\<close>

definition read_pool :: "Pool reader" where
  "read_pool bs =
    Option.bind (read_uint 1 bs) (\<lambda>(bump, bs).
    Option.bind (read_uint 2 bs) (\<lambda>(index, bs).
    Option.bind (read_pubkey bs) (\<lambda>(creator, bs).
    Option.bind (read_pubkey bs) (\<lambda>(base_mint, bs).
    Option.bind (read_pubkey bs) (\<lambda>(quote_mint, bs).
    Option.bind (read_pubkey bs) (\<lambda>(lp_mint, bs).
    Option.bind (read_pubkey bs) (\<lambda>(base_account, bs).
    Option.bind (read_pubkey bs) (\<lambda>(quote_account, bs).
    Option.bind (read_uint 8 bs) (\<lambda>(supply, bs).
    Option.bind (read_pubkey bs) (\<lambda>(coin_creator, bs).
    Option.bind (read_bool bs) (\<lambda>(mayhem, bs).
    Option.bind (read_bool bs) (\<lambda>(cashback, bs).
      Some (\<lparr> pool_bump = bump, pool_index = index, pool_creator = creator, pool_base_mint = base_mint,
        pool_quote_mint = quote_mint, pool_lp_mint = lp_mint, pool_base_token_account = base_account,
        pool_quote_token_account = quote_account, lp_supply = supply, pool_coin_creator = coin_creator,
        pool_is_mayhem_mode = mayhem, pool_is_cashback_coin = cashback \<rparr>, bs)))))))))))))"

text \<open>\<open>borsh::from_slice\<close> fails on bytes that are left over.\<close>

definition from_slice :: "'a reader \<Rightarrow> u8 list \<Rightarrow> 'a option" where
  "from_slice r bs = (case r bs of Some (x, []) \<Rightarrow> Some x | _ \<Rightarrow> None)"

definition pool_decode :: "u8 list \<Rightarrow> Pool option" where
  "pool_decode data =
    (if length data < POOL_SIZE then None else from_slice read_pool (take POOL_SIZE data))"

definition read_curve :: "BondingCurveAccount reader" where
  "read_curve bs =
    Option.bind (read_uint 8 bs) (\<lambda>(vtr, bs).
    Option.bind (read_uint 8 bs) (\<lambda>(vsr, bs).
    Option.bind (read_uint 8 bs) (\<lambda>(rtr, bs).
    Option.bind (read_uint 8 bs) (\<lambda>(rsr, bs).
    Option.bind (read_uint 8 bs) (\<lambda>(supply, bs).
    Option.bind (read_bool bs) (\<lambda>(compl, bs).
    Option.bind (read_pubkey bs) (\<lambda>(creator, bs).
    Option.bind (read_bool bs) (\<lambda>(mayhem, bs).
    Option.bind (read_bool bs) (\<lambda>(cashback, bs).
      Some (\<lparr> bc_discriminator = 0, bc_account = pubkey_default, virtual_token_reserves = vtr,
        virtual_sol_reserves = vsr, real_token_reserves = rtr, real_sol_reserves = rsr,
        token_total_supply = supply, complete = compl, bc_creator = creator,
        bc_is_mayhem_mode = mayhem, bc_is_cashback_coin = cashback \<rparr>, bs))))))))))"

text \<open>\<open>try_from_slice_unchecked\<close> ignores bytes that are left over.\<close>

definition from_slice_unchecked :: "'a reader \<Rightarrow> u8 list \<Rightarrow> 'a option" where
  "from_slice_unchecked r bs = map_option fst (r bs)"

section \<open>The field codecs are codecs\<close>

lemma le_bytes_le_value:
  assumes "length bs = n" "LENGTH('a) = 8 * n"
  shows "le_bytes n (word_of_nat (le_value bs) :: 'a::len word) = bs"
proof -
  have inj: "xs = ys" if "length xs = length ys" "le_value xs = le_value ys" for xs ys :: "u8 list"
    using that
  proof (induction xs ys rule: list_induct2)
    case (Cons x xs y ys)
    have b: "unat x < 256" "unat y < 256" using unsigned_less [of x] unsigned_less [of y] by auto
    have "(unat x + 256 * le_value xs) mod 256 = unat x" "(unat y + 256 * le_value ys) mod 256 = unat y"
      using b by simp_all
    then have "unat x = unat y" using Cons.prems by (metis le_value.simps(2))
    then show ?case using Cons by (simp add: word_unat_eq_iff)
  qed simp
  have bound: "le_value xs < 256 ^ length xs" for xs :: "u8 list"
  proof (induction xs)
    case (Cons x xs)
    have "unat x < 256" using unsigned_less [of x] by simp
    moreover have "le_value xs \<le> 256 ^ length xs - 1" using Cons by simp
    ultimately have "unat x + 256 * le_value xs < 256 + 256 * (256 ^ length xs - 1)" by linarith
    then show ?case by (simp add: algebra_simps)
  qed simp
  have "le_value bs < 2 ^ LENGTH('a)"
    using bound [of bs] assms by (simp add: power_mult)
  then have "unat (word_of_nat (le_value bs) :: 'a word) = le_value bs"
    by (simp add: unsigned_of_nat take_bit_nat_eq_self)
  then have "le_value (le_bytes n (word_of_nat (le_value bs) :: 'a word)) = le_value bs"
    using bound [of bs] assms by (simp add: le_value_le_bytes)
  then show ?thesis using assms(1) by (intro inj) simp_all
qed

lemma le_value_word:
  assumes "LENGTH('a) = 8 * n"
  shows "word_of_nat (le_value (le_bytes n w)) = (w :: 'a::len word)"
proof -
  have "(2::nat) ^ LENGTH('a) = 256 ^ n" unfolding assms by (simp add: power_mult)
  then show ?thesis using unsigned_less [of w, where 'a = nat] by (simp add: le_value_le_bytes)
qed

lemma uint_codec:
  assumes "LENGTH('a) = 8 * n"
  shows "codec (le_bytes n :: 'a::len word \<Rightarrow> u8 list) (read_uint n) n"
proof
  fix x :: "'a word" and rest bs
  show "read_uint n (le_bytes n x @ rest) = Some (x, rest)"
    using le_value_word [OF assms, of x] by (simp add: read_uint_def)
  show "bs = le_bytes n x @ rest" if "read_uint n bs = Some (x, rest)"
  proof -
    have "n \<le> length bs" "x = word_of_nat (le_value (take n bs))" "rest = drop n bs"
      using that by (auto simp: read_uint_def split: if_splits)
    then show ?thesis using le_bytes_le_value [of "take n bs" n, where 'a = 'a] assms by simp
  qed
qed simp

interpretation byte: codec "le_bytes 1 :: u8 \<Rightarrow> u8 list" "read_uint 1" 1
  by (rule uint_codec) simp

interpretation short: codec "le_bytes 2 :: u16 \<Rightarrow> u8 list" "read_uint 2" 2
  by (rule uint_codec) simp

interpretation long: codec "u64_le" "read_uint 8" 8
  by (rule uint_codec) simp

interpretation key: codec pk_bytes read_pubkey 32
proof
  fix x :: pubkey and rest bs
  show "read_pubkey (pk_bytes x @ rest) = Some (x, rest)"
    using le_value_word [of 32 x] by (simp add: read_pubkey_def pk_bytes_def)
  show "bs = pk_bytes x @ rest" if "read_pubkey bs = Some (x, rest)"
  proof -
    have b: "32 \<le> length bs" "x = word_of_nat (le_value (rev (take 32 bs)))" "rest = drop 32 bs"
      using that by (auto simp: read_pubkey_def split: if_splits)
    then have "pk_bytes x = take 32 bs"
      using le_bytes_le_value [of "rev (take 32 bs)" 32, where 'a = 256] by (simp add: pk_bytes_def)
    then show ?thesis using b by simp
  qed
qed simp

interpretation flag: codec bool_byte read_bool 1
proof
  fix x :: bool and rest bs
  show "read_bool (bool_byte x @ rest) = Some (x, rest)" by (simp add: bool_byte_def)
  show "bs = bool_byte x @ rest" if "read_bool bs = Some (x, rest)"
    using that by (cases bs) (auto simp: bool_byte_def split: if_splits)
qed (simp add: bool_byte_def)

text \<open>The two flags at the end of both structs are read one after the other.\<close>

interpretation flags: codec_pair bool_byte read_bool 1 bool_byte read_bool 1 ..

text \<open>The simplifier writes the width 1 as \<open>Suc 0\<close>.\<close>

lemmas byte_dec = byte.dec_enc [unfolded One_nat_def] byte.dec_iff [unfolded One_nat_def]

lemmas field_reads = byte_dec(2) short.dec_iff long.dec_iff key.dec_iff flag.dec_iff

section \<open>The structs are codecs\<close>

definition pool_bytes :: "Pool \<Rightarrow> u8 list" where
  "pool_bytes p = le_bytes 1 (pool_bump p) @ le_bytes 2 (pool_index p) @ pk_bytes (pool_creator p)
    @ pk_bytes (pool_base_mint p) @ pk_bytes (pool_quote_mint p) @ pk_bytes (pool_lp_mint p)
    @ pk_bytes (pool_base_token_account p) @ pk_bytes (pool_quote_token_account p)
    @ u64_le (lp_supply p) @ pk_bytes (pool_coin_creator p)
    @ bool_byte (pool_is_mayhem_mode p) @ bool_byte (pool_is_cashback_coin p)"

definition curve_bytes :: "BondingCurveAccount \<Rightarrow> u8 list" where
  "curve_bytes a = u64_le (virtual_token_reserves a) @ u64_le (virtual_sol_reserves a)
    @ u64_le (real_token_reserves a) @ u64_le (real_sol_reserves a) @ u64_le (token_total_supply a)
    @ bool_byte (complete a) @ pk_bytes (bc_creator a)
    @ bool_byte (bc_is_mayhem_mode a) @ bool_byte (bc_is_cashback_coin a)"

lemma pool_bytes_length: "length (pool_bytes p) = POOL_SIZE"
  by (simp add: pool_bytes_def POOL_SIZE_def bool_byte_def)

interpretation pool: codec pool_bytes read_pool POOL_SIZE
proof
  fix x :: Pool and rest bs
  show "read_pool (pool_bytes x @ rest) = Some (x, rest)"
    by (simp add: read_pool_def pool_bytes_def byte_dec(1) short.dec_enc long.dec_enc key.dec_enc flag.dec_enc)
  show "bs = pool_bytes x @ rest" if "read_pool bs = Some (x, rest)"
    using that unfolding read_pool_def bind_eq_Some_conv split_paired_Ex prod.case byte.dec_iff field_reads
    by (elim exE conjE) (clarsimp simp: pool_bytes_def)
qed (rule pool_bytes_length)

lemma read_curve_iff:
  "read_curve bs = Some (a, rest) \<longleftrightarrow>
    bs = curve_bytes a @ rest \<and> bc_discriminator a = 0 \<and> bc_account a = pubkey_default"
proof
  assume "read_curve bs = Some (a, rest)"
  then show "bs = curve_bytes a @ rest \<and> bc_discriminator a = 0 \<and> bc_account a = pubkey_default"
    unfolding read_curve_def bind_eq_Some_conv split_paired_Ex prod.case field_reads
    by (elim exE conjE) (clarsimp simp: curve_bytes_def)
next
  assume "bs = curve_bytes a @ rest \<and> bc_discriminator a = 0 \<and> bc_account a = pubkey_default"
  then show "read_curve bs = Some (a, rest)"
    by (cases a) (simp add: read_curve_def curve_bytes_def long.dec_enc key.dec_enc flag.dec_enc)
qed

text \<open>Where the two mints stand in the bytes of a pool.\<close>

lemma pool_decode_iff: "pool_decode data = Some p \<longleftrightarrow> take POOL_SIZE data = pool_bytes p"
proof (cases "length data < POOL_SIZE")
  case True
  then have "take POOL_SIZE data \<noteq> pool_bytes p" using pool_bytes_length [of p] by auto
  then show ?thesis using True by (simp only: pool_decode_def if_True) simp
next
  case False
  have "from_slice read_pool bs = Some p \<longleftrightarrow> read_pool bs = Some (p, [])" for bs
    by (auto simp: from_slice_def split: option.splits list.splits)
  then show ?thesis using False by (simp only: pool_decode_def if_False pool.dec_iff append_Nil2)
qed

lemma pool_mint_bytes:
  assumes "pool_decode data = Some p"
  shows "take 32 (drop 35 data) = pk_bytes (pool_base_mint p)"
    and "take 32 (drop 67 data) = pk_bytes (pool_quote_mint p)"
proof -
  have d: "data = pool_bytes p @ drop POOL_SIZE data"
    using assms unfolding pool_decode_iff by (metis append_take_drop_id)
  show "take 32 (drop 35 data) = pk_bytes (pool_base_mint p)"
    "take 32 (drop 67 data) = pk_bytes (pool_quote_mint p)"
    by (subst d, simp add: pool_bytes_def)+
qed

section \<open>Properties\<close>

text \<open>Decoding is the inverse of the account layout. The first 237 bytes decode to
  a pool exactly when they are the layout of that pool, so every pool can be read back, whatever
  follows its bytes, and two pools with the same bytes are equal. A bonding curve is read back from
  its 75 bytes in the same way, with a zero discriminator and the default key as its address.\<close>

theorem accounts_round_trip:
  "(pool_decode data = Some p \<longleftrightarrow> take 237 data = pool_bytes p)
   \<and> pool_decode (pool_bytes q @ rest) = Some q
   \<and> (from_slice_unchecked read_curve data = Some a \<longleftrightarrow>
        take 75 data = curve_bytes a \<and> bc_discriminator a = 0 \<and> bc_account a = pubkey_default)"
proof (intro conjI)
  have size: "POOL_SIZE = 237" by (simp add: POOL_SIZE_def)
  show "pool_decode data = Some p \<longleftrightarrow> take 237 data = pool_bytes p"
    using pool_decode_iff size by simp
  show "pool_decode (pool_bytes q @ rest) = Some q"
    using pool_bytes_length [of q] by (simp add: pool_decode_iff)
  have len: "length (curve_bytes a) = 75" by (simp add: curve_bytes_def bool_byte_def)
  have "take 75 data = curve_bytes a \<longleftrightarrow> (\<exists>rest. data = curve_bytes a @ rest)"
    using len by (metis append_eq_conv_conj append_take_drop_id)
  then show "from_slice_unchecked read_curve data = Some a \<longleftrightarrow>
        take 75 data = curve_bytes a \<and> bc_discriminator a = 0 \<and> bc_account a = pubkey_default"
    by (auto simp: from_slice_unchecked_def read_curve_iff)
qed

end
