(* ===== verification/Rpc_Fetch.thy ===== *)
theory Rpc_Fetch
  imports PumpSwap_Instr Pool_Types
begin

text \<open>
  Reading the chain: the wallet operations of \<open>src/trading/common/utils.rs\<close>, the account and pool
  lookups of \<open>src/instruction/utils/pumpfun.rs\<close> and \<open>pumpswap.rs\<close>, and the constructors of
  \<open>src/trading/core/params.rs\<close> that use them. The RPC node is the parameter \<open>rpc_node\<close>; its answers
  depend on the time of the question, and every question advances the clock of the state, so two
  questions of one function may see different chain states.
\<close>

section \<open>Numbers in text\<close>

text \<open>\<open>str::parse::<u64>\<close>: an optional plus sign, then decimal digits.\<close>

datatype int_error = EmptyInt | InvalidDigit | PosOverflow

fun int_error_text :: "int_error \<Rightarrow> string" where
  "int_error_text EmptyInt = ''cannot parse integer from empty string''"
| "int_error_text InvalidDigit = ''invalid digit found in string''"
| "int_error_text PosOverflow = ''number too large to fit in target type''"

definition digit_of :: "char \<Rightarrow> nat option" where
  "digit_of c = (let n = (of_char c :: nat) in if 48 \<le> n \<and> n \<le> 57 then Some (n - 48) else None)"

fun parse_digits :: "nat \<Rightarrow> string \<Rightarrow> (u64, int_error) outcome" where
  "parse_digits acc [] = Ok (word_of_nat acc)"
| "parse_digits acc (c # cs) =
    (case digit_of c of
       None \<Rightarrow> Err InvalidDigit
     | Some d \<Rightarrow> if acc * 10 + d < 2 ^ 64 then parse_digits (acc * 10 + d) cs else Err PosOverflow)"

definition parse_u64 :: "string \<Rightarrow> (u64, int_error) outcome" where
  "parse_u64 s =
    (if s = [] then Err EmptyInt
     else if s = ''+'' then Err InvalidDigit
     else parse_digits 0 (if hd s = CHR ''+'' then tl s else s))"

section \<open>The node\<close>

record account =
  ac_owner :: pubkey
  ac_data :: "u8 list"

record rpc_node =
  rn_account :: "nat \<Rightarrow> pubkey \<Rightarrow> string + account"
  rn_balance :: "nat \<Rightarrow> pubkey \<Rightarrow> string + u64"
  rn_token_balance :: "nat \<Rightarrow> pubkey \<Rightarrow> string + string"
  rn_program_accounts :: "nat \<Rightarrow> pubkey \<Rightarrow> nat \<Rightarrow> u8 list \<Rightarrow> string + (pubkey \<times> account) list"
  rn_blockhash :: "nat \<Rightarrow> string + hash"
  rn_send_confirm :: "nat \<Rightarrow> pubkey \<Rightarrow> Instruction list \<Rightarrow> hash \<Rightarrow> string + string"
  rn_in_time :: "nat \<Rightarrow> bool"
  rn_show_key :: "pubkey \<Rightarrow> string"

record rpc_state =
  rs_caches :: caches
  rs_clock :: nat

type_synonym 'a rpc_call = "(rpc_state, 'a, string) stateful"

definition ask :: "(nat \<Rightarrow> string + 'a) \<Rightarrow> 'a rpc_call" where
  "ask f = (\<lambda>s. (of_sum (f (rs_clock s)), s \<lparr> rs_clock := Suc (rs_clock s) \<rparr>))"

text \<open>\<open>.await.is_ok()\<close>\<close>

definition ask_ok :: "(nat \<Rightarrow> string + 'a) \<Rightarrow> bool rpc_call" where
  "ask_ok f = (\<lambda>s. (Ok (case f (rs_clock s) of Inl _ \<Rightarrow> False | Inr _ \<Rightarrow> True), s \<lparr> rs_clock := Suc (rs_clock s) \<rparr>))"

text \<open>\<open>if let Ok(x) = e\<close>: an error becomes \<open>None\<close>, a panic stays.\<close>

definition if_let_ok :: "'a rpc_call \<Rightarrow> 'a option rpc_call" where
  "if_let_ok m = (\<lambda>s. case m s of (Ok x, s') \<Rightarrow> (Ok (Some x), s') | (Err _, s') \<Rightarrow> (Ok None, s') | (Panic, s') \<Rightarrow> (Panic, s'))"

definition on_caches :: "'a cached \<Rightarrow> 'a rpc_call" where
  "on_caches m = (\<lambda>s. case m (rs_caches s) of (r, c) \<Rightarrow> (r, s \<lparr> rs_caches := c \<rparr>))"

definition on_caches_total :: "(caches \<Rightarrow> 'a \<times> caches) \<Rightarrow> 'a rpc_call" where
  "on_caches_total m = on_caches (\<lambda>c. case m c of (x, c') \<Rightarrow> (Ok x, c'))"

text \<open>\<open>&data[n..]\<close>\<close>

definition slice_from :: "nat \<Rightarrow> 'a list \<Rightarrow> ('a list, string) outcome" where
  "slice_from n xs = (if n \<le> length xs then Ok (drop n xs) else Panic)"

text \<open>Signing a transaction with the payer's key alone panics when another signature is needed.\<close>

definition sign_alone :: "pubkey \<Rightarrow> Instruction list \<Rightarrow> (unit, string) outcome" where
  "sign_alone payer ixs = (if list_all (\<lambda>ix. ix_signers ix \<subseteq> {payer}) ixs then Ok () else Panic)"

text \<open>The end of every wallet operation: blockhash, signature, send and confirm. The result is the
  text of the signature.\<close>

definition send_signed :: "rpc_node \<Rightarrow> pubkey \<Rightarrow> Instruction list \<Rightarrow> hash \<Rightarrow> string rpc_call" where
  "send_signed R payer ixs recent_blockhash =
    sbind (slift (sign_alone payer ixs)) (\<lambda>_. ask (\<lambda>t. rn_send_confirm R t payer ixs recent_blockhash))"

section \<open>Wallet operations\<close>

definition get_multi_token_balances :: "rpc_node \<Rightarrow> pubkey \<Rightarrow> pubkey \<Rightarrow> (u64 \<times> u64) rpc_call" where
  "get_multi_token_balances R token0_vault token1_vault =
    sbind (ask (\<lambda>t. rn_token_balance R t token0_vault)) (\<lambda>token0_balance.
    sbind (ask (\<lambda>t. rn_token_balance R t token1_vault)) (\<lambda>token1_balance.
    sbind (slift (map_err (\<lambda>e. ''Failed to parse token0 balance: '' @ int_error_text e) (parse_u64 token0_balance))) (\<lambda>token0_amount.
    sbind (slift (map_err (\<lambda>e. ''Failed to parse token1 balance: '' @ int_error_text e) (parse_u64 token1_balance))) (\<lambda>token1_amount.
    sret (token0_amount, token1_amount)))))"

definition get_token_balance :: "extern \<Rightarrow> rpc_node \<Rightarrow> pubkey \<Rightarrow> pubkey \<Rightarrow> u64 rpc_call" where
  "get_token_balance X R payer mint =
    sbind (on_caches (get_ata_fast X payer mint TOKEN_PROGRAM)) (\<lambda>ata.
    sbind (ask (\<lambda>t. rn_token_balance R t ata)) (\<lambda>balance.
    slift (map_err (\<lambda>_. ''Failed to parse token balance'') (parse_u64 balance))))"

definition get_sol_balance :: "rpc_node \<Rightarrow> pubkey \<Rightarrow> u64 rpc_call" where
  "get_sol_balance R account = ask (\<lambda>t. rn_balance R t account)"

definition err_zero_transfer :: string where "err_zero_transfer = ''transfer_sol: Amount cannot be zero''"
definition err_insufficient :: string where "err_insufficient = ''Insufficient balance''"

definition transfer_sol :: "extern \<Rightarrow> rpc_node \<Rightarrow> pubkey \<Rightarrow> pubkey \<Rightarrow> u64 \<Rightarrow> unit rpc_call" where
  "transfer_sol X R payer receive_wallet amount =
    (if amount = 0 then slift (Err err_zero_transfer)
     else sbind (get_sol_balance R payer) (\<lambda>balance.
       if balance < amount then slift (Err err_insufficient)
       else let transfer_instruction = x_system_transfer X payer receive_wallet amount
         in sbind (ask (rn_blockhash R)) (\<lambda>recent_blockhash.
            sbind (send_signed R payer [transfer_instruction] recent_blockhash) (\<lambda>_. sret ()))))"

definition close_token_account :: "extern \<Rightarrow> rpc_node \<Rightarrow> pubkey \<Rightarrow> pubkey \<Rightarrow> unit rpc_call" where
  "close_token_account X R payer mint =
    sbind (on_caches (get_ata_fast X payer mint TOKEN_PROGRAM)) (\<lambda>ata.
    sbind (ask_ok (\<lambda>t. rn_account R t ata)) (\<lambda>account_exists.
    if \<not> account_exists then sret ()
    else sbind (slift (close_account TOKEN_PROGRAM ata payer payer [payer])) (\<lambda>close_account_ix.
      sbind (ask (rn_blockhash R)) (\<lambda>recent_blockhash.
      sbind (send_signed R payer [close_account_ix] recent_blockhash) (\<lambda>_. sret ())))))"

section \<open>PumpFun accounts\<close>

definition err_no_curve :: string where "err_no_curve = ''Bonding curve not found''"

text \<open>\<open>fetch_bonding_curve_account\<close>; \<open>decode_error\<close> is the text of a Borsh error.\<close>

definition fetch_bonding_curve_account ::
  "extern \<Rightarrow> rpc_node \<Rightarrow> (u8 list \<Rightarrow> string) \<Rightarrow> pubkey \<Rightarrow> (BondingCurveAccount \<times> pubkey) rpc_call" where
  "fetch_bonding_curve_account X R decode_error mint =
    sbind (on_caches (ok_or_pda err_no_curve (get_bonding_curve_pda X mint))) (\<lambda>bonding_curve_pda.
    sbind (ask (\<lambda>t. rn_account R t bonding_curve_pda)) (\<lambda>account.
    if ac_data account = [] then slift (Err err_no_curve)
    else sbind (slift (slice_from 8 (ac_data account))) (\<lambda>data.
      sbind (slift (ok_or (''Failed to deserialize bonding curve account: '' @ decode_error data)
          (from_slice_unchecked read_curve data))) (\<lambda>bonding_curve.
      sret (bonding_curve, bonding_curve_pda)))))"

definition pf_from_mint_by_rpc ::
  "extern \<Rightarrow> rpc_node \<Rightarrow> (u8 list \<Rightarrow> string) \<Rightarrow> pubkey \<Rightarrow> PumpFunParams rpc_call" where
  "pf_from_mint_by_rpc X R decode_error mint =
    sbind (fetch_bonding_curve_account X R decode_error mint) (\<lambda>(curve, address).
    sbind (ask (\<lambda>t. rn_account R t mint)) (\<lambda>mint_account.
    let bonding_curve = curve \<lparr> bc_discriminator := 0, bc_account := address \<rparr>
    in sbind (slift (get_associated_token_address_with_program_id X (bc_account bonding_curve) mint
                (ac_owner mint_account))) (\<lambda>associated_bonding_curve.
       sbind (on_caches_total (get_creator_vault_pda X (bc_creator bonding_curve))) (\<lambda>creator_vault.
       sbind (slift (unwrap_option creator_vault)) (\<lambda>creator_vault.
       sret \<lparr> pf_bonding_curve = bonding_curve, pf_associated_bonding_curve = associated_bonding_curve,
              pf_creator_vault = creator_vault, pf_token_program = ac_owner mint_account,
              pf_close_token_account_when_sell = None \<rparr>)))))"

section \<open>PumpSwap accounts\<close>

definition get_global_volume_accumulator_pda :: "extern \<Rightarrow> pubkey option" where
  "get_global_volume_accumulator_pda X =
    derive (x_find_pda X) [str_bytes ''global_volume_accumulator''] AMM_PROGRAM"

definition get_fee_config_pda :: "extern \<Rightarrow> pubkey option" where
  "get_fee_config_pda X = derive (x_find_pda X) [str_bytes ''fee_config'', pk_bytes AMM_PROGRAM] PS_FEE_PROGRAM"

definition err_pool_owner :: string where "err_pool_owner = ''Account is not owned by PumpSwap program''"
definition err_pool_decode :: string where "err_pool_decode = ''Failed to decode pool''"

definition fetch_pool :: "rpc_node \<Rightarrow> pubkey \<Rightarrow> Pool rpc_call" where
  "fetch_pool R pool_address =
    sbind (ask (\<lambda>t. rn_account R t pool_address)) (\<lambda>account.
    if ac_owner account \<noteq> AMM_PROGRAM then slift (Err err_pool_owner)
    else sbind (slift (slice_from 8 (ac_data account))) (\<lambda>data.
      slift (ok_or err_pool_decode (pool_decode data))))"

text \<open>The pools among the accounts of an answer, and the choice of the largest one: the sort is
  stable and descending, so the first of several largest pools wins.\<close>

definition decoded_pools :: "(pubkey \<times> account) list \<Rightarrow> (pubkey \<times> Pool) list" where
  "decoded_pools accounts = List.map_filter (\<lambda>(addr, acc).
     if length (ac_data acc) > 8
     then (case pool_decode (drop 8 (ac_data acc)) of Some pool \<Rightarrow> Some (addr, pool) | None \<Rightarrow> None)
     else None) accounts"

definition largest_pool :: "(pubkey \<times> Pool) list \<Rightarrow> pubkey \<times> Pool" where
  "largest_pool pools = hd (sort_key (\<lambda>(addr, pool). - uint (lp_supply pool)) pools)"

definition select_pool :: "string \<Rightarrow> (nat \<Rightarrow> string) \<Rightarrow> (pubkey \<times> account) list \<Rightarrow> (pubkey \<times> Pool, string) outcome" where
  "select_pool err_none err_decode accounts =
    (if accounts = [] then Err err_none
     else let pools = decoded_pools accounts
       in if pools = [] then Err (err_decode (length accounts)) else Ok (largest_pool pools))"

text \<open>The offsets are offsets in the account's data, which starts with eight bytes of discriminator;
  \<open>show_nat\<close> prints the number of accounts in a message.\<close>

definition BASE_MINT_OFFSET :: nat where "BASE_MINT_OFFSET = 43"
definition QUOTE_MINT_OFFSET :: nat where "QUOTE_MINT_OFFSET = 75"

definition find_by_base_mint :: "rpc_node \<Rightarrow> (nat \<Rightarrow> string) \<Rightarrow> pubkey \<Rightarrow> (pubkey \<times> Pool) rpc_call" where
  "find_by_base_mint R show_nat base_mint =
    sbind (ask (\<lambda>t. rn_program_accounts R t AMM_PROGRAM BASE_MINT_OFFSET (pk_bytes base_mint))) (\<lambda>accounts.
    slift (select_pool (''No pool found for mint '' @ rn_show_key R base_mint)
      (\<lambda>n. ''No valid pool decoded for mint '' @ rn_show_key R base_mint @ '' (found '' @ show_nat n
           @ '' accounts but all decode failed)'') accounts))"

definition find_by_quote_mint :: "rpc_node \<Rightarrow> (nat \<Rightarrow> string) \<Rightarrow> pubkey \<Rightarrow> (pubkey \<times> Pool) rpc_call" where
  "find_by_quote_mint R show_nat quote_mint =
    sbind (ask (\<lambda>t. rn_program_accounts R t AMM_PROGRAM QUOTE_MINT_OFFSET (pk_bytes quote_mint))) (\<lambda>accounts.
    slift (select_pool (''No pool found for mint '' @ rn_show_key R quote_mint)
      (\<lambda>n. ''No valid pool decoded for quote_mint '' @ rn_show_key R quote_mint @ '' (found '' @ show_nat n
           @ '' accounts but all decode failed)'') accounts))"

definition find_by_mint :: "rpc_node \<Rightarrow> (nat \<Rightarrow> string) \<Rightarrow> pubkey \<Rightarrow> (pubkey \<times> Pool) rpc_call" where
  "find_by_mint R show_nat mint =
    sbind (if_let_ok (find_by_base_mint R show_nat mint)) (\<lambda>base.
    case base of
      Some r \<Rightarrow> sret r
    | None \<Rightarrow> sbind (if_let_ok (find_by_quote_mint R show_nat mint)) (\<lambda>quote.
        case quote of
          Some r \<Rightarrow> sret r
        | None \<Rightarrow> slift (Err (''No pool found for mint '' @ rn_show_key R mint))))"

definition find_pool :: "rpc_node \<Rightarrow> (nat \<Rightarrow> string) \<Rightarrow> pubkey \<Rightarrow> pubkey rpc_call" where
  "find_pool R show_nat mint = sbind (find_by_mint R show_nat mint) (\<lambda>(pool_address, _). sret pool_address)"

definition get_token_balances :: "Pool \<Rightarrow> rpc_node \<Rightarrow> (u64 \<times> u64) rpc_call" where
  "get_token_balances pool R =
    sbind (ask (\<lambda>t. rn_token_balance R t (pool_base_token_account pool))) (\<lambda>base_balance.
    sbind (ask (\<lambda>t. rn_token_balance R t (pool_quote_token_account pool))) (\<lambda>quote_balance.
    sbind (slift (map_err int_error_text (parse_u64 base_balance))) (\<lambda>base_amount.
    sbind (slift (map_err int_error_text (parse_u64 quote_balance))) (\<lambda>quote_amount.
    sret (base_amount, quote_amount)))))"

definition token_program_of :: "pubkey \<Rightarrow> pubkey \<Rightarrow> pubkey" where
  "token_program_of account ata = (if account = ata then TOKEN_PROGRAM else TOKEN_PROGRAM_2022)"

definition from_pool_address_by_rpc :: "extern \<Rightarrow> rpc_node \<Rightarrow> pubkey \<Rightarrow> PumpSwapParams rpc_call" where
  "from_pool_address_by_rpc X R pool_address =
    sbind (fetch_pool R pool_address) (\<lambda>pool_data.
    sbind (get_token_balances pool_data R) (\<lambda>(base_reserves, quote_reserves).
    let creator = pool_coin_creator pool_data
    in sbind (slift (coin_creator_vault_ata X creator (pool_quote_mint pool_data))) (\<lambda>vault_ata.
       sbind (slift (coin_creator_vault_authority X creator)) (\<lambda>vault_authority.
       sbind (slift (get_associated_token_address_with_program_id X pool_address (pool_base_mint pool_data)
                TOKEN_PROGRAM)) (\<lambda>base_token_program_ata.
       sbind (slift (get_associated_token_address_with_program_id X pool_address (pool_quote_mint pool_data)
                TOKEN_PROGRAM)) (\<lambda>quote_token_program_ata.
       sret \<lparr> ps_pool = pool_address, ps_base_mint = pool_base_mint pool_data, ps_quote_mint = pool_quote_mint pool_data,
         ps_pool_base_token_account = pool_base_token_account pool_data,
         ps_pool_quote_token_account = pool_quote_token_account pool_data,
         ps_pool_base_token_reserves = base_reserves, ps_pool_quote_token_reserves = quote_reserves,
         ps_coin_creator_vault_ata = vault_ata, ps_coin_creator_vault_authority = vault_authority,
         ps_base_token_program = token_program_of (pool_base_token_account pool_data) base_token_program_ata,
         ps_quote_token_program = token_program_of (pool_quote_token_account pool_data) quote_token_program_ata,
         ps_is_mayhem_mode = pool_is_mayhem_mode pool_data, ps_is_cashback_coin = pool_is_cashback_coin pool_data \<rparr>))))))"

definition err_no_pool :: string where "err_no_pool = ''No pool found for mint''"

definition ps_from_mint_by_rpc :: "extern \<Rightarrow> rpc_node \<Rightarrow> (nat \<Rightarrow> string) \<Rightarrow> pubkey \<Rightarrow> PumpSwapParams rpc_call" where
  "ps_from_mint_by_rpc X R show_nat mint =
    sbind (if_let_ok (find_by_base_mint R show_nat mint)) (\<lambda>base.
    case base of
      Some (pool_address, _) \<Rightarrow> from_pool_address_by_rpc X R pool_address
    | None \<Rightarrow> sbind (if_let_ok (find_by_quote_mint R show_nat mint)) (\<lambda>quote.
        case quote of
          Some (pool_address, _) \<Rightarrow> from_pool_address_by_rpc X R pool_address
        | None \<Rightarrow> slift (Err err_no_pool)))"

section \<open>Lemmas\<close>

lemma ask_run [simp]: "ask f s = (of_sum (f (rs_clock s)), s \<lparr> rs_clock := Suc (rs_clock s) \<rparr>)"
  by (simp add: ask_def)

lemma ask_ok_run [simp]: "ask_ok f s = (Ok (case f (rs_clock s) of Inl _ \<Rightarrow> False | Inr _ \<Rightarrow> True),
    s \<lparr> rs_clock := Suc (rs_clock s) \<rparr>)"
  by (simp add: ask_ok_def)

lemma of_sum_Ok_iff [simp]: "of_sum x = Ok y \<longleftrightarrow> x = Inr y"
  by (cases x) simp_all

lemma sbind_ask: "sbind (ask f) g s =
    (case f (rs_clock s) of Inl e \<Rightarrow> (Err e, s \<lparr> rs_clock := Suc (rs_clock s) \<rparr>)
     | Inr x \<Rightarrow> g x (s \<lparr> rs_clock := Suc (rs_clock s) \<rparr>))"
  by (simp add: sbind_def split: sum.split)

lemma sbind_slift: "sbind (slift r) f =
    (case r of Ok x \<Rightarrow> f x | Err e \<Rightarrow> slift (Err e) | Panic \<Rightarrow> slift Panic)"
  by (cases r) (simp_all add: run_simps)

lemma sign_alone_cases [simp]: "sign_alone payer [ix] = (if ix_signers ix \<subseteq> {payer} then Ok () else Panic)"
  by (simp add: sign_alone_def)

text \<open>A parsed number is the value of its digits.\<close>

lemma parse_digits_value:
  "parse_digits acc cs = Ok n \<Longrightarrow> acc < 2 ^ 64 \<Longrightarrow>
    (\<forall>c \<in> set cs. digit_of c \<noteq> None) \<and> unat n = foldl (\<lambda>v c. v * 10 + the (digit_of c)) acc cs"
proof (induction acc cs rule: parse_digits.induct)
  case (1 acc)
  then show ?case by (auto simp: unsigned_of_nat take_bit_nat_eq_self)
next
  case (2 acc c cs)
  then obtain d where d: "digit_of c = Some d" "acc * 10 + d < 2 ^ 64" "parse_digits (acc * 10 + d) cs = Ok n"
    by (auto split: option.splits if_splits)
  from 2(1) [OF d(1,2,3,2)] show ?case using d(1) by simp
qed

lemma decoded_pools_set:
  "set (decoded_pools accounts) = {(addr, pool). \<exists>acc. (addr, acc) \<in> set accounts
      \<and> 8 < length (ac_data acc) \<and> pool_decode (drop 8 (ac_data acc)) = Some pool}"
  by (force simp: decoded_pools_def map_filter_def split: option.splits if_splits)

lemma largest_pool_max:
  assumes "pools \<noteq> []"
  shows "largest_pool pools \<in> set pools"
    and "\<And>a p. (a, p) \<in> set pools \<Longrightarrow> lp_supply p \<le> lp_supply (snd (largest_pool pools))"
proof -
  let ?key = "\<lambda>(addr :: pubkey, pool). - uint (lp_supply pool)"
  let ?s = "sort_key ?key pools"
  have ne: "?s \<noteq> []" using assms by (metis set_empty set_sort)
  then show "largest_pool pools \<in> set pools"
    unfolding largest_pool_def by (metis hd_in_set set_sort)
  have "sorted (map ?key ?s)" by simp
  then have min: "?key (hd ?s) \<le> ?key x" if "x \<in> set ?s" for x
    using ne that by (cases ?s) auto
  show "lp_supply p \<le> lp_supply (snd (largest_pool pools))" if "(a, p) \<in> set pools" for a p
    using min [of "(a, p)"] that
    by (cases "hd ?s") (simp add: largest_pool_def word_le_def)
qed

lemma select_pool_Ok:
  assumes "select_pool e1 e2 accounts = Ok (addr, pool)"
  shows "(addr, pool) \<in> set (decoded_pools accounts)"
    and "\<forall>(a, p) \<in> set (decoded_pools accounts). lp_supply p \<le> lp_supply pool"
proof -
  have "decoded_pools accounts \<noteq> []" "largest_pool (decoded_pools accounts) = (addr, pool)"
    using assms by (auto simp: select_pool_def Let_def split: if_splits)
  then show "(addr, pool) \<in> set (decoded_pools accounts)"
    "\<forall>(a, p) \<in> set (decoded_pools accounts). lp_supply p \<le> lp_supply pool"
    using largest_pool_max [of "decoded_pools accounts"] by auto
qed

text \<open>What the node's filter promises: every account of an answer holds the asked bytes at the
  asked offset.\<close>

definition memcmp_filter :: "rpc_node \<Rightarrow> bool" where
  "memcmp_filter R \<longleftrightarrow> (\<forall>t program off bs accounts addr acc.
     rn_program_accounts R t program off bs = Inr accounts \<longrightarrow> (addr, acc) \<in> set accounts \<longrightarrow>
       take (length bs) (drop off (ac_data acc)) = bs)"

lemma filtered_mints:
  assumes "memcmp_filter R" "rn_program_accounts R t AMM_PROGRAM off (pk_bytes mint) = Inr accounts"
    and "(addr, pool) \<in> set (decoded_pools accounts)"
  shows "off = BASE_MINT_OFFSET \<Longrightarrow> pool_base_mint pool = mint"
    and "off = QUOTE_MINT_OFFSET \<Longrightarrow> pool_quote_mint pool = mint"
proof -
  from assms(3) obtain acc where acc: "(addr, acc) \<in> set accounts" "pool_decode (drop 8 (ac_data acc)) = Some pool"
    by (auto simp: decoded_pools_set)
  have "take 32 (drop off (ac_data acc)) = pk_bytes mint"
    using assms(1,2) acc(1) unfolding memcmp_filter_def by (metis length_pk_bytes)
  then show "off = BASE_MINT_OFFSET \<Longrightarrow> pool_base_mint pool = mint"
    "off = QUOTE_MINT_OFFSET \<Longrightarrow> pool_quote_mint pool = mint"
    using pool_mint_bytes [OF acc(2)] by (simp_all add: BASE_MINT_OFFSET_def QUOTE_MINT_OFFSET_def)
qed

lemma find_base_Ok:
  assumes "find_by_base_mint R sn mint s = (Ok (addr, pool), s')"
  shows "\<exists>accounts. rn_program_accounts R (rs_clock s) AMM_PROGRAM BASE_MINT_OFFSET (pk_bytes mint) = Inr accounts
    \<and> (addr, pool) \<in> set (decoded_pools accounts)
    \<and> (\<forall>(a, p) \<in> set (decoded_pools accounts). lp_supply p \<le> lp_supply pool)"
  using assms select_pool_Ok by (fastforce simp: find_by_base_mint_def sbind_ask split: sum.splits)

lemma find_quote_Ok:
  assumes "find_by_quote_mint R sn mint s = (Ok (addr, pool), s')"
  shows "\<exists>accounts. rn_program_accounts R (rs_clock s) AMM_PROGRAM QUOTE_MINT_OFFSET (pk_bytes mint) = Inr accounts
    \<and> (addr, pool) \<in> set (decoded_pools accounts)
    \<and> (\<forall>(a, p) \<in> set (decoded_pools accounts). lp_supply p \<le> lp_supply pool)"
  using assms select_pool_Ok by (fastforce simp: find_by_quote_mint_def sbind_ask split: sum.splits)

lemma if_let_ok_Some:
  "if_let_ok m s = (Ok (Some x), s') \<longleftrightarrow> m s = (Ok x, s')"
  by (auto simp: if_let_ok_def split: prod.splits outcome.splits)

lemma find_by_mint_Ok:
  assumes "fst (find_by_mint R sn mint s) = Ok (addr, pool)"
  shows "(\<exists>s'. find_by_base_mint R sn mint s = (Ok (addr, pool), s'))
    \<or> (\<exists>s0 s'. find_by_quote_mint R sn mint s0 = (Ok (addr, pool), s'))"
proof -
  obtain b s0 where base: "if_let_ok (find_by_base_mint R sn mint) s = (b, s0)" by fastforce
  show ?thesis
  proof (cases b)
    case (Ok r)
    show ?thesis
    proof (cases r)
      case (Some x)
      then have "find_by_base_mint R sn mint s = (Ok x, s0)" using base Ok by (simp add: if_let_ok_Some)
      moreover have "x = (addr, pool)" using base Ok Some assms by (simp add: find_by_mint_def sbind_run)
      ultimately show ?thesis by blast
    next
      case None
      obtain q s1 where quote: "if_let_ok (find_by_quote_mint R sn mint) s0 = (q, s1)" by fastforce
      then have "q = Ok (Some (addr, pool))"
        using assms base Ok None by (auto simp: find_by_mint_def sbind_run split: outcome.splits option.splits)
      then show ?thesis using quote by (auto simp: if_let_ok_Some)
    qed
  qed (use assms base in \<open>simp_all add: find_by_mint_def sbind_run\<close>)
qed

section \<open>Properties\<close>

text \<open>C16 (safety): the pool that is found trades the mint. When the node filters accounts as it
  promises, a pool that \<open>find_by_mint\<close> returns has the mint as its base or as its quote: the two
  filter offsets are where the decoder reads these keys. It is decoded from an account of one answer,
  and no pool decoded from that answer has a larger supply of liquidity tokens.\<close>

theorem found_pool_trades:
  assumes "memcmp_filter R" "fst (find_by_mint R show_nat mint s) = Ok (addr, pool)"
  shows "(pool_base_mint pool = mint \<or> pool_quote_mint pool = mint)
    \<and> (\<exists>t off accounts acc. rn_program_accounts R t AMM_PROGRAM off (pk_bytes mint) = Inr accounts
        \<and> (addr, acc) \<in> set accounts \<and> pool_decode (drop 8 (ac_data acc)) = Some pool
        \<and> (\<forall>(a, p) \<in> set (decoded_pools accounts). lp_supply p \<le> lp_supply pool))"
  using find_by_mint_Ok [OF assms(2)]
proof (elim disjE exE)
  fix s'
  assume "find_by_base_mint R show_nat mint s = (Ok (addr, pool), s')"
  from find_base_Ok [OF this] obtain accounts t where
    a: "rn_program_accounts R t AMM_PROGRAM BASE_MINT_OFFSET (pk_bytes mint) = Inr accounts"
      "(addr, pool) \<in> set (decoded_pools accounts)"
      "\<forall>(a, p) \<in> set (decoded_pools accounts). lp_supply p \<le> lp_supply pool" by blast
  then show ?thesis
    using filtered_mints(1) [OF assms(1) a(1,2) refl] by (auto simp: decoded_pools_set)
next
  fix s0 s'
  assume "find_by_quote_mint R show_nat mint s0 = (Ok (addr, pool), s')"
  from find_quote_Ok [OF this] obtain accounts t where
    a: "rn_program_accounts R t AMM_PROGRAM QUOTE_MINT_OFFSET (pk_bytes mint) = Inr accounts"
      "(addr, pool) \<in> set (decoded_pools accounts)"
      "\<forall>(a, p) \<in> set (decoded_pools accounts). lp_supply p \<le> lp_supply pool" by blast
  then show ?thesis
    using filtered_mints(2) [OF assms(1) a(1,2) refl] by (auto simp: decoded_pools_set)
qed

definition sample_pool :: Pool where
  "sample_pool = \<lparr> pool_bump = 255, pool_index = 0, pool_creator = 11, pool_base_mint = 12, pool_quote_mint = 13,
     pool_lp_mint = 14, pool_base_token_account = 15, pool_quote_token_account = 16, lp_supply = 1000,
     pool_coin_creator = 17, pool_is_mayhem_mode = False, pool_is_cashback_coin = True \<rparr>"

definition sample_account :: account where
  "sample_account = \<lparr> ac_owner = AMM_PROGRAM, ac_data = replicate 8 0 @ pool_bytes sample_pool \<rparr>"

definition sample_node :: rpc_node where
  "sample_node = \<lparr> rn_account = (\<lambda>t a. Inr sample_account), rn_balance = (\<lambda>t a. Inr 5000),
     rn_token_balance = (\<lambda>t a. Inr ''900''),
     rn_program_accounts = (\<lambda>t program off bs. if take (length bs) (drop off (ac_data sample_account)) = bs
        then Inr [(7, sample_account)] else Inl ''none''),
     rn_blockhash = (\<lambda>t. Inr 1), rn_send_confirm = (\<lambda>t payer ixs h. Inr ''sig''), rn_in_time = (\<lambda>t. True),
     rn_show_key = (\<lambda>k. []) \<rparr>"

definition fresh_rpc :: rpc_state where
  "fresh_rpc = \<lparr> rs_caches = empty_caches, rs_clock = 0 \<rparr>"

lemma sample_filter: "memcmp_filter sample_node"
  by (auto simp: memcmp_filter_def sample_node_def split: if_splits)

lemma sample_pool_found:
  "fst (find_by_mint sample_node (\<lambda>_. []) 12 fresh_rpc) = Ok (7, sample_pool)"
proof -
  have dec: "pool_decode (pool_bytes sample_pool) = Some sample_pool"
    using pool_bytes_length [of sample_pool] by (simp add: pool_decode_iff)
  have long: "8 < length (ac_data sample_account)"
    using pool_bytes_length [of sample_pool] by (simp add: sample_account_def POOL_SIZE_def)
  have "drop 8 (ac_data sample_account) = pool_bytes sample_pool" by (simp add: sample_account_def)
  then have pools: "decoded_pools [(7, sample_account)] = [(7, sample_pool)]"
    using dec long by (simp add: decoded_pools_def map_filter_def)
  have "take 32 (drop 43 (ac_data sample_account)) = pk_bytes 12"
    using pool_mint_bytes(1) [OF dec] by (simp add: sample_account_def sample_pool_def drop_append)
  then have "rn_program_accounts sample_node t AMM_PROGRAM BASE_MINT_OFFSET (pk_bytes 12) = Inr [(7, sample_account)]" for t
    by (simp add: sample_node_def BASE_MINT_OFFSET_def)
  then show ?thesis
    using pools by (simp add: find_by_mint_def find_by_base_mint_def sbind_run if_let_ok_def sbind_ask
        select_pool_def largest_pool_def)
qed

theorem found_pool_trades_witness:
  "\<exists>pool. fst (find_by_mint sample_node (\<lambda>_. []) 12 fresh_rpc) = Ok (7, pool) \<and> (pool_base_mint pool = 12 \<or> pool_quote_mint pool = 12)"
  using found_pool_trades [OF sample_filter sample_pool_found] sample_pool_found by blast

text \<open>When a transfer succeeds. A transfer of lamports succeeds exactly when the
  amount is not zero, the node says that the payer has at least that amount, and it then gives a
  blockhash and accepts a transaction, signed by the payer alone, of the single transfer
  instruction. A zero amount is refused before any question to the node, and too small a balance
  after the first one, without sending anything.\<close>

theorem transfer_sol_cases:
  "(fst (transfer_sol X R payer to amount s) = Ok () \<longleftrightarrow>
     amount \<noteq> 0 \<and> (\<exists>balance h sig. rn_balance R (rs_clock s) payer = Inr balance \<and> amount \<le> balance
       \<and> rn_blockhash R (Suc (rs_clock s)) = Inr h \<and> ix_signers (x_system_transfer X payer to amount) \<subseteq> {payer}
       \<and> rn_send_confirm R (Suc (Suc (rs_clock s))) payer [x_system_transfer X payer to amount] h = Inr sig))
   \<and> transfer_sol X R payer to 0 s = (Err err_zero_transfer, s)
   \<and> (\<forall>b < amount. rn_balance R (rs_clock s) payer = Inr b \<longrightarrow>
        transfer_sol X R payer to amount s = (Err err_insufficient, s \<lparr> rs_clock := Suc (rs_clock s) \<rparr>))"
  by (auto simp: transfer_sol_def get_sol_balance_def sbind_ask send_signed_def sbind_assoc sbind_slift
      Let_def not_less split: sum.splits if_splits)

theorem transfer_sol_cases_witness:
  "fst (transfer_sol sample_extern sample_node 5 6 900 fresh_rpc) = Ok ()
   \<and> fst (transfer_sol sample_extern sample_node 5 6 9000 fresh_rpc) = Err err_insufficient"
proof
  have "ix_signers (x_system_transfer sample_extern 5 6 900) \<subseteq> {5}"
    by (simp add: sample_extern_def ix_signers_def)
  then show "fst (transfer_sol sample_extern sample_node 5 6 900 fresh_rpc) = Ok ()"
    using transfer_sol_cases [of sample_extern sample_node 5 6 900 fresh_rpc]
    by (auto simp: sample_node_def fresh_rpc_def)
  show "fst (transfer_sol sample_extern sample_node 5 6 9000 fresh_rpc) = Err err_insufficient"
    using transfer_sol_cases [of sample_extern sample_node 5 6 9000 fresh_rpc]
    by (simp add: sample_node_def fresh_rpc_def)
qed

text \<open>An account that is too short stops the program. Reading a pool that belongs to the
  AMM program, or a bonding curve that is not empty, panics when the account has fewer than eight bytes,
  because the discriminator is cut off without a check; a pool search ignores such accounts.\<close>

theorem short_accounts_panic:
  assumes "length (ac_data acc) < 8"
  shows "(rn_account R (rs_clock s) addr = Inr acc \<and> ac_owner acc = AMM_PROGRAM \<longrightarrow> fst (fetch_pool R addr s) = Panic)
    \<and> (fst (get_bonding_curve_pda X mint (rs_caches s)) = Some pda \<and> rn_account R (rs_clock s) pda = Inr acc
        \<and> ac_data acc \<noteq> [] \<longrightarrow> fst (fetch_bonding_curve_account X R de mint s) = Panic)
    \<and> decoded_pools (xs @ (a, acc) # ys) = decoded_pools (xs @ ys)"
  using assms
  by (cases "get_bonding_curve_pda X mint (rs_caches s)")
    (auto simp: fetch_pool_def fetch_bonding_curve_account_def sbind_ask slice_from_def sbind_run
      on_caches_def ok_or_pda_def decoded_pools_def map_filter_def)

theorem short_accounts_panic_witness:
  "fst (fetch_pool (sample_node \<lparr> rn_account := \<lambda>t a. Inr \<lparr> ac_owner = AMM_PROGRAM, ac_data = [1, 2] \<rparr> \<rparr>) 7 fresh_rpc) = Panic"
  using short_accounts_panic [of "\<lparr> ac_owner = AMM_PROGRAM, ac_data = [1, 2] \<rparr>"] by simp

end
