(* ===== verification/Client.thy ===== *)
theory Client
  imports Executor Rpc_Fetch
begin

text \<open>
  The client a program uses, \<open>src/lib.rs\<close>, with its configuration \<open>src/common/types.rs\<close>: the typed
  requests for PumpFun and PumpSwap, the trading client with \<open>buy\<close>, \<open>sell\<close> and \<open>sell_by_percent\<close>, its
  wallet operations, and its start-up. A trade runs in the world of the executor; a wallet
  operation asks the RPC node. A keypair is its public key, and an error message of \<open>anyhow\<close> is
  its text.
\<close>

section \<open>Configuration\<close>

datatype CommitmentLevel = ProcessedLevel | ConfirmedLevel | FinalizedLevel

record InfrastructureConfig =
  ic_rpc_url :: string
  ic_swqos_configs :: "SwqosConfig list"
  ic_commitment :: CommitmentLevel

record TradeConfig =
  cf_rpc_url :: string
  cf_swqos_configs :: "SwqosConfig list"
  cf_commitment :: CommitmentLevel
  cf_create_wsol_ata_on_startup :: bool
  cf_use_seed_optimize :: bool
  cf_use_core_affinity :: bool
  cf_log_enabled :: bool
  cf_check_min_tip :: bool

definition infrastructure_config_new :: "string \<Rightarrow> SwqosConfig list \<Rightarrow> CommitmentLevel \<Rightarrow> InfrastructureConfig" where
  "infrastructure_config_new rpc_url swqos_configs commitment =
    \<lparr> ic_rpc_url = rpc_url, ic_swqos_configs = swqos_configs, ic_commitment = commitment \<rparr>"

definition from_trade_config :: "TradeConfig \<Rightarrow> InfrastructureConfig" where
  "from_trade_config config =
    \<lparr> ic_rpc_url = cf_rpc_url config, ic_swqos_configs = cf_swqos_configs config, ic_commitment = cf_commitment config \<rparr>"

definition config_eq :: "InfrastructureConfig \<Rightarrow> InfrastructureConfig \<Rightarrow> bool" where
  "config_eq self other =
    (ic_rpc_url self = ic_rpc_url other \<and> ic_swqos_configs self = ic_swqos_configs other
     \<and> ic_commitment self = ic_commitment other)"

text \<open>The hasher of the standard library is a function of what is written into it; \<open>{:x}\<close> prints its
  value without leading zeros.\<close>

type_synonym config_hasher = "string \<Rightarrow> SwqosConfig list \<Rightarrow> string \<Rightarrow> u64"

fun debug_commitment :: "CommitmentLevel \<Rightarrow> string" where
  "debug_commitment ProcessedLevel = ''CommitmentConfig { commitment: Processed }''"
| "debug_commitment ConfirmedLevel = ''CommitmentConfig { commitment: Confirmed }''"
| "debug_commitment FinalizedLevel = ''CommitmentConfig { commitment: Finalized }''"

definition config_hash :: "config_hasher \<Rightarrow> InfrastructureConfig \<Rightarrow> u64" where
  "config_hash H c = H (ic_rpc_url c) (ic_swqos_configs c) (debug_commitment (ic_commitment c))"

definition lower_hex :: "u64 \<Rightarrow> string" where
  "lower_hex w =
    (let ds = dropWhile (\<lambda>d. d = 0) (rev (map (\<lambda>i. unat (and (drop_bit (4 * i) w) 15)) [0..<16]))
     in if ds = [] then ''0'' else map (\<lambda>d. char_of (if d < 10 then 48 + d else 87 + d)) ds)"

definition cache_key :: "config_hasher \<Rightarrow> InfrastructureConfig \<Rightarrow> string" where
  "cache_key H c = lower_hex (config_hash H c)"

definition trade_config_new :: "string \<Rightarrow> SwqosConfig list \<Rightarrow> CommitmentLevel \<Rightarrow> TradeConfig" where
  "trade_config_new rpc_url swqos_configs commitment =
    \<lparr> cf_rpc_url = rpc_url, cf_swqos_configs = swqos_configs, cf_commitment = commitment,
      cf_create_wsol_ata_on_startup = True, cf_use_seed_optimize = True, cf_use_core_affinity = True,
      cf_log_enabled = True, cf_check_min_tip = False \<rparr>"

definition with_wsol_ata_config :: "TradeConfig \<Rightarrow> bool \<Rightarrow> bool \<Rightarrow> TradeConfig" where
  "with_wsol_ata_config self create_wsol_ata_on_startup use_seed_optimize =
    self \<lparr> cf_create_wsol_ata_on_startup := create_wsol_ata_on_startup, cf_use_seed_optimize := use_seed_optimize \<rparr>"

definition with_check_min_tip :: "TradeConfig \<Rightarrow> bool \<Rightarrow> TradeConfig" where
  "with_check_min_tip self check_min_tip = self \<lparr> cf_check_min_tip := check_min_tip \<rparr>"

section \<open>Trade parameters\<close>

datatype TradeTokenType = TokenSOL | TokenWSOL | TokenUSD1 | TokenUSDC

record TradeBuyParams =
  tb_dex_type :: DexType
  tb_input_token_type :: TradeTokenType
  tb_mint :: pubkey
  tb_input_token_amount :: u64
  tb_slippage_basis_points :: "u64 option"
  tb_recent_blockhash :: "hash option"
  tb_extension_params :: DexParamEnum
  tb_lookup_table :: "lookup_table option"
  tb_wait_transaction_confirmed :: bool
  tb_create_input_token_ata :: bool
  tb_close_input_token_ata :: bool
  tb_create_mint_ata :: bool
  tb_durable_nonce :: "DurableNonceInfo option"
  tb_fixed_output_token_amount :: "u64 option"
  tb_gas_fee_strategy :: gas_map
  tb_simulate :: bool
  tb_use_exact_sol_amount :: "bool option"
  tb_grpc_recv_us :: "int option"

record TradeSellParams =
  ts_dex_type :: DexType
  ts_output_token_type :: TradeTokenType
  ts_mint :: pubkey
  ts_input_token_amount :: u64
  ts_slippage_basis_points :: "u64 option"
  ts_recent_blockhash :: "hash option"
  ts_with_tip :: bool
  ts_extension_params :: DexParamEnum
  ts_lookup_table :: "lookup_table option"
  ts_wait_transaction_confirmed :: bool
  ts_create_output_token_ata :: bool
  ts_close_output_token_ata :: bool
  ts_close_mint_token_ata :: bool
  ts_durable_nonce :: "DurableNonceInfo option"
  ts_fixed_output_token_amount :: "u64 option"
  ts_gas_fee_strategy :: gas_map
  ts_simulate :: bool
  ts_grpc_recv_us :: "int option"

section \<open>Typed requests\<close>

record PumpFunMarket =
  pfm_inner :: PumpFunParams

record PumpSwapMarket =
  psm_inner :: PumpSwapParams

definition pf_market_new :: "PumpFunParams \<Rightarrow> PumpFunMarket" where
  "pf_market_new inner = \<lparr> pfm_inner = inner \<rparr>"

definition ps_market_new :: "PumpSwapParams \<Rightarrow> PumpSwapMarket" where
  "ps_market_new inner = \<lparr> psm_inner = inner \<rparr>"

definition pf_market_from_trade ::
  "extern \<Rightarrow> pubkey \<Rightarrow> pubkey \<Rightarrow> pubkey \<Rightarrow> pubkey \<Rightarrow> pubkey \<Rightarrow> u64 \<Rightarrow> u64 \<Rightarrow> u64 \<Rightarrow> u64 \<Rightarrow> bool option
    \<Rightarrow> pubkey \<Rightarrow> pubkey \<Rightarrow> bool \<Rightarrow> PumpFunMarket cached" where
  "pf_market_from_trade X bonding_curve associated_bonding_curve mint creator creator_vault vtr vsr rtr rsr
      close_when_sell fee_recipient token_program is_cashback_coin =
    sbind (pf_from_trade X bonding_curve associated_bonding_curve mint creator creator_vault vtr vsr rtr rsr
      close_when_sell fee_recipient token_program is_cashback_coin) (\<lambda>p. sret (pf_market_new p))"

definition pf_market_immediate_sell :: "pubkey \<Rightarrow> pubkey \<Rightarrow> bool \<Rightarrow> PumpFunMarket" where
  "pf_market_immediate_sell creator_vault token_program close_token_account_when_sell =
    pf_market_new (immediate_sell creator_vault token_program close_token_account_when_sell)"

definition ps_market_from_trade ::
  "pubkey \<Rightarrow> pubkey \<Rightarrow> pubkey \<Rightarrow> pubkey \<Rightarrow> pubkey \<Rightarrow> u64 \<Rightarrow> u64 \<Rightarrow> pubkey \<Rightarrow> pubkey \<Rightarrow> pubkey \<Rightarrow> pubkey
    \<Rightarrow> pubkey \<Rightarrow> bool \<Rightarrow> PumpSwapMarket" where
  "ps_market_from_trade pool base_mint quote_mint base_account quote_account base_reserves quote_reserves
      vault_ata vault_authority base_program quote_program fee_recipient is_cashback_coin =
    ps_market_new (ps_from_trade pool base_mint quote_mint base_account quote_account base_reserves
      quote_reserves vault_ata vault_authority base_program quote_program fee_recipient is_cashback_coin)"

record PumpFunBuyRequest =
  fb_mint :: pubkey
  fb_sol_amount :: u64
  fb_market :: PumpFunMarket
  fb_gas_fee_strategy :: gas_map
  fb_slippage_basis_points :: "u64 option"
  fb_recent_blockhash :: "hash option"
  fb_lookup_table :: "lookup_table option"
  fb_wait_transaction_confirmed :: bool
  fb_create_input_token_ata :: bool
  fb_close_input_token_ata :: bool
  fb_create_mint_ata :: bool
  fb_durable_nonce :: "DurableNonceInfo option"
  fb_fixed_output_token_amount :: "u64 option"
  fb_simulate :: bool
  fb_use_exact_sol_amount :: "bool option"
  fb_grpc_recv_us :: "int option"

definition pf_buy_request_new :: "pubkey \<Rightarrow> u64 \<Rightarrow> PumpFunMarket \<Rightarrow> gas_map \<Rightarrow> PumpFunBuyRequest" where
  "pf_buy_request_new mint sol_amount market gas_fee_strategy =
    \<lparr> fb_mint = mint, fb_sol_amount = sol_amount, fb_market = market, fb_gas_fee_strategy = gas_fee_strategy,
      fb_slippage_basis_points = Some 100, fb_recent_blockhash = None, fb_lookup_table = None,
      fb_wait_transaction_confirmed = False, fb_create_input_token_ata = False, fb_close_input_token_ata = False,
      fb_create_mint_ata = True, fb_durable_nonce = None, fb_fixed_output_token_amount = None, fb_simulate = False,
      fb_use_exact_sol_amount = None, fb_grpc_recv_us = None \<rparr>"

definition pf_into_trade_buy_params :: "PumpFunBuyRequest \<Rightarrow> TradeBuyParams" where
  "pf_into_trade_buy_params self =
    \<lparr> tb_dex_type = DexTypePumpFun, tb_input_token_type = TokenSOL, tb_mint = fb_mint self,
      tb_input_token_amount = fb_sol_amount self, tb_slippage_basis_points = fb_slippage_basis_points self,
      tb_recent_blockhash = fb_recent_blockhash self,
      tb_extension_params = DexPumpFun (pfm_inner (fb_market self)), tb_lookup_table = fb_lookup_table self,
      tb_wait_transaction_confirmed = fb_wait_transaction_confirmed self,
      tb_create_input_token_ata = fb_create_input_token_ata self,
      tb_close_input_token_ata = fb_close_input_token_ata self, tb_create_mint_ata = fb_create_mint_ata self,
      tb_durable_nonce = fb_durable_nonce self, tb_fixed_output_token_amount = fb_fixed_output_token_amount self,
      tb_gas_fee_strategy = fb_gas_fee_strategy self, tb_simulate = fb_simulate self,
      tb_use_exact_sol_amount = fb_use_exact_sol_amount self, tb_grpc_recv_us = fb_grpc_recv_us self \<rparr>"

record PumpFunSellRequest =
  fs_mint :: pubkey
  fs_token_amount :: u64
  fs_market :: PumpFunMarket
  fs_gas_fee_strategy :: gas_map
  fs_slippage_basis_points :: "u64 option"
  fs_recent_blockhash :: "hash option"
  fs_with_tip :: bool
  fs_lookup_table :: "lookup_table option"
  fs_wait_transaction_confirmed :: bool
  fs_create_output_token_ata :: bool
  fs_close_output_token_ata :: bool
  fs_close_mint_token_ata :: bool
  fs_durable_nonce :: "DurableNonceInfo option"
  fs_fixed_output_token_amount :: "u64 option"
  fs_simulate :: bool
  fs_grpc_recv_us :: "int option"

definition pf_sell_request_new :: "pubkey \<Rightarrow> u64 \<Rightarrow> PumpFunMarket \<Rightarrow> gas_map \<Rightarrow> PumpFunSellRequest" where
  "pf_sell_request_new mint token_amount market gas_fee_strategy =
    \<lparr> fs_mint = mint, fs_token_amount = token_amount, fs_market = market, fs_gas_fee_strategy = gas_fee_strategy,
      fs_slippage_basis_points = Some 100, fs_recent_blockhash = None, fs_with_tip = False, fs_lookup_table = None,
      fs_wait_transaction_confirmed = False, fs_create_output_token_ata = False, fs_close_output_token_ata = False,
      fs_close_mint_token_ata = True, fs_durable_nonce = None, fs_fixed_output_token_amount = None,
      fs_simulate = False, fs_grpc_recv_us = None \<rparr>"

definition pf_into_trade_sell_params :: "PumpFunSellRequest \<Rightarrow> TradeSellParams" where
  "pf_into_trade_sell_params self =
    \<lparr> ts_dex_type = DexTypePumpFun, ts_output_token_type = TokenSOL, ts_mint = fs_mint self,
      ts_input_token_amount = fs_token_amount self, ts_slippage_basis_points = fs_slippage_basis_points self,
      ts_recent_blockhash = fs_recent_blockhash self, ts_with_tip = fs_with_tip self,
      ts_extension_params = DexPumpFun (pfm_inner (fs_market self)), ts_lookup_table = fs_lookup_table self,
      ts_wait_transaction_confirmed = fs_wait_transaction_confirmed self,
      ts_create_output_token_ata = fs_create_output_token_ata self,
      ts_close_output_token_ata = fs_close_output_token_ata self,
      ts_close_mint_token_ata = fs_close_mint_token_ata self, ts_durable_nonce = fs_durable_nonce self,
      ts_fixed_output_token_amount = fs_fixed_output_token_amount self,
      ts_gas_fee_strategy = fs_gas_fee_strategy self, ts_simulate = fs_simulate self,
      ts_grpc_recv_us = fs_grpc_recv_us self \<rparr>"

record PumpSwapBuyRequest =
  sb_mint :: pubkey
  sb_input_token_type :: TradeTokenType
  sb_input_token_amount :: u64
  sb_market :: PumpSwapMarket
  sb_gas_fee_strategy :: gas_map
  sb_slippage_basis_points :: "u64 option"
  sb_recent_blockhash :: "hash option"
  sb_lookup_table :: "lookup_table option"
  sb_wait_transaction_confirmed :: bool
  sb_create_input_token_ata :: bool
  sb_close_input_token_ata :: bool
  sb_create_mint_ata :: bool
  sb_durable_nonce :: "DurableNonceInfo option"
  sb_fixed_output_token_amount :: "u64 option"
  sb_simulate :: bool
  sb_use_exact_sol_amount :: "bool option"
  sb_grpc_recv_us :: "int option"

definition ps_buy_request_new ::
  "pubkey \<Rightarrow> TradeTokenType \<Rightarrow> u64 \<Rightarrow> PumpSwapMarket \<Rightarrow> gas_map \<Rightarrow> PumpSwapBuyRequest" where
  "ps_buy_request_new mint input_token_type input_token_amount market gas_fee_strategy =
    \<lparr> sb_mint = mint, sb_input_token_type = input_token_type, sb_input_token_amount = input_token_amount,
      sb_market = market, sb_gas_fee_strategy = gas_fee_strategy,
      sb_slippage_basis_points = Some 100, sb_recent_blockhash = None, sb_lookup_table = None,
      sb_wait_transaction_confirmed = False, sb_create_input_token_ata = False, sb_close_input_token_ata = False,
      sb_create_mint_ata = True, sb_durable_nonce = None, sb_fixed_output_token_amount = None, sb_simulate = False,
      sb_use_exact_sol_amount = None, sb_grpc_recv_us = None \<rparr>"

definition ps_into_trade_buy_params :: "PumpSwapBuyRequest \<Rightarrow> TradeBuyParams" where
  "ps_into_trade_buy_params self =
    \<lparr> tb_dex_type = DexTypePumpSwap, tb_input_token_type = sb_input_token_type self, tb_mint = sb_mint self,
      tb_input_token_amount = sb_input_token_amount self, tb_slippage_basis_points = sb_slippage_basis_points self,
      tb_recent_blockhash = sb_recent_blockhash self,
      tb_extension_params = DexPumpSwap (psm_inner (sb_market self)), tb_lookup_table = sb_lookup_table self,
      tb_wait_transaction_confirmed = sb_wait_transaction_confirmed self,
      tb_create_input_token_ata = sb_create_input_token_ata self,
      tb_close_input_token_ata = sb_close_input_token_ata self, tb_create_mint_ata = sb_create_mint_ata self,
      tb_durable_nonce = sb_durable_nonce self, tb_fixed_output_token_amount = sb_fixed_output_token_amount self,
      tb_gas_fee_strategy = sb_gas_fee_strategy self, tb_simulate = sb_simulate self,
      tb_use_exact_sol_amount = sb_use_exact_sol_amount self, tb_grpc_recv_us = sb_grpc_recv_us self \<rparr>"

record PumpSwapSellRequest =
  ss_mint :: pubkey
  ss_output_token_type :: TradeTokenType
  ss_token_amount :: u64
  ss_market :: PumpSwapMarket
  ss_gas_fee_strategy :: gas_map
  ss_slippage_basis_points :: "u64 option"
  ss_recent_blockhash :: "hash option"
  ss_with_tip :: bool
  ss_lookup_table :: "lookup_table option"
  ss_wait_transaction_confirmed :: bool
  ss_create_output_token_ata :: bool
  ss_close_output_token_ata :: bool
  ss_close_mint_token_ata :: bool
  ss_durable_nonce :: "DurableNonceInfo option"
  ss_fixed_output_token_amount :: "u64 option"
  ss_simulate :: bool
  ss_grpc_recv_us :: "int option"

definition ps_sell_request_new ::
  "pubkey \<Rightarrow> TradeTokenType \<Rightarrow> u64 \<Rightarrow> PumpSwapMarket \<Rightarrow> gas_map \<Rightarrow> PumpSwapSellRequest" where
  "ps_sell_request_new mint output_token_type token_amount market gas_fee_strategy =
    \<lparr> ss_mint = mint, ss_output_token_type = output_token_type, ss_token_amount = token_amount, ss_market = market,
      ss_gas_fee_strategy = gas_fee_strategy,
      ss_slippage_basis_points = Some 100, ss_recent_blockhash = None, ss_with_tip = False, ss_lookup_table = None,
      ss_wait_transaction_confirmed = False, ss_create_output_token_ata = False, ss_close_output_token_ata = False,
      ss_close_mint_token_ata = True, ss_durable_nonce = None, ss_fixed_output_token_amount = None,
      ss_simulate = False, ss_grpc_recv_us = None \<rparr>"

definition ps_into_trade_sell_params :: "PumpSwapSellRequest \<Rightarrow> TradeSellParams" where
  "ps_into_trade_sell_params self =
    \<lparr> ts_dex_type = DexTypePumpSwap, ts_output_token_type = ss_output_token_type self, ts_mint = ss_mint self,
      ts_input_token_amount = ss_token_amount self, ts_slippage_basis_points = ss_slippage_basis_points self,
      ts_recent_blockhash = ss_recent_blockhash self, ts_with_tip = ss_with_tip self,
      ts_extension_params = DexPumpSwap (psm_inner (ss_market self)), ts_lookup_table = ss_lookup_table self,
      ts_wait_transaction_confirmed = ss_wait_transaction_confirmed self,
      ts_create_output_token_ata = ss_create_output_token_ata self,
      ts_close_output_token_ata = ss_close_output_token_ata self,
      ts_close_mint_token_ata = ss_close_mint_token_ata self, ts_durable_nonce = ss_durable_nonce self,
      ts_fixed_output_token_amount = ss_fixed_output_token_amount self,
      ts_gas_fee_strategy = ss_gas_fee_strategy self, ts_simulate = ss_simulate self,
      ts_grpc_recv_us = ss_grpc_recv_us self \<rparr>"

section \<open>The client\<close>

record TradingInfrastructure =
  ti_swqos_clients :: "swqos_client list"
  ti_config :: InfrastructureConfig

record TradingClient =
  tc_payer :: pubkey
  tc_infrastructure :: TradingInfrastructure
  tc_middleware_manager :: "middleware list option"
  tc_use_seed_optimize :: bool
  tc_use_core_affinity :: bool
  tc_log_enabled :: bool
  tc_check_min_tip :: bool

definition with_middleware_manager :: "TradingClient \<Rightarrow> middleware list \<Rightarrow> TradingClient" where
  "with_middleware_manager self middleware_manager = self \<lparr> tc_middleware_manager := Some middleware_manager \<rparr>"

fun validate_protocol_params :: "DexType \<Rightarrow> DexParamEnum \<Rightarrow> bool" where
  "validate_protocol_params DexTypePumpFun params = (as_pumpfun params \<noteq> None)"
| "validate_protocol_params DexTypePumpSwap params = (as_pumpswap params \<noteq> None)"

definition token_mint :: "TradeTokenType \<Rightarrow> pubkey" where
  "token_mint ty = (if ty = TokenSOL then SOL_TOKEN_ACCOUNT
     else if ty = TokenWSOL then WSOL_TOKEN_ACCOUNT
     else if ty = TokenUSDC then USDC_TOKEN_ACCOUNT else USD1_TOKEN_ACCOUNT)"

type_synonym trade_result = "bool \<times> signature list \<times> TradeError option"

definition err_buy_usd1 :: string where
  "err_buy_usd1 = ''Current version only supports SOL, WSOL, and USDC input for PumpFun/PumpSwap''"
definition err_sell_usd1 :: string where
  "err_sell_usd1 = ''Current version only supports SOL, WSOL, and USDC output for PumpFun/PumpSwap''"
definition err_invalid_params :: string where "err_invalid_params = ''Invalid protocol params for Trade''"
definition err_percent :: string where "err_percent = ''Percentage must be between 1 and 100''"

definition buy_swap_params :: "TradingClient \<Rightarrow> TradeBuyParams \<Rightarrow> SwapParams" where
  "buy_swap_params self params =
    \<lparr> sp_has_rpc = True, sp_payer = tc_payer self, sp_trade_type = Buy,
      sp_input_mint = token_mint (tb_input_token_type params), sp_input_token_program = None,
      sp_output_mint = tb_mint params, sp_output_token_program = None,
      sp_input_amount = Some (tb_input_token_amount params),
      sp_slippage_basis_points = tb_slippage_basis_points params, sp_lookup_table = tb_lookup_table params,
      sp_recent_blockhash = tb_recent_blockhash params,
      sp_wait_transaction_confirmed = tb_wait_transaction_confirmed params,
      sp_protocol_params = tb_extension_params params, sp_open_seed_optimize = tc_use_seed_optimize self,
      sp_swqos_clients = ti_swqos_clients (tc_infrastructure self),
      sp_middleware_manager = tc_middleware_manager self, sp_durable_nonce = tb_durable_nonce params,
      sp_with_tip = True, sp_create_input_mint_ata = tb_create_input_token_ata params,
      sp_close_input_mint_ata = tb_close_input_token_ata params, sp_create_output_mint_ata = tb_create_mint_ata params,
      sp_close_output_mint_ata = False, sp_fixed_output_amount = tb_fixed_output_token_amount params,
      sp_gas_fee_strategy = tb_gas_fee_strategy params, sp_simulate = tb_simulate params,
      sp_log_enabled = tc_log_enabled self, sp_use_core_affinity = tc_use_core_affinity self,
      sp_check_min_tip = tc_check_min_tip self, sp_grpc_recv_us = tb_grpc_recv_us params,
      sp_use_exact_sol_amount = tb_use_exact_sol_amount params \<rparr>"

definition sell_swap_params :: "TradingClient \<Rightarrow> TradeSellParams \<Rightarrow> SwapParams" where
  "sell_swap_params self params =
    \<lparr> sp_has_rpc = True, sp_payer = tc_payer self, sp_trade_type = Sell,
      sp_input_mint = ts_mint params, sp_input_token_program = None,
      sp_output_mint = token_mint (ts_output_token_type params), sp_output_token_program = None,
      sp_input_amount = Some (ts_input_token_amount params),
      sp_slippage_basis_points = ts_slippage_basis_points params, sp_lookup_table = ts_lookup_table params,
      sp_recent_blockhash = ts_recent_blockhash params,
      sp_wait_transaction_confirmed = ts_wait_transaction_confirmed params,
      sp_protocol_params = ts_extension_params params, sp_open_seed_optimize = tc_use_seed_optimize self,
      sp_swqos_clients = ti_swqos_clients (tc_infrastructure self),
      sp_middleware_manager = tc_middleware_manager self, sp_durable_nonce = ts_durable_nonce params,
      sp_with_tip = ts_with_tip params, sp_create_input_mint_ata = False,
      sp_close_input_mint_ata = ts_close_mint_token_ata params,
      sp_create_output_mint_ata = ts_create_output_token_ata params,
      sp_close_output_mint_ata = ts_close_output_token_ata params,
      sp_fixed_output_amount = ts_fixed_output_token_amount params,
      sp_gas_fee_strategy = ts_gas_fee_strategy params, sp_simulate = ts_simulate params,
      sp_log_enabled = tc_log_enabled self, sp_use_core_affinity = tc_use_core_affinity self,
      sp_check_min_tip = tc_check_min_tip self, sp_grpc_recv_us = ts_grpc_recv_us params,
      sp_use_exact_sol_amount = None \<rparr>"

text \<open>The end of \<open>buy\<close> and \<open>sell\<close>: swap, and turn the last error into a \<open>TradeError\<close>.\<close>

definition swap_to_trade :: "world \<Rightarrow> DexType \<Rightarrow> SwapParams \<Rightarrow> (tx_state, trade_result, string) stateful" where
  "swap_to_trade W dex params =
    sbind (swap W (create_executor dex) params) (\<lambda>(success, sigs, err).
      sret (success, sigs, map_option trade_error_from err))"

definition client_buy :: "world \<Rightarrow> TradingClient \<Rightarrow> TradeBuyParams \<Rightarrow> (tx_state, trade_result, string) stateful" where
  "client_buy W self params =
    (if tb_input_token_type params = TokenUSD1 then slift (Err err_buy_usd1)
     else let buy_params = buy_swap_params self params
       in if \<not> validate_protocol_params (tb_dex_type params) (tb_extension_params params)
          then slift (Err err_invalid_params)
          else swap_to_trade W (tb_dex_type params) buy_params)"

definition client_sell :: "world \<Rightarrow> TradingClient \<Rightarrow> TradeSellParams \<Rightarrow> (tx_state, trade_result, string) stateful" where
  "client_sell W self params =
    (if ts_output_token_type params = TokenUSD1 then slift (Err err_sell_usd1)
     else let sell_params = sell_swap_params self params
       in if \<not> validate_protocol_params (ts_dex_type params) (ts_extension_params params)
          then slift (Err err_invalid_params)
          else swap_to_trade W (ts_dex_type params) sell_params)"

definition sell_by_percent ::
  "world \<Rightarrow> TradingClient \<Rightarrow> TradeSellParams \<Rightarrow> u64 \<Rightarrow> u64 \<Rightarrow> (tx_state, trade_result, string) stateful" where
  "sell_by_percent W self params amount_token percent =
    (if percent = 0 \<or> percent > 100 then slift (Err err_percent)
     else let amount = amount_token * percent div 100
       in client_sell W self (params \<lparr> ts_input_token_amount := amount \<rparr>))"

text \<open>\<open>PumpTradeClient\<close> wraps the trading client and takes typed requests.\<close>

record PumpTradeClient =
  pc_inner :: TradingClient

definition buy_pumpfun :: "world \<Rightarrow> PumpTradeClient \<Rightarrow> PumpFunBuyRequest \<Rightarrow> (tx_state, trade_result, string) stateful" where
  "buy_pumpfun W self request = client_buy W (pc_inner self) (pf_into_trade_buy_params request)"

definition sell_pumpfun :: "world \<Rightarrow> PumpTradeClient \<Rightarrow> PumpFunSellRequest \<Rightarrow> (tx_state, trade_result, string) stateful" where
  "sell_pumpfun W self request = client_sell W (pc_inner self) (pf_into_trade_sell_params request)"

definition buy_pumpswap :: "world \<Rightarrow> PumpTradeClient \<Rightarrow> PumpSwapBuyRequest \<Rightarrow> (tx_state, trade_result, string) stateful" where
  "buy_pumpswap W self request = client_buy W (pc_inner self) (ps_into_trade_buy_params request)"

definition sell_pumpswap :: "world \<Rightarrow> PumpTradeClient \<Rightarrow> PumpSwapSellRequest \<Rightarrow> (tx_state, trade_result, string) stateful" where
  "sell_pumpswap W self request = client_sell W (pc_inner self) (ps_into_trade_sell_params request)"

end
