(* ===== verification/Relayed.thy ===== *)
theory Relayed
  imports Client
begin

text \<open>
  What leaves the program: the transactions that a trade hands to the relays, from the typed request
  of \<open>src/lib.rs\<close> through the instruction builder, the transaction builder and the parallel tasks. That
  a trade sends nothing but transactions of a given form is stated as an equivalence: two networks
  that agree on the transactions of this form cannot be told apart by the trade.
\<close>

section \<open>Transactions and networks\<close>

fun msg_instructions :: "VersionedMessage \<Rightarrow> Instruction list" where
  "msg_instructions (Legacy ixs payer h) = ixs"
| "msg_instructions (V0 payer ixs tables h) = ixs"

fun msg_blockhash :: "VersionedMessage \<Rightarrow> hash" where
  "msg_blockhash (Legacy ixs payer h) = h"
| "msg_blockhash (V0 payer ixs tables h) = h"

definition signed_by :: "tx_extern \<Rightarrow> pubkey \<Rightarrow> VersionedTransaction \<Rightarrow> bool" where
  "signed_by T payer tx \<longleftrightarrow> (\<exists>sig. tx_sign T payer (tx_message tx) = Some sig \<and> tx_signatures tx = [sig])"

text \<open>A transaction of the payer whose last instructions are \<open>ixs\<close>.\<close>

definition carries :: "tx_extern \<Rightarrow> pubkey \<Rightarrow> Instruction list \<Rightarrow> VersionedTransaction \<Rightarrow> bool" where
  "carries T payer ixs tx \<longleftrightarrow> signed_by T payer tx \<and> (\<exists>front. msg_instructions (tx_message tx) = front @ ixs)"

definition same_network :: "(VersionedTransaction \<Rightarrow> bool) \<Rightarrow> TradeType \<Rightarrow> send_fn \<Rightarrow> send_fn \<Rightarrow> bool" where
  "same_network P ty f g \<longleftrightarrow> (\<forall>client tx wait. P tx \<longrightarrow> f client ty tx wait = g client ty tx wait)"

section \<open>Every transaction carries the instructions of the swap\<close>

lemma versioned_carries:
  assumes "fst (build_versioned_transaction T payer ixs table h None name buy s) = Ok tx"
  shows "signed_by T payer tx \<and> msg_instructions (tx_message tx) = ixs \<and> msg_blockhash (tx_message tx) = h"
  using assms unfolding versioned_result
  by (auto simp: obind_Ok_iff build_zero_alloc_message signed_by_def split: option.splits if_splits)

lemma build_parts:
  assumes "build_transaction T payer l p ixs table rb None name buy tip acc amt dn s = (Ok tx, s')"
  obtains pre h mid where "add_nonce_instruction (tx_base T) [] payer dn = Ok pre" "get_transaction_blockhash rb dn = Ok h"
    "signed_by T payer tx" "msg_blockhash (tx_message tx) = h" "msg_instructions (tx_message tx) = pre @ mid @ ixs"
proof -
  obtain pre where pre: "add_nonce_instruction (tx_base T) [] payer dn = Ok pre"
    using assms unfolding build_transaction_def
    by (cases "add_nonce_instruction (tx_base T) [] payer dn") (simp_all add: sbind_run)
  obtain h where h: "get_transaction_blockhash rb dn = Ok h"
    using assms unfolding build_transaction_def pre
    by (cases "get_transaction_blockhash rb dn") (auto simp: sbind_run Let_def with_caches_def split: prod.splits)
  obtain budget s1 where
    v: "build_versioned_transaction T payer (pre @ tip_instructions T payer tip acc amt @ budget @ ixs) table h
      None name buy s1 = (Ok tx, s')"
    using assms unfolding build_transaction_def pre h
    by (auto simp: sbind_run Let_def with_caches_def split: prod.splits)
  have "signed_by T payer tx \<and> msg_instructions (tx_message tx) = pre @ tip_instructions T payer tip acc amt @ budget @ ixs
      \<and> msg_blockhash (tx_message tx) = h"
    using versioned_carries [of T payer _ table h name buy s1 tx] v by (metis fst_conv)
  then show thesis using that [OF pre h, of "tip_instructions T payer tip acc amt @ budget"] by simp
qed

lemma build_carries:
  assumes "build_transaction T payer l p ixs table rb None name buy tip acc amt dn s = (Ok tx, s')"
  shows "carries T payer ixs tx"
  by (rule build_parts [OF assms]) (auto simp: carries_def)

text \<open>The transactions that the tasks of one call can build: they differ in the fees and in the tip.\<close>

definition built_from :: "tx_extern \<Rightarrow> exec_args \<Rightarrow> VersionedTransaction \<Rightarrow> bool" where
  "built_from T a tx \<longleftrightarrow> (\<exists>l p tip acc amt s s'. build_transaction T (ea_payer a) l p (ea_instructions a) (ea_table a)
     (ea_recent_blockhash a) (ea_middleware_manager a) (ea_protocol_name a) (ea_is_buy a) tip acc amt (ea_durable_nonce a) s
     = (Ok tx, s'))"

lemma built_carries:
  "built_from T a tx \<Longrightarrow> ea_middleware_manager a = None \<Longrightarrow> carries T (ea_payer a) (ea_instructions a) tx"
  by (auto simp: built_from_def intro: build_carries)

lemma run_task_same:
  assumes "same_network (built_from T a) (trade_of (ea_is_buy a)) f g"
  shows "run_task T f a client acc config s = run_task T g a client acc config s"
proof -
  obtain ty gf v where c: "config = (ty, gf, v)" by (cases config)
  let ?b = "build_transaction T (ea_payer a) (gv_cu_limit v) (gv_cu_price v) (ea_instructions a) (ea_table a)
      (ea_recent_blockhash a) (ea_middleware_manager a) (ea_protocol_name a) (ea_is_buy a) (sc_type client \<noteq> SwqosDefault) acc
      (if ea_with_tip a then gv_tip v else 0) (ea_durable_nonce a) s"
  obtain r s' where b: "?b = (r, s')" by fastforce
  show ?thesis
  proof (cases r)
    case (Ok tx)
    then have "built_from T a tx" using b unfolding built_from_def by blast
    then have "f client (trade_of (ea_is_buy a)) tx (ea_wait a) = g client (trade_of (ea_is_buy a)) tx (ea_wait a)"
      using assms by (simp add: same_network_def)
    then show ?thesis using b Ok by (simp add: run_task_def c Let_def)
  qed (use b in \<open>simp_all add: run_task_def c Let_def\<close>)
qed

lemma run_tasks_same:
  assumes "same_network (built_from T a) (trade_of (ea_is_buy a)) f g"
  shows "run_tasks T f a ts s = run_tasks T g a ts s"
proof (induction ts arbitrary: s)
  case (Cons t ts)
  obtain client acc config where "t = (client, acc, config)" by (cases t)
  then show ?case using Cons.IH run_task_same [OF assms] by simp
qed simp

lemma execute_same:
  assumes "same_network (built_from T a) (trade_of (ea_is_buy a)) f g"
  shows "execute_parallel T tip f env k order clients gas chk a s
    = execute_parallel T tip g env k order clients gas chk a s"
proof -
  have "run_tasks T f a = run_tasks T g a" by (intro ext run_tasks_same assms)
  then show ?thesis by (simp only: execute_parallel_def)
qed

text \<open>A call with one task builds one transaction.\<close>

lemma run_task_single:
  "\<exists>tx. \<forall>f g. same_network ((=) tx) (trade_of (ea_is_buy a)) f g \<longrightarrow>
     run_task T f a client acc config s = run_task T g a client acc config s"
proof -
  obtain ty gf v where c: "config = (ty, gf, v)" by (cases config)
  obtain r s' where b: "build_transaction T (ea_payer a) (gv_cu_limit v) (gv_cu_price v) (ea_instructions a) (ea_table a)
      (ea_recent_blockhash a) (ea_middleware_manager a) (ea_protocol_name a) (ea_is_buy a) (sc_type client \<noteq> SwqosDefault) acc
      (if ea_with_tip a then gv_tip v else 0) (ea_durable_nonce a) s = (r, s')" by fastforce
  show ?thesis
  proof (cases r)
    case (Ok tx)
    then show ?thesis using b by (intro exI [of _ tx]) (simp add: run_task_def c Let_def same_network_def)
  qed (use b in \<open>simp_all add: run_task_def c Let_def\<close>)
qed

lemma execute_single:
  assumes "\<And>configs. plan_tasks order clients gas (ea_is_buy a) (ea_with_tip a) chk (ea_durable_nonce a) = Ok configs \<Longrightarrow>
    length configs \<le> 1"
  shows "\<exists>tx. \<forall>f g. same_network ((=) tx) (trade_of (ea_is_buy a)) f g \<longrightarrow>
    execute_parallel T tip f env k order clients gas chk a s = execute_parallel T tip g env k order clients gas chk a s"
proof (cases "plan_tasks order clients gas (ea_is_buy a) (ea_with_tip a) chk (ea_durable_nonce a)")
  case (Ok configs)
  then have len: "length configs \<le> 1" by (rule assms)
  obtain ts e where ts: "spawn_tasks tip configs = (ts, e)" by fastforce
  then have "length ts \<le> 1" using spawn_tasks_length [of tip configs] len by simp
  then consider "ts = []" | client acc config where "ts = [(client, acc, config)]"
    by (cases ts) auto
  then have "\<exists>tx. \<forall>f g. same_network ((=) tx) (trade_of (ea_is_buy a)) f g \<longrightarrow> run_tasks T f a ts s = run_tasks T g a ts s"
  proof cases
    case 2
    obtain tx where "\<And>f g. same_network ((=) tx) (trade_of (ea_is_buy a)) f g \<Longrightarrow>
        run_task T f a client acc config s = run_task T g a client acc config s"
      using run_task_single [of a T client acc config s] by blast
    then have "run_tasks T f a ts s = run_tasks T g a ts s" if "same_network ((=) tx) (trade_of (ea_is_buy a)) f g" for f g
      using that by (simp only: 2 run_tasks.simps)
    then show ?thesis by blast
  qed simp
  then obtain tx where tx: "\<And>f g. same_network ((=) tx) (trade_of (ea_is_buy a)) f g \<Longrightarrow> run_tasks T f a ts s = run_tasks T g a ts s"
    by blast
  have "execute_parallel T tip f env k order clients gas chk a s = execute_parallel T tip g env k order clients gas chk a s"
    if "same_network ((=) tx) (trade_of (ea_is_buy a)) f g" for f g
    unfolding execute_parallel_def Ok by (simp add: ts tx [OF that] split: option.split)
  then show ?thesis by blast
qed (simp_all add: execute_parallel_def)

lemma swap_instructions_send [simp]:
  "swap_instructions (W \<lparr> w_send := f \<rparr>) self params = swap_instructions W self params"
  by (simp add: swap_instructions_def)

lemma confirm_result_send [simp]: "confirm_result (W \<lparr> w_send := f \<rparr>) b r = confirm_result W b r"
proof -
  have "w_confirm (W \<lparr> w_send := f \<rparr>) = w_confirm W" by simp
  then show ?thesis by (simp only: confirm_result_def)
qed

text \<open>Only the submission looks at the network.\<close>

lemma swap_send_cong:
  assumes "\<And>ixs s1. swap_instructions W self params s = (Ok ixs, s1) \<Longrightarrow>
    execute_parallel (w_tx W) (w_tip_account W) (w_send W) (w_schedule W) (w_rounds W) (w_order W) (sp_swqos_clients params)
      (sp_gas_fee_strategy params) (sp_check_min_tip params) (swap_args params (swap_is_buy params) (te_protocol_name self) ixs) s1
    = execute_parallel (w_tx W) (w_tip_account W) g (w_schedule W) (w_rounds W) (w_order W) (sp_swqos_clients params)
      (sp_gas_fee_strategy params) (sp_check_min_tip params) (swap_args params (swap_is_buy params) (te_protocol_name self) ixs) s1"
  shows "swap W self params s = swap (W \<lparr> w_send := g \<rparr>) self params s"
proof -
  obtain r s1 where i: "swap_instructions W self params s = (r, s1)" by fastforce
  show ?thesis
  proof (cases r)
    case (Ok ixs)
    then show ?thesis using assms [of ixs s1] i
      by (simp add: swap_def Let_def sbind_run simulate_transaction_def split: prod.split)
  qed (simp_all add: swap_def Let_def sbind_run i)
qed

lemma swap_same:
  assumes "\<And>ixs s1. swap_instructions W self params s = (Ok ixs, s1) \<Longrightarrow>
    same_network (built_from (w_tx W) (swap_args params (swap_is_buy params) (te_protocol_name self) ixs))
      (trade_of (swap_is_buy params)) (w_send W) g"
  shows "swap W self params s = swap (W \<lparr> w_send := g \<rparr>) self params s"
  by (rule swap_send_cong, rule execute_same) (use assms in \<open>simp add: swap_args_def\<close>)

text \<open>A transaction that spends a durable nonce: its first instruction advances the nonce account, and it is only valid as
  long as the nonce has the value of its blockhash.\<close>

definition spends_nonce :: "tx_extern \<Rightarrow> pubkey \<Rightarrow> DurableNonceInfo \<Rightarrow> VersionedTransaction \<Rightarrow> bool" where
  "spends_nonce T payer d tx \<longleftrightarrow> signed_by T payer tx \<and> (\<exists>account nonce rest. dn_nonce_account d = Some account
     \<and> dn_current_nonce d = Some nonce \<and> msg_blockhash (tx_message tx) = nonce
     \<and> msg_instructions (tx_message tx) = x_advance_nonce_account (tx_base T) account payer # rest)"

lemma built_spends_nonce:
  assumes "built_from T a tx" "ea_middleware_manager a = None" "ea_durable_nonce a = Some d"
  shows "spends_nonce T (ea_payer a) d tx"
proof -
  from assms obtain l p tip acc amt s s' where "build_transaction T (ea_payer a) l p (ea_instructions a) (ea_table a)
      (ea_recent_blockhash a) None (ea_protocol_name a) (ea_is_buy a) tip acc amt (Some d) s = (Ok tx, s')"
    unfolding built_from_def by metis
  then show ?thesis
    by (rule build_parts)
      (auto simp: spends_nonce_def add_nonce_instruction_def get_transaction_blockhash_def obind_Ok_iff)
qed

text \<open>A buy without a durable nonce has one task.\<close>

lemma buy_single:
  assumes "swap_is_buy params" "sp_durable_nonce params = None"
  shows "\<exists>tx. \<forall>g. same_network ((=) tx) Buy (w_send W) g \<longrightarrow> swap W self params s = swap (W \<lparr> w_send := g \<rparr>) self params s"
proof -
  obtain r s1 where i: "swap_instructions W self params s = (r, s1)" by fastforce
  show ?thesis
  proof (cases r)
    case (Ok ixs)
    let ?a = "swap_args params True (te_protocol_name self) ixs"
    have a: "ea_is_buy ?a" "ea_durable_nonce ?a = None" using assms(2) by (simp_all add: swap_args_def)
    have "length configs \<le> 1" if "plan_tasks (w_order W) (sp_swqos_clients params) (sp_gas_fee_strategy params) (ea_is_buy ?a)
        (ea_with_tip ?a) (sp_check_min_tip params) (ea_durable_nonce ?a) = Ok configs" for configs
      using that by (auto simp: a plan_tasks_def Let_def split: if_splits)
    from execute_single [OF this] obtain tx where tx: "\<And>f g. same_network ((=) tx) (trade_of (ea_is_buy ?a)) f g \<Longrightarrow>
        execute_parallel (w_tx W) (w_tip_account W) f (w_schedule W) (w_rounds W) (w_order W) (sp_swqos_clients params)
          (sp_gas_fee_strategy params) (sp_check_min_tip params) ?a s1
        = execute_parallel (w_tx W) (w_tip_account W) g (w_schedule W) (w_rounds W) (w_order W) (sp_swqos_clients params)
          (sp_gas_fee_strategy params) (sp_check_min_tip params) ?a s1"
      by blast
    have "swap W self params s = swap (W \<lparr> w_send := g \<rparr>) self params s" if "same_network ((=) tx) Buy (w_send W) g" for g
      by (rule swap_send_cong) (use tx [of "w_send W" g] that assms(1) a(1) i Ok in \<open>simp add: trade_of_def\<close>)
    then show ?thesis by blast
  qed (simp_all add: swap_def Let_def sbind_run i)
qed

text \<open>A transaction of the payer with an instruction \<open>ix\<close> that satisfies \<open>P\<close>, \<open>after\<close> being what follows it.\<close>

definition trades :: "tx_extern \<Rightarrow> pubkey \<Rightarrow> (Instruction \<Rightarrow> Instruction list \<Rightarrow> bool) \<Rightarrow> VersionedTransaction \<Rightarrow> bool" where
  "trades T payer P tx \<longleftrightarrow> signed_by T payer tx
    \<and> (\<exists>before ix after. msg_instructions (tx_message tx) = before @ [ix] @ after \<and> P ix after)"

text \<open>The trade hands nothing but transactions that satisfy \<open>P\<close> to the network: no two networks that
  agree on these give different runs, results and final states included.\<close>

definition sends_only ::
  "(world \<Rightarrow> tx_state \<Rightarrow> 'r) \<Rightarrow> world \<Rightarrow> TradeType \<Rightarrow> (VersionedTransaction \<Rightarrow> bool) \<Rightarrow> tx_state \<Rightarrow> bool" where
  "sends_only trade W ty P s \<longleftrightarrow>
    (\<forall>g. same_network P ty (w_send W) g \<longrightarrow> trade W s = trade (W \<lparr> w_send := g \<rparr>) s)"

lemma carries_trades:
  assumes "carries T payer ixs tx" "ixs = before @ [ix] @ after" "P ix after"
  shows "trades T payer P tx"
  using assms unfolding carries_def trades_def by (metis append_assoc)

lemma swap_to_trade_sends_only:
  assumes "\<And>g. same_network P ty (w_send W) g \<Longrightarrow>
    swap W (create_executor dex) params s = swap (W \<lparr> w_send := g \<rparr>) (create_executor dex) params s"
  shows "sends_only (\<lambda>W. swap_to_trade W dex params) W ty P s"
  unfolding sends_only_def
proof (intro allI impI)
  fix g
  assume "same_network P ty (w_send W) g"
  from assms [OF this] show "swap_to_trade W dex params s = swap_to_trade (W \<lparr> w_send := g \<rparr>) dex params s"
    by (simp only: swap_to_trade_def sbind_def)
qed

lemma swap_sends_only:
  assumes "sp_middleware_manager params = None"
    and "\<And>ixs. fst ((if swap_is_buy params then te_build_buy (create_executor dex) else te_build_sell (create_executor dex))
        (tx_base (w_tx W)) (w_rents W) params (ts_caches s)) = Ok ixs \<Longrightarrow>
      \<exists>before ix after. ixs = before @ [ix] @ after \<and> P ix after"
  shows "sends_only (\<lambda>W. swap_to_trade W dex params) W (trade_of (swap_is_buy params))
    (trades (w_tx W) (sp_payer params) P) s"
proof (rule swap_to_trade_sends_only)
  fix g
  assume net: "same_network (trades (w_tx W) (sp_payer params) P) (trade_of (swap_is_buy params)) (w_send W) g"
  show "swap W (create_executor dex) params s = swap (W \<lparr> w_send := g \<rparr>) (create_executor dex) params s"
  proof (rule swap_same)
    fix ixs s1
    assume "swap_instructions W (create_executor dex) params s = (Ok ixs, s1)"
    then have "fst ((if swap_is_buy params then te_build_buy (create_executor dex)
        else te_build_sell (create_executor dex)) (tx_base (w_tx W)) (w_rents W) params (ts_caches s)) = Ok ixs"
      unfolding swap_instructions_def assms(1)
      by (auto simp: sbind_run with_caches_def Let_def preprocess_def split: outcome.splits prod.splits if_splits)
    from assms(2) [OF this] obtain before ix after where "ixs = before @ [ix] @ after" "P ix after" by blast
    then have "trades (w_tx W) (sp_payer params) P tx"
      if "built_from (w_tx W) (swap_args params (swap_is_buy params) (te_protocol_name (create_executor dex)) ixs) tx" for tx
      using built_carries [OF that] assms(1) carries_trades by (auto simp: swap_args_def)
    then show "same_network (built_from (w_tx W) (swap_args params (swap_is_buy params) (te_protocol_name (create_executor dex)) ixs))
        (trade_of (swap_is_buy params)) (w_send W) g"
      using net by (simp add: same_network_def)
  qed
qed

lemma client_buy_sends_only:
  assumes "sends_only (\<lambda>W. swap_to_trade W (tb_dex_type params) (buy_swap_params self params)) W Buy P s"
  shows "sends_only (\<lambda>W. client_buy W self params) W Buy P s"
  using assms by (simp add: sends_only_def client_buy_def Let_def)

lemma client_sell_sends_only:
  assumes "sends_only (\<lambda>W. swap_to_trade W (ts_dex_type params) (sell_swap_params self params)) W Sell P s"
  shows "sends_only (\<lambda>W. client_sell W self params) W Sell P s"
  using assms by (simp add: sends_only_def client_sell_def Let_def)

lemma buy_params_facts [simp]:
  "swap_is_buy (buy_swap_params c p)" "sp_payer (buy_swap_params c p) = tc_payer c"
  "sp_middleware_manager (buy_swap_params c p) = tc_middleware_manager c"
  "sp_protocol_params (buy_swap_params c p) = tb_extension_params p"
  "sp_input_amount (buy_swap_params c p) = Some (tb_input_token_amount p)"
  "sp_slippage_basis_points (buy_swap_params c p) = tb_slippage_basis_points p"
  "sp_use_exact_sol_amount (buy_swap_params c p) = tb_use_exact_sol_amount p"
  "sp_fixed_output_amount (buy_swap_params c p) = tb_fixed_output_token_amount p"
  by (simp_all add: buy_swap_params_def swap_is_buy_def)

lemma sell_params_facts [simp]:
  "\<not> swap_is_buy (sell_swap_params c p)" "sp_payer (sell_swap_params c p) = tc_payer c"
  "sp_middleware_manager (sell_swap_params c p) = tc_middleware_manager c"
  "sp_protocol_params (sell_swap_params c p) = ts_extension_params p"
  "sp_input_amount (sell_swap_params c p) = Some (ts_input_token_amount p)"
  "sp_input_mint (sell_swap_params c p) = ts_mint p"
  "sp_slippage_basis_points (sell_swap_params c p) = ts_slippage_basis_points p"
  "sp_fixed_output_amount (sell_swap_params c p) = ts_fixed_output_token_amount p"
  by (simp_all add: sell_swap_params_def swap_is_buy_def)

lemma trade_of_simps [simp]: "trade_of True = Buy" "trade_of False = Sell"
  by (simp_all add: trade_of_def)


lemma request_facts [simp]:
  "tb_dex_type (pf_into_trade_buy_params b) = DexTypePumpFun" "ts_dex_type (pf_into_trade_sell_params s) = DexTypePumpFun"
  "tb_dex_type (ps_into_trade_buy_params b') = DexTypePumpSwap" "ts_dex_type (ps_into_trade_sell_params s') = DexTypePumpSwap"
  by (simp_all add: pf_into_trade_buy_params_def pf_into_trade_sell_params_def ps_into_trade_buy_params_def
      ps_into_trade_sell_params_def)

lemma request_buy_sends_only:
  assumes "tc_middleware_manager c = None"
    and "\<And>ixs. fst (te_build_buy (create_executor (tb_dex_type params)) (tx_base (w_tx W)) (w_rents W)
        (buy_swap_params c params) (ts_caches s)) = Ok ixs \<Longrightarrow>
      \<exists>before ix after. ixs = before @ [ix] @ after \<and> P ix after"
  shows "sends_only (\<lambda>W. client_buy W c params) W Buy (trades (w_tx W) (tc_payer c) P) s"
  by (rule client_buy_sends_only)
    (use swap_sends_only [where params = "buy_swap_params c params" and dex = "tb_dex_type params"] assms in simp)

lemma request_sell_sends_only:
  assumes "tc_middleware_manager c = None"
    and "\<And>ixs. fst (te_build_sell (create_executor (ts_dex_type params)) (tx_base (w_tx W)) (w_rents W)
        (sell_swap_params c params) (ts_caches s)) = Ok ixs \<Longrightarrow>
      \<exists>before ix after. ixs = before @ [ix] @ after \<and> P ix after"
  shows "sends_only (\<lambda>W. client_sell W c params) W Sell (trades (w_tx W) (tc_payer c) P) s"
  by (rule client_sell_sends_only)
    (use swap_sends_only [where params = "sell_swap_params c params" and dex = "ts_dex_type params"] assms in simp)

lemma buy_nonce_sends_only:
  assumes "tc_middleware_manager c = None" "tb_durable_nonce params = Some d"
  shows "sends_only (\<lambda>W. client_buy W c params) W Buy (spends_nonce (w_tx W) (tc_payer c) d) s"
proof (rule client_buy_sends_only, rule swap_to_trade_sends_only)
  fix g
  assume net: "same_network (spends_nonce (w_tx W) (tc_payer c) d) Buy (w_send W) g"
  let ?e = "create_executor (tb_dex_type params)" and ?params = "buy_swap_params c params"
  show "swap W ?e ?params s = swap (W \<lparr> w_send := g \<rparr>) ?e ?params s"
  proof (rule swap_same)
    fix ixs s1
    let ?a = "swap_args ?params (swap_is_buy ?params) (te_protocol_name ?e) ixs"
    have "ea_middleware_manager ?a = None" "ea_durable_nonce ?a = Some d" "ea_payer ?a = tc_payer c"
      using assms by (simp_all add: swap_args_def buy_swap_params_def)
    then have "spends_nonce (w_tx W) (tc_payer c) d tx" if "built_from (w_tx W) ?a tx" for tx
      using built_spends_nonce [OF that] by metis
    then show "same_network (built_from (w_tx W) ?a) (trade_of (swap_is_buy ?params)) (w_send W) g"
      using net by (simp add: same_network_def)
  qed
qed

lemma buy_single_sends_only:
  assumes "tb_durable_nonce params = None"
  shows "\<exists>tx. sends_only (\<lambda>W. client_buy W c params) W Buy ((=) tx) s"
proof -
  have "sp_durable_nonce (buy_swap_params c params) = None" using assms by (simp add: buy_swap_params_def)
  from buy_single [OF buy_params_facts(1) this] obtain tx where "\<And>g. same_network ((=) tx) Buy (w_send W) g \<Longrightarrow>
      swap W (create_executor (tb_dex_type params)) (buy_swap_params c params) s
      = swap (W \<lparr> w_send := g \<rparr>) (create_executor (tb_dex_type params)) (buy_swap_params c params) s"
    by blast
  then show ?thesis by (intro exI client_buy_sends_only swap_to_trade_sends_only)
qed

section \<open>A sample trade\<close>

definition sample_gas :: gas_map where
  "sample_gas = run_steps (set_steps SwqosDefault Buy Normal 1 1 0) gas_new"

definition sample_client :: TradingClient where
  "sample_client = \<lparr> tc_payer = 5,
     tc_infrastructure = \<lparr> ti_swqos_clients = [default_client],
       ti_config = \<lparr> ic_rpc_url = ''http://node'', ic_swqos_configs = [], ic_commitment = ConfirmedLevel \<rparr> \<rparr>,
     tc_middleware_manager = None, tc_use_seed_optimize = False, tc_use_core_affinity = True,
     tc_log_enabled = True, tc_check_min_tip = False \<rparr>"

definition sample_pf_buy :: PumpFunBuyRequest where
  "sample_pf_buy = (pf_buy_request_new 77 1000000 (pf_market_new (immediate_sell 0 TOKEN_PROGRAM True)) sample_gas)
     \<lparr> fb_fixed_output_token_amount := Some 2000000, fb_create_mint_ata := False, fb_recent_blockhash := Some 1,
       fb_wait_transaction_confirmed := True \<rparr>"

definition sample_ps_buy :: PumpSwapBuyRequest where
  "sample_ps_buy = ps_buy_request_new 77 TokenSOL 1000 (ps_market_new (pump_swap_params_new 21 77 WSOL_TOKEN_ACCOUNT
     22 23 1000000 2000000 24 25 TOKEN_PROGRAM TOKEN_PROGRAM 26 False)) sample_gas"

definition sample_pf_sell :: PumpFunSellRequest where
  "sample_pf_sell = pf_sell_request_new 77 1000 (pf_market_new (immediate_sell 0 TOKEN_PROGRAM True)) sample_gas"

definition sample_ps_sell :: PumpSwapSellRequest where
  "sample_ps_sell = ps_sell_request_new 77 TokenSOL 1000 (ps_market_new (pump_swap_params_new 21 77 WSOL_TOKEN_ACCOUNT
     22 23 1000000 2000000 24 25 TOKEN_PROGRAM TOKEN_PROGRAM 26 False)) sample_gas"

text \<open>A network that refuses what has no instruction.\<close>

definition picky_send :: send_fn where
  "picky_send = (\<lambda>client ty tx wait. if msg_instructions (tx_message tx) = [] then Inl (OtherErr ''empty'') else Inr ())"

definition picky_world :: world where
  "picky_world = sample_world \<lparr> w_send := picky_send \<rparr>"

lemma picky_same: "same_network (trades T payer P) ty (w_send sample_world) picky_send"
  by (auto simp: same_network_def trades_def picky_send_def sample_world_def)

lemma sample_coherent: "coherent (tx_base (w_tx sample_world)) (w_rents sample_world) (ts_caches idle_state)"
  by (simp add: sample_world_def idle_state_def coherent_empty)

lemma sample_gas_entries:
  "sample_gas (ty, t, g) = (if (ty, t, g) = (SwqosDefault, Buy, Normal)
     then Some \<lparr> gv_cu_limit = 1, gv_cu_price = 1, gv_tip = 0 \<rparr> else None)"
  by (simp add: sample_gas_def set_normal_at gas_new_def)

lemma sample_strategies:
  "get_strategies swqos_values Buy sample_gas = [(SwqosDefault, Normal, \<lparr> gv_cu_limit = 1, gv_cu_price = 1, gv_tip = 0 \<rparr>)]"
  by (simp add: get_strategies_def sample_gas_entries swqos_values_def strategy_values_def)

lemma sample_plan:
  "plan_tasks swqos_values [default_client] sample_gas True True False None =
    Ok [(0, default_client, SwqosDefault, Normal, \<lparr> gv_cu_limit = 1, gv_cu_price = 1, gv_tip = 0 \<rparr>)]"
  by (simp add: plan_tasks_def task_configs_def client_configs_def trade_of_def sample_strategies default_client_def)

lemma sample_build:
  assumes "coherent plain_extern initial_rents (ts_caches s)"
  obtains s' where "build_transaction sample_tx 5 1 1 ixs None (Some 1) None name True False acc tip None s
    = (Ok \<lparr> tx_signatures = [9], tx_message = Legacy (x_set_compute_unit_price plain_extern 1 #
         x_set_compute_unit_limit plain_extern 1 # ixs) 5 1 \<rparr>, s')"
proof -
  have b: "tx_base sample_tx = plain_extern" by (simp add: sample_tx_def)
  have "fst (build_transaction sample_tx 5 1 1 ixs None (Some 1) None name True False acc tip None s)
    = Ok \<lparr> tx_signatures = [9], tx_message = Legacy (x_set_compute_unit_price plain_extern 1 #
         x_set_compute_unit_limit plain_extern 1 # ixs) 5 1 \<rparr>"
    unfolding build_transaction_run [OF assms b]
    by (simp add: add_nonce_instruction_def get_transaction_blockhash_def build_zero_alloc_message sample_tx_def
        cb_compute_def tip_instructions_def)
  then show ?thesis using that by (metis prod.collapse)
qed

text \<open>Any instructions that are built for the sample client are submitted and accepted.\<close>

lemma sample_execute:
  assumes "coherent plain_extern initial_rents (ts_caches s)" "ea_payer a = 5" "ea_table a = None"
    "ea_recent_blockhash a = Some 1" "ea_durable_nonce a = None" "ea_middleware_manager a = None"
    "ea_is_buy a" "\<not> ea_wait a" "ea_with_tip a"
  shows "fst (execute_parallel sample_tx (w_tip_account sample_world) (w_send sample_world)
      (w_schedule sample_world) (w_rounds sample_world) swqos_values [default_client] sample_gas False a s)
    = Ok (True, [9], None)"
proof -
  obtain s' where build: "build_transaction sample_tx 5 1 1 (ea_instructions a) None (Some 1) None (ea_protocol_name a)
      True False 0 0 None s = (Ok \<lparr> tx_signatures = [9], tx_message = Legacy (x_set_compute_unit_price plain_extern 1 #
         x_set_compute_unit_limit plain_extern 1 # ea_instructions a) 5 1 \<rparr>, s')"
    by (rule sample_build [OF assms(1)])
  show ?thesis
    unfolding execute_parallel_def using sample_plan assms
    by (simp add: sample_world_def run_task_def default_client_def build send_result_def
        numeral_3_eq_3 collector_new_def submit_def submit_push_def submit_flag_def submit_count_def
        get_first_def last_error_of_def Let_def)
qed

lemma sample_confirms: "confirm_result sample_world True (Ok (True, [9], None)) = Ok (True, [9], None)"
proof -
  have "poll_any_transaction_confirmation POLL_ROUNDS (w_confirm sample_world) [9] True = Some (Ok 9)"
    by (simp add: poll_any_transaction_confirmation_def POLL_ROUNDS_def sample_world_def silent_rpc_def
        confirmed_ok_def numeral_eq_Suc)
  then show ?thesis by (simp add: confirm_result_def)
qed

lemma plain_derive [simp]: "derive (x_find_pda plain_extern) seeds program = Some (program + 1)"
  by (simp add: plain_extern_def derive_def)

lemma sample_pf_built:
  "\<exists>ix. pf_buy_spec plain_extern rs (buy_swap_params sample_client (pf_into_trade_buy_params sample_pf_buy)) = Ok [ix]"
proof -
  let ?params = "buy_swap_params sample_client (pf_into_trade_buy_params sample_pf_buy)"
  let ?p = "immediate_sell 0 TOKEN_PROGRAM True"
  have params: "sp_protocol_params ?params = DexPumpFun ?p" "sp_input_amount ?params = Some 1000000"
    "sp_fixed_output_amount ?params = Some 2000000" "\<not> sp_create_output_mint_ata ?params"
    "\<not> sp_open_seed_optimize ?params"
    by (simp_all add: buy_swap_params_def pf_into_trade_buy_params_def sample_pf_buy_def pf_buy_request_new_def
        pf_market_new_def sample_client_def)
  have p: "pf_creator_vault ?p = pubkey_default" "pf_associated_bonding_curve ?p = pubkey_default"
    "bc_account (pf_bonding_curve ?p) = pubkey_default"
    by (simp_all add: immediate_sell_def default_curve_def)
  have ata: "ata_address plain_extern w m tp False = Ok (ASSOCIATED_TOKEN_PROGRAM_ID + 1)" for w m tp
    by (simp add: ata_address_def ata_compute_def seed_allowed_def get_associated_token_address_with_program_id_def)
  have "pf_buy_tokens plain_extern ?p ?params = Ok 2000000" "pf_create_output plain_extern rs ?p ?params = Ok []"
    by (simp_all add: pf_buy_tokens_def params p pf_creator_def pf_create_output_def del: buy_params_facts)
  moreover obtain curve where "pf_curve_address plain_extern ?p (sp_output_mint ?params) = Ok curve"
    by (simp add: pf_curve_address_def p bonding_curve_pda_def)
  moreover obtain ca where "pf_curve_account plain_extern ?p (sp_output_mint ?params) curve = Ok ca"
    by (simp add: pf_curve_account_def p ata)
  moreover obtain ua where "ata_address plain_extern (sp_payer ?params) (sp_output_mint ?params) (pf_token_program ?p)
      (sp_open_seed_optimize ?params) = Ok ua"
    by (simp add: params ata)
  ultimately show ?thesis
    by (simp add: pf_buy_spec_def params pf_user_volume_accumulator_pda_def bonding_curve_v2_pda_def
        del: buy_params_facts)
qed

lemma sample_buy_run:
  "fst (buy_pumpfun sample_world \<lparr> pc_inner = sample_client \<rparr> sample_pf_buy idle_state) = Ok (True, [9], None)"
proof -
  let ?params = "buy_swap_params sample_client (pf_into_trade_buy_params sample_pf_buy)"
  have flags: "\<not> sp_simulate ?params" "sp_wait_transaction_confirmed ?params" "sp_has_rpc ?params"
    "sp_swqos_clients ?params = [default_client]" "sp_gas_fee_strategy ?params = sample_gas"
    "\<not> sp_check_min_tip ?params" "sp_payer ?params = 5" "sp_middleware_manager ?params = None"
    "sp_lookup_table ?params = None" "sp_recent_blockhash ?params = Some 1" "sp_durable_nonce ?params = None"
    by (simp_all add: buy_swap_params_def pf_into_trade_buy_params_def sample_pf_buy_def pf_buy_request_new_def
        sample_client_def)
  have w: "w_tx sample_world = sample_tx" "w_order sample_world = swqos_values" "tx_base sample_tx = plain_extern"
    "w_rents sample_world = initial_rents"
    by (simp_all add: sample_world_def sample_tx_def)
  obtain ix where ix: "pf_buy_spec plain_extern initial_rents ?params = Ok [ix]"
    using sample_pf_built by blast
  obtain c' where build: "pf_build_buy_instructions plain_extern initial_rents ?params (ts_caches idle_state) = (Ok [ix], c')"
    and c': "coherent plain_extern initial_rents c'"
    using pf_buy_runs [of plain_extern initial_rents ?params] ix sample_coherent
    by (cases "pf_build_buy_instructions plain_extern initial_rents ?params (ts_caches idle_state)")
      (auto simp: runs_def w)
  let ?s = "idle_state \<lparr> ts_caches := c' \<rparr>" and ?e = "create_executor DexTypePumpFun"
  have instrs: "swap_instructions sample_world ?e ?params idle_state = (Ok [ix], ?s)"
    by (simp add: swap_instructions_def with_caches_def sbind_run preprocess_def flags [unfolded buy_params_facts] w build Let_def)
  have "fst (swap sample_world ?e ?params idle_state) = Ok (True, [9], None)"
    using sample_execute [of ?s "swap_args ?params True (te_protocol_name ?e) [ix]"] c' sample_confirms
    by (simp add: swap_run [OF instrs] flags [unfolded buy_params_facts] w swap_args_def Let_def
        del: create_executor.simps)
  then show ?thesis
    by (simp add: buy_pumpfun_def client_buy_def swap_to_trade_def sbind_run pf_into_trade_buy_params_def Let_def)
qed

text \<open>The instruction that a PumpFun buy asks for.\<close>

definition asked_pf_buy :: "extern \<Rightarrow> TradingClient \<Rightarrow> PumpFunBuyRequest \<Rightarrow> Instruction \<Rightarrow> Instruction list \<Rightarrow> bool" where
  "asked_pf_buy X c r ix after \<longleftrightarrow> after = [] \<and> ix_program_id ix = PUMPFUN \<and> ix_signers ix = {tc_payer c}
    \<and> length (ix_accounts ix) = 17 \<and> fb_sol_amount r \<noteq> 0
    \<and> (\<exists>tokens. pf_buy_tokens X (pfm_inner (fb_market r)) (buy_swap_params c (pf_into_trade_buy_params r)) = Ok tokens
      \<and> (let bps = unwrap_or DEFAULT_SLIPPAGE (fb_slippage_basis_points r) in swap_fields (ix_data ix) =
         (if unwrap_or True (fb_use_exact_sol_amount r)
          then (BUY_EXACT_SOL_IN_DISCRIMINATOR, unat (fb_sol_amount r), unat (calculate_with_slippage_sell tokens bps))
          else (BUY_DISCRIMINATOR, unat tokens, unat (calculate_with_slippage_buy (fb_sol_amount r) bps)))))"

lemma buy_pumpfun_sends_only:
  assumes "coherent (tx_base (w_tx W)) (w_rents W) (ts_caches s)" "tc_middleware_manager (pc_inner c) = None"
  shows "sends_only (\<lambda>W. buy_pumpfun W c r) W Buy
    (trades (w_tx W) (tc_payer (pc_inner c)) (asked_pf_buy (tx_base (w_tx W)) (pc_inner c) r)) s"
  unfolding buy_pumpfun_def
proof (rule request_buy_sends_only [OF assms(2)], goal_cases)
  case (1 ixs)
  from pf_buy_sends [OF assms(1) 1 [simplified]] show ?case
    by (auto simp: pf_into_trade_buy_params_def asked_pf_buy_def Let_def)
qed

lemma sends_only_weaken: "sends_only trade W ty P s \<Longrightarrow> (\<And>tx. P tx \<Longrightarrow> Q tx) \<Longrightarrow> sends_only trade W ty Q s"
  by (simp add: sends_only_def same_network_def)

text \<open>Two forms that all transactions of a trade have, they have together.\<close>

lemma sends_only_both:
  assumes "\<And>f. sends_only trade (W \<lparr> w_send := f \<rparr>) ty P s" "\<And>f. sends_only trade (W \<lparr> w_send := f \<rparr>) ty Q s"
  shows "sends_only trade W ty (\<lambda>tx. P tx \<and> Q tx) s"
  unfolding sends_only_def
proof (intro allI impI)
  fix g
  assume net: "same_network (\<lambda>tx. P tx \<and> Q tx) ty (w_send W) g"
  let ?h = "\<lambda>client t tx wait. if P tx then w_send W client t tx wait else g client t tx wait"
  have "trade W s = trade (W \<lparr> w_send := ?h \<rparr>) s"
    using assms(1) [of "w_send W"] by (simp add: sends_only_def same_network_def)
  also have "\<dots> = trade (W \<lparr> w_send := g \<rparr>) s"
    using assms(2) [of ?h] net by (simp add: sends_only_def same_network_def)
  finally show "trade W s = trade (W \<lparr> w_send := g \<rparr>) s" .
qed

section \<open>Properties\<close>











text \<open>C3 (safety): a confirmed success is real. When a buy or a sell that waits for confirmation reports success,
  there is no error, and one of the returned signatures was seen by the node as confirmed or
  finalized without an error, or its transaction was returned without one.\<close>

theorem trade_success_confirmed:
  assumes "(fst (client_buy W c b s) = Ok (True, sigs, err) \<and> tb_wait_transaction_confirmed b \<and> \<not> tb_simulate b)
    \<or> (fst (client_sell W c d s) = Ok (True, sigs, err) \<and> ts_wait_transaction_confirmed d \<and> \<not> ts_simulate d)"
  shows "err = None \<and> seen_confirmed (w_confirm W) sigs"
  using assms
proof (elim disjE conjE)
  assume b: "fst (client_buy W c b s) = Ok (True, sigs, err)" "tb_wait_transaction_confirmed b" "\<not> tb_simulate b"
  then obtain e where "fst (swap W (create_executor (tb_dex_type b)) (buy_swap_params c b) s) = Ok (True, sigs, e)"
    "err = map_option trade_error_from e"
    by (auto simp: client_buy_def Let_def swap_to_trade_def sbind_run split: if_splits outcome.splits)
  with b show ?thesis by (auto dest!: swap_confirmed simp: buy_swap_params_def)
next
  assume b: "fst (client_sell W c d s) = Ok (True, sigs, err)" "ts_wait_transaction_confirmed d" "\<not> ts_simulate d"
  then obtain e where "fst (swap W (create_executor (ts_dex_type d)) (sell_swap_params c d) s) = Ok (True, sigs, e)"
    "err = map_option trade_error_from e"
    by (auto simp: client_sell_def Let_def swap_to_trade_def sbind_run split: if_splits outcome.splits)
  with b show ?thesis by (auto dest!: swap_confirmed simp: sell_swap_params_def)
qed

theorem trade_success_confirmed_witness: "seen_confirmed (w_confirm sample_world) [9]"
proof -
  let ?b = "pf_into_trade_buy_params sample_pf_buy"
  have "fst (client_buy sample_world sample_client ?b idle_state) = Ok (True, [9], None)"
    "tb_wait_transaction_confirmed ?b" "\<not> tb_simulate ?b"
    using sample_buy_run
    by (simp_all add: buy_pumpfun_def pf_into_trade_buy_params_def sample_pf_buy_def pf_buy_request_new_def)
  then show ?thesis using trade_success_confirmed by blast
qed

text \<open>C17 (bounds): the amount of a percentage sale. For a percentage from 1 to 100 \<open>sell_by_percent\<close> is the sale of
  \<open>amount * percent\<close>, wrapped around at 64 bits, divided by 100: the exact rounded-down share for every amount
  below \<open>2 ^ 64 / 100\<close>, and never more than the amount; any other percentage is refused before anything is built.\<close>

theorem sell_by_percent_amount:
  "sell_by_percent W c params amount percent =
     (if unat percent \<in> {1..100}
      then client_sell W c (params \<lparr> ts_input_token_amount :=
        of_nat ((unat amount * unat percent) mod 2 ^ 64 div 100) \<rparr>)
      else slift (Err err_percent))
   \<and> (unat percent \<in> {1..100} \<and> unat amount * 100 < 2 ^ 64 \<longrightarrow>
      unat (of_nat ((unat amount * unat percent) mod 2 ^ 64 div 100) :: u64) = unat amount * unat percent div 100
      \<and> unat amount * unat percent div 100 \<le> unat amount)"
proof -
  let ?n = "(unat amount * unat percent) mod 2 ^ 64"
  have small: "?n div 100 < 2 ^ 64" by (simp add: order.strict_trans1 [OF div_le_dividend])
  have u: "unat (of_nat (?n div 100) :: u64) = ?n div 100"
    using small by (simp add: unsigned_of_nat take_bit_eq_mod)
  have div: "amount * percent div 100 = of_nat (?n div 100)"
    using u by (simp add: word_unat_eq_iff unat_div unat_word_ariths)
  have range: "(percent = 0 \<or> percent > 100) = (unat percent \<notin> {1..100})"
    by (auto simp: word_less_nat_alt unat_eq_0 Suc_le_eq)
  have "?n = unat amount * unat percent \<and> unat amount * unat percent div 100 \<le> unat amount"
    if "unat percent \<in> {1..100}" "unat amount * 100 < 2 ^ 64"
  proof -
    have "unat amount * unat percent \<le> unat amount * 100" using that(1) by simp
    then have "unat amount * unat percent < 2 ^ 64" "unat amount * unat percent div 100 \<le> unat amount * 100 div 100"
      using that(2) by (rule le_less_trans, intro div_le_mono)
    then show ?thesis by simp
  qed
  then show ?thesis unfolding sell_by_percent_def div Let_def u range by auto
qed

theorem sell_by_percent_amount_witness:
  "sell_by_percent sample_world sample_client (pf_into_trade_sell_params sample_pf_sell) 1000 25 =
     client_sell sample_world sample_client ((pf_into_trade_sell_params sample_pf_sell) \<lparr> ts_input_token_amount := 250 \<rparr>)
   \<and> sell_by_percent sample_world sample_client (pf_into_trade_sell_params sample_pf_sell) 184467440737095517 100 =
     client_sell sample_world sample_client ((pf_into_trade_sell_params sample_pf_sell) \<lparr> ts_input_token_amount := 0 \<rparr>)"
  using sell_by_percent_amount [of sample_world sample_client _ 1000 25]
    sell_by_percent_amount [of sample_world sample_client _ 184467440737095517 100] by simp

end
