(* ===== verification/Client_Wallet.thy ===== *)
theory Client_Wallet
  imports Client
begin

text \<open>
  The rest of \<open>src/lib.rs\<close>: the wallet operations of the trading client, with their wrappers in
  \<open>src/utils/mod.rs\<close>, the set-up of the wrapped-SOL account, and the start-up of the infrastructure
  and of the client with its global instance.
\<close>

section \<open>Wallet operations\<close>

text \<open>The four operations that send a fixed list of instructions.\<close>

definition wrap_sol_to_wsol :: "extern \<Rightarrow> rents \<Rightarrow> rpc_node \<Rightarrow> TradingClient \<Rightarrow> u64 \<Rightarrow> string rpc_call" where
  "wrap_sol_to_wsol X rs R self amount =
    sbind (ask (rn_blockhash R)) (\<lambda>recent_blockhash.
    sbind (on_caches (handle_wsol X rs (tc_payer self) amount)) (\<lambda>instructions.
      send_signed R (tc_payer self) instructions recent_blockhash))"

definition client_close_wsol :: "extern \<Rightarrow> rpc_node \<Rightarrow> TradingClient \<Rightarrow> string rpc_call" where
  "client_close_wsol X R self =
    sbind (ask (rn_blockhash R)) (\<lambda>recent_blockhash.
    sbind (on_caches (close_wsol X (tc_payer self))) (\<lambda>instructions.
      send_signed R (tc_payer self) instructions recent_blockhash))"

definition err_ata_exists :: string where "err_ata_exists = ''wSOL ATA already exists or no instructions needed''"

definition client_create_wsol_ata :: "extern \<Rightarrow> rents \<Rightarrow> rpc_node \<Rightarrow> TradingClient \<Rightarrow> string rpc_call" where
  "client_create_wsol_ata X rs R self =
    sbind (ask (rn_blockhash R)) (\<lambda>recent_blockhash.
    sbind (on_caches (create_wsol_ata X rs (tc_payer self))) (\<lambda>instructions.
      if instructions = [] then slift (Err err_ata_exists)
      else send_signed R (tc_payer self) instructions recent_blockhash))"

definition client_wrap_wsol_to_sol :: "extern \<Rightarrow> rents \<Rightarrow> rpc_node \<Rightarrow> TradingClient \<Rightarrow> u64 \<Rightarrow> string rpc_call" where
  "client_wrap_wsol_to_sol X rs R self amount =
    sbind (slift (get_associated_token_address_with_program_id_use_seed X (tc_payer self)
             WSOL_TOKEN_ACCOUNT TOKEN_PROGRAM)) (\<lambda>seed_ata_address.
    sbind (ask_ok (\<lambda>t. rn_account R t seed_ata_address)) (\<lambda>account_exists.
    sbind (on_caches (if account_exists then wrap_wsol_to_sol_without_create X (tc_payer self) amount
             else wrap_wsol_to_sol X rs (tc_payer self) amount)) (\<lambda>instructions.
    sbind (ask (rn_blockhash R)) (\<lambda>recent_blockhash.
      send_signed R (tc_payer self) instructions recent_blockhash))))"

definition err_claim_pumpfun :: string where
  "err_claim_pumpfun = ''Failed to build PumpFun claim_cashback instruction''"
definition err_claim_pumpswap :: string where
  "err_claim_pumpswap = ''Failed to build PumpSwap claim_cashback instruction''"

definition claim_cashback_pumpfun :: "extern \<Rightarrow> rpc_node \<Rightarrow> TradingClient \<Rightarrow> string rpc_call" where
  "claim_cashback_pumpfun X R self =
    sbind (on_caches_total (claim_cashback_pumpfun_instruction X (tc_payer self))) (\<lambda>ix.
    sbind (slift (ok_or err_claim_pumpfun ix)) (\<lambda>ix.
    sbind (ask (rn_blockhash R)) (\<lambda>recent_blockhash.
      send_signed R (tc_payer self) [ix] recent_blockhash)))"

definition claim_cashback_pumpswap :: "extern \<Rightarrow> rents \<Rightarrow> rpc_node \<Rightarrow> TradingClient \<Rightarrow> string rpc_call" where
  "claim_cashback_pumpswap X rs R self =
    sbind (on_caches (create_ata_fast_use_seed X rs (tc_payer self) (tc_payer self) WSOL_TOKEN_ACCOUNT
             TOKEN_PROGRAM (tc_use_seed_optimize self))) (\<lambda>instructions.
    sbind (on_caches (claim_cashback_pumpswap_instruction X (tc_payer self) WSOL_TOKEN_ACCOUNT TOKEN_PROGRAM)) (\<lambda>ix.
    sbind (slift (ok_or err_claim_pumpswap ix)) (\<lambda>ix.
    sbind (ask (rn_blockhash R)) (\<lambda>recent_blockhash.
      send_signed R (tc_payer self) (instructions @ [ix]) recent_blockhash))))"

text \<open>The wrappers of \<open>src/utils/mod.rs\<close> and of \<open>PumpTradeClient\<close>.\<close>

definition get_payer_sol_balance :: "rpc_node \<Rightarrow> TradingClient \<Rightarrow> u64 rpc_call" where
  "get_payer_sol_balance R self = get_sol_balance R (tc_payer self)"

definition get_payer_token_balance :: "extern \<Rightarrow> rpc_node \<Rightarrow> TradingClient \<Rightarrow> pubkey \<Rightarrow> u64 rpc_call" where
  "get_payer_token_balance X R self mint = get_token_balance X R (tc_payer self) mint"

definition client_close_token_account :: "extern \<Rightarrow> rpc_node \<Rightarrow> TradingClient \<Rightarrow> pubkey \<Rightarrow> unit rpc_call" where
  "client_close_token_account X R self mint = close_token_account X R (tc_payer self) mint"

definition pumpfun_token_account :: "extern \<Rightarrow> PumpTradeClient \<Rightarrow> pubkey \<Rightarrow> PumpFunMarket \<Rightarrow> pubkey rpc_call" where
  "pumpfun_token_account X self mint market =
    on_caches (get_ata_fast_use_seed X (tc_payer (pc_inner self)) mint (pf_token_program (pfm_inner market))
      (tc_use_seed_optimize (pc_inner self)))"

definition pumpfun_token_balance :: "extern \<Rightarrow> rpc_node \<Rightarrow> PumpTradeClient \<Rightarrow> pubkey \<Rightarrow> PumpFunMarket \<Rightarrow> u64 rpc_call" where
  "pumpfun_token_balance X R self mint market =
    sbind (pumpfun_token_account X self mint market) (\<lambda>account.
    sbind (ask (\<lambda>t. rn_token_balance R t account)) (\<lambda>balance.
      slift (map_err int_error_text (parse_u64 balance))))"

definition pumpfun_market_from_mint ::
  "extern \<Rightarrow> rpc_node \<Rightarrow> (u8 list \<Rightarrow> string) \<Rightarrow> pubkey \<Rightarrow> PumpFunMarket rpc_call" where
  "pumpfun_market_from_mint X R decode_error mint =
    sbind (pf_from_mint_by_rpc X R decode_error mint) (\<lambda>p. sret (pf_market_new p))"

definition pumpswap_market_from_mint ::
  "extern \<Rightarrow> rpc_node \<Rightarrow> (nat \<Rightarrow> string) \<Rightarrow> pubkey \<Rightarrow> PumpSwapMarket rpc_call" where
  "pumpswap_market_from_mint X R show_nat mint =
    sbind (ps_from_mint_by_rpc X R show_nat mint) (\<lambda>p. sret (ps_market_new p))"

definition pumpswap_market_from_pool :: "extern \<Rightarrow> rpc_node \<Rightarrow> pubkey \<Rightarrow> PumpSwapMarket rpc_call" where
  "pumpswap_market_from_pool X R pool =
    sbind (from_pool_address_by_rpc X R pool) (\<lambda>p. sret (ps_market_new p))"

section \<open>The wrapped-SOL account\<close>

text \<open>The retry loop of \<open>ensure_wsol_ata\<close> over the attempts that are left. \<open>Created\<close> is an early
  return; otherwise the loop ends with the last error. A send that is not answered in ten seconds
  counts as failed without another look at the account.\<close>

datatype attempt_result = Created | Failed "string option"

definition err_timeout_10 :: string where "err_timeout_10 = ''Transaction confirmation timeout (10s)''"

definition one_attempt ::
  "rpc_node \<Rightarrow> pubkey \<Rightarrow> pubkey \<Rightarrow> Instruction list \<Rightarrow> rpc_state \<Rightarrow> (attempt_result, string) outcome \<times> rpc_state" where
  "one_attempt R payer wsol_ata ixs s =
    (case ask (rn_blockhash R) s of
       (Ok recent_blockhash, s1) \<Rightarrow>
         (case sign_alone payer ixs of
            Ok _ \<Rightarrow>
              if \<not> rn_in_time R (rs_clock s1)
              then (Ok (Failed (Some err_timeout_10)), s1 \<lparr> rs_clock := Suc (rs_clock s1) \<rparr>)
              else (case ask (\<lambda>t. rn_send_confirm R t payer ixs recent_blockhash) s1 of
                  (Ok signature, s2) \<Rightarrow> (Ok Created, s2)
                | (Err e, s2) \<Rightarrow>
                    (case ask_ok (\<lambda>t. rn_account R t wsol_ata) s2 of
                       (Ok exists, s3) \<Rightarrow> (Ok (if exists then Created else Failed (Some e)), s3)
                     | (Err e', s3) \<Rightarrow> (Err e', s3)
                     | (Panic, s3) \<Rightarrow> (Panic, s3))
                | (Panic, s2) \<Rightarrow> (Panic, s2))
          | _ \<Rightarrow> (Panic, s1))
     | (Err e, s1) \<Rightarrow> (Ok (Failed (Some (''Failed to get blockhash: '' @ e))), s1)
     | (Panic, s1) \<Rightarrow> (Panic, s1))"

fun wsol_attempts ::
  "nat \<Rightarrow> rpc_node \<Rightarrow> pubkey \<Rightarrow> pubkey \<Rightarrow> Instruction list \<Rightarrow> string option \<Rightarrow> attempt_result rpc_call" where
  "wsol_attempts 0 R payer wsol_ata ixs last_error s = (Ok (Failed last_error), s)"
| "wsol_attempts (Suc left) R payer wsol_ata ixs last_error s =
    (case one_attempt R payer wsol_ata ixs s of
       (Ok Created, s') \<Rightarrow> (Ok Created, s')
     | (Ok (Failed e), s') \<Rightarrow> wsol_attempts left R payer wsol_ata ixs e s'
     | (Err e, s') \<Rightarrow> (Err e, s')
     | (Panic, s') \<Rightarrow> (Panic, s'))"

definition MAX_RETRIES :: nat where "MAX_RETRIES = 3"

definition ensure_wsol_ata :: "extern \<Rightarrow> rents \<Rightarrow> rpc_node \<Rightarrow> pubkey \<Rightarrow> unit rpc_call" where
  "ensure_wsol_ata X rs R payer =
    sbind (on_caches (get_ata_fast X payer WSOL_TOKEN_ACCOUNT TOKEN_PROGRAM)) (\<lambda>wsol_ata.
    sbind (ask_ok (\<lambda>t. rn_account R t wsol_ata)) (\<lambda>exists.
    if exists then sret ()
    else sbind (on_caches (create_wsol_ata X rs payer)) (\<lambda>create_ata_ixs.
      if create_ata_ixs \<noteq> []
      then sbind (wsol_attempts MAX_RETRIES R payer wsol_ata create_ata_ixs None) (\<lambda>r.
        case r of
          Failed (Some err) \<Rightarrow> slift Panic
        | _ \<Rightarrow> sret ())
      else sret ())))"

section \<open>Start-up\<close>

text \<open>The loop over the relay configurations: a blacklisted one is skipped, one that cannot connect is
  excluded.\<close>

fun create_swqos_clients ::
  "(string \<Rightarrow> (unit, string) outcome) \<Rightarrow> string \<Rightarrow> SwqosConfig list \<Rightarrow> (swqos_client list, string) outcome" where
  "create_swqos_clients connect rpc_url [] = Ok []"
| "create_swqos_clients connect rpc_url (swqos # rest) =
    (if is_blacklisted swqos then create_swqos_clients connect rpc_url rest
     else case get_swqos_client connect rpc_url swqos of
       Ok swqos_client \<Rightarrow> obind (create_swqos_clients connect rpc_url rest) (\<lambda>cs. Ok (swqos_client # cs))
     | Err err \<Rightarrow> create_swqos_clients connect rpc_url rest
     | Panic \<Rightarrow> Panic)"

record sdk_state =
  sd_rpc :: rpc_state
  sd_rents :: rents
  sd_log_enabled :: bool
  sd_instance :: "TradingClient option"

type_synonym 'a sdk_call = "(sdk_state, 'a, string) stateful"

definition on_rpc :: "'a rpc_call \<Rightarrow> 'a sdk_call" where
  "on_rpc m = (\<lambda>s. case m (sd_rpc s) of (r, s') \<Rightarrow> (r, s \<lparr> sd_rpc := s' \<rparr>))"

text \<open>\<open>TradingInfrastructure::new\<close>; \<open>rent1\<close> and \<open>rent2\<close> are the node's answers about rents.\<close>

definition infrastructure_new ::
  "(string \<Rightarrow> (unit, string) outcome) \<Rightarrow> string + u64 \<Rightarrow> string + u64 \<Rightarrow> InfrastructureConfig
    \<Rightarrow> TradingInfrastructure sdk_call" where
  "infrastructure_new connect rent1 rent2 config = (\<lambda>s.
    case update_rents rent1 rent2 (sd_rents s) of
      (rs, r) \<Rightarrow>
        sbind (slift (unwrap_result r)) (\<lambda>_.
        sbind (slift (create_swqos_clients connect (ic_rpc_url config) (ic_swqos_configs config))) (\<lambda>clients.
        sret \<lparr> ti_swqos_clients = clients, ti_config = config \<rparr>)) (s \<lparr> sd_rents := rs \<rparr>))"

definition client_of :: "pubkey \<Rightarrow> TradingInfrastructure \<Rightarrow> bool \<Rightarrow> TradingClient" where
  "client_of payer infrastructure use_seed_optimize =
    \<lparr> tc_payer = payer, tc_infrastructure = infrastructure, tc_middleware_manager = None,
      tc_use_seed_optimize = use_seed_optimize, tc_use_core_affinity = True, tc_log_enabled = True,
      tc_check_min_tip = False \<rparr>"

definition from_infrastructure :: "extern \<Rightarrow> pubkey \<Rightarrow> TradingInfrastructure \<Rightarrow> bool \<Rightarrow> TradingClient sdk_call" where
  "from_infrastructure X payer infrastructure use_seed_optimize =
    sbind (on_rpc (on_caches (fast_init X payer))) (\<lambda>_.
      sret (client_of payer infrastructure use_seed_optimize))"

text \<open>The second component says whether the set-up of the wrapped-SOL account is started in the
  background.\<close>

definition from_infrastructure_with_wsol_setup ::
  "extern \<Rightarrow> pubkey \<Rightarrow> TradingInfrastructure \<Rightarrow> bool \<Rightarrow> bool \<Rightarrow> (TradingClient \<times> bool) sdk_call" where
  "from_infrastructure_with_wsol_setup X payer infrastructure use_seed_optimize create_ata =
    sbind (on_rpc (on_caches (fast_init X payer))) (\<lambda>_.
      sret (client_of payer infrastructure use_seed_optimize, create_ata))"

definition trading_client_new ::
  "extern \<Rightarrow> rpc_node \<Rightarrow> (string \<Rightarrow> (unit, string) outcome) \<Rightarrow> string + u64 \<Rightarrow> string + u64 \<Rightarrow> pubkey \<Rightarrow> TradeConfig
    \<Rightarrow> TradingClient sdk_call" where
  "trading_client_new X R connect rent1 rent2 payer trade_config = (\<lambda>s.
    let s = s \<lparr> sd_log_enabled := cf_log_enabled trade_config \<rparr>;
        infra_config = from_trade_config trade_config
    in sbind (infrastructure_new connect rent1 rent2 infra_config) (\<lambda>infrastructure.
       sbind (on_rpc (on_caches (fast_init X payer))) (\<lambda>_.
       sbind (\<lambda>s. on_rpc (if cf_create_wsol_ata_on_startup trade_config
                          then ensure_wsol_ata X (sd_rents s) R payer else sret ()) s) (\<lambda>_.
       let instance = \<lparr> tc_payer = payer, tc_infrastructure = infrastructure, tc_middleware_manager = None,
             tc_use_seed_optimize = cf_use_seed_optimize trade_config,
             tc_use_core_affinity = cf_use_core_affinity trade_config,
             tc_log_enabled = cf_log_enabled trade_config, tc_check_min_tip = cf_check_min_tip trade_config \<rparr>
       in (\<lambda>s. (Ok instance, s \<lparr> sd_instance := Some instance \<rparr>))))) s)"

definition get_instance :: "TradingClient sdk_call" where
  "get_instance = (\<lambda>s. (unwrap_option (sd_instance s), s))"

definition pump_trade_client_new ::
  "extern \<Rightarrow> rpc_node \<Rightarrow> (string \<Rightarrow> (unit, string) outcome) \<Rightarrow> string + u64 \<Rightarrow> string + u64 \<Rightarrow> pubkey \<Rightarrow> TradeConfig
    \<Rightarrow> PumpTradeClient sdk_call" where
  "pump_trade_client_new X R connect rent1 rent2 payer trade_config =
    sbind (trading_client_new X R connect rent1 rent2 payer trade_config) (\<lambda>c. sret \<lparr> pc_inner = c \<rparr>)"

section \<open>Lemmas\<close>

lemma one_attempt_not_Err: "fst (one_attempt R payer ata ixs s) \<noteq> Err e"
  by (auto simp: one_attempt_def split: prod.splits outcome.splits)

lemma one_attempt_clock:
  "rs_clock s < rs_clock (snd (one_attempt R payer ata ixs s))
   \<and> rs_clock (snd (one_attempt R payer ata ixs s)) \<le> rs_clock s + 3"
  by (cases "rn_blockhash R (rs_clock s)") (auto simp: one_attempt_def split: outcome.split sum.splits)

text \<open>An attempt that is not accepted gives a reason, and one that is accepted was confirmed, or was
  refused by a node that sees the account.\<close>

lemma one_attempt_Created:
  assumes "fst (one_attempt R payer ata ixs s) = Ok Created"
  shows "\<exists>t. rs_clock s < t \<and> t \<le> rs_clock s + 2
    \<and> ((\<exists>h sig. rn_send_confirm R t payer ixs h = Inr sig) \<or> (\<exists>acc. rn_account R t ata = Inr acc))"
proof (cases "rn_blockhash R (rs_clock s)")
  case (Inr h)
  let ?t = "Suc (rs_clock s)"
  have run: "sign_alone payer ixs = Ok ()" "rn_in_time R ?t"
    using assms by (auto simp: one_attempt_def Inr split: outcome.splits if_splits)
  show ?thesis
  proof (cases "rn_send_confirm R ?t payer ixs h")
    case (Inl e)
    then have "\<exists>acc. rn_account R (Suc ?t) ata = Inr acc"
      using assms run by (auto simp: one_attempt_def Inr split: sum.splits)
    then show ?thesis by (intro exI [of _ "Suc ?t"]) auto
  next
    case (Inr sig)
    then show ?thesis by (intro exI [of _ ?t]) auto
  qed
qed (use assms in \<open>simp add: one_attempt_def\<close>)

lemma one_attempt_Failed: "fst (one_attempt R payer ata ixs s) = Ok (Failed e) \<Longrightarrow> e \<noteq> None"
  by (cases "rn_blockhash R (rs_clock s)") (auto simp: one_attempt_def split: outcome.splits sum.splits if_splits)

lemma wsol_attempts_Created:
  assumes "fst (wsol_attempts n R payer ata ixs e s) = Ok Created"
  shows "\<exists>t. rs_clock s < t \<and> t < rs_clock s + 3 * n
    \<and> ((\<exists>h sig. rn_send_confirm R t payer ixs h = Inr sig) \<or> (\<exists>acc. rn_account R t ata = Inr acc))"
  using assms
proof (induction n arbitrary: e s)
  case (Suc n)
  obtain r s' where one: "one_attempt R payer ata ixs s = (r, s')" by fastforce
  have clock: "rs_clock s < rs_clock s'" "rs_clock s' \<le> rs_clock s + 3"
    using one_attempt_clock [of s R payer ata ixs] one by simp_all
  from Suc.prems one consider "r = Ok Created" | e' where "fst (wsol_attempts n R payer ata ixs e' s') = Ok Created"
    by (auto split: outcome.splits attempt_result.splits)
  then show ?case
  proof cases
    case 1
    then show ?thesis using one_attempt_Created [of R payer ata ixs s] one by fastforce
  next
    case 2
    from Suc.IH [OF 2] clock show ?thesis by (elim exE conjE, intro exI conjI) auto
  qed
qed simp

lemma wsol_attempts_shape:
  "fst (wsol_attempts n R payer ata ixs e s) \<in> {Panic, Ok Created} \<union> range (\<lambda>e. Ok (Failed (Some e))) \<union>
    (if n = 0 then {Ok (Failed e)} else {})"
proof (induction n arbitrary: e s)
  case (Suc n)
  obtain r s' where one: "one_attempt R payer ata ixs s = (r, s')" by fastforce
  show ?case
  proof (cases r)
    case (Ok a)
    show ?thesis
    proof (cases a)
      case (Failed e')
      then have "e' \<noteq> None" using one Ok one_attempt_Failed [of R payer ata ixs s e'] by simp
      then show ?thesis using Suc.IH [of e' s'] one Ok Failed by (cases n) auto
    qed (use one Ok in simp)
  next
    case (Err x)
    then show ?thesis using one one_attempt_not_Err [of R payer ata ixs s x] by simp
  qed (use one in simp)
qed simp

lemma wsol_attempts_all_late:
  assumes "\<And>t. \<not> rn_in_time R t" "\<And>t. \<exists>h. rn_blockhash R t = Inr h" "sign_alone payer ixs = Ok ()"
  shows "fst (wsol_attempts n R payer ata ixs e s) = Ok (Failed (if n = 0 then e else Some err_timeout_10))"
proof (induction n arbitrary: e s)
  case (Suc n)
  obtain h where h: "rn_blockhash R (rs_clock s) = Inr h" using assms(2) by blast
  have "one_attempt R payer ata ixs s =
      (Ok (Failed (Some err_timeout_10)), s \<lparr> rs_clock := Suc (Suc (rs_clock s)) \<rparr>)"
    using assms(1,3) by (simp add: one_attempt_def h)
  then show ?case using Suc.IH [of "Some err_timeout_10"] by (cases n) simp_all
qed simp

lemma create_clients_Ok:
  assumes "create_swqos_clients connect url cfgs = Ok cs"
  shows "cs = map (\<lambda>c. the (ok_value (get_swqos_client connect url c)))
      (filter (\<lambda>c. \<not> is_blacklisted c \<and> ok_value (get_swqos_client connect url c) \<noteq> None) cfgs)"
  using assms
proof (induction cfgs arbitrary: cs)
  case (Cons c cfgs)
  then show ?case
    by (cases "get_swqos_client connect url c")
      (auto simp: ok_value_def obind_Ok_iff split: if_splits)
qed simp

lemma runs_split:
  assumes "runs I m r" "I (rs_caches s)"
  obtains c where "on_caches m s = (r, s \<lparr> rs_caches := c \<rparr>)" "I c"
  using assms by (cases "m (rs_caches s)") (auto simp: runs_def on_caches_def)

text \<open>What the set-up does once the address is known.\<close>

lemma ensure_wsol_run:
  assumes "coherent X rs (rs_caches s)" "wsol_account X payer = Ok ata"
  obtains c where "fst (ensure_wsol_ata X rs R payer s) =
    (case rn_account R (rs_clock s) ata of
       Inr _ \<Rightarrow> Ok ()
     | Inl _ \<Rightarrow>
        (case fst (wsol_attempts MAX_RETRIES R payer ata [wsol_create payer ata] None
             (s \<lparr> rs_caches := c, rs_clock := Suc (rs_clock s) \<rparr>)) of
           Ok Created \<Rightarrow> Ok () | Ok (Failed None) \<Rightarrow> Ok () | Ok (Failed (Some _)) \<Rightarrow> Panic
         | Err e \<Rightarrow> Err e | Panic \<Rightarrow> Panic))"
proof -
  have "runs (coherent X rs) (get_ata_fast X payer WSOL_TOKEN_ACCOUNT TOKEN_PROGRAM) (wsol_account X payer)"
    by (intro runs_intros)
  from runs_split [OF this assms(1)] obtain c1 where
    c1: "on_caches (get_ata_fast X payer WSOL_TOKEN_ACCOUNT TOKEN_PROGRAM) s = (Ok ata, s \<lparr> rs_caches := c1 \<rparr>)"
      "coherent X rs c1"
    unfolding assms(2) by blast
  have "runs (coherent X rs) (create_wsol_ata X rs payer) (obind (wsol_account X payer) (\<lambda>a. Ok [wsol_create payer a]))"
    unfolding create_wsol_ata_def by (intro runs_intros)
  then obtain c2 where
    "on_caches (create_wsol_ata X rs payer) (s \<lparr> rs_caches := c1, rs_clock := Suc (rs_clock s) \<rparr>)
      = (obind (wsol_account X payer) (\<lambda>a. Ok [wsol_create payer a]),
         s \<lparr> rs_caches := c1, rs_clock := Suc (rs_clock s) \<rparr> \<lparr> rs_caches := c2 \<rparr>)"
    by (rule runs_split [of _ _ _ "s \<lparr> rs_caches := c1, rs_clock := Suc (rs_clock s) \<rparr>"]) (simp_all add: c1(2))
  then have c2: "on_caches (create_wsol_ata X rs payer) (s \<lparr> rs_caches := c1, rs_clock := Suc (rs_clock s) \<rparr>)
      = (Ok [wsol_create payer ata], s \<lparr> rs_caches := c2, rs_clock := Suc (rs_clock s) \<rparr>)"
    by (simp add: assms(2))
  show ?thesis
  proof (rule that [of c2], cases "rn_account R (rs_clock s) ata")
    case (Inl e)
    obtain r s' where run: "wsol_attempts MAX_RETRIES R payer ata [wsol_create payer ata] None
        (s \<lparr> rs_caches := c2, rs_clock := Suc (rs_clock s) \<rparr>) = (r, s')" by fastforce
    show "fst (ensure_wsol_ata X rs R payer s) = (case rn_account R (rs_clock s) ata of
        Inl _ \<Rightarrow> (case fst (wsol_attempts MAX_RETRIES R payer ata [wsol_create payer ata] None
             (s \<lparr> rs_caches := c2, rs_clock := Suc (rs_clock s) \<rparr>)) of
           Ok Created \<Rightarrow> Ok () | Ok (Failed None) \<Rightarrow> Ok () | Ok (Failed (Some _)) \<Rightarrow> Panic
         | Err e \<Rightarrow> Err e | Panic \<Rightarrow> Panic)
      | Inr _ \<Rightarrow> Ok ())"
      by (cases r) (simp_all add: ensure_wsol_ata_def sbind_run c1(1) ask_ok_def Inl c2 run
          split: attempt_result.split option.split)
  qed (simp add: ensure_wsol_ata_def sbind_run c1(1) ask_ok_def)
qed

section \<open>Properties\<close>

text \<open>C12 (error): the set-up of the wrapped-SOL account returns only when the account is there. Starting from
  coherent caches it ends within three attempts and ten requests, with success or with a panic and never with
  an error value. Success means that one of these requests showed the account or confirmed its creation. It
  panics when every send is answered too late, whatever the account has become: a late attempt is
  not followed by another look at it.\<close>

theorem ensure_wsol_outcome:
  assumes "coherent X rs (rs_caches s)" "wsol_account X payer = Ok ata"
  shows "fst (ensure_wsol_ata X rs R payer s) \<in> {Ok (), Panic}
    \<and> (fst (ensure_wsol_ata X rs R payer s) = Ok () \<longrightarrow>
        (\<exists>t. rs_clock s \<le> t \<and> t < rs_clock s + 10 \<and> ((\<exists>acc. rn_account R t ata = Inr acc)
          \<or> (\<exists>h sig. rn_send_confirm R t payer [wsol_create payer ata] h = Inr sig))))
    \<and> ((\<exists>e. rn_account R (rs_clock s) ata = Inl e) \<and> (\<forall>t. \<not> rn_in_time R t \<and> (\<exists>h. rn_blockhash R t = Inr h)) \<longrightarrow>
        fst (ensure_wsol_ata X rs R payer s) = Panic)"
proof -
  obtain c where run: "fst (ensure_wsol_ata X rs R payer s) =
    (case rn_account R (rs_clock s) ata of
       Inr _ \<Rightarrow> Ok ()
     | Inl _ \<Rightarrow>
        (case fst (wsol_attempts MAX_RETRIES R payer ata [wsol_create payer ata] None
             (s \<lparr> rs_caches := c, rs_clock := Suc (rs_clock s) \<rparr>)) of
           Ok Created \<Rightarrow> Ok () | Ok (Failed None) \<Rightarrow> Ok () | Ok (Failed (Some _)) \<Rightarrow> Panic
         | Err e \<Rightarrow> Err e | Panic \<Rightarrow> Panic))"
    by (rule ensure_wsol_run [OF assms])
  let ?s = "s \<lparr> rs_caches := c, rs_clock := Suc (rs_clock s) \<rparr>"
  let ?run = "fst (wsol_attempts MAX_RETRIES R payer ata [wsol_create payer ata] None ?s)"
  have shape: "?run = Panic \<or> ?run = Ok Created \<or> (\<exists>e. ?run = Ok (Failed (Some e)))"
    using wsol_attempts_shape [of MAX_RETRIES R payer ata "[wsol_create payer ata]" None ?s] by (auto simp: MAX_RETRIES_def)
  have signed: "sign_alone payer [wsol_create payer ata] = Ok ()"
    by (simp add: wsol_create_def create_ata_instruction_def ix_signers_def SYSTEM_PROGRAM_META_def)
  show ?thesis
  proof (cases "rn_account R (rs_clock s) ata")
    case (Inl e)
    have "?run = Ok (Failed (Some err_timeout_10))" if "\<forall>t. \<not> rn_in_time R t \<and> (\<exists>h. rn_blockhash R t = Inr h)"
      using wsol_attempts_all_late [OF _ _ signed] that by (simp add: MAX_RETRIES_def)
    moreover have "\<exists>t. rs_clock s \<le> t \<and> t < rs_clock s + 10 \<and> ((\<exists>acc. rn_account R t ata = Inr acc)
          \<or> (\<exists>h sig. rn_send_confirm R t payer [wsol_create payer ata] h = Inr sig))" if created: "?run = Ok Created"
    proof -
      obtain t where "rs_clock ?s < t" "t < rs_clock ?s + 3 * MAX_RETRIES"
        "(\<exists>h sig. rn_send_confirm R t payer [wsol_create payer ata] h = Inr sig) \<or> (\<exists>acc. rn_account R t ata = Inr acc)"
        using wsol_attempts_Created [OF created] by blast
      then show ?thesis by (intro exI [of _ t]) (auto simp: MAX_RETRIES_def)
    qed
    ultimately show ?thesis using shape unfolding run by (auto simp: Inl)
  qed (auto simp: run intro!: exI [of _ "rs_clock s"])
qed

definition late_node :: rpc_node where
  "late_node = sample_node \<lparr> rn_account := \<lambda>t a. Inl ''missing'', rn_in_time := \<lambda>t. False \<rparr>"

theorem ensure_wsol_outcome_witness:
  "\<exists>ata. wsol_account plain_extern 5 = Ok ata
    \<and> fst (ensure_wsol_ata plain_extern initial_rents late_node 5 fresh_rpc) = Panic
    \<and> fst (ensure_wsol_ata plain_extern initial_rents sample_node 5 fresh_rpc) \<in> {Ok (), Panic}"
proof -
  have a: "wsol_account plain_extern 5 = Ok (ASSOCIATED_TOKEN_PROGRAM_ID + 1)"
    by (simp add: wsol_account_def ata_address_def ata_compute_def seed_allowed_def plain_extern_def derive_def
        get_associated_token_address_with_program_id_def)
  have c: "coherent plain_extern initial_rents (rs_caches fresh_rpc)" by (simp add: fresh_rpc_def coherent_empty)
  have "(\<exists>e. rn_account late_node (rs_clock fresh_rpc) (ASSOCIATED_TOKEN_PROGRAM_ID + 1) = Inl e)
    \<and> (\<forall>t. \<not> rn_in_time late_node t \<and> (\<exists>h. rn_blockhash late_node t = Inr h))"
    by (simp add: late_node_def sample_node_def)
  then show ?thesis
    using ensure_wsol_outcome [OF c a, of late_node] ensure_wsol_outcome [OF c a, of sample_node] a by blast
qed

text \<open>C13 (functional): what start-up gives. When \<open>TradingClient::new\<close> returns a client, it has the payer and the flags of the
  configuration and no middlewares, the logging flag and the rents of the process are set, the client is
  what \<open>get_instance\<close> returns from then on, and its relays are exactly the configured ones, in their order,
  that are not blacklisted and can connect.\<close>

theorem startup_instance:
  assumes "trading_client_new X R connect (Inr rent1) (Inr rent2) payer cfg s = (Ok c, s')"
  shows "fst (get_instance s') = Ok c \<and> sd_log_enabled s' = cf_log_enabled cfg
    \<and> sd_rents s' = \<lparr> spl_token_rent = rent1, spl_token_2022_rent = rent2 \<rparr>
    \<and> tc_payer c = payer \<and> tc_middleware_manager c = None
    \<and> tc_use_seed_optimize c = cf_use_seed_optimize cfg \<and> tc_use_core_affinity c = cf_use_core_affinity cfg
    \<and> tc_log_enabled c = cf_log_enabled cfg \<and> tc_check_min_tip c = cf_check_min_tip cfg
    \<and> map Ok (ti_swqos_clients (tc_infrastructure c)) =
        filter (\<lambda>r. ok_value r \<noteq> None) (map (get_swqos_client connect (cf_rpc_url cfg))
          (filter (\<lambda>q. \<not> is_blacklisted q) (cf_swqos_configs cfg)))"
proof -
  have clients: "map Ok cs = filter (\<lambda>r. ok_value r \<noteq> None) (map (get_swqos_client connect url)
      (filter (\<lambda>q. \<not> is_blacklisted q) cfgs))" if "create_swqos_clients connect url cfgs = Ok cs" for url cfgs cs
    using that
  proof (induction cfgs arbitrary: cs)
    case (Cons q cfgs)
    then show ?case
      by (cases "get_swqos_client connect url q") (auto simp: ok_value_def obind_Ok_iff split: if_splits)
  qed simp
  show ?thesis
    using assms clients
    by (auto simp: trading_client_new_def infrastructure_new_def update_rents_def sbind_run on_rpc_def Let_def
        from_trade_config_def get_instance_def split: prod.splits outcome.splits)
qed

definition sample_config :: TradeConfig where
  "sample_config = with_wsol_ata_config (trade_config_new ''http://node''
     [CfgDefault ''http://node'', CfgNextBlock [] Frankfurt None] ConfirmedLevel) False True"

definition fresh_sdk :: sdk_state where
  "fresh_sdk = \<lparr> sd_rpc = fresh_rpc, sd_rents = initial_rents, sd_log_enabled = False, sd_instance = None \<rparr>"

lemma sample_init: "fst (fast_init plain_extern 5 empty_caches) = Ok ()"
  by (simp add: fast_init_def Let_def get_pf_user_volume_accumulator_pda_def get_ps_user_volume_accumulator_pda_def
      get_cached_pda_def empty_caches_def sbind_run get_ata_fast_def get_ata_fast_use_seed_def ata_get_def ata_compute_def
      seed_allowed_def close_wsol_cached_def get_cached_instructions_def plain_extern_def derive_def close_account_def
      get_associated_token_address_with_program_id_def pf_user_volume_accumulator_pda_def
      ps_user_volume_accumulator_pda_def)

theorem startup_instance_witness:
  "\<exists>c s'. trading_client_new plain_extern sample_node (\<lambda>_. Ok ()) (Inr 2039280) (Inr 2074080) 5 sample_config fresh_sdk = (Ok c, s')
    \<and> fst (get_instance s') = Ok c \<and> length (ti_swqos_clients (tc_infrastructure c)) = 1"
proof -
  let ?run = "trading_client_new plain_extern sample_node (\<lambda>_. Ok ()) (Inr 2039280) (Inr 2074080) 5 sample_config fresh_sdk"
  obtain k where init: "fast_init plain_extern 5 empty_caches = (Ok (), k)"
    using sample_init by (cases "fast_init plain_extern 5 empty_caches") simp
  have "\<exists>c s'. ?run = (Ok c, s')"
    by (simp add: trading_client_new_def infrastructure_new_def update_rents_def sbind_run on_rpc_def on_caches_def init
        fresh_sdk_def fresh_rpc_def sample_config_def trade_config_new_def with_wsol_ata_config_def from_trade_config_def
        is_blacklisted_def SWQOS_BLACKLIST_def Let_def)
  then obtain c s' where run: "?run = (Ok c, s')" by blast
  let ?cs = "filter (\<lambda>r. ok_value r \<noteq> None) (map (get_swqos_client (\<lambda>_. Ok ()) (cf_rpc_url sample_config))
      (filter (\<lambda>q. \<not> is_blacklisted q) (cf_swqos_configs sample_config)))"
  from startup_instance [OF run] have inst: "fst (get_instance s') = Ok c"
    and clients: "map Ok (ti_swqos_clients (tc_infrastructure c)) = ?cs"
    by blast+
  have one: "length ?cs = 1"
    by (simp add: sample_config_def trade_config_new_def with_wsol_ata_config_def is_blacklisted_def SWQOS_BLACKLIST_def
        ok_value_def)
  have "length (ti_swqos_clients (tc_infrastructure c)) = 1"
    using one by (simp only: clients [symmetric] length_map)
  then show ?thesis using run inst by blast
qed

end
