(* ===== verification/Serialization.thy ===== *)
theory Serialization
  imports Tx_Build
begin

text \<open>
  Serialization of transactions, \<open>src/swqos/serialization.rs\<close>, and the encoding helpers of
  \<open>src/swqos/common.rs\<close>: a bounded pool of byte buffers, the serializers that borrow a buffer, and
  the guard that gives it back. \<open>bincode\<close>, \<open>base64\<close> and \<open>bs58\<close> are parameters. The capacity that a
  buffer keeps when it is cleared is not modelled: a buffer is its content.
\<close>

section \<open>The code\<close>

type_synonym buffer = "u8 list"

record ZeroAllocSerializer =
  za_buffer_pool :: "buffer list"
  za_capacity :: nat
  za_buffer_size :: nat

text \<open>\<open>ArrayQueue::new(0)\<close> panics; otherwise the loop fills the queue.\<close>

definition serializer_new :: "nat \<Rightarrow> nat \<Rightarrow> (ZeroAllocSerializer, string) outcome" where
  "serializer_new pool_size buffer_size =
    (if pool_size = 0 then Panic
     else Ok \<lparr> za_buffer_pool = replicate pool_size (replicate buffer_size 0),
               za_capacity = pool_size, za_buffer_size = buffer_size \<rparr>)"

definition pop_buffer :: "ZeroAllocSerializer \<Rightarrow> buffer \<times> ZeroAllocSerializer" where
  "pop_buffer self =
    (case za_buffer_pool self of
       b # bs \<Rightarrow> (b, self \<lparr> za_buffer_pool := bs \<rparr>)
     | [] \<Rightarrow> (replicate (za_buffer_size self) 0, self))"

definition return_buffer :: "buffer \<Rightarrow> ZeroAllocSerializer \<Rightarrow> ZeroAllocSerializer" where
  "return_buffer buf self =
    (if length (za_buffer_pool self) < za_capacity self
     then self \<lparr> za_buffer_pool := za_buffer_pool self @ [buf] \<rparr> else self)"

text \<open>The buffer is popped first, cleared and filled with the serialized bytes. When the serialization fails
  the \<open>?\<close> drops the buffer.\<close>

definition serialize_zero_alloc ::
  "('a \<Rightarrow> string + u8 list) \<Rightarrow> 'a \<Rightarrow> (ZeroAllocSerializer, buffer, string) stateful" where
  "serialize_zero_alloc bincode data = (\<lambda>self.
    case pop_buffer self of
      (buf, self) \<Rightarrow>
        (case bincode data of
           Inl e \<Rightarrow> (Err e, self)
         | Inr serialized \<Rightarrow>
             let buf = []; buf = buf @ serialized in (Ok buf, self)))"

definition serializer_pool_stats :: "ZeroAllocSerializer \<Rightarrow> nat \<times> nat" where
  "serializer_pool_stats self = (length (za_buffer_pool self), za_capacity self)"

definition SERIALIZER_POOL_SIZE :: nat where "SERIALIZER_POOL_SIZE = 10000"
definition SERIALIZER_BUFFER_SIZE :: nat where "SERIALIZER_BUFFER_SIZE = 256 * 1024"

text \<open>The encodings that the code names; \<open>OtherEncoding\<close> stands for every other one.\<close>

datatype UiTransactionEncoding = Base58 | Base64 | OtherEncoding

record ser_extern =
  se_bincode :: "VersionedTransaction \<Rightarrow> string + u8 list"
  se_base64 :: "u8 list \<Rightarrow> string"
  se_base58 :: "u8 list \<Rightarrow> string"

definition err_encoding :: string where "err_encoding = ''Unsupported encoding''"

definition encode_bytes :: "ser_extern \<Rightarrow> u8 list \<Rightarrow> UiTransactionEncoding \<Rightarrow> (string, string) outcome" where
  "encode_bytes E bytes encoding =
    (case encoding of
       Base58 \<Rightarrow> Ok (se_base58 E bytes)
     | Base64 \<Rightarrow> Ok (se_base64 E bytes)
     | OtherEncoding \<Rightarrow> Err err_encoding)"

text \<open>\<open>get_signature\<close> of a transaction is its first signature and panics without one.\<close>

definition get_signature :: "VersionedTransaction \<Rightarrow> (signature, 'e) outcome" where
  "get_signature tx = (case tx_signatures tx of sig # _ \<Rightarrow> Ok sig | [] \<Rightarrow> Panic)"

definition serialize_transaction_sync ::
  "ser_extern \<Rightarrow> VersionedTransaction \<Rightarrow> UiTransactionEncoding
    \<Rightarrow> (ZeroAllocSerializer, string \<times> signature, string) stateful" where
  "serialize_transaction_sync E transaction encoding =
    sbind (slift (get_signature transaction)) (\<lambda>signature.
    sbind (serialize_zero_alloc (se_bincode E) transaction) (\<lambda>serialized_tx.
    sbind (slift (encode_bytes E serialized_tx encoding)) (\<lambda>serialized.
      (\<lambda>s. (Ok (serialized, signature), return_buffer serialized_tx s)))))"

text \<open>The buffer of a guard goes back to the pool when the guard is dropped, unless it is empty.\<close>

definition drop_guard :: "buffer \<Rightarrow> ZeroAllocSerializer \<Rightarrow> ZeroAllocSerializer" where
  "drop_guard buf self = (if buf \<noteq> [] then return_buffer buf self else self)"

definition serialize_transaction_bincode_sync ::
  "ser_extern \<Rightarrow> VersionedTransaction \<Rightarrow> (ZeroAllocSerializer, buffer \<times> signature, string) stateful" where
  "serialize_transaction_bincode_sync E transaction =
    sbind (slift (get_signature transaction)) (\<lambda>signature.
    sbind (serialize_zero_alloc (se_bincode E) transaction) (\<lambda>serialized_tx. sret (serialized_tx, signature)))"

fun serialize_transactions_batch_sync ::
  "ser_extern \<Rightarrow> VersionedTransaction list \<Rightarrow> UiTransactionEncoding
    \<Rightarrow> (ZeroAllocSerializer, string list, string) stateful" where
  "serialize_transactions_batch_sync E [] encoding = sret []"
| "serialize_transactions_batch_sync E (tx # txs) encoding =
    sbind (serialize_zero_alloc (se_bincode E) tx) (\<lambda>serialized_tx.
    sbind (slift (encode_bytes E serialized_tx encoding)) (\<lambda>encoded.
    sbind (\<lambda>s. (Ok (), return_buffer serialized_tx s)) (\<lambda>_.
    sbind (serialize_transactions_batch_sync E txs encoding) (\<lambda>rest. sret (encoded # rest)))))"

text \<open>The two asynchronous variants never wait and have the same bodies; \<open>Base64Encoder::encode\<close> is the encoder alone.\<close>

definition serialize_transaction ::
  "ser_extern \<Rightarrow> VersionedTransaction \<Rightarrow> UiTransactionEncoding
    \<Rightarrow> (ZeroAllocSerializer, string \<times> signature, string) stateful" where
  "serialize_transaction E transaction encoding =
    sbind (slift (get_signature transaction)) (\<lambda>signature.
    sbind (serialize_zero_alloc (se_bincode E) transaction) (\<lambda>serialized_tx.
    sbind (slift (encode_bytes E serialized_tx encoding)) (\<lambda>serialized.
      (\<lambda>s. (Ok (serialized, signature), return_buffer serialized_tx s)))))"

fun serialize_transactions_batch ::
  "ser_extern \<Rightarrow> VersionedTransaction list \<Rightarrow> UiTransactionEncoding
    \<Rightarrow> (ZeroAllocSerializer, string list, string) stateful" where
  "serialize_transactions_batch E [] encoding = sret []"
| "serialize_transactions_batch E (tx # txs) encoding =
    sbind (serialize_zero_alloc (se_bincode E) tx) (\<lambda>serialized_tx.
    sbind (slift (encode_bytes E serialized_tx encoding)) (\<lambda>encoded.
    sbind (\<lambda>s. (Ok (), return_buffer serialized_tx s)) (\<lambda>_.
    sbind (serialize_transactions_batch E txs encoding) (\<lambda>rest. sret (encoded # rest)))))"

definition base64_encode :: "ser_extern \<Rightarrow> u8 list \<Rightarrow> string" where
  "base64_encode E data = se_base64 E data"

text \<open>\<open>Base64Encoder::serialize_and_encode\<close> keeps the buffer it borrowed.\<close>

definition base64_serialize_and_encode ::
  "ser_extern \<Rightarrow> VersionedTransaction \<Rightarrow> (ZeroAllocSerializer, string, string) stateful" where
  "base64_serialize_and_encode E value =
    sbind (serialize_zero_alloc (se_bincode E) value) (\<lambda>serialized. sret (se_base64 E serialized))"

text \<open>The helpers of \<open>common.rs\<close>, which do not use the pool.\<close>

definition to_base64_string :: "ser_extern \<Rightarrow> VersionedTransaction \<Rightarrow> (string, string) outcome" where
  "to_base64_string E tx = (case se_bincode E tx of Inr bytes \<Rightarrow> Ok (se_base64 E bytes) | Inl _ \<Rightarrow> Panic)"

definition serialize_smart_transaction_and_encode ::
  "ser_extern \<Rightarrow> VersionedTransaction \<Rightarrow> UiTransactionEncoding \<Rightarrow> (string \<times> signature, string) outcome" where
  "serialize_smart_transaction_and_encode E transaction encoding =
    obind (get_signature transaction) (\<lambda>signature.
    obind (of_sum (se_bincode E transaction)) (\<lambda>serialized_tx.
    obind (encode_bytes E serialized_tx encoding) (\<lambda>serialized. Ok (serialized, signature))))"

section \<open>The pool\<close>

definition pool_ok :: "ZeroAllocSerializer \<Rightarrow> bool" where
  "pool_ok self = (length (za_buffer_pool self) \<le> za_capacity self)"

definition pool_size :: "ZeroAllocSerializer \<Rightarrow> nat" where
  "pool_size self = length (za_buffer_pool self)"

text \<open>A borrowed buffer, once it is cleared.\<close>

definition cleared_buffer :: "ZeroAllocSerializer \<Rightarrow> buffer \<times> ZeroAllocSerializer" where
  "cleared_buffer self = (case pop_buffer self of (buf, self) \<Rightarrow> ([], self))"

definition capped :: "nat \<Rightarrow> ZeroAllocSerializer \<Rightarrow> bool" where
  "capped n self = (za_capacity self = n \<and> pool_ok self)"

interpretation ser: object_pool cleared_buffer return_buffer pool_size SERIALIZER_POOL_SIZE
  "capped SERIALIZER_POOL_SIZE" "[]"
proof
  fix p b
  show "fst (cleared_buffer p) = []" by (simp add: cleared_buffer_def split: prod.split)
  show "pool_size (snd (cleared_buffer p)) = pool_size p - 1"
    by (cases "za_buffer_pool p") (simp_all add: cleared_buffer_def pop_buffer_def pool_size_def)
  assume "capped SERIALIZER_POOL_SIZE p"
  then show "capped SERIALIZER_POOL_SIZE (snd (cleared_buffer p))"
    and "capped SERIALIZER_POOL_SIZE (return_buffer b p)"
    and "pool_size (return_buffer b p) = min SERIALIZER_POOL_SIZE (Suc (pool_size p))"
    and "pool_size p \<le> SERIALIZER_POOL_SIZE"
    by (cases "za_buffer_pool p",
        auto simp: capped_def pool_ok_def cleared_buffer_def pop_buffer_def pool_size_def return_buffer_def)
qed

lemma serializer_new_capped:
  "\<exists>s. serializer_new SERIALIZER_POOL_SIZE SERIALIZER_BUFFER_SIZE = Ok s \<and> capped SERIALIZER_POOL_SIZE s
    \<and> pool_size s = SERIALIZER_POOL_SIZE"
  by (simp add: serializer_new_def capped_def pool_ok_def pool_size_def SERIALIZER_POOL_SIZE_def)

section \<open>Lemmas\<close>

lemma serialize_zero_alloc_run:
  "serialize_zero_alloc bincode data s = (of_sum (bincode data), snd (cleared_buffer s))"
  by (simp add: serialize_zero_alloc_def cleared_buffer_def split: prod.split sum.split)

lemma serialize_sync_run:
  "serialize_transaction_sync E tx enc s =
    (serialize_smart_transaction_and_encode E tx enc,
     (case tx_signatures tx of
        [] \<Rightarrow> s
      | _ \<Rightarrow> (case serialize_smart_transaction_and_encode E tx enc of
           Ok _ \<Rightarrow> (case se_bincode E tx of Inr bytes \<Rightarrow> return_buffer bytes (snd (cleared_buffer s))
                    | Inl _ \<Rightarrow> snd (cleared_buffer s))
         | _ \<Rightarrow> snd (cleared_buffer s))))"
  by (cases "tx_signatures tx"; cases "se_bincode E tx"; cases enc)
    (simp_all add: serialize_transaction_sync_def serialize_smart_transaction_and_encode_def get_signature_def
      sbind_run serialize_zero_alloc_run encode_bytes_def)

section \<open>Properties\<close>

lemma async_variants: "serialize_transaction = serialize_transaction_sync"
  "serialize_transactions_batch = serialize_transactions_batch_sync"
proof -
  show "serialize_transaction = serialize_transaction_sync"
    by (intro ext) (simp add: serialize_transaction_def serialize_transaction_sync_def)
  have "serialize_transactions_batch E txs encoding = serialize_transactions_batch_sync E txs encoding" for E txs encoding
    by (induction txs) simp_all
  then show "serialize_transactions_batch = serialize_transactions_batch_sync" by blast
qed

text \<open>C20 (refinement): the pooled serializer is the plain one. Whatever buffers the pool holds, \<open>serialize_transaction_sync\<close>
  gives the text and the signature that the version without a pool gives, and the pool stays within its
  capacity. A success leaves as many buffers as before, or one when there was none; every failure after the
  signature was read costs the pool one buffer for good.\<close>

theorem pooled_encoding:
  assumes "capped SERIALIZER_POOL_SIZE s"
  shows "fst (serialize_transaction_sync E tx enc s) = serialize_smart_transaction_and_encode E tx enc
    \<and> capped SERIALIZER_POOL_SIZE (snd (serialize_transaction_sync E tx enc s))
    \<and> pool_size (snd (serialize_transaction_sync E tx enc s)) =
        (if tx_signatures tx = [] then pool_size s
         else if ok_value (serialize_smart_transaction_and_encode E tx enc) = None then pool_size s - 1
         else max 1 (pool_size s))"
proof -
  have pos: "0 < SERIALIZER_POOL_SIZE" by (simp add: SERIALIZER_POOL_SIZE_def)
  have bytes: "\<exists>b. se_bincode E tx = Inr b" if "serialize_smart_transaction_and_encode E tx enc = Ok r" for r
    using that by (cases "se_bincode E tx") (auto simp: serialize_smart_transaction_and_encode_def obind_Ok_iff)
  show ?thesis
    using assms ser.cycle_size [OF assms pos] ser.cycle_sound [OF assms] ser.acquire_sound [OF assms]
      ser.acquire_size [of s] bytes
    by (cases "tx_signatures tx"; cases "serialize_smart_transaction_and_encode E tx enc")
      (auto simp: serialize_sync_run ok_value_def split: sum.split)
qed

definition small_serializer :: ZeroAllocSerializer where
  "small_serializer = \<lparr> za_buffer_pool = [[1, 2, 3], [4]], za_capacity = 10000, za_buffer_size = 3 \<rparr>"

definition sample_ser :: ser_extern where
  "sample_ser = \<lparr> se_bincode = (\<lambda>tx. if tx_signatures tx = [13] then Inl ''unlucky'' else Inr [7, 7]),
     se_base64 = (\<lambda>bs. replicate (length bs) (CHR ''A'')), se_base58 = (\<lambda>bs. []) \<rparr>"

theorem pooled_encoding_witness:
  "fst (serialize_transaction_sync sample_ser \<lparr> tx_signatures = [9], tx_message = Legacy [] 1 2 \<rparr> Base64 small_serializer)
     = Ok (''AA'', 9)
   \<and> pool_size (snd (serialize_transaction_sync sample_ser \<lparr> tx_signatures = [13], tx_message = Legacy [] 1 2 \<rparr> Base64
        small_serializer)) = 1"
proof -
  have c: "capped SERIALIZER_POOL_SIZE small_serializer"
    by (simp add: capped_def pool_ok_def small_serializer_def SERIALIZER_POOL_SIZE_def)
  show ?thesis
    using pooled_encoding [OF c, of sample_ser "\<lparr> tx_signatures = [9], tx_message = Legacy [] 1 2 \<rparr>" Base64]
      pooled_encoding [OF c, of sample_ser "\<lparr> tx_signatures = [13], tx_message = Legacy [] 1 2 \<rparr>" Base64]
    by (simp add: serialize_smart_transaction_and_encode_def get_signature_def sample_ser_def encode_bytes_def
        ok_value_def pool_size_def small_serializer_def)
qed

end
