(* ===== verification/Relay_Clients.thy ===== *)
theory Relay_Clients
  imports Serialization Executor
begin

text \<open>
  The relay clients \<open>src/swqos/*.rs\<close>: what each of the fifteen sends, how it reads the answer, and how it
  confirms. The network, the JSON parser, the encoders and the random choice of a tip account are parameters
  (the record \<open>relay_net\<close>); printing has no effect and is left out. The numbers of the connection pools and the
  timeouts of the HTTP client are left to the network.
\<close>

section \<open>Requests and answers\<close>

datatype json = JNull | JBool bool | JNum int | JStr string | JArr "json list" | JObj "(string \<times> json) list"

text \<open>\<open>Value::get\<close> with a key, and \<open>as_str\<close>.\<close>

fun json_get :: "json \<Rightarrow> string \<Rightarrow> json option" where
  "json_get (JObj kvs) k = map_of kvs k"
| "json_get j k = None"

fun json_str :: "json \<Rightarrow> string option" where
  "json_str (JStr s) = Some s"
| "json_str j = None"

datatype http_body = JsonBody json | TextBody string | BytesBody "u8 list"

record http_request =
  hr_url :: string
  hr_query :: "(string \<times> string) list"
  hr_headers :: "(string \<times> string) list"
  hr_body :: http_body

text \<open>The text of an answer can fail to arrive after its status.\<close>

record http_response =
  ht_status :: nat
  ht_text :: "string + string"

definition is_success :: "http_response \<Rightarrow> bool" where
  "is_success r = (200 \<le> ht_status r \<and> ht_status r < 300)"

record relay_net =
  rl_http :: "http_request \<Rightarrow> string + http_response"
  rl_parse_json :: "string \<Rightarrow> json option"
  rl_ser :: ser_extern
  rl_confirm :: "string \<Rightarrow> confirm_rpc"
  rl_rpc_send :: "string \<Rightarrow> VersionedTransaction \<Rightarrow> string + signature"
  rl_quic_send :: "string \<Rightarrow> nat \<Rightarrow> u8 list \<Rightarrow> string + unit"
  rl_quic_reconnect :: "string \<Rightarrow> string + unit"
  rl_show_status :: "nat \<Rightarrow> string"
  rl_sha256_hex :: "string \<Rightarrow> string"
  rl_choose :: "pubkey list \<Rightarrow> pubkey option"
  rl_json_error :: "string \<Rightarrow> string"
  rl_parse_signature :: "string \<Rightarrow> string + signature"

definition other_errors :: "('s, 'a, string) stateful \<Rightarrow> ('s, 'a, sdk_error) stateful" where
  "other_errors m = (\<lambda>s. case m s of (r, s') \<Rightarrow> (map_err OtherErr r, s'))"

text \<open>\<open>send().await?\<close>, and \<open>send().await?.text().await?\<close>\<close>

definition http_post :: "relay_net \<Rightarrow> http_request \<Rightarrow> (http_response, sdk_error) outcome" where
  "http_post N request = map_err OtherErr (of_sum (rl_http N request))"

definition http_text :: "http_response \<Rightarrow> (string, sdk_error) outcome" where
  "http_text r = map_err OtherErr (of_sum (ht_text r))"

text \<open>The end of every \<open>send_transaction\<close>: poll the client's own node for the signature.\<close>

definition confirm_sent :: "relay_net \<Rightarrow> string \<Rightarrow> signature \<Rightarrow> bool \<Rightarrow> (unit, sdk_error) outcome" where
  "confirm_sent N rpc_url sig wait_confirmation =
    (case poll_transaction_confirmation POLL_ROUNDS (rl_confirm N rpc_url) sig wait_confirmation of
       Some (Ok _) \<Rightarrow> Ok () | Some (Err e) \<Rightarrow> Err e | _ \<Rightarrow> Panic)"

abbreviation token :: "swqos_client \<Rightarrow> string" where
  "token c \<equiv> unwrap_or [] (sc_auth_token c)"

text \<open>What the clients that send text have in common: serialize and encode, post the request, read the answer, confirm.\<close>

definition post_encoded ::
  "relay_net \<Rightarrow> swqos_client \<Rightarrow> (string \<Rightarrow> http_request) \<Rightarrow> (http_response \<Rightarrow> (unit, sdk_error) outcome)
    \<Rightarrow> VersionedTransaction \<Rightarrow> bool \<Rightarrow> (ZeroAllocSerializer, unit, sdk_error) stateful" where
  "post_encoded N c request read_answer transaction wait_confirmation =
    sbind (other_errors (serialize_transaction_sync (rl_ser N) transaction Base64)) (\<lambda>(content, signature).
    sbind (slift (http_post N (request content))) (\<lambda>response.
    sbind (slift (read_answer response)) (\<lambda>_.
    slift (confirm_sent N (sc_rpc_url c) signature wait_confirmation))))"

text \<open>Nine clients need the text of the answer only to print what it says: a rejection is no error.\<close>

definition read_and_print :: "http_response \<Rightarrow> (unit, sdk_error) outcome" where
  "read_and_print r = obind (http_text r) (\<lambda>response_text. Ok ())"

definition json_header :: "string \<times> string" where "json_header = (''Content-Type'', ''application/json'')"
definition keep_alive_headers :: "(string \<times> string) list" where
  "keep_alive_headers = [(''Connection'', ''keep-alive''), (''Keep-Alive'', ''timeout=30, max=1000'')]"

definition send_body :: "json \<Rightarrow> string \<Rightarrow> (string \<times> json) list \<Rightarrow> json" where
  "send_body req_id content options = JObj [(''jsonrpc'', JStr ''2.0''), (''id'', req_id), (''method'', JStr ''sendTransaction''),
     (''params'', JArr [JStr content, JObj options])]"

definition BASE64_OPTION :: "string \<times> json" where "BASE64_OPTION = (''encoding'', JStr ''base64'')"
definition SKIP_PREFLIGHT :: "string \<times> json" where "SKIP_PREFLIGHT = (''skipPreflight'', JBool True)"

section \<open>The requests\<close>

definition jito_url :: "swqos_client \<Rightarrow> string \<Rightarrow> string" where
  "jito_url self path = sc_endpoint self @ path @ (if token self = [] then [] else ''?uuid='' @ token self)"

definition jito_headers :: "swqos_client \<Rightarrow> (string \<times> string) list" where
  "jito_headers self = (if token self = [] then [] else [(''x-jito-auth'', token self)]) @ [json_header]"

definition jito_request :: "swqos_client \<Rightarrow> string \<Rightarrow> http_request" where
  "jito_request self content = \<lparr> hr_url = jito_url self ''/api/v1/transactions'', hr_query = [],
     hr_headers = jito_headers self, hr_body = JsonBody (send_body (JNum 1) content [BASE64_OPTION]) \<rparr>"

definition ends_with :: "string \<Rightarrow> string \<Rightarrow> bool" where "ends_with s t = suffix t s"

definition trim_end_slashes :: "string \<Rightarrow> string" where
  "trim_end_slashes s = rev (dropWhile (\<lambda>ch. ch = CHR ''/'') (rev s))"

definition SUBMIT_PATH :: string where "SUBMIT_PATH = ''/api/v2/submit''"

definition nextblock_endpoint :: "string \<Rightarrow> string" where
  "nextblock_endpoint endpoint =
    (if ends_with endpoint SUBMIT_PATH then endpoint else trim_end_slashes endpoint @ SUBMIT_PATH)"

definition nextblock_request :: "swqos_client \<Rightarrow> string \<Rightarrow> http_request" where
  "nextblock_request self content = \<lparr> hr_url = nextblock_endpoint (sc_endpoint self), hr_query = [],
     hr_headers = [(''Authorization'', token self), json_header],
     hr_body = JsonBody (JObj [(''transaction'', JObj [(''content'', JStr content)]), (''frontRunningProtection'', JBool False)]) \<rparr>"

definition zeroslot_request :: "swqos_client \<Rightarrow> string \<Rightarrow> http_request" where
  "zeroslot_request self content = \<lparr> hr_url = sc_endpoint self @ ''/?api-key='' @ token self, hr_query = [],
     hr_headers = [json_header], hr_body = JsonBody (send_body (JNum 1) content [BASE64_OPTION, SKIP_PREFLIGHT]) \<rparr>"

definition temporal_request :: "swqos_client \<Rightarrow> string \<Rightarrow> http_request" where
  "temporal_request self content = \<lparr> hr_url = sc_endpoint self @ ''/?c='' @ token self, hr_query = [],
     hr_headers = [json_header], hr_body = JsonBody (send_body (JNum 1) content [BASE64_OPTION]) \<rparr>"

text \<open>Bloxroute formats its bodies as text.\<close>

definition dq :: string where "dq = [CHR 0x22]"

definition quoted :: "string \<Rightarrow> string" where "quoted s = dq @ s @ dq"

definition blox_entry :: "string \<Rightarrow> string" where
  "blox_entry content = ''{'' @ quoted ''transaction'' @ '':{'' @ quoted ''content'' @ '':'' @ quoted content @ ''}''"

definition bloxroute_request :: "swqos_client \<Rightarrow> string \<Rightarrow> http_request" where
  "bloxroute_request self content = \<lparr> hr_url = sc_endpoint self @ ''/api/v2/submit'', hr_query = [],
     hr_headers = [json_header, (''Authorization'', token self)],
     hr_body = TextBody (blox_entry content @ '','' @ quoted ''frontRunningProtection'' @ '':false,''
       @ quoted ''useStakedRPCs'' @ '':true}'') \<rparr>"

definition node1_request :: "swqos_client \<Rightarrow> string \<Rightarrow> http_request" where
  "node1_request self content = \<lparr> hr_url = sc_endpoint self, hr_query = [],
     hr_headers = [json_header, (''api-key'', token self)],
     hr_body = JsonBody (send_body (JNum 1) content [BASE64_OPTION, SKIP_PREFLIGHT]) \<rparr>"

definition flashblock_request :: "swqos_client \<Rightarrow> string \<Rightarrow> http_request" where
  "flashblock_request self content = \<lparr> hr_url = sc_endpoint self @ ''/api/v2/submit-batch'', hr_query = [],
     hr_headers = [(''Authorization'', token self), json_header] @ keep_alive_headers,
     hr_body = JsonBody (JObj [(''transactions'', JArr [JStr content])]) \<rparr>"

definition blockrazor_request :: "swqos_client \<Rightarrow> string \<Rightarrow> http_request" where
  "blockrazor_request self content = \<lparr> hr_url = sc_endpoint self, hr_query = [(''auth'', token self)],
     hr_headers = [(''Content-Type'', ''text/plain'')], hr_body = TextBody content \<rparr>"

definition astralane_request :: "swqos_client \<Rightarrow> u8 list \<Rightarrow> http_request" where
  "astralane_request self body_bytes = \<lparr> hr_url = sc_endpoint self,
     hr_query = [(''api-key'', token self), (''method'', ''sendTransaction'')],
     hr_headers = [(''Content-Type'', ''application/octet-stream'')], hr_body = BytesBody body_bytes \<rparr>"

definition stellium_request :: "swqos_client \<Rightarrow> string \<Rightarrow> http_request" where
  "stellium_request self content = \<lparr> hr_url = sc_endpoint self @ ''/'' @ token self, hr_query = [],
     hr_headers = json_header # keep_alive_headers,
     hr_body = JsonBody (send_body (JNum 1) content [BASE64_OPTION]) \<rparr>"

definition lightspeed_request :: "swqos_client \<Rightarrow> string \<Rightarrow> http_request" where
  "lightspeed_request self content = \<lparr> hr_url = sc_endpoint self, hr_query = [], hr_headers = [json_header],
     hr_body = JsonBody (send_body (JNum 1) content [BASE64_OPTION, SKIP_PREFLIGHT,
       (''preflightCommitment'', JStr ''processed''), (''maxRetries'', JNum 0)]) \<rparr>"

text \<open>Helius builds its URL once; \<open>contains('?')\<close> is membership.\<close>

definition query_sep :: "bool \<Rightarrow> string" where "query_sep has_query = (if has_query then ''&'' else ''?'')"

definition build_submit_url :: "string \<Rightarrow> string option \<Rightarrow> bool \<Rightarrow> string" where
  "build_submit_url endpoint api_key swqos_only =
    (let has_query = (CHR ''?'' \<in> set endpoint);
         (url, has_query) = (case api_key of
             Some key \<Rightarrow> if key \<noteq> [] then (endpoint @ query_sep has_query @ ''api-key='' @ key, True) else (endpoint, has_query)
           | None \<Rightarrow> (endpoint, has_query))
     in if swqos_only then url @ query_sep has_query @ ''swqos_only=true'' else url)"

definition helius_request :: "swqos_client \<Rightarrow> string \<Rightarrow> http_request" where
  "helius_request self content = \<lparr> hr_url = build_submit_url (sc_endpoint self) (sc_auth_token self) (sc_swqos_only self),
     hr_query = [], hr_headers = [json_header],
     hr_body = JsonBody (send_body (JStr ''1'') content [BASE64_OPTION, SKIP_PREFLIGHT, (''maxRetries'', JNum 0)]) \<rparr>"

section \<open>Sending one transaction\<close>

definition jito_send where
  "jito_send N self = post_encoded N self (jito_request self) read_and_print"
definition nextblock_send where
  "nextblock_send N self = post_encoded N self (nextblock_request self) read_and_print"
definition zeroslot_send where
  "zeroslot_send N self = post_encoded N self (zeroslot_request self) read_and_print"
definition temporal_send where
  "temporal_send N self = post_encoded N self (temporal_request self) read_and_print"
definition bloxroute_send where
  "bloxroute_send N self = post_encoded N self (bloxroute_request self) read_and_print"
definition node1_send where
  "node1_send N self = post_encoded N self (node1_request self) read_and_print"
definition flashblock_send where
  "flashblock_send N self = post_encoded N self (flashblock_request self) read_and_print"
definition stellium_send where
  "stellium_send N self = post_encoded N self (stellium_request self) read_and_print"
definition lightspeed_send where
  "lightspeed_send N self = post_encoded N self (lightspeed_request self) read_and_print"

text \<open>BlockRazor and Astralane ignore the body of the answer and look at its status.\<close>

definition check_status :: "relay_net \<Rightarrow> string \<Rightarrow> http_response \<Rightarrow> (unit, sdk_error) outcome" where
  "check_status N name r =
    (if is_success r then Ok ()
     else Err (OtherErr (name @ '' sendTransaction failed: '' @ rl_show_status N (ht_status r))))"

definition blockrazor_send where
  "blockrazor_send N self = post_encoded N self (blockrazor_request self) (check_status N ''BlockRazor'')"

definition astralane_send ::
  "relay_net \<Rightarrow> swqos_client \<Rightarrow> VersionedTransaction \<Rightarrow> bool \<Rightarrow> (unit, sdk_error) outcome" where
  "astralane_send N self transaction wait_confirmation =
    obind (get_signature transaction) (\<lambda>signature.
    obind (map_err (\<lambda>e. OtherErr (''Astralane binary serialize failed: '' @ e))
       (of_sum (se_bincode (rl_ser N) transaction))) (\<lambda>body_bytes.
    obind (http_post N (astralane_request self body_bytes)) (\<lambda>response.
    obind (check_status N ''Astralane'' response) (\<lambda>_.
    confirm_sent N (sc_rpc_url self) signature wait_confirmation))))"

text \<open>Helius reads the status and then the error of the answer.\<close>

definition helius_answer :: "relay_net \<Rightarrow> http_response \<Rightarrow> (unit, sdk_error) outcome" where
  "helius_answer N r =
    obind (http_text r) (\<lambda>response_text.
    if \<not> is_success r
    then Err (OtherErr (''Helius Sender failed: status='' @ rl_show_status N (ht_status r) @ '' body='' @ response_text))
    else case rl_parse_json N response_text of
      Some response_json \<Rightarrow>
        (case json_get response_json ''error'' of
           Some error \<Rightarrow>
             let err_msg = (case json_get error ''message'' of
                   Some v \<Rightarrow> unwrap_or ''unknown'' (json_str v) | None \<Rightarrow> ''unknown'')
             in Err (OtherErr (''Helius Sender error: '' @ err_msg))
         | None \<Rightarrow> Ok ())
    | None \<Rightarrow> Ok ())"

definition helius_send where
  "helius_send N self = post_encoded N self (helius_request self) (helius_answer N)"

text \<open>The QUIC clients: send on the current connection, and once more on a new one. \<open>rl_quic_send\<close> is
  given the number of reconnections, and \<open>rl_quic_reconnect\<close> also fails when another task reconnects.\<close>

definition quic_send :: "relay_net \<Rightarrow> swqos_client \<Rightarrow> u8 list \<Rightarrow> (unit, sdk_error) outcome" where
  "quic_send N self payload =
    (case rl_quic_send N (sc_endpoint self) 0 payload of
       Inr _ \<Rightarrow> Ok ()
     | Inl _ \<Rightarrow>
        obind (map_err OtherErr (of_sum (rl_quic_reconnect N (sc_endpoint self)))) (\<lambda>_.
        map_err OtherErr (of_sum (rl_quic_send N (sc_endpoint self) 1 payload))))"

definition soyas_send ::
  "relay_net \<Rightarrow> swqos_client \<Rightarrow> VersionedTransaction \<Rightarrow> bool \<Rightarrow> (unit, sdk_error) outcome" where
  "soyas_send N self transaction wait_confirmation =
    obind (get_signature transaction) (\<lambda>signature.
    obind (map_err OtherErr (of_sum (se_bincode (rl_ser N) transaction))) (\<lambda>serialized_tx.
    obind (quic_send N self serialized_tx) (\<lambda>_.
    confirm_sent N (sc_rpc_url self) signature wait_confirmation)))"

text \<open>The guard of the buffer is dropped at the end of the function, whatever the outcome.\<close>

definition speedlanding_send ::
  "relay_net \<Rightarrow> swqos_client \<Rightarrow> VersionedTransaction \<Rightarrow> bool \<Rightarrow> (ZeroAllocSerializer, unit, sdk_error) stateful" where
  "speedlanding_send N self transaction wait_confirmation =
    sbind (other_errors (serialize_transaction_bincode_sync (rl_ser N) transaction)) (\<lambda>(buf_guard, signature).
      (\<lambda>s. (obind (quic_send N self buf_guard) (\<lambda>_. confirm_sent N (sc_rpc_url self) signature wait_confirmation),
            drop_guard buf_guard s)))"

text \<open>The plain node: it answers with the signature that is then confirmed.\<close>

definition sol_rpc_send ::
  "relay_net \<Rightarrow> swqos_client \<Rightarrow> VersionedTransaction \<Rightarrow> bool \<Rightarrow> (unit, sdk_error) outcome" where
  "sol_rpc_send N self transaction wait_confirmation =
    obind (map_err OtherErr (of_sum (rl_rpc_send N (sc_rpc_url self) transaction))) (\<lambda>signature.
    confirm_sent N (sc_rpc_url self) signature wait_confirmation)"

text \<open>The dispatch of the trait object.\<close>

fun send_by_type ::
  "SwqosType \<Rightarrow> relay_net \<Rightarrow> swqos_client \<Rightarrow> VersionedTransaction \<Rightarrow> bool \<Rightarrow> (ZeroAllocSerializer, unit, sdk_error) stateful" where
  "send_by_type SwqosJito N self tx wait = jito_send N self tx wait"
| "send_by_type SwqosNextBlock N self tx wait = nextblock_send N self tx wait"
| "send_by_type SwqosZeroSlot N self tx wait = zeroslot_send N self tx wait"
| "send_by_type SwqosTemporal N self tx wait = temporal_send N self tx wait"
| "send_by_type SwqosBloxroute N self tx wait = bloxroute_send N self tx wait"
| "send_by_type SwqosNode1 N self tx wait = node1_send N self tx wait"
| "send_by_type SwqosFlashBlock N self tx wait = flashblock_send N self tx wait"
| "send_by_type SwqosBlockRazor N self tx wait = blockrazor_send N self tx wait"
| "send_by_type SwqosAstralane N self tx wait = slift (astralane_send N self tx wait)"
| "send_by_type SwqosStellium N self tx wait = stellium_send N self tx wait"
| "send_by_type SwqosLightspeed N self tx wait = lightspeed_send N self tx wait"
| "send_by_type SwqosSoyas N self tx wait = slift (soyas_send N self tx wait)"
| "send_by_type SwqosSpeedlanding N self tx wait = speedlanding_send N self tx wait"
| "send_by_type SwqosHelius N self tx wait = helius_send N self tx wait"
| "send_by_type SwqosDefault N self tx wait = slift (sol_rpc_send N self tx wait)"

definition send_transaction ::
  "relay_net \<Rightarrow> swqos_client \<Rightarrow> VersionedTransaction \<Rightarrow> bool \<Rightarrow> (ZeroAllocSerializer, unit, sdk_error) stateful" where
  "send_transaction N self tx wait = send_by_type (sc_type self) N self tx wait"

section \<open>Sending several transactions\<close>

fun send_each ::
  "relay_net \<Rightarrow> swqos_client \<Rightarrow> VersionedTransaction list \<Rightarrow> bool \<Rightarrow> (ZeroAllocSerializer, unit, sdk_error) stateful" where
  "send_each N self [] wait = sret ()"
| "send_each N self (tx # txs) wait = sbind (send_transaction N self tx wait) (\<lambda>_. send_each N self txs wait)"

fun map_outcome :: "('a \<Rightarrow> ('b, 'e) outcome) \<Rightarrow> 'a list \<Rightarrow> ('b list, 'e) outcome" where
  "map_outcome f [] = Ok []"
| "map_outcome f (x # xs) = obind (f x) (\<lambda>y. obind (map_outcome f xs) (\<lambda>ys. Ok (y # ys)))"

definition jito_bundle ::
  "relay_net \<Rightarrow> swqos_client \<Rightarrow> VersionedTransaction list \<Rightarrow> (unit, sdk_error) outcome" where
  "jito_bundle N self transactions =
    obind (map_err OtherErr (map_outcome (to_base64_string (rl_ser N)) transactions)) (\<lambda>txs_base64.
    obind (http_post N \<lparr> hr_url = jito_url self ''/api/v1/bundles'', hr_query = [], hr_headers = jito_headers self,
        hr_body = JsonBody (JObj [(''jsonrpc'', JStr ''2.0''), (''method'', JStr ''sendBundle''),
          (''params'', JArr [JArr (map JStr txs_base64), JObj [BASE64_OPTION]]), (''id'', JNum 1)]) \<rparr>) read_and_print)"

fun join_commas :: "string list \<Rightarrow> string" where
  "join_commas [] = []"
| "join_commas [x] = x"
| "join_commas (x # xs) = x @ '','' @ join_commas xs"

definition bloxroute_batch ::
  "relay_net \<Rightarrow> swqos_client \<Rightarrow> VersionedTransaction list \<Rightarrow> (ZeroAllocSerializer, unit, sdk_error) stateful" where
  "bloxroute_batch N self transactions =
    sbind (other_errors (serialize_transactions_batch_sync (rl_ser N) transactions Base64)) (\<lambda>contents.
    let entries = join_commas (map (\<lambda>content. blox_entry content @ ''}'') contents)
    in slift (obind (http_post N \<lparr> hr_url = sc_endpoint self @ ''/api/v2/submit-batch'', hr_query = [],
         hr_headers = [json_header, (''Authorization'', token self)],
         hr_body = TextBody (''{'' @ quoted ''entries'' @ '':['' @ entries @ '']}'') \<rparr>) read_and_print))"

definition send_transactions ::
  "relay_net \<Rightarrow> swqos_client \<Rightarrow> VersionedTransaction list \<Rightarrow> bool \<Rightarrow> (ZeroAllocSerializer, unit, sdk_error) stateful" where
  "send_transactions N self transactions wait =
    (if sc_type self = SwqosJito then slift (jito_bundle N self transactions)
     else if sc_type self = SwqosBloxroute then bloxroute_batch N self transactions
     else send_each N self transactions wait)"

text \<open>\<open>send_nb_transaction\<close>; \<open>bytes\<close> is the serialized transaction. An index that is not there gives \<open>null\<close>.\<close>

definition json_at :: "json \<Rightarrow> string \<Rightarrow> json" where "json_at j k = unwrap_or JNull (json_get j k)"

definition send_nb_transaction ::
  "relay_net \<Rightarrow> string \<Rightarrow> string \<Rightarrow> string + u8 list \<Rightarrow> (signature, string) outcome" where
  "send_nb_transaction N endpoint auth_token bytes =
    obind (map_err (\<lambda>e. ''Transaction serialization failed: '' @ e) (of_sum bytes)) (\<lambda>serialized.
    let encoded = se_base64 (rl_ser N) serialized
    in obind (map_err (\<lambda>e. ''Request failed: '' @ e) (of_sum (rl_http N
         \<lparr> hr_url = endpoint @ SUBMIT_PATH, hr_query = [], hr_headers = [(''Authorization'', auth_token), json_header],
           hr_body = JsonBody (JObj [(''transaction'', JObj [(''content'', JStr encoded)]),
             (''frontRunningProtection'', JBool True)]) \<rparr>))) (\<lambda>response.
       obind (case ht_text response of
           Inl e \<Rightarrow> Err (''Response parsing failed: '' @ e)
         | Inr text \<Rightarrow> ok_or (''Response parsing failed: '' @ rl_json_error N text) (rl_parse_json N text)) (\<lambda>resp.
       case json_str (json_at resp ''reason'') of
         Some reason \<Rightarrow> Err reason
       | None \<Rightarrow> obind (ok_or ''Missing signature field in response'' (json_str (json_at resp ''signature''))) (\<lambda>signature.
           map_err (\<lambda>e. ''Invalid signature: '' @ e) (of_sum (rl_parse_signature N signature))))))"

section \<open>Tip accounts\<close>

definition SPECIAL_API_KEY_PREFIX :: string where "SPECIAL_API_KEY_PREFIX = ''298b5025''"
definition SPECIAL_API_KEY_SUFFIX :: string where "SPECIAL_API_KEY_SUFFIX = ''a055323''"
definition SPECIAL_API_KEY_HASH :: string where
  "SPECIAL_API_KEY_HASH = ''e7be933c8058aebcb4d08a6120fb4dfd2ead568d42527a3fc2b60a703f25e48d''"
definition TEMPORAL_COMMUNITY_TIP_ADDRESS :: pubkey where
  "TEMPORAL_COMMUNITY_TIP_ADDRESS = pk ''mwGELGMgGGrNL1UibNCQeJHDE7qdPptWRYB6noUHmTj''"

text \<open>The listed accounts of a provider; the plain node has none.\<close>

fun tip_accounts :: "SwqosType \<Rightarrow> pubkey list" where
  "tip_accounts SwqosJito = JITO_TIP_ACCOUNTS"
| "tip_accounts SwqosNextBlock = NEXTBLOCK_TIP_ACCOUNTS"
| "tip_accounts SwqosZeroSlot = ZEROSLOT_TIP_ACCOUNTS"
| "tip_accounts SwqosTemporal = NOZOMI_TIP_ACCOUNTS"
| "tip_accounts SwqosBloxroute = BLOX_TIP_ACCOUNTS"
| "tip_accounts SwqosNode1 = NODE1_TIP_ACCOUNTS"
| "tip_accounts SwqosFlashBlock = FLASHBLOCK_TIP_ACCOUNTS"
| "tip_accounts SwqosBlockRazor = BLOCKRAZOR_TIP_ACCOUNTS"
| "tip_accounts SwqosAstralane = ASTRALANE_TIP_ACCOUNTS"
| "tip_accounts SwqosStellium = STELLIUM_TIP_ACCOUNTS"
| "tip_accounts SwqosLightspeed = LIGHTSPEED_TIP_ACCOUNTS"
| "tip_accounts SwqosSoyas = SOYAS_TIP_ACCOUNTS"
| "tip_accounts SwqosSpeedlanding = SPEEDLANDING_TIP_ACCOUNTS"
| "tip_accounts SwqosHelius = HELIUS_TIP_ACCOUNTS"
| "tip_accounts SwqosDefault = []"

text \<open>\<open>get_tip_account\<close> followed by the parser of the executor, which reads back a printed key and
  takes the default key for the empty text of the plain node.\<close>

definition is_special_key :: "relay_net \<Rightarrow> string \<Rightarrow> bool" where
  "is_special_key N api_key =
    (length api_key \<ge> length SPECIAL_API_KEY_PREFIX + length SPECIAL_API_KEY_SUFFIX
     \<and> prefix SPECIAL_API_KEY_PREFIX api_key \<and> ends_with api_key SPECIAL_API_KEY_SUFFIX
     \<and> rl_sha256_hex N api_key = SPECIAL_API_KEY_HASH)"

definition err_no_tip :: string where "err_no_tip = ''no valid tip accounts found''"

definition get_tip_account :: "relay_net \<Rightarrow> swqos_client \<Rightarrow> (pubkey, string) outcome" where
  "get_tip_account N self =
    (if sc_type self = SwqosDefault then Ok pubkey_default
     else if sc_type self = SwqosJito then ok_or err_no_tip (rl_choose N JITO_TIP_ACCOUNTS)
     else if sc_type self = SwqosTemporal \<and> is_special_key N (token self) then Ok TEMPORAL_COMMUNITY_TIP_ADDRESS
     else let accounts = tip_accounts (sc_type self)
       in unwrap_option (case rl_choose N accounts of
            Some tip_account \<Rightarrow> Some tip_account
          | None \<Rightarrow> (case accounts of first # _ \<Rightarrow> Some first | [] \<Rightarrow> None)))"

section \<open>Lemmas\<close>

lemma other_errors_run [simp]: "other_errors m s = (map_err OtherErr (fst (m s)), snd (m s))"
  by (simp add: other_errors_def split: prod.split)

lemma post_encoded_result:
  "fst (post_encoded N c request read_answer tx wait s) =
    obind (map_err OtherErr (serialize_smart_transaction_and_encode (rl_ser N) tx Base64)) (\<lambda>(content, signature).
    obind (http_post N (request content)) (\<lambda>response.
    obind (read_answer response) (\<lambda>_. confirm_sent N (sc_rpc_url c) signature wait)))"
  by (simp add: post_encoded_def sbind_run serialize_sync_run split: outcome.split prod.split)

lemma confirm_sent_at_once [simp]: "confirm_sent N url sig False = Ok ()"
  by (simp add: confirm_sent_def poll_transaction_confirmation_def poll_any_transaction_confirmation_def)

lemma smart_encode_Ok:
  "serialize_smart_transaction_and_encode E tx Base64 = Ok (content, signature) \<longleftrightarrow>
    (\<exists>rest bytes. tx_signatures tx = signature # rest \<and> se_bincode E tx = Inr bytes \<and> content = se_base64 E bytes)"
  by (cases "tx_signatures tx"; cases "se_bincode E tx")
    (auto simp: serialize_smart_transaction_and_encode_def get_signature_def encode_bytes_def)

lemmas print_sends = jito_send_def nextblock_send_def zeroslot_send_def temporal_send_def bloxroute_send_def
  node1_send_def flashblock_send_def stellium_send_def lightspeed_send_def

lemmas checked_sends = blockrazor_send_def helius_send_def

definition print_only :: "SwqosType set" where
  "print_only = {SwqosJito, SwqosNextBlock, SwqosZeroSlot, SwqosTemporal, SwqosBloxroute, SwqosNode1, SwqosFlashBlock,
     SwqosStellium, SwqosLightspeed}"

definition status_checked :: "SwqosType set" where
  "status_checked = {SwqosBlockRazor, SwqosAstralane, SwqosHelius}"

section \<open>Properties\<close>

text \<open>C15 (error): which relays notice a rejection. When the answer of the relay arrives and the caller does not wait for
  the confirmation, the nine relays whose answer is only printed report success whatever its status and text, while
  BlockRazor, Astralane and Helius report success exactly on a success status, and Helius only when the
  answer holds no error.\<close>

theorem relay_answers:
  assumes "tx_signatures tx = sig # rest" "se_bincode (rl_ser N) tx = Inr bytes"
    and "\<And>q. rl_http N q = Inr \<lparr> ht_status = status, ht_text = Inr t \<rparr>"
  shows "(sc_type c \<in> print_only \<longrightarrow> fst (send_transaction N c tx False s) = Ok ())
    \<and> (sc_type c \<in> status_checked \<longrightarrow>
        (fst (send_transaction N c tx False s) = Ok () \<longleftrightarrow>
          200 \<le> status \<and> status < 300
          \<and> (sc_type c = SwqosHelius \<longrightarrow> (\<forall>j. rl_parse_json N t = Some j \<longrightarrow> json_get j ''error'' = None))))"
proof -
  have enc: "serialize_smart_transaction_and_encode (rl_ser N) tx Base64 = Ok (se_base64 (rl_ser N) bytes, sig)"
    using assms(1,2) by (simp add: smart_encode_Ok)
  have "fst (send_transaction N c tx False s) = Ok ()" if "sc_type c \<in> print_only"
    using that by (auto simp: print_only_def send_transaction_def print_sends post_encoded_result enc http_post_def
        assms(3) read_and_print_def http_text_def)
  moreover have "fst (send_transaction N c tx False s) = Ok () \<longleftrightarrow> 200 \<le> status \<and> status < 300
      \<and> (sc_type c = SwqosHelius \<longrightarrow> (\<forall>j. rl_parse_json N t = Some j \<longrightarrow> json_get j ''error'' = None))"
    if "sc_type c \<in> status_checked"
    using that assms(1,2)
    by (auto simp: status_checked_def send_transaction_def checked_sends astralane_send_def post_encoded_result enc
        http_post_def assms(3) check_status_def helius_answer_def http_text_def is_success_def get_signature_def Let_def
        split: option.splits if_splits)
  ultimately show ?thesis by blast
qed

definition sample_net :: relay_net where
  "sample_net = \<lparr> rl_http = (\<lambda>q. Inr \<lparr> ht_status = 403, ht_text = Inr ''forbidden'' \<rparr>), rl_parse_json = (\<lambda>t. None),
     rl_ser = sample_ser, rl_confirm = (\<lambda>_. silent_rpc), rl_rpc_send = (\<lambda>_ _. Inr 9), rl_quic_send = (\<lambda>_ _ _. Inr ()),
     rl_quic_reconnect = (\<lambda>_. Inr ()), rl_show_status = (\<lambda>_. ''403 Forbidden''), rl_sha256_hex = (\<lambda>_. []),
     rl_choose = (\<lambda>xs. case xs of [] \<Rightarrow> None | x # _ \<Rightarrow> Some x), rl_json_error = (\<lambda>_. []),
     rl_parse_signature = (\<lambda>_. Inl []) \<rparr>"

definition sample_relay :: "SwqosType \<Rightarrow> swqos_client" where
  "sample_relay ty = \<lparr> sc_type = ty, sc_rpc_url = ''http://node'', sc_endpoint = ''http://relay'', sc_auth_token = Some ''k'',
     sc_swqos_only = False \<rparr>"

definition sample_signed :: VersionedTransaction where
  "sample_signed = \<lparr> tx_signatures = [9], tx_message = Legacy [] 1 2 \<rparr>"

theorem relay_answers_witness:
  "fst (send_transaction sample_net (sample_relay SwqosJito) sample_signed False small_serializer) = Ok ()
   \<and> fst (send_transaction sample_net (sample_relay SwqosBlockRazor) sample_signed False small_serializer) \<noteq> Ok ()"
proof -
  have h: "tx_signatures sample_signed = 9 # []" "se_bincode (rl_ser sample_net) sample_signed = Inr [7, 7]"
    "rl_http sample_net q = Inr \<lparr> ht_status = 403, ht_text = Inr ''forbidden'' \<rparr>" for q
    by (simp_all add: sample_signed_def sample_net_def sample_ser_def)
  show ?thesis
    using relay_answers [OF h, of "sample_relay SwqosJito" small_serializer]
      relay_answers [OF h, of "sample_relay SwqosBlockRazor" small_serializer]
    by (simp add: sample_relay_def print_only_def status_checked_def)
qed

text \<open>The texts in a JSON value.\<close>

fun json_leaves :: "json \<Rightarrow> string set" where
  "json_leaves (JStr s) = {s}"
| "json_leaves (JArr js) = (\<Union>j \<in> set js. json_leaves j)"
| "json_leaves (JObj kvs) = (\<Union>kv \<in> set kvs. json_leaves (snd kv))"
| "json_leaves j = {}"

definition body_carries :: "ser_extern \<Rightarrow> VersionedTransaction \<Rightarrow> http_body \<Rightarrow> bool" where
  "body_carries E tx body = (\<exists>bytes. se_bincode E tx = Inr bytes \<and> (case body of
     JsonBody j \<Rightarrow> se_base64 E bytes \<in> json_leaves j
   | TextBody t \<Rightarrow> sublist (se_base64 E bytes) t
   | BytesBody bs \<Rightarrow> bs = bytes))"

definition own_request :: "ser_extern \<Rightarrow> swqos_client \<Rightarrow> VersionedTransaction \<Rightarrow> http_request \<Rightarrow> bool" where
  "own_request E c tx q = (prefix (trim_end_slashes (sc_endpoint c)) (hr_url q) \<and> body_carries E tx (hr_body q))"

lemma trim_prefix: "prefix (trim_end_slashes s) s"
  unfolding trim_end_slashes_def by (metis rev_rev_ident suffix_dropWhile suffix_to_prefix)

lemma trim_prefix_append: "prefix (trim_end_slashes s) (s @ t)"
  using trim_prefix prefix_prefix by blast

lemma requests_own:
  assumes "se_bincode E tx = Inr bytes"
  shows "own_request E c tx (jito_request c (se_base64 E bytes))" "own_request E c tx (nextblock_request c (se_base64 E bytes))"
    "own_request E c tx (zeroslot_request c (se_base64 E bytes))" "own_request E c tx (temporal_request c (se_base64 E bytes))"
    "own_request E c tx (bloxroute_request c (se_base64 E bytes))" "own_request E c tx (node1_request c (se_base64 E bytes))"
    "own_request E c tx (flashblock_request c (se_base64 E bytes))" "own_request E c tx (stellium_request c (se_base64 E bytes))"
    "own_request E c tx (lightspeed_request c (se_base64 E bytes))" "own_request E c tx (blockrazor_request c (se_base64 E bytes))"
    "own_request E c tx (helius_request c (se_base64 E bytes))" "own_request E c tx (astralane_request c bytes)"
proof -
  have "sublist (se_base64 E bytes) (blox_entry (se_base64 E bytes) @ r)" for r
    unfolding blox_entry_def quoted_def by (metis append_assoc sublist_appendI)
  then show "own_request E c tx (bloxroute_request c (se_base64 E bytes))"
    using assms by (simp add: own_request_def body_carries_def bloxroute_request_def trim_prefix_append)
  show "own_request E c tx (helius_request c (se_base64 E bytes))"
    using assms by (auto simp: own_request_def body_carries_def helius_request_def build_submit_url_def send_body_def Let_def
        trim_prefix trim_prefix_append split: option.splits)
qed (use assms in \<open>simp_all add: own_request_def body_carries_def trim_prefix trim_prefix_append send_body_def
    jito_request_def jito_url_def nextblock_request_def nextblock_endpoint_def zeroslot_request_def temporal_request_def
    node1_request_def flashblock_request_def stellium_request_def lightspeed_request_def blockrazor_request_def
    astralane_request_def\<close>)

text \<open>The channels of another network, and when they agree on what a client sends for a transaction.\<close>

definition with_channels :: "relay_net \<Rightarrow> relay_net \<Rightarrow> relay_net" where
  "with_channels N M = N \<lparr> rl_http := rl_http M, rl_rpc_send := rl_rpc_send M, rl_quic_send := rl_quic_send M \<rparr>"

definition same_channels :: "relay_net \<Rightarrow> relay_net \<Rightarrow> swqos_client \<Rightarrow> VersionedTransaction \<Rightarrow> bool" where
  "same_channels N M c tx \<longleftrightarrow> (\<forall>q. own_request (rl_ser N) c tx q \<longrightarrow> rl_http N q = rl_http M q)
    \<and> rl_rpc_send N (sc_rpc_url c) tx = rl_rpc_send M (sc_rpc_url c) tx
    \<and> (\<forall>k bytes. se_bincode (rl_ser N) tx = Inr bytes \<longrightarrow>
         rl_quic_send N (sc_endpoint c) k bytes = rl_quic_send M (sc_endpoint c) k bytes)"

lemma net_channels:
  "rl_show_status (with_channels N M) = rl_show_status N" "rl_parse_json (with_channels N M) = rl_parse_json N"
  "rl_ser (with_channels N M) = rl_ser N" "rl_quic_reconnect (with_channels N M) = rl_quic_reconnect N"
  "rl_confirm (with_channels N M) = rl_confirm N" "rl_http (with_channels N M) = rl_http M"
  "rl_rpc_send (with_channels N M) = rl_rpc_send M" "rl_quic_send (with_channels N M) = rl_quic_send M"
  by (simp_all add: with_channels_def)

lemma answers_channels [simp]:
  "check_status (with_channels N M) = check_status N" "helius_answer (with_channels N M) = helius_answer N"
  "confirm_sent (with_channels N M) = confirm_sent N"
  by (intro ext, simp only: check_status_def helius_answer_def confirm_sent_def net_channels)+

lemma post_encoded_same:
  assumes "\<And>bytes. se_bincode (rl_ser N) tx = Inr bytes \<Longrightarrow>
      rl_http N (request (se_base64 (rl_ser N) bytes)) = rl_http M (request (se_base64 (rl_ser N) bytes))"
  shows "post_encoded N c request ans tx wait s = post_encoded (with_channels N M) c request ans tx wait s"
proof (cases "serialize_smart_transaction_and_encode (rl_ser N) tx Base64")
  case (Ok r)
  then obtain content signature bytes where r: "r = (content, signature)" "se_bincode (rl_ser N) tx = Inr bytes"
    "content = se_base64 (rl_ser N) bytes"
    by (cases r) (auto simp: smart_encode_Ok)
  have "http_post N (request content) = http_post (with_channels N M) (request content)"
    using assms [OF r(2)] by (simp add: http_post_def r(3) net_channels)
  then show ?thesis by (simp add: post_encoded_def sbind_run serialize_sync_run Ok r(1) net_channels)
qed (simp_all add: post_encoded_def sbind_run serialize_sync_run net_channels)

lemma quic_send_same:
  assumes "same_channels N M c tx" "se_bincode (rl_ser N) tx = Inr bytes"
  shows "quic_send (with_channels N M) c bytes = quic_send N c bytes"
  using assms by (simp add: quic_send_def net_channels same_channels_def split: sum.split)

lemma posts_own:
  assumes same: "same_channels N M c tx"
  shows "send_transaction N c tx wait s = send_transaction (with_channels N M) c tx wait s"
proof -
  have own: "rl_http N q = rl_http M q" if "own_request (rl_ser N) c tx q" for q
    using same that by (simp add: same_channels_def)
  note http = requests_own [of "rl_ser N" tx, THEN own]
  show ?thesis
  proof (cases "sc_type c")
    case SwqosAstralane
    then show ?thesis using http(12)
      by (cases "se_bincode (rl_ser N) tx") (simp_all add: send_transaction_def astralane_send_def http_post_def net_channels)
  next
    case SwqosSoyas
    then show ?thesis using quic_send_same [OF same]
      by (cases "se_bincode (rl_ser N) tx") (simp_all add: send_transaction_def soyas_send_def net_channels)
  next
    case SwqosSpeedlanding
    then show ?thesis using quic_send_same [OF same]
      by (cases "se_bincode (rl_ser N) tx"; cases "tx_signatures tx")
        (simp_all add: send_transaction_def speedlanding_send_def serialize_transaction_bincode_sync_def get_signature_def
          other_errors_def sbind_run serialize_zero_alloc_run net_channels split: prod.split outcome.split)
  next
    case SwqosDefault
    then show ?thesis using same by (simp add: send_transaction_def sol_rpc_send_def net_channels same_channels_def)
  qed (simp_all only: send_transaction_def send_by_type.simps print_sends checked_sends answers_channels,
      (rule post_encoded_same, erule http)+)
qed

text \<open>C14 (safety): a relay client sends nothing but the transaction, and to its own relay. Two networks that agree on the
  requests that go to the configured endpoint and carry the serialized transaction (as a text of a JSON body, inside a
  text body or as the body itself), on the serialized transaction over the QUIC connection of the endpoint, and on the
  transaction at the client's own node, cannot be told apart by \<open>send_transaction\<close> of any of the fifteen clients, from any
  state of the buffer pool.\<close>

theorem relay_posts_own_transaction:
  assumes "same_channels N M c tx"
  shows "send_transaction N c tx wait s = send_transaction (with_channels N M) c tx wait s"
  using posts_own [OF assms] .

theorem relay_posts_own_transaction_witness:
  "send_transaction sample_net (sample_relay SwqosHelius) sample_signed False small_serializer =
    send_transaction (with_channels sample_net (sample_net \<lparr> rl_http := \<lambda>q. if prefix ''http://relay'' (hr_url q)
      then Inr \<lparr> ht_status = 403, ht_text = Inr ''forbidden'' \<rparr> else Inl ''elsewhere'' \<rparr>))
      (sample_relay SwqosHelius) sample_signed False small_serializer"
  by (rule relay_posts_own_transaction)
    (auto simp: same_channels_def own_request_def sample_relay_def sample_net_def trim_end_slashes_def)

text \<open>A tip goes to an account of the relay it is for. Whatever the random choice picks from a list, the tip
  account of a client is one of the accounts listed for its provider, or the community account for a Temporal client
  with the special key; the plain node gets the default key, and no choice panics or fails.\<close>

theorem tip_account_listed:
  assumes "\<And>xs. xs \<noteq> [] \<Longrightarrow> \<exists>x \<in> set xs. rl_choose N xs = Some x" "rl_choose N [] = None"
  shows "\<exists>a. get_tip_account N c = Ok a \<and>
    (if sc_type c = SwqosDefault then a = pubkey_default
     else a \<in> set (tip_accounts (sc_type c))
       \<or> (sc_type c = SwqosTemporal \<and> is_special_key N (token c) \<and> a = TEMPORAL_COMMUNITY_TIP_ADDRESS))"
proof -
  have ne: "tip_accounts ty \<noteq> []" if "ty \<noteq> SwqosDefault" for ty
    using that by (cases ty) (simp_all add: JITO_TIP_ACCOUNTS_def NEXTBLOCK_TIP_ACCOUNTS_def ZEROSLOT_TIP_ACCOUNTS_def
        NOZOMI_TIP_ACCOUNTS_def BLOX_TIP_ACCOUNTS_def NODE1_TIP_ACCOUNTS_def FLASHBLOCK_TIP_ACCOUNTS_def
        BLOCKRAZOR_TIP_ACCOUNTS_def ASTRALANE_TIP_ACCOUNTS_def STELLIUM_TIP_ACCOUNTS_def LIGHTSPEED_TIP_ACCOUNTS_def
        SOYAS_TIP_ACCOUNTS_def SPEEDLANDING_TIP_ACCOUNTS_def HELIUS_TIP_ACCOUNTS_def)
  show ?thesis
  proof (cases "sc_type c = SwqosDefault")
    case False
    obtain x where x: "x \<in> set (tip_accounts (sc_type c))" "rl_choose N (tip_accounts (sc_type c)) = Some x"
      using assms(1) [OF ne [OF False]] by blast
    then show ?thesis using False by (cases "sc_type c = SwqosJito") (auto simp: get_tip_account_def Let_def)
  qed (simp add: get_tip_account_def)
qed

theorem tip_account_listed_witness:
  "\<exists>a. get_tip_account sample_net (sample_relay SwqosJito) = Ok a \<and> a \<in> set JITO_TIP_ACCOUNTS"
proof -
  have "\<exists>x \<in> set xs. rl_choose sample_net xs = Some x" if "xs \<noteq> []" for xs
    using that by (cases xs) (simp_all add: sample_net_def)
  then show ?thesis
    using tip_account_listed [of sample_net "sample_relay SwqosJito"] by (simp add: sample_relay_def sample_net_def)
qed

end
