(* ===== verification/Keep_Alive.thy ===== *)
theory Keep_Alive
  imports Relay_Clients
begin

text \<open>
  The keep-alive tasks of \<open>src/swqos/{astralane,blockrazor,node1,stellium,temporal}.rs\<close>. \<open>new\<close> clones the client
  into an outer task, which starts an inner task that pings every 30 seconds, and then ends and drops its clone.
  The clients share one flag and implement \<open>Drop\<close>, so the clone's drop acts like the client's. The interleaving of the
  outer task, the inner task, the aborting task and the owner of the client is a step relation.
\<close>

section \<open>The code\<close>

text \<open>What the five clients differ in: the initial value of the flag, whether there is a ping before the loop, and
  what \<open>Drop\<close> does: the value it stores, and whether it aborts the inner task.\<close>

record keep_alive =
  ka_initial :: bool
  ka_first_ping :: bool
  ka_drop_stores :: bool
  ka_drop_aborts :: bool

definition temporal_keep_alive :: keep_alive where
  "temporal_keep_alive = \<lparr> ka_initial = False, ka_first_ping = True, ka_drop_stores = True, ka_drop_aborts = True \<rparr>"
definition node1_keep_alive :: keep_alive where
  "node1_keep_alive = \<lparr> ka_initial = False, ka_first_ping = True, ka_drop_stores = True, ka_drop_aborts = True \<rparr>"
definition blockrazor_keep_alive :: keep_alive where
  "blockrazor_keep_alive = \<lparr> ka_initial = False, ka_first_ping = True, ka_drop_stores = True, ka_drop_aborts = True \<rparr>"
definition astralane_keep_alive :: keep_alive where
  "astralane_keep_alive = \<lparr> ka_initial = False, ka_first_ping = False, ka_drop_stores = True, ka_drop_aborts = True \<rparr>"
definition stellium_keep_alive :: keep_alive where
  "stellium_keep_alive = \<lparr> ka_initial = True, ka_first_ping = True, ka_drop_stores = False, ka_drop_aborts = False \<rparr>"

text \<open>The requests of the pings.\<close>

definition slash_ping :: "string \<Rightarrow> string" where
  "slash_ping endpoint = (if ends_with endpoint ''/'' then endpoint @ ''ping'' else endpoint @ ''/ping'')"

definition temporal_ping_url :: "swqos_client \<Rightarrow> string" where "temporal_ping_url self = slash_ping (sc_endpoint self)"
definition node1_ping_url :: "swqos_client \<Rightarrow> string" where "node1_ping_url self = slash_ping (sc_endpoint self)"
definition stellium_ping_url :: "swqos_client \<Rightarrow> string" where
  "stellium_ping_url self = sc_endpoint self @ ''/'' @ token self"

definition astralane_ping :: "swqos_client \<Rightarrow> http_request" where
  "astralane_ping self = \<lparr> hr_url = sc_endpoint self, hr_query = [(''api-key'', token self), (''method'', ''getHealth'')],
     hr_headers = [], hr_body = BytesBody [] \<rparr>"

lemma str_find_some: "str_find old s = Some i \<Longrightarrow> old \<noteq> [] \<Longrightarrow> s \<noteq> []"
  by (cases s) (auto split: if_splits)

text \<open>\<open>replace\<close> replaces every occurrence, from the left.\<close>

function str_replace :: "string \<Rightarrow> string \<Rightarrow> string \<Rightarrow> string" where
  "str_replace old new s =
    (if old = [] then s else case str_find old s of
       None \<Rightarrow> s
     | Some i \<Rightarrow> take i s @ new @ str_replace old new (drop (i + length old) s))"
  by pat_completeness auto

termination
  by (relation "measure (\<lambda>(old, new, s). length s)") (auto dest: str_find_some)

declare str_replace.simps [simp del]

definition blockrazor_ping :: "swqos_client \<Rightarrow> http_request" where
  "blockrazor_ping self = \<lparr> hr_url = str_replace ''/v2/sendTransaction'' ''/v2/health'' (sc_endpoint self),
     hr_query = [(''auth'', token self)], hr_headers = [(''Content-Type'', ''text/plain'')], hr_body = BytesBody [] \<rparr>"

datatype outer_task = Created | Started | Finished
datatype inner_task = NotSpawned | FirstPing | Waiting | Broken | Aborted

record ping_state =
  pn_flag :: bool
  pn_outer :: outer_task
  pn_inner :: inner_task
  pn_abort :: bool
  pn_alive :: bool
  pn_pings :: nat

definition ping_new :: "keep_alive \<Rightarrow> ping_state" where
  "ping_new K = \<lparr> pn_flag = ka_initial K, pn_outer = Created, pn_inner = NotSpawned, pn_abort = False,
     pn_alive = True, pn_pings = 0 \<rparr>"

text \<open>\<open>Drop\<close> stores into the flag, and the pooled clients spawn a task that aborts the handle.\<close>

definition drop_client :: "keep_alive \<Rightarrow> ping_state \<Rightarrow> ping_state" where
  "drop_client K s = s \<lparr> pn_flag := ka_drop_stores K, pn_abort := pn_abort s \<or> ka_drop_aborts K \<rparr>"

text \<open>One round of the loop: wait for the tick, look at the flag, ping.\<close>

definition ping_tick :: "ping_state \<Rightarrow> ping_state" where
  "ping_tick s = (if pn_flag s then s \<lparr> pn_inner := Broken \<rparr> else s \<lparr> pn_pings := Suc (pn_pings s) \<rparr>)"

text \<open>The aborting task: nothing happens before the inner task is spawned or after it has ended.\<close>

definition abort_handle :: "ping_state \<Rightarrow> ping_state" where
  "abort_handle s = s \<lparr> pn_abort := False,
     pn_inner := if pn_inner s \<in> {FirstPing, Waiting} then Aborted else pn_inner s \<rparr>"

inductive ping_step :: "keep_alive \<Rightarrow> ping_state \<Rightarrow> ping_state \<Rightarrow> bool" for K where
  start: "pn_outer s = Created \<Longrightarrow> ping_step K s
    (s \<lparr> pn_outer := Started, pn_inner := if ka_first_ping K then FirstPing else Waiting \<rparr>)"
| outer_end: "pn_outer s = Started \<Longrightarrow> ping_step K s (drop_client K (s \<lparr> pn_outer := Finished \<rparr>))"
| first: "pn_inner s = FirstPing \<Longrightarrow> ping_step K s (s \<lparr> pn_inner := Waiting, pn_pings := Suc (pn_pings s) \<rparr>)"
| tick: "pn_inner s = Waiting \<Longrightarrow> ping_step K s (ping_tick s)"
| abort: "pn_abort s \<Longrightarrow> ping_step K s (abort_handle s)"
| owner_drop: "pn_alive s \<Longrightarrow> ping_step K s (drop_client K (s \<lparr> pn_alive := False \<rparr>))"

inductive_cases ping_stepE: "ping_step K s s'"

abbreviation ping_run :: "keep_alive \<Rightarrow> ping_state \<Rightarrow> ping_state \<Rightarrow> bool" where
  "ping_run K \<equiv> (ping_step K)\<^sup>*\<^sup>*"

section \<open>Lemmas\<close>

lemmas ping_ops = drop_client_def ping_tick_def ping_new_def abort_handle_def

text \<open>The order of the two tasks.\<close>

lemma ping_run_order: "ping_run K (ping_new K) s \<Longrightarrow> (pn_outer s = Created \<longleftrightarrow> pn_inner s = NotSpawned)"
  by (induction rule: rtranclp_induct) (auto simp: ping_ops elim!: ping_stepE split: if_splits)

lemma ping_outer_done: "ping_run K s s' \<Longrightarrow> pn_outer s = Finished \<Longrightarrow> pn_outer s' = Finished"
  by (induction rule: rtranclp_induct) (auto simp: ping_ops elim!: ping_stepE split: if_splits)

text \<open>After the clone is dropped the flag has the value of \<open>Drop\<close>, and keeps it.\<close>

lemma ping_flag_dropped:
  "ping_run K (ping_new K) s \<Longrightarrow> pn_outer s = Finished \<Longrightarrow> pn_flag s = ka_drop_stores K"
  by (induction rule: rtranclp_induct) (auto simp: ping_ops elim!: ping_stepE split: if_splits)

definition pings_left :: "ping_state \<Rightarrow> nat" where
  "pings_left s = (if pn_inner s = FirstPing then 1 else 0)"

lemma ping_stopped_step:
  assumes "ping_step K s s'" "pn_outer s = Finished" "pn_flag s" "ka_drop_stores K" "pn_inner s \<noteq> NotSpawned"
  shows "pn_outer s' = Finished \<and> pn_flag s' \<and> pn_inner s' \<noteq> NotSpawned
    \<and> pn_pings s' + pings_left s' \<le> pn_pings s + pings_left s"
  using assms by (auto simp: ping_ops pings_left_def elim!: ping_stepE split: if_splits)

lemma ping_stopped:
  assumes "ping_run K s s'" "pn_outer s = Finished" "pn_flag s" "ka_drop_stores K" "pn_inner s \<noteq> NotSpawned"
  shows "pn_outer s' = Finished \<and> pn_flag s' \<and> pn_inner s' \<noteq> NotSpawned
    \<and> pn_pings s' + pings_left s' \<le> pn_pings s + pings_left s"
  using assms(1)
proof (induction rule: rtranclp_induct)
  case (step y z)
  then show ?case using ping_stopped_step [of K y z] assms(4) by auto
qed (use assms in auto)

lemma ping_kept_step:
  assumes "ping_step K s s'" "pn_outer s = Finished" "\<not> pn_flag s" "\<not> ka_drop_stores K" "\<not> ka_drop_aborts K" "\<not> pn_abort s"
    "pn_inner s \<in> {FirstPing, Waiting}"
  shows "pn_outer s' = Finished \<and> \<not> pn_flag s' \<and> \<not> pn_abort s' \<and> pn_inner s' \<in> {FirstPing, Waiting}"
  using assms by (auto simp: ping_ops elim!: ping_stepE split: if_splits)

lemma ping_kept:
  assumes "ping_run K s s'" "pn_outer s = Finished" "\<not> pn_flag s" "\<not> ka_drop_stores K" "\<not> ka_drop_aborts K" "\<not> pn_abort s"
    "pn_inner s \<in> {FirstPing, Waiting}"
  shows "pn_outer s' = Finished \<and> \<not> pn_flag s' \<and> \<not> pn_abort s' \<and> pn_inner s' \<in> {FirstPing, Waiting}"
  using assms(1)
proof (induction rule: rtranclp_induct)
  case (step y z)
  then show ?case using ping_kept_step [of K y z] assms(4,5) by auto
qed (use assms in auto)

lemma no_abort: "ping_run K (ping_new K) s \<Longrightarrow> \<not> ka_drop_aborts K \<Longrightarrow> \<not> pn_abort s"
  by (induction rule: rtranclp_induct) (auto simp: ping_ops elim!: ping_stepE split: if_splits)

section \<open>Properties\<close>


text \<open>The run in which every task goes on as soon as it can.\<close>

definition after_start :: "keep_alive \<Rightarrow> ping_state" where
  "after_start K = drop_client K (ping_new K \<lparr> pn_outer := Finished, pn_inner := if ka_first_ping K then FirstPing else Waiting \<rparr>)"

lemma after_start_run: "ping_run K (ping_new K) (after_start K)"
proof -
  let ?s = "ping_new K \<lparr> pn_outer := Started, pn_inner := if ka_first_ping K then FirstPing else Waiting \<rparr>"
  have "ping_step K (ping_new K) ?s" by (rule ping_step.start) (simp add: ping_new_def)
  moreover have "ping_step K ?s (drop_client K (?s \<lparr> pn_outer := Finished \<rparr>))"
    by (rule ping_step.outer_end) simp
  ultimately show ?thesis
    unfolding after_start_def by (simp add: ping_new_def drop_client_def rtranclp.rtrancl_into_rtrancl)
qed


text \<open>The keep-alive of Stellium cannot be stopped. Its flag starts as true and \<open>Drop\<close> stores false, the
  opposite of what the loop obeys: once the outer task has finished before the first tick, the inner task
  is alive in every later state, also after the client was dropped, and can always send another ping.\<close>

theorem stellium_never_stops:
  assumes "ping_run stellium_keep_alive (ping_new stellium_keep_alive) s"
    and "pn_outer s = Finished" "pn_inner s = FirstPing" "ping_run stellium_keep_alive s s'"
  shows "\<exists>s''. ping_step stellium_keep_alive s' s'' \<and> pn_pings s'' = Suc (pn_pings s')"
proof -
  have K: "\<not> ka_drop_stores stellium_keep_alive" "\<not> ka_drop_aborts stellium_keep_alive"
    by (simp_all add: stellium_keep_alive_def)
  have "\<not> pn_flag s" "\<not> pn_abort s" using ping_flag_dropped [OF assms(1,2)] no_abort [OF assms(1) K(2)] K(1) by auto
  with ping_kept [OF assms(4,2) _ K] assms(3) have s': "\<not> pn_flag s'" "pn_inner s' \<in> {FirstPing, Waiting}" by auto
  show ?thesis
  proof (cases "pn_inner s' = FirstPing")
    case True
    then show ?thesis using ping_step.first [of s'] by fastforce
  next
    case False
    then show ?thesis using s' ping_step.tick [of s' stellium_keep_alive] by (fastforce simp: ping_tick_def)
  qed
qed

theorem stellium_never_stops_witness:
  "\<exists>s' s''. ping_run stellium_keep_alive (after_start stellium_keep_alive) s' \<and> \<not> pn_alive s'
    \<and> ping_step stellium_keep_alive s' s'' \<and> pn_pings s'' = Suc (pn_pings s')"
proof -
  let ?s = "after_start stellium_keep_alive" and ?K = stellium_keep_alive
  have s: "pn_outer ?s = Finished" "pn_inner ?s = FirstPing" "pn_alive ?s"
    by (simp_all add: after_start_def stellium_keep_alive_def ping_ops)
  let ?t = "drop_client ?K (?s \<lparr> pn_alive := False \<rparr>)"
  have run: "ping_run ?K ?s ?t" using ping_step.owner_drop [OF s(3), of ?K] by blast
  have "\<not> pn_alive ?t" by (simp add: drop_client_def)
  then show ?thesis using run stellium_never_stops [OF after_start_run s(1,2) run] by blast
qed

end
