(* ===== verification/Simd_Batch.thy ===== *)
theory Simd_Batch
  imports Pool_Types
begin

text \<open>
  The batch operations of perf/simd.rs on slices of integers (\<open>SIMDMath\<close>, \<open>SIMDSerializer\<close>, \<open>SIMDHash\<close>,
  \<open>SIMDIterator\<close>), and from perf/compiler_optimization.rs the vector sum and the tables of the event processor,
  which common/fast_fn.rs and swqos/serialization.rs instantiate. Base64 and SHA-256 are library calls.
\<close>

unbundle bit_operations_syntax

section \<open>SIMDMath\<close>

text \<open>A vector store of four lanes.\<close>

fun store_lanes :: "u64 list \<Rightarrow> nat \<Rightarrow> u64 list \<Rightarrow> u64 list" where
  "store_lanes result i [] = result"
| "store_lanes result i (x # xs) = store_lanes (result[i := x]) (Suc i) xs"

function add_loop :: "u64 list \<Rightarrow> u64 list \<Rightarrow> u64 list \<Rightarrow> nat \<Rightarrow> u64 list" where
  "add_loop a b result i =
    (if i + 4 \<le> length a
     then add_loop a b (store_lanes result i (map2 (+) (take 4 (drop i a)) (take 4 (drop i b)))) (i + 4)
     else if i < length a then add_loop a b (result[i := a ! i + b ! i]) (i + 1)
     else result)"
  by pat_completeness auto
termination
  by (relation "measure (\<lambda>(a, b, result, i). length a - i)") auto

declare add_loop.simps [simp del]

definition add_u64_batch :: "u64 list \<Rightarrow> u64 list \<Rightarrow> u64 list \<Rightarrow> (u64 list, 'e) outcome" where
  "add_u64_batch a b result =
    (if length a \<noteq> length b then Panic
     else if length a \<noteq> length result then Panic
     else Ok (add_loop a b result 0))"

definition max_u64_batch :: "u64 list \<Rightarrow> u64" where
  "max_u64_batch data = (case data of [] \<Rightarrow> 0 | x # xs \<Rightarrow> foldl (\<lambda>m val. if val > m then val else m) x xs)"

definition min_u64_batch :: "u64 list \<Rightarrow> u64" where
  "min_u64_batch data = (case data of [] \<Rightarrow> 0 | x # xs \<Rightarrow> foldl (\<lambda>m val. if val < m then val else m) x xs)"

section \<open>SIMDSerializer and SIMDHash\<close>

definition serialize_u64_batch :: "u64 list \<Rightarrow> u8 list" where
  "serialize_u64_batch data = foldl (\<lambda>result val. result @ u64_le val) [] data"

definition deserialize_u64_batch :: "u8 list \<Rightarrow> u64 list" where
  "deserialize_u64_batch data =
    map (\<lambda>i. let offset = i * 8 in word_of_nat (le_value (map (\<lambda>k. data ! (offset + k)) [0..<8])))
      [0..<length data div 8]"

definition FNV_OFFSET :: u64 where "FNV_OFFSET = 0xcbf29ce484222325"
definition FNV_PRIME :: u64 where "FNV_PRIME = 0x100000001b3"

definition fnv_step :: "u64 \<Rightarrow> u8 \<Rightarrow> u64" where
  "fnv_step hash byte = (hash XOR ucast byte) * FNV_PRIME"

definition fast_hash_u64 :: "u8 list \<Rightarrow> u64" where
  "fast_hash_u64 data = foldl fnv_step FNV_OFFSET data"

text \<open>\<open>sha256\<close> is the digest of the sha2 crate.\<close>

definition hash_batch_sha256 :: "(u8 list \<Rightarrow> u8 list) \<Rightarrow> u8 list list \<Rightarrow> u8 list list" where
  "hash_batch_sha256 sha256 data = map sha256 data"

definition parallel_map :: "'a list \<Rightarrow> ('a \<Rightarrow> 'a) \<Rightarrow> 'a list" where
  "parallel_map data f = map f data"

definition parallel_filter :: "'a list \<Rightarrow> ('a \<Rightarrow> bool) \<Rightarrow> 'a list" where
  "parallel_filter data predicate = filter predicate data"

section \<open>perf/compiler\_optimization.rs: the vector sum and the event tables\<close>

fun sum_chunks :: "u64 list \<Rightarrow> u64 list \<Rightarrow> u64 list \<times> u64 list" where
  "sum_chunks lanes (a # b # c # d # rest) = sum_chunks (map2 (+) lanes [a, b, c, d]) rest"
| "sum_chunks lanes rest = (lanes, rest)"

definition vectorized_sum_compile_time :: "u64 list \<Rightarrow> u64" where
  "vectorized_sum_compile_time data =
    (if length data < 4 then sum_list data
     else case sum_chunks [0, 0, 0, 0] data of (lanes, remaining) \<Rightarrow> sum_list lanes + sum_list remaining)"

definition const_hash :: "u8 \<Rightarrow> u64" where
  "const_hash input =
    (let hash = ucast input :: u64;
         hash = hash XOR push_bit 13 hash;
         hash = hash XOR drop_bit 7 hash;
         hash = hash XOR push_bit 17 hash
     in hash)"

record CompileTimeOptimizedEventProcessor =
  ep_hash_table :: "u64 list"
  ep_route_table :: "u32 list"

definition precompute_hash_table :: "u64 list" where
  "precompute_hash_table = map (\<lambda>i. const_hash (word_of_nat i)) [0..<256]"

definition precompute_route_table :: "u32 list" where
  "precompute_route_table = map (\<lambda>i. word_of_nat i mod 16) [0..<1024]"

definition event_processor_new :: CompileTimeOptimizedEventProcessor where
  "event_processor_new = \<lparr> ep_hash_table = precompute_hash_table, ep_route_table = precompute_route_table \<rparr>"

definition route_event_zero_cost :: "CompileTimeOptimizedEventProcessor \<Rightarrow> u8 \<Rightarrow> u32" where
  "route_event_zero_cost self event_id = ep_route_table self ! unat ((ucast event_id :: u64) AND 1023)"

definition hash_lookup_optimized :: "CompileTimeOptimizedEventProcessor \<Rightarrow> u8 \<Rightarrow> u64" where
  "hash_lookup_optimized self key = ep_hash_table self ! unat key"

section \<open>Lemmas\<close>

lemma store_lanes_nth:
  "i + length xs \<le> length result \<Longrightarrow> j < length result \<Longrightarrow>
    store_lanes result i xs ! j = (if i \<le> j \<and> j < i + length xs then xs ! (j - i) else result ! j)"
  by (induction result i xs rule: store_lanes.induct) (auto simp: nth_Cons' nth_list_update)

lemma store_lanes_length [simp]: "length (store_lanes result i xs) = length result"
  by (induction result i xs rule: store_lanes.induct) auto

lemma add_loop_length [simp]: "length (add_loop a b result i) = length result"
  by (induction a b result i rule: add_loop.induct) (subst add_loop.simps, auto)

lemma add_loop_nth:
  assumes "length a = length b" "length a = length result" "j < length a"
    "\<And>k. k < i \<Longrightarrow> k < length a \<Longrightarrow> result ! k = a ! k + b ! k"
  shows "add_loop a b result i ! j = a ! j + b ! j"
  using assms
proof (induction a b result i rule: add_loop.induct)
  case (1 a b result i)
  consider "i + 4 \<le> length a" | "length a < i + 4" "i < length a" | "length a \<le> i" by linarith
  then show ?case
  proof cases
    case 1
    let ?r = "store_lanes result i (map2 (+) (take 4 (drop i a)) (take 4 (drop i b)))"
    have "?r ! k = a ! k + b ! k" if "k < i + 4" "k < length a" for k
      using that 1 "1.prems" by (auto simp: store_lanes_nth)
    then show ?thesis using "1.IH"(1) [OF 1] "1.prems" 1 by (subst add_loop.simps) simp
  next
    case 2
    have "(result[i := a ! i + b ! i]) ! k = a ! k + b ! k" if "k < i + 1" "k < length a" for k
      using that "1.prems" by (auto simp: nth_list_update less_Suc_eq)
    then show ?thesis using "1.IH"(2) "1.prems" 2 by (subst add_loop.simps) simp
  next
    case 3
    then show ?thesis using "1.prems" by (subst add_loop.simps) simp
  qed
qed

lemma serialize_append: "foldl (\<lambda>result val. result @ u64_le val) bs data = bs @ concat (map u64_le data)"
  by (induction data arbitrary: bs) auto

lemma serialize_Cons: "serialize_u64_batch (x # xs) = u64_le x @ serialize_u64_batch xs"
  by (simp add: serialize_u64_batch_def serialize_append)

lemma serialize_length: "length (serialize_u64_batch xs) = 8 * length xs"
  by (induction xs) (simp_all add: serialize_Cons, simp add: serialize_u64_batch_def)

lemma serialize_nth: "i < length xs \<Longrightarrow> k < 8 \<Longrightarrow> serialize_u64_batch xs ! (i * 8 + k) = u64_le (xs ! i) ! k"
proof (induction xs arbitrary: i)
  case (Cons x xs)
  then show ?case by (cases i) (simp_all add: serialize_Cons nth_append add.assoc)
qed simp

lemma map_nth_slice: "map (\<lambda>k. bs ! (off + k)) [0..<n] = xs \<longleftrightarrow> length xs = n \<and> (\<forall>k<n. bs ! (off + k) = xs ! k)"
  by (auto simp: list_eq_iff_nth_eq)

lemma deserialize_serialize:
  assumes "length rest < 8"
  shows "deserialize_u64_batch (serialize_u64_batch xs @ rest) = xs"
proof (rule nth_equalityI)
  have count: "length (serialize_u64_batch xs @ rest) div 8 = length xs"
    using assms by (simp add: serialize_length)
  then show "length (deserialize_u64_batch (serialize_u64_batch xs @ rest)) = length xs"
    by (simp add: deserialize_u64_batch_def)
  fix i assume "i < length (deserialize_u64_batch (serialize_u64_batch xs @ rest))"
  then have i: "i < length xs" using count by (simp add: deserialize_u64_batch_def)
  have "(serialize_u64_batch xs @ rest) ! (i * 8 + k) = u64_le (xs ! i) ! k" if "k < 8" for k
    using that i serialize_nth [OF i that] by (simp add: nth_append serialize_length)
  then have "map (\<lambda>k. (serialize_u64_batch xs @ rest) ! (i * 8 + k)) [0..<8] = u64_le (xs ! i)"
    by (subst map_nth_slice) simp
  then show "deserialize_u64_batch (serialize_u64_batch xs @ rest) ! i = xs ! i"
    using i count le_value_word [of 8 "xs ! i"] by (simp add: deserialize_u64_batch_def Let_def del: le_value_u64_le)
qed

lemma serialize_deserialize: "serialize_u64_batch (deserialize_u64_batch bs) = take (8 * (length bs div 8)) bs"
proof (rule nth_equalityI)
  let ?n = "length bs div 8"
  have n: "8 * ?n \<le> length bs" by simp
  have len: "length (deserialize_u64_batch bs) = ?n" by (simp add: deserialize_u64_batch_def)
  show "length (serialize_u64_batch (deserialize_u64_batch bs)) = length (take (8 * ?n) bs)"
    using n by (simp add: serialize_length len)
  fix j assume "j < length (serialize_u64_batch (deserialize_u64_batch bs))"
  then have j: "j < 8 * ?n" by (simp add: serialize_length len)
  let ?i = "j div 8" and ?k = "j mod 8"
  have i: "?i < ?n" using j by (simp add: less_mult_imp_div_less mult.commute)
  have k: "?k < 8" by simp
  have jik: "j = ?i * 8 + ?k" by simp
  let ?slice = "map (\<lambda>k. bs ! (?i * 8 + k)) [0..<8]"
  have "serialize_u64_batch (deserialize_u64_batch bs) ! j = u64_le (deserialize_u64_batch bs ! ?i) ! ?k"
    using serialize_nth [of ?i "deserialize_u64_batch bs" ?k] i k len by simp
  also have "deserialize_u64_batch bs ! ?i = word_of_nat (le_value ?slice)"
    using i by (simp add: deserialize_u64_batch_def Let_def)
  also have "u64_le \<dots> = ?slice" by (rule le_bytes_le_value) simp_all
  finally show "serialize_u64_batch (deserialize_u64_batch bs) ! j = take (8 * ?n) bs ! j"
    using j k by simp
qed

text \<open>The multiplier of the hash is odd, so a step can be undone.\<close>

lemma fnv_prime_inverse: "FNV_PRIME * 14886173955864302971 = 1"
  by (simp add: FNV_PRIME_def)

lemma fnv_mult_inj: "x * FNV_PRIME = y * FNV_PRIME \<longleftrightarrow> x = y"
proof
  assume "x * FNV_PRIME = y * FNV_PRIME"
  then have "x * FNV_PRIME * 14886173955864302971 = y * FNV_PRIME * 14886173955864302971" by (rule arg_cong)
  then show "x = y" unfolding mult.assoc fnv_prime_inverse by simp
qed simp

lemma xor_left_cancel: "a XOR b = a XOR c \<longleftrightarrow> b = (c :: 'a::len word)"
  by (auto simp: bit_eq_iff bit_xor_iff)

lemma ucast_u8_inj: "(ucast x :: u64) = ucast y \<longleftrightarrow> x = (y :: u8)"
proof -
  have "ucast (ucast w :: u64) = (w :: u8)" for w by (auto simp: bit_eq_iff bit_ucast_iff)
  then show ?thesis by metis
qed

lemma fnv_step_hash: "fnv_step h x = fnv_step h' x \<longleftrightarrow> h = h'"
  using xor_left_cancel [of "ucast x" h h'] by (simp add: fnv_step_def fnv_mult_inj xor.commute [of _ "ucast x"])

lemma fnv_step_byte: "fnv_step h x = fnv_step h y \<longleftrightarrow> x = y"
  by (simp add: fnv_step_def fnv_mult_inj xor_left_cancel ucast_u8_inj)

lemma fnv_fold_inj: "foldl fnv_step h xs = foldl fnv_step h' xs \<longleftrightarrow> h = h'"
  by (induction xs arbitrary: h h') (simp_all add: fnv_step_hash)

text \<open>A shift mixed in by exclusive or can be undone, from the low bits or from the high bits.\<close>

lemma xor_push_inj:
  assumes "0 < k" "x XOR push_bit k x = y XOR push_bit k (y :: 'a::len word)"
  shows "x = y"
proof -
  have eq: "(bit x n \<noteq> (k \<le> n \<and> bit x (n - k))) = (bit y n \<noteq> (k \<le> n \<and> bit y (n - k)))" if "n < LENGTH('a)" for n
    using arg_cong [OF assms(2), of "\<lambda>w. bit w n"] that by (auto simp: bit_xor_iff bit_push_bit_iff)
  have "bit x n = bit y n" if "n < LENGTH('a)" for n
    using that
  proof (induction n rule: less_induct)
    case (less n)
    then show ?case using eq [of n] less.IH [of "n - k"] assms(1) by (cases "k \<le> n") auto
  qed
  then show ?thesis by (intro bit_word_eqI)
qed

lemma xor_drop_inj:
  assumes "0 < k" "x XOR drop_bit k x = y XOR drop_bit k (y :: 'a::len word)"
  shows "x = y"
proof -
  have eq: "(bit x n \<noteq> bit x (k + n)) = (bit y n \<noteq> bit y (k + n))" for n
    using arg_cong [OF assms(2), of "\<lambda>w. bit w n"] by (auto simp: bit_xor_iff bit_drop_bit_eq)
  have "bit x (LENGTH('a) - n) = bit y (LENGTH('a) - n)" for n
  proof (induction n rule: less_induct)
    case (less n)
    show ?case
    proof (cases "n \<le> k \<or> LENGTH('a) < n")
      case True
      then show ?thesis
        using eq [of "LENGTH('a) - n"] less.IH [of "LENGTH('a)"]
        by (cases "LENGTH('a) < n") (auto dest: bit_imp_le_length)
    next
      case False
      then have "k + (LENGTH('a) - n) = LENGTH('a) - (n - k)" by simp
      then show ?thesis using eq [of "LENGTH('a) - n"] less.IH [of "n - k"] False assms(1) by auto
    qed
  qed
  from this [of "LENGTH('a) - n" for n] have "bit x n = bit y n" if "n < LENGTH('a)" for n
    using that by (metis diff_diff_cancel less_imp_le)
  then show ?thesis by (intro bit_word_eqI)
qed

lemma const_hash_inj: "const_hash x = const_hash y \<longleftrightarrow> x = y"
proof
  assume "const_hash x = const_hash y"
  note h = this [unfolded const_hash_def Let_def]
  have "ucast x = (ucast y :: u64)"
    by (rule xor_push_inj [OF _ xor_drop_inj [OF _ xor_push_inj [OF _ h]]]) simp_all
  then show "x = y" by (simp add: ucast_u8_inj)
qed simp

lemma sum_chunks_sum:
  "length lanes = 4 \<Longrightarrow> sum_list (fst (sum_chunks lanes xs)) + sum_list (snd (sum_chunks lanes xs)) = sum_list lanes + sum_list xs"
proof (induction lanes xs rule: sum_chunks.induct)
  case (1 lanes a b c d rest)
  then obtain p q r t where "lanes = [p, q, r, t]"
    by (auto simp: numeral_eq_Suc length_Suc_conv)
  then show ?case using 1 by (simp add: algebra_simps)
qed auto

lemma foldl_max: "foldl (\<lambda>m val. if val > m then val else m) x xs = (Max (set (x # xs)) :: 'a::linorder)"
proof (induction xs arbitrary: x)
  case (Cons y xs)
  have "(if y > x then y else x) = max x y" by (auto simp: max_def)
  then show ?case using Cons [of "max x y"] by (cases xs) (simp_all add: max.assoc)
qed simp

lemma foldl_min: "foldl (\<lambda>m val. if val < m then val else m) x xs = (Min (set (x # xs)) :: 'a::linorder)"
proof (induction xs arbitrary: x)
  case (Cons y xs)
  have "(if y < x then y else x) = min x y" by (auto simp: min_def)
  then show ?case using Cons [of "min x y"] by (cases xs) (simp_all add: min.assoc)
qed simp

section \<open>Properties\<close>

text \<open>Batches of integers in bytes. Reading back what was written gives the integers, also when fewer than
  eight bytes follow, and writing back what was read from any bytes gives their whole groups of eight.\<close>

theorem u64_batch_round_trip:
  assumes "length rest < 8"
  shows "deserialize_u64_batch (serialize_u64_batch xs @ rest) = xs
    \<and> serialize_u64_batch (deserialize_u64_batch bs) = take (8 * (length bs div 8)) bs"
  using deserialize_serialize [OF assms] serialize_deserialize by blast

theorem u64_batch_round_trip_witness:
  "deserialize_u64_batch (serialize_u64_batch [1, 2 ^ 63] @ [9, 9]) = [1, 2 ^ 63]"
  using u64_batch_round_trip [of "[9, 9]" "[1, 2 ^ 63]"] by simp

text \<open>The vectorized operations are the plain ones: for slices of one length the batch addition is the
  wrapping sum of each pair, whatever the result slice held, and it panics for other lengths; the maximum and
  the minimum are those of the slice, 0 for an empty one; the vector sum is the wrapping sum of all elements.\<close>

theorem simd_batches_plain:
  "add_u64_batch a b result =
      (if length a = length b \<and> length a = length result then Ok (map2 (+) a b) else Panic)
   \<and> max_u64_batch a = (if a = [] then 0 else Max (set a))
   \<and> min_u64_batch a = (if a = [] then 0 else Min (set a))
   \<and> vectorized_sum_compile_time a = sum_list a"
proof (intro conjI)
  have "add_loop a b result 0 = map2 (+) a b" if "length a = length b" "length a = length result"
    by (rule nth_equalityI) (use that add_loop_nth [OF that, of _ 0] in auto)
  then show "add_u64_batch a b result =
      (if length a = length b \<and> length a = length result then Ok (map2 (+) a b) else Panic)"
    by (simp add: add_u64_batch_def)
  show "max_u64_batch a = (if a = [] then 0 else Max (set a))"
    by (cases a) (simp_all add: max_u64_batch_def foldl_max del: set_simps)
  show "min_u64_batch a = (if a = [] then 0 else Min (set a))"
    by (cases a) (simp_all add: min_u64_batch_def foldl_min del: set_simps)
  show "vectorized_sum_compile_time a = sum_list a"
    using sum_chunks_sum [of "[0, 0, 0, 0]" a] by (auto simp: vectorized_sum_compile_time_def split: prod.split)
qed

text \<open>The fast hashes tell single bytes apart. Two inputs that differ in exactly one byte have different
  FNV hashes, and the table of the event processor has a different hash for every key.\<close>

theorem hashes_tell_bytes_apart:
  "(fast_hash_u64 (xs @ x # ys) = fast_hash_u64 (xs @ y # ys) \<longleftrightarrow> x = y)
   \<and> (hash_lookup_optimized event_processor_new x = hash_lookup_optimized event_processor_new y \<longleftrightarrow> x = y)
   \<and> route_event_zero_cost event_processor_new x < 16"
proof -
  have hash: "hash_lookup_optimized event_processor_new k = const_hash k" for k
    using unsigned_less [of k, where 'a = nat] by (simp add: hash_lookup_optimized_def event_processor_new_def precompute_hash_table_def)
  have "unat ((ucast x :: u64) AND 1023) < 1024"
    using word_and_le1 [of "ucast x :: u64" 1023] by (simp add: word_le_nat_alt)
  then have "route_event_zero_cost event_processor_new x < 16"
    by (simp add: route_event_zero_cost_def event_processor_new_def precompute_route_table_def word_mod_less_divisor word_less_nat_alt unat_mod)
  then show ?thesis by (simp add: fast_hash_u64_def fnv_fold_inj fnv_step_byte hash const_hash_inj)
qed

end
