(* ===== verification/Raw_Memory.thy ===== *)
theory Raw_Memory
  imports Solana_Types
begin

text \<open>
  Memory as the pointer code sees it: a byte at every address, with loads and stores of several bytes at once.
  A store through a wide pointer writes all its bytes, also those behind the end of the object that the
  program meant.
\<close>

type_synonym memory = "nat \<Rightarrow> u8"

definition load :: "memory \<Rightarrow> nat \<Rightarrow> nat \<Rightarrow> u8 list" where
  "load m a n = map (\<lambda>i. m (a + i)) [0..<n]"

definition store :: "memory \<Rightarrow> nat \<Rightarrow> u8 list \<Rightarrow> memory" where
  "store m a bs = (\<lambda>x. if a \<le> x \<and> x < a + length bs then bs ! (x - a) else m x)"

text \<open>One load of \<open>n\<close> bytes followed by one store.\<close>

definition move :: "memory \<Rightarrow> nat \<Rightarrow> nat \<Rightarrow> nat \<Rightarrow> memory" where
  "move m dst src n = store m dst (load m src n)"

definition apart :: "nat \<Rightarrow> nat \<Rightarrow> nat \<Rightarrow> bool" where
  "apart a b n \<longleftrightarrow> a + n \<le> b \<or> b + n \<le> a"

lemma length_load [simp]: "length (load m a n) = n"
  by (simp add: load_def)

lemma nth_load [simp]: "i < n \<Longrightarrow> load m a n ! i = m (a + i)"
  by (simp add: load_def)

lemma load_0 [simp]: "load m a 0 = []"
  by (simp add: load_def)

lemma load_Suc: "load m a (Suc n) = load m a n @ [m (a + n)]"
  by (simp add: load_def)

lemma load_1 [simp]: "load m a (Suc 0) = [m a]"
  by (simp add: load_def)

lemma load_add: "load m a (n + k) = load m a n @ load m (a + n) k"
  by (rule nth_equalityI) (auto simp: nth_append add.assoc)

lemma store_Nil [simp]: "store m a [] = m"
  by (rule ext) (auto simp: store_def)

lemma store_apply: "store m a bs x = (if a \<le> x \<and> x < a + length bs then bs ! (x - a) else m x)"
  by (simp add: store_def)

lemma store_store: "store (store m a bs) (a + length bs) cs = store m a (bs @ cs)"
  by (rule ext) (auto simp: store_def nth_append)

lemma load_store_same [simp]: "load (store m a bs) a (length bs) = bs"
  by (rule nth_equalityI) (auto simp: store_def)

lemma load_store_prefix: "n \<le> length bs \<Longrightarrow> load (store m a bs) a n = take n bs"
  by (rule nth_equalityI) (auto simp: store_def)

lemma load_store_outside: "a + n \<le> b \<or> b + length bs \<le> a \<Longrightarrow> load (store m b bs) a n = load m a n"
  by (rule nth_equalityI) (auto simp: store_def)

lemma load_eq_iff: "load m a n = load m' b n \<longleftrightarrow> (\<forall>i<n. m (a + i) = m' (b + i))"
  by (auto simp: list_eq_iff_nth_eq)

lemma load_cong: "(\<And>i. i < n \<Longrightarrow> m (a + i) = m' (a + i)) \<Longrightarrow> load m a n = load m' a n"
  by (simp add: load_eq_iff)

lemma move_0 [simp]: "move m d s 0 = m"
  by (simp add: move_def)

lemma move_apply: "move m d s n x = (if d \<le> x \<and> x < d + n then m (s + (x - d)) else m x)"
  by (auto simp: move_def store_apply)

lemma move_elsewhere: "x < d \<or> d + n \<le> x \<Longrightarrow> move m d s n x = m x"
  by (auto simp: move_apply)

lemma load_move_outside: "a + n \<le> d \<or> d + k \<le> a \<Longrightarrow> load (move m d s k) a n = load m a n"
  by (simp add: move_def load_store_outside)

text \<open>A copy in two steps is one copy, when the ranges are apart.\<close>

lemma move_move:
  assumes "apart d s (n + k)"
  shows "move (move m d s n) (d + n) (s + n) k = move m d s (n + k)"
  using assms by (intro ext) (auto simp: move_apply apart_def)

lemma apart_mono: "apart d s n \<Longrightarrow> k \<le> n \<Longrightarrow> apart d s k"
  by (auto simp: apart_def)

lemma apart_shift: "apart d s (n + k) \<Longrightarrow> apart (d + n) (s + n) k"
  by (auto simp: apart_def)

lemma load_move: "n \<le> k \<Longrightarrow> load (move m d s k) d n = load m s n"
  by (rule nth_equalityI) (auto simp: move_apply)

text \<open>Buffers that lie in memory, for the evaluation of examples.\<close>

definition buffer_at :: "nat \<Rightarrow> u8 list \<Rightarrow> memory" where
  "buffer_at a bs = store (\<lambda>_. 0) a bs"

end
