(* ===== verification/Simd_Memory.thy ===== *)
theory Simd_Memory
  imports Raw_Memory
begin

text \<open>
  The memory operations of perf/hardware_optimizations.rs and perf/simd.rs as they run on x86-64. An unaligned
  vector load and store move 16 or 32 bytes; a dereference through a cast pointer moves the bytes of the
  integer. Lengths are dispatched as the code does it, so a copy can move more bytes than it was asked for.
\<close>

unbundle bit_operations_syntax

section \<open>perf/hardware\_optimizations.rs: copies\<close>

text \<open>\<open>memcpy_small\<close>; the last branch is \<open>unreachable!()\<close>. Its branch for 5 to 8 bytes has a second copy for
  lengths above 8, which never runs.\<close>

definition memcpy_small :: "memory \<Rightarrow> nat \<Rightarrow> nat \<Rightarrow> nat \<Rightarrow> (memory, 'e) outcome" where
  "memcpy_small m dst src len =
    (if len = 1 then Ok (move m dst src 1)
     else if len = 2 then Ok (move m dst src 2)
     else if len = 3 then Ok (move (move m dst src 2) (dst + 2) (src + 2) 1)
     else if len = 4 then Ok (move m dst src 4)
     else if 5 \<le> len \<and> len \<le> 8
     then let m' = move m dst src 8
       in Ok (if len > 8 then move m' (dst + 8) (src + 8) (len - 8) else m')
     else Panic)"

definition memcpy_sse :: "memory \<Rightarrow> nat \<Rightarrow> nat \<Rightarrow> nat \<Rightarrow> memory" where
  "memcpy_sse m dst src len = (if len \<le> 16 then move m dst src 16 else m)"

definition memcpy_avx :: "memory \<Rightarrow> nat \<Rightarrow> nat \<Rightarrow> nat \<Rightarrow> memory" where
  "memcpy_avx m dst src len = (if len \<le> 32 then move m dst src 32 else m)"

definition memcpy_avx2 :: "memory \<Rightarrow> nat \<Rightarrow> nat \<Rightarrow> nat \<Rightarrow> memory" where
  "memcpy_avx2 m dst src len =
    (let m' = move m dst src 32
     in if len > 32 then let remaining = len - 32
          in if remaining \<le> 32 then move m' (dst + 32) (src + 32) 32 else m'
        else m')"

text \<open>The loops over whole chunks, without and with AVX-512.\<close>

fun copy_chunks_32 :: "nat \<Rightarrow> memory \<Rightarrow> nat \<Rightarrow> nat \<Rightarrow> memory" where
  "copy_chunks_32 0 m dst src = m"
| "copy_chunks_32 (Suc k) m dst src = copy_chunks_32 k (memcpy_avx2 m dst src 32) (dst + 32) (src + 32)"

fun copy_chunks_64 :: "nat \<Rightarrow> memory \<Rightarrow> nat \<Rightarrow> nat \<Rightarrow> memory" where
  "copy_chunks_64 0 m dst src = m"
| "copy_chunks_64 (Suc k) m dst src = copy_chunks_64 k (move m dst src 64) (dst + 64) (src + 64)"

definition memcpy_fallback :: "memory \<Rightarrow> nat \<Rightarrow> nat \<Rightarrow> nat \<Rightarrow> memory" where
  "memcpy_fallback m dst src len =
    (let chunks = len div 32; offset = 32 * chunks; m' = copy_chunks_32 chunks m dst src; remaining = len mod 32
     in if remaining > 0 then memcpy_avx m' (dst + offset) (src + offset) remaining else m')"

definition memcpy_avx512 :: "memory \<Rightarrow> nat \<Rightarrow> nat \<Rightarrow> nat \<Rightarrow> memory" where
  "memcpy_avx512 m dst src len =
    (let chunks = len div 64; offset = 64 * chunks; m' = copy_chunks_64 chunks m dst src; remaining = len mod 64
     in if remaining > 0 then memcpy_avx2 m' (dst + offset) (src + offset) remaining else m')"

text \<open>\<open>memcpy_simd_optimized\<close>; the flag is the target feature AVX-512 of the build.\<close>

definition memcpy_simd_optimized :: "bool \<Rightarrow> memory \<Rightarrow> nat \<Rightarrow> nat \<Rightarrow> nat \<Rightarrow> (memory, 'e) outcome" where
  "memcpy_simd_optimized avx512 m dst src len =
    (if len = 0 then Ok m
     else if len \<le> 8 then memcpy_small m dst src len
     else if len \<le> 16 then Ok (memcpy_sse m dst src len)
     else if len \<le> 32 then Ok (memcpy_avx m dst src len)
     else if len \<le> 64 then Ok (memcpy_avx2 m dst src len)
     else Ok (if avx512 then memcpy_avx512 m dst src len else memcpy_fallback m dst src len))"

section \<open>perf/hardware\_optimizations.rs: comparisons and zeroing\<close>

text \<open>\<open>_mm_movemask_epi8\<close> of \<open>_mm_cmpeq_epi8\<close>: bit \<open>i\<close> says whether the bytes \<open>i\<close> are equal.\<close>

definition cmpeq_mask :: "memory \<Rightarrow> nat \<Rightarrow> nat \<Rightarrow> nat \<Rightarrow> u32" where
  "cmpeq_mask m a b n = horner_sum of_bool 2 (map (\<lambda>i. m (a + i) = m (b + i)) [0..<n])"

definition memcmp_small :: "memory \<Rightarrow> nat \<Rightarrow> nat \<Rightarrow> nat \<Rightarrow> (bool, 'e) outcome" where
  "memcmp_small m a b len =
    (if len = 1 then Ok (m a = m b)
     else if len = 2 then Ok (load m a 2 = load m b 2)
     else if len = 3 then Ok (load m a 2 = load m b 2 \<and> m (a + 2) = m (b + 2))
     else if len = 4 then Ok (load m a 4 = load m b 4)
     else if 5 \<le> len \<and> len \<le> 8 then Ok (load m a 8 = load m b 8)
     else Panic)"

definition valid_mask :: "nat \<Rightarrow> nat \<Rightarrow> u32" where
  "valid_mask width len = (if len \<ge> width then push_bit width 1 - 1 else push_bit len 1 - 1)"

definition memcmp_sse :: "memory \<Rightarrow> nat \<Rightarrow> nat \<Rightarrow> nat \<Rightarrow> bool" where
  "memcmp_sse m a b len = (let mask = cmpeq_mask m a b 16; valid = valid_mask 16 len in mask AND valid = valid)"

definition memcmp_avx2 :: "memory \<Rightarrow> nat \<Rightarrow> nat \<Rightarrow> nat \<Rightarrow> bool" where
  "memcmp_avx2 m a b len = (let mask = cmpeq_mask m a b 32; valid = valid_mask 32 len in mask AND valid = valid)"

fun cmp_chunks :: "nat \<Rightarrow> memory \<Rightarrow> nat \<Rightarrow> nat \<Rightarrow> bool" where
  "cmp_chunks 0 m a b = True"
| "cmp_chunks (Suc k) m a b = (if \<not> memcmp_avx2 m a b 32 then False else cmp_chunks k m (a + 32) (b + 32))"

definition memcmp_large :: "memory \<Rightarrow> nat \<Rightarrow> nat \<Rightarrow> nat \<Rightarrow> bool" where
  "memcmp_large m a b len =
    (let chunks = len div 32; remaining = len mod 32
     in if \<not> cmp_chunks chunks m a b then False
        else if remaining > 0 then memcmp_avx2 m (a + chunks * 32) (b + chunks * 32) remaining
        else True)"

definition memcmp_simd_optimized :: "memory \<Rightarrow> nat \<Rightarrow> nat \<Rightarrow> nat \<Rightarrow> (bool, 'e) outcome" where
  "memcmp_simd_optimized m a b len =
    (if len = 0 then Ok True
     else if len \<le> 8 then memcmp_small m a b len
     else if len \<le> 16 then Ok (memcmp_sse m a b len)
     else if len \<le> 32 then Ok (memcmp_avx2 m a b len)
     else Ok (memcmp_large m a b len))"

text \<open>Zeroing: whole vectors, then single bytes. \<open>zero_avx2\<close> of perf/simd.rs does the same.\<close>

fun zero_chunks :: "nat \<Rightarrow> memory \<Rightarrow> nat \<Rightarrow> memory" where
  "zero_chunks 0 m p = m"
| "zero_chunks (Suc k) m p = zero_chunks k (store m p (replicate 32 0)) (p + 32)"

fun zero_bytes :: "nat \<Rightarrow> memory \<Rightarrow> nat \<Rightarrow> memory" where
  "zero_bytes 0 m p = m"
| "zero_bytes (Suc k) m p = zero_bytes k (store m p [0]) (p + 1)"

definition memzero_simd_optimized :: "memory \<Rightarrow> nat \<Rightarrow> nat \<Rightarrow> memory" where
  "memzero_simd_optimized m p len =
    (let chunks = len div 32; offset = 32 * chunks in zero_bytes (len mod 32) (zero_chunks chunks m p) (p + offset))"

section \<open>perf/simd.rs: copies and comparisons\<close>

text \<open>The \<open>while\<close> loops over whole vectors and then over single bytes; \<open>n\<close> is what is left.\<close>

fun copy_avx2 :: "memory \<Rightarrow> nat \<Rightarrow> nat \<Rightarrow> nat \<Rightarrow> memory" where
  "copy_avx2 m dst src n =
    (if n \<ge> 32 then copy_avx2 (move m dst src 32) (dst + 32) (src + 32) (n - 32)
     else if n > 0 then copy_avx2 (move m dst src 1) (dst + 1) (src + 1) (n - 1)
     else m)"

fun compare_avx2 :: "memory \<Rightarrow> nat \<Rightarrow> nat \<Rightarrow> nat \<Rightarrow> bool" where
  "compare_avx2 m a b n =
    (if n \<ge> 32 then if cmpeq_mask m a b 32 \<noteq> -1 then False else compare_avx2 m (a + 32) (b + 32) (n - 32)
     else if n > 0 then if m a \<noteq> m b then False else compare_avx2 m (a + 1) (b + 1) (n - 1)
     else True)"

fun zero_avx2 :: "memory \<Rightarrow> nat \<Rightarrow> nat \<Rightarrow> memory" where
  "zero_avx2 m p n =
    (if n \<ge> 32 then zero_avx2 (store m p (replicate 32 0)) (p + 32) (n - 32)
     else if n > 0 then zero_avx2 (store m p [0]) (p + 1) (n - 1)
     else m)"

declare copy_avx2.simps [simp del] compare_avx2.simps [simp del] zero_avx2.simps [simp del]

section \<open>What a copy moves\<close>

text \<open>The number of bytes that \<open>memcpy_simd_optimized\<close> moves for a length.\<close>

definition copy_span :: "nat \<Rightarrow> nat" where
  "copy_span len = (if len \<le> 4 then len else if len \<le> 8 then 8 else if len \<le> 16 then 16 else 32 * ((len + 31) div 32))"

lemma copy_span_ge: "len \<le> copy_span len"
  by (simp add: copy_span_def) linarith

lemma copy_span_less: "copy_span len < len + 32"
  by (simp add: copy_span_def) linarith

lemma copy_chunks_32_run:
  "apart dst src (32 * k) \<Longrightarrow> copy_chunks_32 k m dst src = move m dst src (32 * k)"
proof (induction k arbitrary: m dst src)
  case (Suc k)
  have a: "apart (dst + 32) (src + 32) (32 * k)" using Suc.prems apart_shift [of dst src 32 "32 * k"] by (simp add: add.commute)
  show ?case using Suc.IH [OF a] move_move [of dst src 32 "32 * k" m] Suc.prems by (simp add: memcpy_avx2_def)
qed simp

lemma copy_chunks_64_run:
  "apart dst src (64 * k) \<Longrightarrow> copy_chunks_64 k m dst src = move m dst src (64 * k)"
proof (induction k arbitrary: m dst src)
  case (Suc k)
  have a: "apart (dst + 64) (src + 64) (64 * k)" using Suc.prems apart_shift [of dst src 64 "64 * k"] by (simp add: add.commute)
  show ?case using Suc.IH [OF a] move_move [of dst src 64 "64 * k" m] Suc.prems by simp
qed simp

lemma memcpy_small_run:
  assumes "0 < len" "len \<le> 8" "apart dst src (copy_span len)"
  shows "memcpy_small m dst src len = Ok (move m dst src (copy_span len))"
proof -
  consider "len = 1" | "len = 2" | "len = 3" | "len = 4" | "5 \<le> len" using assms(1) by linarith
  then show ?thesis
  proof cases
    case 3
    then show ?thesis using assms move_move [of dst src 2 1 m] by (simp add: memcpy_small_def copy_span_def)
  qed (use assms in \<open>simp_all add: memcpy_small_def copy_span_def\<close>)
qed

lemma round_up_32: "(32 * q + r + 31) div 32 = q + (r + 31) div (32::nat)"
  using div_mult_self1 [of 32 "r + 31" q] by (simp add: ac_simps)

lemma span_chunks_32: "16 < len \<Longrightarrow> copy_span len = 32 * (len div 32) + (if len mod 32 > 0 then 32 else 0)"
proof -
  have "(len mod 32 + 31) div 32 = (if len mod 32 > 0 then 1 else 0)"
    using mod_less_divisor [of 32 len] by (auto intro!: div_nat_eqI)
  then show "16 < len \<Longrightarrow> ?thesis"
    using round_up_32 [of "len div 32" "len mod 32"] by (simp add: copy_span_def)
qed

lemma memcpy_fallback_run:
  assumes "16 < len" "apart dst src (copy_span len)"
  shows "memcpy_fallback m dst src len = move m dst src (copy_span len)"
proof -
  let ?n = "32 * (len div 32)"
  have s: "copy_span len = ?n + (if len mod 32 > 0 then 32 else 0)" by (rule span_chunks_32 [OF assms(1)])
  have a: "apart dst src ?n" using assms(2) s by (rule_tac apart_mono) auto
  have r: "len mod 32 \<le> 32" by (simp add: less_imp_le)
  show ?thesis
    using copy_chunks_32_run [OF a] move_move [of dst src ?n 32 m] assms(2) s r
    by (simp add: memcpy_fallback_def memcpy_avx_def split: if_splits)
qed

lemma memcpy_avx2_run:
  assumes "0 < len" "len \<le> 64" "apart dst src (if len > 32 then 64 else 32)"
  shows "memcpy_avx2 m dst src len = move m dst src (if len > 32 then 64 else 32)"
  using assms move_move [of dst src 32 32 m] by (auto simp: memcpy_avx2_def Let_def)

lemma span_chunks_64:
  "16 < len \<Longrightarrow> copy_span len
    = 64 * (len div 64) + (if len mod 64 > 32 then 64 else if len mod 64 > 0 then 32 else 0)"
proof -
  have "(len mod 64 + 31) div 32 = (if len mod 64 > 32 then 2 else if len mod 64 > 0 then 1 else 0)"
    using mod_less_divisor [of 64 len] by (auto intro!: div_nat_eqI)
  then show "16 < len \<Longrightarrow> ?thesis"
    using round_up_32 [of "2 * (len div 64)" "len mod 64"] by (simp add: copy_span_def)
qed

lemma memcpy_avx512_run:
  assumes "16 < len" "apart dst src (copy_span len)"
  shows "memcpy_avx512 m dst src len = move m dst src (copy_span len)"
proof -
  let ?n = "64 * (len div 64)" and ?r = "len mod 64"
  let ?k = "if ?r > 32 then 64 else if ?r > 0 then 32 else 0 :: nat"
  have s: "copy_span len = ?n + ?k" by (rule span_chunks_64 [OF assms(1)])
  have a: "apart dst src ?n" using assms(2) s by (rule_tac apart_mono) auto
  have a2: "apart (dst + ?n) (src + ?n) ?k" using assms(2) unfolding s by (rule apart_shift)
  have r: "?r \<le> 64" by (simp add: less_imp_le)
  show ?thesis
  proof (cases "?r = 0")
    case True
    then show ?thesis using copy_chunks_64_run [OF a, of m] s by (simp add: memcpy_avx512_def Let_def)
  next
    case False
    then have k: "?k = (if ?r > 32 then 64 else 32)" by simp
    have "memcpy_avx2 (move m dst src ?n) (dst + ?n) (src + ?n) ?r
        = move (move m dst src ?n) (dst + ?n) (src + ?n) ?k"
      unfolding k by (rule memcpy_avx2_run) (use False r a2 k in auto)
    then show ?thesis
      using False copy_chunks_64_run [OF a, of m] move_move [of dst src ?n ?k m] assms(2)
      unfolding s by (simp add: memcpy_avx512_def Let_def)
  qed
qed

lemma memcpy_run:
  assumes "apart dst src (copy_span len)"
  shows "memcpy_simd_optimized avx512 m dst src len = Ok (move m dst src (copy_span len))"
proof -
  consider "len = 0" | "0 < len" "len \<le> 8" | "8 < len" "len \<le> 16" | "16 < len" "len \<le> 32" | "32 < len" "len \<le> 64" | "64 < len"
    by linarith
  then show ?thesis
  proof cases
    case 1
    then show ?thesis by (simp add: memcpy_simd_optimized_def copy_span_def)
  next
    case 2
    then show ?thesis using memcpy_small_run [OF _ _ assms, of m] by (simp add: memcpy_simd_optimized_def)
  next
    case 3
    then show ?thesis using assms by (simp add: memcpy_simd_optimized_def memcpy_sse_def copy_span_def)
  next
    case 4
    then have "copy_span len = 32" by (simp add: copy_span_def)
    then show ?thesis using 4 by (simp add: memcpy_simd_optimized_def memcpy_avx_def)
  next
    case 5
    then have "copy_span len = 64" by (simp add: copy_span_def)
    then show ?thesis using 5 assms memcpy_avx2_run [of len dst src m] by (simp add: memcpy_simd_optimized_def)
  next
    case 6
    then show ?thesis using assms
      by (simp add: memcpy_simd_optimized_def memcpy_avx512_run memcpy_fallback_run)
  qed
qed

section \<open>What a comparison reads\<close>

lemma bit_valid_mask: "width \<le> 32 \<Longrightarrow> bit (valid_mask width len) i \<longleftrightarrow> i < min width len"
proof -
  have "push_bit k 1 - 1 = (mask k :: u32)" for k
    by (simp add: mask_eq_exp_minus_1 push_bit_of_1)
  then show "width \<le> 32 \<Longrightarrow> ?thesis"
    by (auto simp: valid_mask_def bit_mask_iff)
qed

lemma bit_cmpeq_mask: "n \<le> 32 \<Longrightarrow> bit (cmpeq_mask m a b n) i \<longleftrightarrow> i < n \<and> m (a + i) = m (b + i)"
  by (auto simp: cmpeq_mask_def bit_horner_sum_bit_word_iff)

lemma masked_equal:
  assumes "width \<le> 32" "len \<le> width"
  shows "cmpeq_mask m a b width AND valid_mask width len = valid_mask width len \<longleftrightarrow> load m a len = load m b len"
proof -
  have "cmpeq_mask m a b width AND valid_mask width len = valid_mask width len
      \<longleftrightarrow> (\<forall>i<32. i < len \<longrightarrow> m (a + i) = m (b + i))"
    using assms by (auto simp: bit_eq_iff bit_and_iff bit_valid_mask bit_cmpeq_mask)
  also have "\<dots> \<longleftrightarrow> load m a len = load m b len"
    using assms by (auto simp: load_eq_iff)
  finally show ?thesis .
qed

lemma memcmp_sse_iff: "len \<le> 16 \<Longrightarrow> memcmp_sse m a b len \<longleftrightarrow> load m a len = load m b len"
  by (simp add: memcmp_sse_def Let_def masked_equal)

lemma memcmp_avx2_iff: "len \<le> 32 \<Longrightarrow> memcmp_avx2 m a b len \<longleftrightarrow> load m a len = load m b len"
  by (simp add: memcmp_avx2_def Let_def masked_equal)

lemma load_add_eq: "load m a (n + k) = load m b (n + k) \<longleftrightarrow> load m a n = load m b n \<and> load m (a + n) k = load m (b + n) k"
  by (simp add: load_add)

lemma cmp_chunks_iff: "cmp_chunks k m a b \<longleftrightarrow> load m a (32 * k) = load m b (32 * k)"
  by (induction k arbitrary: a b) (simp_all add: memcmp_avx2_iff load_add_eq)

lemma memcmp_large_iff: "memcmp_large m a b len \<longleftrightarrow> load m a len = load m b len"
proof -
  have "load m a len = load m b len \<longleftrightarrow> load m a (32 * (len div 32)) = load m b (32 * (len div 32))
    \<and> load m (a + 32 * (len div 32)) (len mod 32) = load m (b + 32 * (len div 32)) (len mod 32)"
    using load_add_eq [of m a "32 * (len div 32)" "len mod 32" b] by simp
  then show ?thesis
    by (auto simp: memcmp_large_def Let_def cmp_chunks_iff memcmp_avx2_iff less_imp_le mult.commute [of _ 32])
qed

text \<open>The vector loops of perf/simd.rs move, compare and clear exactly their range.\<close>

lemma copy_avx2_run: "apart dst src n \<Longrightarrow> copy_avx2 m dst src n = move m dst src n"
proof (induction m dst src n rule: copy_avx2.induct)
  case (1 m dst src n)
  consider "32 \<le> n" | "0 < n" "n < 32" | "n = 0" by linarith
  then show ?case
  proof cases
    case 1
    then obtain k where n: "n = 32 + k" using le_Suc_ex by blast
    then have "apart (dst + 32) (src + 32) k" using "1.prems" apart_shift by simp
    then show ?thesis using "1.IH"(1) [OF 1] move_move [of dst src 32 k m] "1.prems" n
      by (subst copy_avx2.simps) simp
  next
    case 2
    then obtain k where n: "n = 1 + k" using le_Suc_ex [of 1 n] by auto
    then have "apart (dst + 1) (src + 1) k" using "1.prems" apart_shift [of dst src 1 k] by simp
    then show ?thesis using "1.IH"(2) 2 move_move [of dst src 1 k m] "1.prems" n
      by (subst copy_avx2.simps) simp
  qed (subst copy_avx2.simps, simp)
qed

lemma cmpeq_mask_all: "cmpeq_mask m a b 32 = -1 \<longleftrightarrow> load m a 32 = load m b 32"
  by (auto simp: bit_eq_iff bit_cmpeq_mask load_eq_iff)

lemma compare_avx2_iff: "compare_avx2 m a b n \<longleftrightarrow> load m a n = load m b n"
proof (induction m a b n rule: compare_avx2.induct)
  case (1 m a b n)
  consider "32 \<le> n" | "0 < n" "n < 32" | "n = 0" by linarith
  then show ?case
  proof cases
    case 1
    then obtain k where n: "n = 32 + k" using le_Suc_ex by blast
    then show ?thesis using "1.IH"(1) [OF 1] load_add_eq [of m a 32 k b]
      by (subst compare_avx2.simps) (auto simp: cmpeq_mask_all)
  next
    case 2
    then obtain k where n: "n = 1 + k" using le_Suc_ex [of 1 n] by auto
    then show ?thesis using "1.IH"(2) 2 load_add_eq [of m a 1 k b]
      by (subst compare_avx2.simps) auto
  qed (subst compare_avx2.simps, simp)
qed

lemma store_zeros: "store (store m p (replicate n 0)) (p + n) (replicate k 0) = store m p (replicate (n + k) 0)"
  using store_store [of m p "replicate n 0" "replicate k 0"] by (simp add: replicate_add)

lemma zero_chunks_run: "zero_chunks k m p = store m p (replicate (32 * k) 0)"
  by (induction k arbitrary: m p) (simp_all add: store_zeros [of _ _ 32])

lemma zero_bytes_run: "zero_bytes k m p = store m p (replicate k 0)"
  by (induction k arbitrary: m p) (use store_zeros [of _ _ 1] in simp_all)

lemma memzero_run: "memzero_simd_optimized m p len = store m p (replicate len 0)"
  by (simp add: memzero_simd_optimized_def zero_chunks_run zero_bytes_run store_zeros)

lemma zero_avx2_run: "zero_avx2 m p n = store m p (replicate n 0)"
proof (induction m p n rule: zero_avx2.induct)
  case (1 m p n)
  consider "32 \<le> n" | "0 < n" "n < 32" | "n = 0" by linarith
  then show ?case
  proof cases
    case 1
    then obtain k where n: "n = 32 + k" using le_Suc_ex by blast
    then show ?thesis using "1.IH"(1) [OF 1] store_zeros [of m p 32 k] by (subst zero_avx2.simps) simp
  next
    case 2
    then obtain k where n: "n = 1 + k" using le_Suc_ex [of 1 n] by auto
    then show ?thesis using "1.IH"(2) 2 store_zeros [of m p 1 k] by (subst zero_avx2.simps) simp
  qed (subst zero_avx2.simps, simp)
qed

section \<open>Properties\<close>

text \<open>The dispatching copy writes past its length. When the ranges it touches are apart, it never panics and
  moves exactly \<open>copy_span len\<close> bytes, with AVX-512 or without: 8 for lengths from 5 to 8, 16 for 9 to 16, and the
  next multiple of 32 above. Only for the lengths up to 4, 8, 16 and the multiples of 32 this is the length
  that was asked for; any other copy overwrites the bytes behind its destination.\<close>

theorem simd_copy_span:
  assumes "apart dst src (copy_span len)"
  shows "\<exists>m'. memcpy_simd_optimized avx512 m dst src len = Ok m'
    \<and> (\<forall>x. m' x = (if dst \<le> x \<and> x < dst + copy_span len then m (src + (x - dst)) else m x))
    \<and> len \<le> copy_span len
    \<and> (copy_span len = len \<longleftrightarrow> len \<le> 4 \<or> len = 8 \<or> len = 16 \<or> 32 dvd len)"
proof (intro exI conjI)
  show "memcpy_simd_optimized avx512 m dst src len = Ok (move m dst src (copy_span len))"
    by (rule memcpy_run [OF assms])
  have "16 < len \<Longrightarrow> 32 * ((len + 31) div 32) = len \<longleftrightarrow> 32 dvd len" by presburger
  then show "copy_span len = len \<longleftrightarrow> len \<le> 4 \<or> len = 8 \<or> len = 16 \<or> 32 dvd len"
    by (auto simp: copy_span_def dest: dvd_imp_le)
qed (simp_all add: move_apply copy_span_ge)

theorem simd_copy_span_witness:
  "\<exists>m'. memcpy_simd_optimized False (buffer_at 0 [1, 2, 3, 4, 5, 6, 7, 8]) 100 0 5 = Ok m' \<and> m' 104 = 5 \<and> m' 105 = 6"
proof -
  have "apart 100 0 (copy_span 5)" by (simp add: apart_def copy_span_def)
  from simd_copy_span [OF this, of False "buffer_at 0 [1, 2, 3, 4, 5, 6, 7, 8]"] show ?thesis
    by (auto simp: buffer_at_def store_def copy_span_def)
qed

text \<open>The two comparisons and the two clearing loops. \<open>compare_avx2\<close> of perf/simd.rs compares exactly its
  range; \<open>memcmp_simd_optimized\<close> never panics and does the same for every length except 5, 6 and 7, where it
  also compares the bytes behind up to the eighth and so can call equal ranges different. Both clearing
  functions clear exactly their range.\<close>

theorem simd_compare_and_clear:
  "(compare_avx2 m a b len \<longleftrightarrow> load m a len = load m b len)
   \<and> memcmp_simd_optimized m a b len =
       Ok (if 5 \<le> len \<and> len \<le> 7 then load m a 8 = load m b 8 else load m a len = load m b len)
   \<and> memzero_simd_optimized m a len = store m a (replicate len 0)
   \<and> zero_avx2 m a len = memzero_simd_optimized m a len"
proof -
  consider "len = 0" | "len = 1" | "len = 2" | "len = 3" | "len = 4" | "5 \<le> len" "len \<le> 7" | "len = 8"
    | "8 < len" "len \<le> 16" | "16 < len" "len \<le> 32" | "32 < len"
    by linarith
  then have "memcmp_simd_optimized m a b len =
      Ok (if 5 \<le> len \<and> len \<le> 7 then load m a 8 = load m b 8 else load m a len = load m b len)"
  proof cases
    case 4
    then show ?thesis using load_add_eq [of m a 2 1 b] by (simp add: memcmp_simd_optimized_def memcmp_small_def)
  qed (simp_all add: memcmp_simd_optimized_def memcmp_small_def memcmp_sse_iff memcmp_avx2_iff memcmp_large_iff)
  then show ?thesis by (simp add: compare_avx2_iff memzero_run zero_avx2_run)
qed

end
