(* ===== verification/Mapped_Buffer.thy ===== *)
theory Mapped_Buffer
  imports Simd_Memory
begin

text \<open>
  The memory-mapped byte buffer of perf/zero\_copy\_io.rs: a ring of bytes in the address space that is written and
  read with the dispatching copy of Simd\_Memory. The memory is the state, so that a copy which moves too many
  bytes shows its effect. The read and write positions are \<open>usize\<close> values below the size; a buffer of size 0
  cannot be mapped.
\<close>

record MemoryMappedBuffer =
  mb_mmap :: nat
  mb_read_pos :: nat
  mb_write_pos :: nat
  mb_size :: nat

definition err_no_space :: string where "err_no_space = ''Insufficient buffer space''"

definition mapped_new :: "nat \<Rightarrow> nat \<Rightarrow> MemoryMappedBuffer" where
  "mapped_new base n = \<lparr> mb_mmap = base, mb_read_pos = 0, mb_write_pos = 0, mb_size = n \<rparr>"

definition available_data :: "MemoryMappedBuffer \<Rightarrow> nat" where
  "available_data b =
    (if mb_write_pos b \<ge> mb_read_pos b then mb_write_pos b - mb_read_pos b
     else mb_size b - (mb_read_pos b - mb_write_pos b))"

definition available_space :: "MemoryMappedBuffer \<Rightarrow> nat" where
  "available_space b = mb_size b - available_data b - 1"

text \<open>Two copies, when the range goes over the end of the buffer. \<open>data\<close> is the address of the \<open>data_len\<close> bytes.\<close>

definition write_data ::
  "bool \<Rightarrow> nat \<Rightarrow> nat \<Rightarrow> memory \<times> MemoryMappedBuffer \<Rightarrow> (nat, string) outcome \<times> memory \<times> MemoryMappedBuffer" where
  "write_data avx512 data data_len = (\<lambda>(m, b).
    let current_write = mb_write_pos b; current_read = mb_read_pos b;
        available = (if current_write \<ge> current_read then mb_size b - (current_write - current_read) - 1
                     else current_read - current_write - 1);
        write_ptr = mb_mmap b + current_write
    in if data_len > available then (Err err_no_space, m, b)
       else case (if current_write + data_len \<le> mb_size b
                  then memcpy_simd_optimized avx512 m write_ptr data data_len
                  else let first_part = mb_size b - current_write; second_part = data_len - first_part
                    in obind (memcpy_simd_optimized avx512 m write_ptr data first_part) (\<lambda>m.
                       memcpy_simd_optimized avx512 m (mb_mmap b) (data + first_part) second_part))
       of Ok m' \<Rightarrow> (Ok data_len, m', b \<lparr> mb_write_pos := (current_write + data_len) mod mb_size b \<rparr>)
        | Err e \<Rightarrow> (Err e, m, b)
        | Panic \<Rightarrow> (Panic, m, b))"

definition read_data ::
  "bool \<Rightarrow> nat \<Rightarrow> nat \<Rightarrow> memory \<times> MemoryMappedBuffer \<Rightarrow> (nat, string) outcome \<times> memory \<times> MemoryMappedBuffer" where
  "read_data avx512 buffer buffer_len = (\<lambda>(m, b).
    let current_read = mb_read_pos b; current_write = mb_write_pos b;
        available = (if current_write \<ge> current_read then current_write - current_read
                     else mb_size b - (current_read - current_write));
        read_len = min buffer_len available; read_ptr = mb_mmap b + current_read
    in if available = 0 then (Ok 0, m, b)
       else case (if current_read + read_len \<le> mb_size b
                  then memcpy_simd_optimized avx512 m buffer read_ptr read_len
                  else let first_part = mb_size b - current_read; second_part = read_len - first_part
                    in obind (memcpy_simd_optimized avx512 m buffer read_ptr first_part) (\<lambda>m.
                       memcpy_simd_optimized avx512 m (buffer + first_part) (mb_mmap b) second_part))
       of Ok m' \<Rightarrow> (Ok read_len, m', b \<lparr> mb_read_pos := (current_read + read_len) mod mb_size b \<rparr>)
        | Err e \<Rightarrow> (Err e, m, b)
        | Panic \<Rightarrow> (Panic, m, b))"

section \<open>The queue in the buffer\<close>

definition mapped_ok :: "MemoryMappedBuffer \<Rightarrow> bool" where
  "mapped_ok b \<longleftrightarrow> mb_read_pos b < mb_size b \<and> mb_write_pos b < mb_size b"

definition unread_at :: "MemoryMappedBuffer \<Rightarrow> nat \<Rightarrow> nat" where
  "unread_at b i = mb_mmap b + (mb_read_pos b + i) mod mb_size b"

definition unread :: "memory \<Rightarrow> MemoryMappedBuffer \<Rightarrow> u8 list" where
  "unread m b = map (\<lambda>i. m (unread_at b i)) [0..<available_data b]"

text \<open>A range of \<open>n\<close> bytes that the copies of this buffer and \<open>k\<close> bytes at \<open>a\<close> leave alone: the copies may touch 32
  bytes more than asked for, behind the end of the mapping as well.\<close>

definition far :: "MemoryMappedBuffer \<Rightarrow> nat \<Rightarrow> nat \<Rightarrow> bool" where
  "far b a k \<longleftrightarrow> a + k + 32 \<le> mb_mmap b \<or> mb_mmap b + mb_size b + 32 \<le> a"

lemma unread_length [simp]: "length (unread m b) = available_data b"
  by (simp add: unread_def)

lemma mod_once: "x < n + n \<Longrightarrow> x mod n = (if x < n then x else x - n)" for n :: nat
  by (simp add: le_mod_geq not_less)

lemma available_less: "mapped_ok b \<Longrightarrow> available_data b < mb_size b"
  by (auto simp: mapped_ok_def available_data_def)

lemma write_space:
  "mapped_ok b \<Longrightarrow> (if mb_write_pos b \<ge> mb_read_pos b then mb_size b - (mb_write_pos b - mb_read_pos b) - 1
     else mb_read_pos b - mb_write_pos b - 1) = available_space b"
  by (auto simp: mapped_ok_def available_data_def available_space_def)

lemma read_available:
  "(if mb_write_pos b \<ge> mb_read_pos b then mb_write_pos b - mb_read_pos b
    else mb_size b - (mb_read_pos b - mb_write_pos b)) = available_data b"
  by (simp add: available_data_def)

lemma data_after_write:
  assumes "mapped_ok b" "n \<le> available_space b"
  shows "available_data (b \<lparr> mb_write_pos := (mb_write_pos b + n) mod mb_size b \<rparr>) = available_data b + n"
    "mapped_ok (b \<lparr> mb_write_pos := (mb_write_pos b + n) mod mb_size b \<rparr>)"
proof -
  have "mb_write_pos b + n < mb_size b + mb_size b"
    using assms by (auto simp: mapped_ok_def available_space_def)
  note m = mod_once [OF this]
  show "available_data (b \<lparr> mb_write_pos := (mb_write_pos b + n) mod mb_size b \<rparr>) = available_data b + n"
    using assms unfolding m by (auto simp: mapped_ok_def available_data_def available_space_def split: if_splits)
  show "mapped_ok (b \<lparr> mb_write_pos := (mb_write_pos b + n) mod mb_size b \<rparr>)"
    using assms(1) by (simp add: mapped_ok_def)
qed

lemma data_after_read:
  assumes "mapped_ok b" "n \<le> available_data b"
  shows "available_data (b \<lparr> mb_read_pos := (mb_read_pos b + n) mod mb_size b \<rparr>) = available_data b - n"
    "mapped_ok (b \<lparr> mb_read_pos := (mb_read_pos b + n) mod mb_size b \<rparr>)"
proof -
  have "mb_read_pos b + n < mb_size b + mb_size b"
    using assms by (auto simp: mapped_ok_def available_data_def split: if_splits)
  note m = mod_once [OF this]
  show "available_data (b \<lparr> mb_read_pos := (mb_read_pos b + n) mod mb_size b \<rparr>) = available_data b - n"
    using assms unfolding m by (auto simp: mapped_ok_def available_data_def split: if_splits)
  show "mapped_ok (b \<lparr> mb_read_pos := (mb_read_pos b + n) mod mb_size b \<rparr>)"
    using assms(1) by (simp add: mapped_ok_def)
qed

text \<open>Where the \<open>i\<close>-th unread byte lies, without the modulus.\<close>

lemma unread_at_cases:
  "mapped_ok b \<Longrightarrow> i \<le> available_data b \<Longrightarrow> unread_at b i =
    (if mb_read_pos b + i < mb_size b then mb_mmap b + mb_read_pos b + i else mb_mmap b + (mb_read_pos b + i - mb_size b))"
  using available_less [of b] mod_once [of "mb_read_pos b + i" "mb_size b"] by (auto simp: unread_at_def mapped_ok_def)

lemma move_there: "d \<le> x \<Longrightarrow> x < d + n \<Longrightarrow> move m d s n x = m (s + (x - d))"
  by (simp add: move_apply)

text \<open>The write, as one or two moves.\<close>

definition written :: "nat \<Rightarrow> nat \<Rightarrow> memory \<Rightarrow> MemoryMappedBuffer \<Rightarrow> memory" where
  "written data len m b =
    (if mb_write_pos b + len \<le> mb_size b then move m (mb_mmap b + mb_write_pos b) data (copy_span len)
     else let first = mb_size b - mb_write_pos b
       in move (move m (mb_mmap b + mb_write_pos b) data (copy_span first)) (mb_mmap b) (data + first) (copy_span (len - first)))"

lemma far_apart:
  assumes "far b a n" "k \<le> n" "mb_mmap b \<le> x" "x + j \<le> mb_mmap b + mb_size b" "j \<le> k \<or> k \<le> j" "i + k \<le> n" "k \<le> j"
  shows "apart x (a + i) (copy_span k)"
  using assms copy_span_less [of k] by (auto simp: far_def apart_def)

lemma write_run:
  assumes "mapped_ok b" "len \<le> available_space b" "far b data len"
  shows "write_data avx512 data len (m, b)
    = (Ok len, written data len m b, b \<lparr> mb_write_pos := (mb_write_pos b + len) mod mb_size b \<rparr>)"
proof (cases "mb_write_pos b + len \<le> mb_size b")
  case True
  have "apart (mb_mmap b + mb_write_pos b) data (copy_span len)"
    using far_apart [OF assms(3), of len "mb_mmap b + mb_write_pos b" len 0] True by simp
  then show ?thesis using True assms(1,2)
    by (simp add: write_data_def Let_def write_space memcpy_run written_def)
next
  case False
  let ?f = "mb_size b - mb_write_pos b"
  have w: "mb_write_pos b < mb_size b" using assms(1) by (simp add: mapped_ok_def)
  have l: "len - ?f \<le> mb_size b" using assms(2) by (simp add: available_space_def) 
  have "apart (mb_mmap b + mb_write_pos b) data (copy_span ?f)"
    using far_apart [OF assms(3), of ?f "mb_mmap b + mb_write_pos b" ?f 0] False w by simp
  moreover have "apart (mb_mmap b) (data + ?f) (copy_span (len - ?f))"
    using far_apart [OF assms(3), of "len - ?f" "mb_mmap b" "len - ?f" ?f] False w l by simp
  ultimately show ?thesis using False assms(1,2)
    by (simp add: write_data_def Let_def write_space memcpy_run written_def)
qed

text \<open>No unread byte lies behind the written bytes, where the copy writes too much.\<close>

definition spare_ok :: "nat \<Rightarrow> MemoryMappedBuffer \<Rightarrow> bool" where
  "spare_ok len b \<longleftrightarrow>
    (if mb_size b < mb_write_pos b + len then copy_span (mb_write_pos b + len - mb_size b) \<le> mb_read_pos b
     else mb_write_pos b < mb_read_pos b \<longrightarrow> mb_write_pos b + copy_span len \<le> mb_read_pos b)"

lemma written_old:
  assumes "mapped_ok b" "len \<le> available_space b" "far b data len" "spare_ok len b" "i < available_data b"
  shows "written data len m b (unread_at b i) = m (unread_at b i)"
proof -
  have a: "unread_at b i = (if mb_read_pos b + i < mb_size b then mb_mmap b + mb_read_pos b + i
      else mb_mmap b + (mb_read_pos b + i - mb_size b))"
    using assms(1,5) by (intro unread_at_cases) auto
  have r: "mb_read_pos b < mb_size b" "mb_write_pos b < mb_size b" using assms(1) by (auto simp: mapped_ok_def)
  show ?thesis
  proof (cases "mb_write_pos b + len \<le> mb_size b")
    case True
    have "unread_at b i < mb_mmap b + mb_write_pos b \<or> mb_mmap b + mb_write_pos b + copy_span len \<le> unread_at b i"
      using assms(2,4,5) r True unfolding a by (auto simp: available_data_def spare_ok_def split: if_splits)
    then show ?thesis using True by (simp add: written_def move_elsewhere)
  next
    case False
    have "mb_read_pos b \<le> mb_write_pos b"
      using False assms(2) r by (auto simp: available_space_def available_data_def split: if_splits)
    moreover from this have "unread_at b i = mb_mmap b + mb_read_pos b + i" "mb_read_pos b + i < mb_write_pos b"
      using assms(5) r unfolding a by (auto simp: available_data_def)
    moreover have "copy_span (len - (mb_size b - mb_write_pos b)) \<le> mb_read_pos b"
      using False assms(4) r by (simp add: spare_ok_def add.commute [of len])
    ultimately show ?thesis using False by (simp add: written_def Let_def move_elsewhere)
  qed
qed

lemma unread_at_write:
  assumes "mapped_ok b"
  shows "unread_at b (available_data b + j) = mb_mmap b + (mb_write_pos b + j) mod mb_size b"
proof -
  have "(mb_read_pos b + available_data b) mod mb_size b = mb_write_pos b"
    using assms mod_once [of "mb_read_pos b + available_data b" "mb_size b"] available_less [OF assms]
    by (auto simp: mapped_ok_def available_data_def split: if_splits)
  then show ?thesis by (simp add: unread_at_def mod_add_left_eq flip: add.assoc)
      (metis mod_add_left_eq)
qed

lemma written_new:
  assumes "mapped_ok b" "len \<le> available_space b" "far b data len" "spare_ok len b" "j < len"
  shows "written data len m b (unread_at b (available_data b + j)) = m (data + j)"
proof -
  have r: "mb_read_pos b < mb_size b" "mb_write_pos b < mb_size b" using assms(1) by (auto simp: mapped_ok_def)
  have l: "len < mb_size b" using assms(2) r by (simp add: available_space_def)
  have a: "unread_at b (available_data b + j) = (if mb_write_pos b + j < mb_size b then mb_mmap b + (mb_write_pos b + j)
      else mb_mmap b + (mb_write_pos b + j - mb_size b))"
    using mod_once [of "mb_write_pos b + j" "mb_size b"] l r assms(5) by (simp add: unread_at_write [OF assms(1)])
  show ?thesis
  proof (cases "mb_write_pos b + len \<le> mb_size b")
    case True
    then show ?thesis using a assms(5) copy_span_ge [of len]
      by (simp add: written_def) (subst move_there, auto)
  next
    case False
    let ?f = "mb_size b - mb_write_pos b" and ?m1 = "move m (mb_mmap b + mb_write_pos b) data"
    have w: "written data len m b = move (?m1 (copy_span ?f)) (mb_mmap b) (data + ?f) (copy_span (len - ?f))"
      using False by (simp add: written_def Let_def)
    have second: "copy_span (len - ?f) \<le> mb_read_pos b"
      using False assms(4) r by (simp add: spare_ok_def add.commute [of len])
    have le: "mb_read_pos b \<le> mb_write_pos b"
      using False assms(2) r by (auto simp: available_space_def available_data_def split: if_splits)
    show ?thesis
    proof (cases "j < ?f")
      case True
      then have "mb_write_pos b + j < mb_size b" by simp
      then have "unread_at b (available_data b + j) = mb_mmap b + mb_write_pos b + j" using a by simp
      then show ?thesis
        unfolding w using True second le copy_span_ge [of ?f] by (simp add: move_elsewhere move_there)
    next
      case j: False
      then have "\<not> mb_write_pos b + j < mb_size b" "mb_write_pos b + j - mb_size b = j - ?f" using r by linarith+
      then have at: "unread_at b (available_data b + j) = mb_mmap b + (j - ?f)" using a by simp
      have "?m1 (copy_span ?f) (data + j) = m (data + j)"
        by (rule move_elsewhere) (use assms(3,5) r copy_span_less [of ?f] in \<open>auto simp: far_def\<close>)
      then show ?thesis unfolding w at using j assms(5) copy_span_ge [of "len - ?f"] by (subst move_there) auto
    qed
  qed
qed

text \<open>The read.\<close>

definition copied_out :: "nat \<Rightarrow> nat \<Rightarrow> memory \<Rightarrow> MemoryMappedBuffer \<Rightarrow> memory" where
  "copied_out buffer n m b =
    (if mb_read_pos b + n \<le> mb_size b then move m buffer (mb_mmap b + mb_read_pos b) (copy_span n)
     else let first = mb_size b - mb_read_pos b
       in move (move m buffer (mb_mmap b + mb_read_pos b) (copy_span first)) (buffer + first) (mb_mmap b) (copy_span (n - first)))"

lemma apart_sym: "apart a b n \<longleftrightarrow> apart b a n"
  by (auto simp: apart_def)

lemma read_run:
  assumes "mapped_ok b" "far b buffer buffer_len"
  defines "n \<equiv> min buffer_len (available_data b)"
  shows "read_data avx512 buffer buffer_len (m, b)
    = (Ok n, if available_data b = 0 then m else copied_out buffer n m b,
       if available_data b = 0 then b else b \<lparr> mb_read_pos := (mb_read_pos b + n) mod mb_size b \<rparr>)"
proof -
  have r: "mb_read_pos b < mb_size b" "n \<le> buffer_len" "n < mb_size b"
    using assms(1) available_less [OF assms(1)] by (auto simp: mapped_ok_def n_def)
  have empty: "n = 0" if "available_data b = 0" using that by (simp add: n_def)
  have far: "far b buffer n" using assms(2) r(2) by (auto simp: far_def)
  show ?thesis
  proof (cases "mb_read_pos b + n \<le> mb_size b")
    case True
    have "apart buffer (mb_mmap b + mb_read_pos b) (copy_span n)"
      using far_apart [OF far, of n "mb_mmap b + mb_read_pos b" n 0] True by (simp add: apart_sym)
    then show ?thesis using True
      by (auto simp: read_data_def Let_def read_available memcpy_run copied_out_def empty simp flip: n_def)
  next
    case False
    let ?f = "mb_size b - mb_read_pos b"
    have "apart buffer (mb_mmap b + mb_read_pos b) (copy_span ?f)"
      using far_apart [OF far, of ?f "mb_mmap b + mb_read_pos b" ?f 0] False r by (simp add: apart_sym)
    moreover have "apart (buffer + ?f) (mb_mmap b) (copy_span (n - ?f))"
      using far_apart [OF far, of "n - ?f" "mb_mmap b" "n - ?f" ?f] False r by (simp add: apart_sym)
    ultimately show ?thesis using False
      by (auto simp: read_data_def Let_def read_available memcpy_run copied_out_def empty simp flip: n_def)
  qed
qed

lemma copied_out_bytes:
  assumes "mapped_ok b" "far b buffer n" "n \<le> available_data b" "i < n"
  shows "copied_out buffer n m b (buffer + i) = m (unread_at b i)"
proof -
  have r: "mb_read_pos b < mb_size b" using assms(1) by (auto simp: mapped_ok_def)
  have a: "unread_at b i = (if mb_read_pos b + i < mb_size b then mb_mmap b + mb_read_pos b + i
      else mb_mmap b + (mb_read_pos b + i - mb_size b))"
    using assms(1,3,4) by (intro unread_at_cases) auto
  show ?thesis
  proof (cases "mb_read_pos b + n \<le> mb_size b")
    case True
    then show ?thesis using a assms(4) copy_span_ge [of n] by (simp add: copied_out_def move_there)
  next
    case False
    let ?f = "mb_size b - mb_read_pos b" and ?m1 = "move m buffer (mb_mmap b + mb_read_pos b)"
    have w: "copied_out buffer n m b = move (?m1 (copy_span ?f)) (buffer + ?f) (mb_mmap b) (copy_span (n - ?f))"
      using False by (simp add: copied_out_def Let_def)
    show ?thesis
    proof (cases "i < ?f")
      case True
      then have "mb_read_pos b + i < mb_size b" "i < copy_span ?f" using copy_span_ge [of ?f] by linarith+
      then show ?thesis unfolding w a using True by (subst move_elsewhere) (linarith, simp add: move_there add.assoc)
    next
      case i: False
      have "?m1 (copy_span ?f) (mb_mmap b + (i - ?f)) = m (mb_mmap b + (i - ?f))"
        by (rule move_elsewhere) (use assms(2,3,4) available_less [OF assms(1)] r copy_span_less [of ?f] False in \<open>auto simp: far_def\<close>)
      moreover have "\<not> mb_read_pos b + i < mb_size b" "mb_read_pos b + i - mb_size b = i - ?f" using i r by linarith+
      then have at: "unread_at b i = mb_mmap b + (i - ?f)" using a by simp
      ultimately show ?thesis unfolding w at using i assms(4) copy_span_ge [of "n - ?f"] by (subst move_there) auto
    qed
  qed
qed

lemma copied_out_ring:
  assumes "far b buffer n" "n < mb_size b" "mb_mmap b \<le> x" "x < mb_mmap b + mb_size b"
  shows "copied_out buffer n m b x = m x"
proof -
  have "x < buffer \<or> buffer + n + 32 \<le> x" using assms by (auto simp: far_def)
  then show ?thesis using copy_span_less [of n] copy_span_less [of "mb_size b - mb_read_pos b"]
      copy_span_less [of "n - (mb_size b - mb_read_pos b)"]
    by (auto simp: copied_out_def Let_def intro!: move_elsewhere trans [OF move_elsewhere move_elsewhere])
qed

section \<open>Properties\<close>

text \<open>A write appends to the queue when the copy has spare room. For a source away from the buffer, a write that does not fit
  is refused and changes nothing; one that fits appends its bytes to the unread ones, provided that the copy's
  excess bytes meet no unread byte (\<open>spare_ok\<close>), and touches nothing more than 32 bytes outside the mapping.\<close>

theorem mapped_write_appends:
  assumes "mapped_ok b" "far b data len"
  shows "(available_space b < len \<longrightarrow> write_data avx512 data len (m, b) = (Err err_no_space, m, b))
    \<and> (len \<le> available_space b \<longrightarrow> spare_ok len b \<longrightarrow>
      (\<exists>m' b'. write_data avx512 data len (m, b) = (Ok len, m', b') \<and> mapped_ok b'
        \<and> unread m' b' = unread m b @ load m data len))"
proof (intro conjI impI)
  show "write_data avx512 data len (m, b) = (Err err_no_space, m, b)" if "available_space b < len"
    using that assms(1) by (simp add: write_data_def Let_def write_space)
  assume fits: "len \<le> available_space b" "spare_ok len b"
  let ?b = "b \<lparr> mb_write_pos := (mb_write_pos b + len) mod mb_size b \<rparr>"
  have at: "unread_at ?b i = unread_at b i" for i by (simp add: unread_at_def)
  have "unread (written data len m b) ?b = unread m b @ load m data len"
  proof (rule nth_equalityI)
    fix i assume "i < length (unread (written data len m b) ?b)"
    then have i: "i < available_data b + len" using data_after_write(1) [OF assms(1) fits(1)] by simp
    then show "unread (written data len m b) ?b ! i = (unread m b @ load m data len) ! i"
      using written_old [OF assms(1) fits(1) assms(2) fits(2), of i m]
        written_new [OF assms(1) fits(1) assms(2) fits(2), of "i - available_data b" m]
      by (auto simp: unread_def at data_after_write(1) [OF assms(1) fits(1)] nth_append)
  qed (simp add: data_after_write(1) [OF assms(1) fits(1)])
  then show "\<exists>m' b'. write_data avx512 data len (m, b) = (Ok len, m', b') \<and> mapped_ok b'
      \<and> unread m' b' = unread m b @ load m data len"
    using write_run [OF assms(1) fits(1) assms(2), of avx512 m] data_after_write(2) [OF assms(1) fits(1)] by blast
qed

definition sample_mapped :: MemoryMappedBuffer where
  "sample_mapped = \<lparr> mb_mmap = 100, mb_read_pos = 8, mb_write_pos = 2, mb_size = 16 \<rparr>"

text \<open>Ten unread bytes 20, 21, .. and a source at 500.\<close>

definition sample_memory :: memory where
  "sample_memory = (\<lambda>x. if 500 \<le> x \<and> x < 508 then 7 else if 108 \<le> x \<and> x < 116 then word_of_nat (x - 88)
     else if 100 \<le> x \<and> x < 102 then word_of_nat (x - 72) else 0)"

theorem mapped_write_appends_witness:
  "\<exists>m' b'. write_data False 500 4 (sample_memory, sample_mapped) = (Ok 4, m', b')
    \<and> unread m' b' = [20, 21, 22, 23, 24, 25, 26, 27, 28, 29, 7, 7, 7, 7]"
proof -
  have ok: "mapped_ok sample_mapped" "far sample_mapped 500 4" "4 \<le> available_space sample_mapped" "spare_ok 4 sample_mapped"
    by (simp_all add: mapped_ok_def far_def available_space_def available_data_def spare_ok_def sample_mapped_def copy_span_def)
  have "unread sample_memory sample_mapped @ load sample_memory 500 4 = [20, 21, 22, 23, 24, 25, 26, 27, 28, 29, 7, 7, 7, 7]"
    by (simp add: unread_def unread_at_def available_data_def sample_mapped_def sample_memory_def load_def upt_rec)
  then show ?thesis using mapped_write_appends [OF ok(1,2), of False sample_memory] ok(3,4) by metis
qed

text \<open>A write can corrupt unread bytes. In the buffer above, with six free bytes, writing five bytes succeeds and
  moves eight, so the first two unread bytes are lost.\<close>

theorem mapped_write_clobbers:
  "\<exists>m' b'. write_data avx512 500 5 (sample_memory, sample_mapped) = (Ok 5, m', b')
    \<and> available_space sample_mapped = 5
    \<and> take 2 (unread sample_memory sample_mapped) = [20, 21] \<and> take 2 (unread m' b') = [7, 7]"
proof -
  have "copy_span 5 = 8" by (simp add: copy_span_def)
  then show ?thesis
    using write_run [of sample_mapped 5 500 avx512 sample_memory]
    by (simp add: mapped_ok_def far_def available_space_def available_data_def sample_mapped_def sample_memory_def
        written_def unread_def unread_at_def upt_rec move_apply)
qed

text \<open>A read takes the oldest bytes. For a destination away from the buffer, a read gives the next bytes
  of the queue, as many as are asked for and there, in order, also over the end of the mapping, and leaves the
  rest unread; but it writes \<open>copy_span\<close> bytes or more behind the start of the destination.\<close>

theorem mapped_read_takes:
  assumes "mapped_ok b" "far b buffer len"
  shows "\<exists>n m' b'. read_data avx512 buffer len (m, b) = (Ok n, m', b') \<and> mapped_ok b'
    \<and> n = min len (available_data b) \<and> load m' buffer n = take n (unread m b) \<and> unread m' b' = drop n (unread m b)"
proof -
  define n where "n = min len (available_data b)"
  let ?b = "b \<lparr> mb_read_pos := (mb_read_pos b + n) mod mb_size b \<rparr>"
  have far: "far b buffer n" using assms(2) by (auto simp: far_def n_def)
  have n: "n \<le> available_data b" "n < mb_size b" using available_less [OF assms(1)] by (auto simp: n_def)
  note run = read_run [OF assms, of avx512 m, folded n_def]
  show ?thesis
  proof (cases "available_data b = 0")
    case True
    then show ?thesis using run assms(1) n(1) by (simp add: unread_def n_def)
  next
    case False
    have at: "unread_at ?b i = unread_at b (n + i)" for i
      by (simp add: unread_at_def mod_add_left_eq add.assoc)
    have ring: "mb_mmap b \<le> unread_at b i" "unread_at b i < mb_mmap b + mb_size b" for i
      using assms(1) by (simp_all add: unread_at_def mapped_ok_def)
    have rest: "unread (copied_out buffer n m b) ?b = drop n (unread m b)"
      using data_after_read(1) [OF assms(1) n(1)] copied_out_ring [OF far n(2) ring, of m]
      by (intro nth_equalityI) (auto simp: unread_def at intro!: arg_cong [of _ _ m] arg_cong [of _ _ "unread_at b"])
    have got: "load (copied_out buffer n m b) buffer n = take n (unread m b)"
      using copied_out_bytes [OF assms(1) far n(1), of _ m] n(1) by (intro nth_equalityI) (simp_all add: unread_def)
    show ?thesis
      using run False rest got data_after_read(2) [OF assms(1) n(1)] by (auto simp flip: n_def)
  qed
qed

theorem mapped_read_takes_witness:
  "\<exists>m' b'. read_data True 500 9 (sample_memory, sample_mapped) = (Ok 9, m', b') \<and> unread m' b' = [29]
    \<and> load m' 500 9 = [20, 21, 22, 23, 24, 25, 26, 27, 28]"
proof -
  have ok: "mapped_ok sample_mapped" "far sample_mapped 500 9"
    by (simp_all add: mapped_ok_def far_def sample_mapped_def)
  have "unread sample_memory sample_mapped = [20, 21, 22, 23, 24, 25, 26, 27, 28, 29]" "available_data sample_mapped = 10"
    by (simp_all add: unread_def unread_at_def available_data_def sample_mapped_def sample_memory_def upt_rec)
  then show ?thesis using mapped_read_takes [OF ok, of True sample_memory] by auto
qed

end
