(* ===== verification/Block_Pool.thy ===== *)
theory Block_Pool
  imports Simd_Memory
begin

text \<open>
  The shared memory pools of perf/zero\_copy\_io.rs: blocks of one mapped region whose free blocks are the set bits of
  a bitmap of 64-bit words, the manager of three pools, and the simulated DMA transfers. An allocation takes
  effect at its successful \<open>compare\_exchange\<close>; here the operations run one after another.
\<close>

unbundle bit_operations_syntax

section \<open>The interface: an allocator\<close>

text \<open>\<open>free\<close> is the set of free blocks. The client returns only blocks it holds.\<close>

datatype block_op = Alloc | Dealloc nat

locale block_allocator =
  fixes ok :: "'s \<Rightarrow> bool" and free :: "'s \<Rightarrow> nat set" and total :: "'s \<Rightarrow> nat"
    and alloc :: "'s \<Rightarrow> nat option \<times> 's" and dealloc :: "nat \<Rightarrow> 's \<Rightarrow> 's"
  assumes free_range: "ok s \<Longrightarrow> free s \<subseteq> {..<total s}"
    and alloc_Some: "ok s \<Longrightarrow> free s \<noteq> {} \<Longrightarrow>
      \<exists>i s'. alloc s = (Some i, s') \<and> i \<in> free s \<and> free s' = free s - {i} \<and> ok s' \<and> total s' = total s"
    and alloc_None: "ok s \<Longrightarrow> free s = {} \<Longrightarrow> alloc s = (None, s)"
    and dealloc_law: "ok s \<Longrightarrow> i < total s \<Longrightarrow>
      free (dealloc i s) = insert i (free s) \<and> ok (dealloc i s) \<and> total (dealloc i s) = total s"
begin

text \<open>A client that holds a list of blocks, allocates, and returns the \<open>k\<close>-th block it holds.\<close>

fun block_client :: "block_op list \<Rightarrow> nat list \<times> 's \<Rightarrow> nat list \<times> 's" where
  "block_client [] (held, s) = (held, s)"
| "block_client (Alloc # ops) (held, s) =
    (case alloc s of (Some i, s') \<Rightarrow> block_client ops (i # held, s') | (None, s') \<Rightarrow> block_client ops (held, s'))"
| "block_client (Dealloc k # ops) (held, s) =
    (if k < length held then block_client ops (take k held @ drop (Suc k) held, dealloc (held ! k) s)
     else block_client ops (held, s))"

definition partition :: "nat list \<Rightarrow> 's \<Rightarrow> bool" where
  "partition held s \<longleftrightarrow> ok s \<and> distinct held \<and> set held \<inter> free s = {} \<and> set held \<union> free s = {..<total s}"

lemma partition_alloc:
  assumes "partition held s"
  shows "case alloc s of (Some i, s') \<Rightarrow> partition (i # held) s' \<and> total s' = total s | (None, s') \<Rightarrow> s' = s"
proof (cases "free s = {}")
  case True
  then show ?thesis using assms alloc_None [of s] by (simp add: partition_def)
next
  case False
  then obtain i s' where "alloc s = (Some i, s')" "i \<in> free s" "free s' = free s - {i}" "ok s'" "total s' = total s"
    using assms alloc_Some [of s] by (auto simp: partition_def)
  then show ?thesis using assms by (auto simp: partition_def)
qed

lemma partition_dealloc:
  assumes "partition held s" "k < length held"
  shows "partition (take k held @ drop (Suc k) held) (dealloc (held ! k) s) \<and> total (dealloc (held ! k) s) = total s"
proof -
  have split: "held = take k held @ held ! k # drop (Suc k) held" by (rule id_take_nth_drop [OF assms(2)])
  have "held ! k < total s" using assms nth_mem [OF assms(2)] by (auto simp: partition_def)
  note d = dealloc_law [OF _ this]
  have "distinct (take k held @ held ! k # drop (Suc k) held)" using assms(1) split by (simp add: partition_def)
  moreover have "set held = insert (held ! k) (set (take k held @ drop (Suc k) held))" by (subst split) auto
  ultimately show ?thesis using assms(1) d by (auto simp: partition_def)
qed

lemma block_client_partition:
  "partition held s \<Longrightarrow> block_client ops (held, s) = (held', s') \<Longrightarrow> partition held' s' \<and> total s' = total s"
proof (induction ops "(held, s)" arbitrary: held s rule: block_client.induct)
  case (2 ops held s)
  then show ?case using partition_alloc [of held s] by (auto split: prod.splits option.splits)
next
  case (3 k ops held s)
  then show ?case using partition_dealloc [of held s k] by (auto split: if_splits)
qed auto

end

section \<open>A pool\<close>

record SharedMemoryPool =
  sm_memory_region :: nat
  sm_free_blocks :: "u64 list"
  sm_block_size :: u64
  sm_total_blocks :: nat
  sm_allocator_head :: nat
  sm_pool_id :: u32

record ZeroCopyBlock =
  zb_ptr :: nat
  zb_size :: u64
  zb_pool_id :: u32
  zb_block_index :: nat

definition err_mapping :: string where "err_mapping = ''Failed to create memory mapped region''"

text \<open>\<open>new\<close>; \<open>region\<close> is the address of the anonymous mapping, if it succeeds. A block size that aligns to 0
  panics in the division.\<close>

definition initial_bitmap :: "nat \<Rightarrow> u64 list" where
  "initial_bitmap total_blocks =
    (let bitmap_size = (total_blocks + 63) div 64
     in map (\<lambda>i. if i = bitmap_size - 1 \<and> total_blocks mod 64 \<noteq> 0 then push_bit (total_blocks mod 64) 1 - 1 else -1)
          [0..<bitmap_size])"

definition pool_new :: "nat option \<Rightarrow> u32 \<Rightarrow> u64 \<Rightarrow> u64 \<Rightarrow> (SharedMemoryPool, string) outcome" where
  "pool_new region pool_id total_size block_size =
    (let aligned_block_size = (block_size + 63) AND NOT 63
     in if aligned_block_size = 0 then Panic
        else let total_blocks = unat (total_size div aligned_block_size)
          in case region of
            None \<Rightarrow> Err err_mapping
          | Some base \<Rightarrow> Ok \<lparr> sm_memory_region = base, sm_free_blocks = initial_bitmap total_blocks,
               sm_block_size = aligned_block_size, sm_total_blocks = total_blocks, sm_allocator_head = 0,
               sm_pool_id = pool_id \<rparr>)"

definition trailing_zeros :: "u64 \<Rightarrow> nat" where
  "trailing_zeros w = length (takeWhile (\<lambda>i. \<not> bit w i) [0..<64])"

definition count_ones :: "u64 \<Rightarrow> nat" where
  "count_ones w = length (filter (bit w) [0..<64])"

text \<open>The scan over the bitmap words, from the one the head points to. A block index out of range is put back.\<close>

fun alloc_scan :: "nat \<Rightarrow> nat \<Rightarrow> SharedMemoryPool \<Rightarrow> nat option \<times> SharedMemoryPool" where
  "alloc_scan 0 bitmap_index p = (None, p)"
| "alloc_scan (Suc attempts) bitmap_index p =
    (let current = sm_free_blocks p ! bitmap_index; bit_pos = trailing_zeros current; mask = push_bit bit_pos 1 :: u64;
         block_index = bitmap_index * 64 + bit_pos; next = (bitmap_index + 1) mod length (sm_free_blocks p)
     in if current = 0 then alloc_scan attempts next p
        else if block_index \<ge> sm_total_blocks p then alloc_scan attempts next p
        else (Some block_index, p \<lparr> sm_free_blocks := (sm_free_blocks p)[bitmap_index := current AND NOT mask],
                                     sm_allocator_head := (block_index + 1) * 64 \<rparr>))"

definition allocate_index :: "SharedMemoryPool \<Rightarrow> nat option \<times> SharedMemoryPool" where
  "allocate_index p = alloc_scan (length (sm_free_blocks p)) (sm_allocator_head p div 64 mod length (sm_free_blocks p)) p"

definition block_of :: "SharedMemoryPool \<Rightarrow> nat \<Rightarrow> ZeroCopyBlock" where
  "block_of p block_index = \<lparr> zb_ptr = sm_memory_region p + block_index * unat (sm_block_size p),
     zb_size = sm_block_size p, zb_pool_id = sm_pool_id p, zb_block_index = block_index \<rparr>"

definition allocate_block :: "SharedMemoryPool \<Rightarrow> ZeroCopyBlock option \<times> SharedMemoryPool" where
  "allocate_block p = (case allocate_index p of
      (Some block_index, p') \<Rightarrow> (Some (block_of p block_index), p')
    | (None, p') \<Rightarrow> (None, p'))"

definition free_index :: "nat \<Rightarrow> SharedMemoryPool \<Rightarrow> SharedMemoryPool" where
  "free_index block_index p =
    (let bitmap_index = block_index div 64; bit_pos = block_index mod 64; mask = push_bit bit_pos 1 :: u64
     in if bitmap_index < length (sm_free_blocks p)
        then p \<lparr> sm_free_blocks := (sm_free_blocks p)[bitmap_index := sm_free_blocks p ! bitmap_index OR mask] \<rparr>
        else p)"

definition deallocate_block :: "ZeroCopyBlock \<Rightarrow> SharedMemoryPool \<Rightarrow> SharedMemoryPool" where
  "deallocate_block block p = (if zb_pool_id block \<noteq> sm_pool_id p then p else free_index (zb_block_index block) p)"

definition available_blocks :: "SharedMemoryPool \<Rightarrow> nat" where
  "available_blocks p = sum_list (map count_ones (sm_free_blocks p))"

section \<open>A block\<close>

definition err_too_large :: string where "err_too_large = ''Data too large for block''"
definition err_read_length :: string where "err_read_length = ''Read length exceeds block size''"

definition write_bytes :: "bool \<Rightarrow> ZeroCopyBlock \<Rightarrow> nat \<Rightarrow> nat \<Rightarrow> memory \<Rightarrow> (memory, string) outcome" where
  "write_bytes avx512 block data len m =
    (if len > unat (zb_size block) then Err err_too_large else memcpy_simd_optimized avx512 m (zb_ptr block) data len)"

definition read_bytes :: "ZeroCopyBlock \<Rightarrow> nat \<Rightarrow> memory \<Rightarrow> (u8 list, string) outcome" where
  "read_bytes block len m = (if len > unat (zb_size block) then Err err_read_length else Ok (load m (zb_ptr block) len))"

definition block_as_slice :: "ZeroCopyBlock \<Rightarrow> memory \<Rightarrow> u8 list" where
  "block_as_slice block m = load m (zb_ptr block) (unat (zb_size block))"

section \<open>The manager\<close>

record ZeroCopyMemoryManager =
  zm_shared_pools :: "SharedMemoryPool list"
  zm_blocks_allocated :: u64
  zm_blocks_freed :: u64

text \<open>\<open>regions\<close> are the addresses of the three mappings; the mapped buffers and DMA channels beside them are
  independent of the pools.\<close>

definition zero_copy_new :: "nat option \<Rightarrow> nat option \<Rightarrow> nat option \<Rightarrow> (ZeroCopyMemoryManager, string) outcome" where
  "zero_copy_new r0 r1 r2 =
    obind (pool_new r0 0 (1024 * 1024 * 1024) (64 * 1024)) (\<lambda>p0.
    obind (pool_new r1 1 (4 * 1024 * 1024 * 1024) (1024 * 1024)) (\<lambda>p1.
    obind (pool_new r2 2 (8 * 1024 * 1024 * 1024) (16 * 1024 * 1024)) (\<lambda>p2.
    Ok \<lparr> zm_shared_pools = [p0, p1, p2], zm_blocks_allocated = 0, zm_blocks_freed = 0 \<rparr>)))"

definition pool_for :: "nat \<Rightarrow> nat" where
  "pool_for n = (if n \<le> 64 * 1024 then 0 else if n \<le> 1024 * 1024 then 1 else 2)"

definition manager_allocate :: "nat \<Rightarrow> ZeroCopyMemoryManager \<Rightarrow> ZeroCopyBlock option \<times> ZeroCopyMemoryManager" where
  "manager_allocate n z =
    (case allocate_block (zm_shared_pools z ! pool_for n) of
       (Some block, p) \<Rightarrow> (Some block, z \<lparr> zm_shared_pools := (zm_shared_pools z)[pool_for n := p],
                                          zm_blocks_allocated := zm_blocks_allocated z + 1 \<rparr>)
     | (None, p) \<Rightarrow> (None, z \<lparr> zm_shared_pools := (zm_shared_pools z)[pool_for n := p] \<rparr>))"

definition manager_deallocate :: "ZeroCopyBlock \<Rightarrow> ZeroCopyMemoryManager \<Rightarrow> ZeroCopyMemoryManager" where
  "manager_deallocate block z =
    (let pool_id = unat (zb_pool_id block)
     in if pool_id < length (zm_shared_pools z)
        then z \<lparr> zm_shared_pools := (zm_shared_pools z)[pool_id := deallocate_block block (zm_shared_pools z ! pool_id)],
                 zm_blocks_freed := zm_blocks_freed z + 1 \<rparr>
        else z)"

section \<open>DMA transfers\<close>

record DirectMemoryAccessManager =
  dm_channels :: nat
  dm_channel_allocator :: u64
  dm_bytes_transferred :: u64
  dm_transfers_completed :: u64

definition dma_new :: "nat \<Rightarrow> DirectMemoryAccessManager" where
  "dma_new num_channels = \<lparr> dm_channels = num_channels, dm_channel_allocator = 0, dm_bytes_transferred = 0,
     dm_transfers_completed = 0 \<rparr>"

definition err_sizes :: string where "err_sizes = ''Source and destination sizes don''@[CHR 0x27]@''t match''"

text \<open>A channel copies as many bytes as the source has, whatever the length of the destination.\<close>

definition channel_transfer :: "bool \<Rightarrow> nat \<Rightarrow> nat \<Rightarrow> nat \<Rightarrow> (memory, nat, string) stateful" where
  "channel_transfer avx512 src src_len dst = (\<lambda>m.
    case memcpy_simd_optimized avx512 m dst src src_len of
      Ok m' \<Rightarrow> (Ok src_len, m')
    | Err e \<Rightarrow> (Err e, m)
    | Panic \<Rightarrow> (Panic, m))"

text \<open>The counter moves on before the remainder by the number of channels, which panics without a channel. All channels
  are alike.\<close>

definition dma_transfer ::
  "bool \<Rightarrow> nat \<Rightarrow> nat \<Rightarrow> nat \<Rightarrow> nat \<Rightarrow> (memory \<times> DirectMemoryAccessManager, nat, string) stateful" where
  "dma_transfer avx512 src src_len dst dst_len = (\<lambda>(m, d).
    if src_len \<noteq> dst_len then (Err err_sizes, m, d)
    else let d' = d \<lparr> dm_channel_allocator := dm_channel_allocator d + 1 \<rparr>
      in if dm_channels d = 0 then (Panic, m, d')
         else case channel_transfer avx512 src src_len dst m of
           (Ok transferred, m') \<Rightarrow> (Ok transferred, m', d' \<lparr>
               dm_bytes_transferred := dm_bytes_transferred d + word_of_nat transferred,
               dm_transfers_completed := dm_transfers_completed d + 1 \<rparr>)
         | (Err e, m') \<Rightarrow> (Err e, m', d')
         | (Panic, m') \<Rightarrow> (Panic, m', d'))"

section \<open>The free blocks\<close>

definition free_blocks :: "SharedMemoryPool \<Rightarrow> nat set" where
  "free_blocks p = {i. i < sm_total_blocks p \<and> bit (sm_free_blocks p ! (i div 64)) (i mod 64)}"

text \<open>The bitmap covers the blocks, and the bits behind the last block are clear.\<close>

definition pool_ok :: "SharedMemoryPool \<Rightarrow> bool" where
  "pool_ok p \<longleftrightarrow> length (sm_free_blocks p) = (sm_total_blocks p + 63) div 64
    \<and> (\<forall>j < length (sm_free_blocks p). \<forall>b < 64. sm_total_blocks p \<le> j * 64 + b \<longrightarrow> \<not> bit (sm_free_blocks p ! j) b)"

lemma trailing_zeros_bit:
  assumes "w \<noteq> 0"
  shows "trailing_zeros w < 64" "bit w (trailing_zeros w)"
proof -
  obtain i where i: "i < 64" "bit w i" using assms by (auto simp: bit_eq_iff)
  let ?P = "\<lambda>i. \<not> bit w i"
  have "takeWhile ?P [0..<64] \<noteq> [0..<64]"
    using i by (metis atLeastLessThan_iff set_takeWhileD set_upt zero_le)
  then have len: "length (takeWhile ?P [0..<64]) < length [0..<64::nat]"
    by (metis le_neq_implies_less length_takeWhile_le takeWhile_eq_take take_all_iff)
  then show t: "trailing_zeros w < 64" by (simp add: trailing_zeros_def)
  show "bit w (trailing_zeros w)"
    using nth_length_takeWhile [OF len] t by (simp add: trailing_zeros_def)
qed

lemma bit_clear: "bit (w AND NOT (2 ^ k)) n \<longleftrightarrow> bit w n \<and> n \<noteq> k" for w :: u64
  by (auto simp: bit_and_iff bit_not_iff bit_exp_iff dest: bit_imp_le_length)

lemma bit_set: "k < 64 \<Longrightarrow> bit (w OR 2 ^ k) n \<longleftrightarrow> bit w n \<or> n = k" for w :: u64
  by (auto simp: bit_or_iff bit_exp_iff)

text \<open>Taking a block out of the bitmap and putting it back.\<close>

definition taken :: "nat \<Rightarrow> SharedMemoryPool \<Rightarrow> SharedMemoryPool" where
  "taken i p = p \<lparr> sm_free_blocks := (sm_free_blocks p)[i div 64 := sm_free_blocks p ! (i div 64) AND NOT (push_bit (i mod 64) 1)],
     sm_allocator_head := (i + 1) * 64 \<rparr>"

lemma same_place: "i div 64 = j div 64 \<Longrightarrow> i mod 64 = j mod 64 \<Longrightarrow> i = (j :: nat)"
  by (metis div_mult_mod_eq)

lemma word_index: "pool_ok p \<Longrightarrow> i < sm_total_blocks p \<Longrightarrow> i div 64 < length (sm_free_blocks p)"
  by (simp add: pool_ok_def)

lemma taken_free:
  assumes "pool_ok p" "i \<in> free_blocks p"
  shows "free_blocks (taken i p) = free_blocks p - {i}" "pool_ok (taken i p)" "sm_total_blocks (taken i p) = sm_total_blocks p"
proof -
  have i: "i div 64 < length (sm_free_blocks p)" using assms word_index by (auto simp: free_blocks_def)
  show "sm_total_blocks (taken i p) = sm_total_blocks p" by (simp add: taken_def)
  have bit: "bit (sm_free_blocks (taken i p) ! j) b \<longleftrightarrow> bit (sm_free_blocks p ! j) b \<and> \<not> (j = i div 64 \<and> b = i mod 64)" for j b
    using i by (auto simp: taken_def nth_list_update bit_clear)
  show "pool_ok (taken i p)" using assms(1) unfolding pool_ok_def bit by (simp add: taken_def)
  show "free_blocks (taken i p) = free_blocks p - {i}"
    unfolding free_blocks_def bit by (auto simp: taken_def dest: same_place)
qed

lemma free_index_free:
  assumes "pool_ok p" "i < sm_total_blocks p"
  shows "free_blocks (free_index i p) = insert i (free_blocks p)" "pool_ok (free_index i p)"
    "sm_total_blocks (free_index i p) = sm_total_blocks p"
proof -
  have i: "i div 64 < length (sm_free_blocks p)" by (rule word_index [OF assms])
  then show "sm_total_blocks (free_index i p) = sm_total_blocks p" by (simp add: free_index_def Let_def)
  have bit: "bit (sm_free_blocks (free_index i p) ! j) b \<longleftrightarrow> bit (sm_free_blocks p ! j) b \<or> (j = i div 64 \<and> b = i mod 64)" for j b
    using i by (auto simp: free_index_def Let_def nth_list_update bit_set)
  show "pool_ok (free_index i p)" using assms i unfolding pool_ok_def bit
    by (auto simp: free_index_def Let_def)
  show "free_blocks (free_index i p) = insert i (free_blocks p)"
    unfolding free_blocks_def bit using assms(2) i by (auto simp: free_index_def Let_def dest: same_place)
qed

text \<open>The scan finds the first free block of a word that is not empty.\<close>

lemma alloc_scan_cases:
  assumes "pool_ok p" "idx < length (sm_free_blocks p)"
  shows "(\<exists>i \<in> free_blocks p. alloc_scan n idx p = (Some i, taken i p))
    \<or> alloc_scan n idx p = (None, p) \<and> (\<forall>a<n. sm_free_blocks p ! ((idx + a) mod length (sm_free_blocks p)) = 0)"
  using assms(2)
proof (induction n arbitrary: idx)
  case (Suc n)
  let ?w = "sm_free_blocks p ! idx" and ?len = "length (sm_free_blocks p)"
  let ?i = "idx * 64 + trailing_zeros ?w"
  show ?case
  proof (cases "?w = 0")
    case True
    have nx: "(idx + 1) mod ?len < ?len" using Suc.prems by (intro mod_less_divisor) auto
    have "sm_free_blocks p ! ((idx + a) mod ?len) = 0"
      if "\<forall>a<n. sm_free_blocks p ! (((idx + 1) mod ?len + a) mod ?len) = 0" "a < Suc n" for a
    proof (cases a)
      case 0
      then show ?thesis using True Suc.prems by simp
    next
      case (Suc k)
      then show ?thesis using that by (auto simp: mod_add_left_eq dest: spec [of _ k])
    qed
    then show ?thesis using Suc.IH [OF nx] True by (auto simp: Let_def)
  next
    case False
    note t = trailing_zeros_bit [OF False]
    have i: "?i div 64 = idx" "?i mod 64 = trailing_zeros ?w" using t(1) by simp_all
    have "?i < sm_total_blocks p"
      using assms(1) Suc.prems t unfolding pool_ok_def by (meson not_less)
    moreover from this have "?i \<in> free_blocks p" using t i by (simp add: free_blocks_def)
    ultimately show ?thesis using False i by (auto simp: Let_def taken_def)
  qed
qed simp

lemma allocate_index_cases:
  assumes "pool_ok p"
  shows "if free_blocks p = {} then allocate_index p = (None, p)
    else \<exists>i \<in> free_blocks p. allocate_index p = (Some i, taken i p)"
proof (cases "sm_free_blocks p = []")
  case True
  then have "sm_total_blocks p = 0" using assms by (simp add: pool_ok_def)
  then show ?thesis using True by (simp add: allocate_index_def free_blocks_def)
next
  case False
  let ?len = "length (sm_free_blocks p)" and ?idx = "sm_allocator_head p div 64 mod length (sm_free_blocks p)"
  have idx: "?idx < ?len" using False by simp
  have "free_blocks p = {}" if "\<forall>a<?len. sm_free_blocks p ! ((?idx + a) mod ?len) = 0"
  proof -
    have "sm_free_blocks p ! j = 0" if j: "j < ?len" for j
    proof -
      let ?a = "(j + ?len - ?idx) mod ?len"
      have "(?idx + ?a) mod ?len = j" using j idx by (simp add: mod_add_right_eq)
      then show ?thesis using \<open>\<forall>a<?len. _\<close> False by (metis length_greater_0_conv mod_less_divisor)
    qed
    then show ?thesis using word_index [OF assms] by (auto simp: free_blocks_def)
  qed
  then show ?thesis using alloc_scan_cases [OF assms idx, of ?len] by (auto simp: allocate_index_def)
qed

interpretation pool: block_allocator pool_ok free_blocks sm_total_blocks allocate_index free_index
proof
  fix p i
  assume ok: "pool_ok p"
  show "free_blocks p \<subseteq> {..<sm_total_blocks p}" by (auto simp: free_blocks_def)
  show "\<exists>i s'. allocate_index p = (Some i, s') \<and> i \<in> free_blocks p \<and> free_blocks s' = free_blocks p - {i} \<and> pool_ok s'
      \<and> sm_total_blocks s' = sm_total_blocks p" if "free_blocks p \<noteq> {}"
    using allocate_index_cases [OF ok] that taken_free [OF ok] by auto
  show "allocate_index p = (None, p)" if "free_blocks p = {}" using allocate_index_cases [OF ok] that by simp
  show "free_blocks (free_index i p) = insert i (free_blocks p) \<and> pool_ok (free_index i p)
      \<and> sm_total_blocks (free_index i p) = sm_total_blocks p" if "i < sm_total_blocks p"
    using free_index_free [OF ok that] by simp
qed

end
