(* ===== verification/Block_Clients.thy ===== *)
theory Block_Clients
  imports Block_Pool
begin

text \<open>
  What a client of the shared memory pools can rely on: its blocks are its own and inside the mapping, and the manager
  hands out blocks of the size class of the request.
\<close>

unbundle bit_operations_syntax

section \<open>A new pool, and what is free\<close>

lemma bit_full [simp]: "bit (- 1 :: u64) b \<longleftrightarrow> b < 64"
  by simp

lemma bit_partial: "bit (2 ^ r - 1 :: u64) b \<longleftrightarrow> b < r \<and> b < 64"
  using bit_mask_iff [where 'a = "64 word", of r b] by (simp add: mask_eq_exp_minus_1 conj_commute)

lemma bitmap_words: "(n + 63) div 64 = (if n mod 64 = 0 then n div 64 else Suc (n div 64))" for n :: nat
proof -
  define q r where "q = n div 64" and "r = n mod 64"
  have n: "n = 64 * q + r" "r < 64" by (simp_all add: q_def r_def)
  have "(64 * q + r + 63) div 64 = (if r = 0 then q else Suc q)" using n(2) by (auto intro: div_nat_eqI)
  then show ?thesis unfolding q_def [symmetric] r_def [symmetric] using n(1) by simp
qed

lemma initial_bitmap_bit:
  assumes "j < (n + 63) div 64" "b < 64"
  shows "bit (initial_bitmap n ! j) b \<longleftrightarrow> j * 64 + b < n"
proof -
  define q r where "q = n div 64" and "r = n mod 64"
  have n: "n = q * 64 + r" "r < 64" by (simp_all add: q_def r_def)
  have words: "(n + 63) div 64 = (if r = 0 then q else Suc q)" by (simp add: bitmap_words q_def r_def)
  have nth: "initial_bitmap n ! j = (if Suc j = (n + 63) div 64 \<and> r \<noteq> 0 then 2 ^ r - 1 else - 1)"
    using assms(1) by (auto simp: initial_bitmap_def Let_def r_def)
  show ?thesis
  proof (cases "j < q")
    case True
    then have "j * 64 + b < n" using n assms(2) by linarith
    then show ?thesis using True assms(2) words by (simp add: nth)
  next
    case False
    then have "j = q" "r \<noteq> 0" using assms(1) words by (auto split: if_splits)
    then have "initial_bitmap n ! j = 2 ^ r - 1" unfolding nth using words \<open>j = q\<close> \<open>r \<noteq> 0\<close> by simp
    then show ?thesis using n(1) assms(2) \<open>j = q\<close> by (simp only: bit_partial) simp
  qed
qed

lemma pool_new_ok:
  assumes "pool_new r k region_size bs = Ok p"
  shows "pool_ok p" "free_blocks p = {..<sm_total_blocks p}"
    "sm_total_blocks p * unat (sm_block_size p) \<le> unat region_size" "r = Some (sm_memory_region p)"
proof -
  have bits: "sm_free_blocks p = initial_bitmap (sm_total_blocks p)" and r: "r = Some (sm_memory_region p)"
    and blocks: "sm_total_blocks p = unat region_size div unat (sm_block_size p)"
    using assms by (auto simp: pool_new_def Let_def unat_div split: if_splits option.splits)
  show "r = Some (sm_memory_region p)" by (rule r)
  have len: "length (initial_bitmap n) = (n + 63) div 64" for n by (simp add: initial_bitmap_def Let_def)
  show "pool_ok p" unfolding pool_ok_def bits by (simp add: len initial_bitmap_bit)
  show "free_blocks p = {..<sm_total_blocks p}"
    unfolding free_blocks_def bits by (auto simp: initial_bitmap_bit)
  show "sm_total_blocks p * unat (sm_block_size p) \<le> unat region_size" unfolding blocks by (rule div_times_less_eq_dividend)
qed

lemma count_ones_card: "count_ones w = card {b. b < 64 \<and> bit w b}"
proof -
  have "count_ones w = card (set (filter (bit w) [0..<64]))"
    unfolding count_ones_def by (rule distinct_card [symmetric]) simp
  then show ?thesis by (simp add: conj_commute)
qed

lemma count_words: "sum_list (map count_ones ws) = card {i. i < 64 * length ws \<and> bit (ws ! (i div 64)) (i mod 64)}"
proof (induction ws rule: rev_induct)
  case (snoc w ws)
  let ?old = "{i. i < 64 * length ws \<and> bit (ws ! (i div 64)) (i mod 64)}"
  let ?new = "(\<lambda>b. 64 * length ws + b) ` {b. b < 64 \<and> bit w b}"
  have high: "(64 * length ws + b) div 64 = length ws" "(64 * length ws + b) mod 64 = b" if "b < 64" for b
    using that by simp_all
  have "(i < 64 * length (ws @ [w]) \<and> bit ((ws @ [w]) ! (i div 64)) (i mod 64)) \<longleftrightarrow> i \<in> ?old \<union> ?new" for i
  proof (cases "i < 64 * length ws")
    case True
    then have "i div 64 < length ws" by (simp add: less_mult_imp_div_less mult.commute)
    then show ?thesis using True by (auto simp: nth_append)
  next
    case False
    then obtain b where "i = 64 * length ws + b" by (metis le_iff_add not_less)
    then show ?thesis using high [of b] by (auto simp: nth_append)
  qed
  then have "{i. i < 64 * length (ws @ [w]) \<and> bit ((ws @ [w]) ! (i div 64)) (i mod 64)} = ?old \<union> ?new" by blast
  moreover have "?old \<inter> ?new = {}" by auto
  moreover have "card ?new = count_ones w" by (simp add: count_ones_card card_image)
  ultimately show ?case using snoc by (simp add: card_Un_disjoint)
qed simp

lemma available_blocks_card:
  assumes "pool_ok p"
  shows "available_blocks p = card (free_blocks p)"
proof -
  have len: "length (sm_free_blocks p) = (sm_total_blocks p + 63) div 64" using assms by (simp add: pool_ok_def)
  have "i < sm_total_blocks p" if "i < 64 * length (sm_free_blocks p)" "bit (sm_free_blocks p ! (i div 64)) (i mod 64)" for i
  proof (rule ccontr)
    assume "\<not> i < sm_total_blocks p"
    then have "sm_total_blocks p \<le> i div 64 * 64 + i mod 64" by simp
    moreover have "i div 64 < length (sm_free_blocks p)" using that(1) by (simp add: less_mult_imp_div_less mult.commute)
    ultimately show False using assms that(2) unfolding pool_ok_def by (meson mod_less_divisor zero_less_numeral)
  qed
  moreover have "sm_total_blocks p \<le> 64 * length (sm_free_blocks p)"
    using div_mult_mod_eq [of "sm_total_blocks p" 64] mod_less_divisor [of 64 "sm_total_blocks p"]
    unfolding len bitmap_words by (auto simp del: div_mult_mod_eq mod_less_divisor split: if_split)
  ultimately show ?thesis by (auto simp: available_blocks_def count_words free_blocks_def intro!: arg_cong [of _ _ card])
qed

section \<open>Clients of a pool\<close>

text \<open>A client works with blocks, not with their numbers: the library's client runs underneath.\<close>

fun pool_client :: "block_op list \<Rightarrow> ZeroCopyBlock list \<times> SharedMemoryPool \<Rightarrow> ZeroCopyBlock list \<times> SharedMemoryPool" where
  "pool_client [] (held, p) = (held, p)"
| "pool_client (Alloc # ops) (held, p) =
    (case allocate_block p of
       (Some b, p') \<Rightarrow> pool_client ops (b # held, p')
     | (None, p') \<Rightarrow> pool_client ops (held, p'))"
| "pool_client (Dealloc k # ops) (held, p) =
    (if k < length held then pool_client ops (take k held @ drop (Suc k) held, deallocate_block (held ! k) p)
     else pool_client ops (held, p))"

lemma block_of_free_index [simp]: "block_of (free_index i p) = block_of p"
  by (rule ext) (simp add: block_of_def free_index_def Let_def)

lemma deallocate_block_of [simp]: "deallocate_block (block_of p i) p = free_index i p"
  by (simp add: deallocate_block_def block_of_def)

lemma block_of_taken [simp]: "block_of (taken i p) = block_of p"
  by (rule ext) (simp add: block_of_def taken_def)

lemma block_of_alloc_scan: "alloc_scan n k p = (r, p') \<Longrightarrow> block_of p' = block_of p"
proof (induction n k p rule: alloc_scan.induct)
  case (2 n k p)
  then show ?case by (auto simp: Let_def block_of_def split: if_splits)
qed simp

lemma block_of_allocate: "allocate_index p = (r, p') \<Longrightarrow> block_of p' = block_of p"
  unfolding allocate_index_def by (rule block_of_alloc_scan)

lemma pool_client_blocks:
  "pool.block_client ops (held, p) = (held', p') \<Longrightarrow>
    pool_client ops (map (block_of p) held, p) = (map (block_of p) held', p') \<and> block_of p' = block_of p"
proof (induction ops "(held, p)" arbitrary: held p rule: pool.block_client.induct)
  case (2 ops held p)
  obtain r q where q: "allocate_index p = (r, q)" by fastforce
  then show ?case
    using 2 block_of_allocate [OF q] by (cases r) (auto simp: allocate_block_def)
next
  case (3 k ops held p)
  then show ?case
    by (auto simp: take_map drop_map split: if_splits)
qed simp

lemma block_of_inject: "block_of p i = block_of p j \<longleftrightarrow> i = j"
  by (auto simp: block_of_def)

lemma blocks_apart:
  assumes "i < j"
  shows "zb_ptr (block_of p i) + unat (zb_size (block_of p i)) \<le> zb_ptr (block_of p j)"
proof -
  have "Suc i * unat (sm_block_size p) \<le> j * unat (sm_block_size p)" using assms by (intro mult_le_mono1) simp
  then show ?thesis by (simp add: block_of_def)
qed

lemma block_inside:
  assumes "i < sm_total_blocks p" "sm_total_blocks p * unat (sm_block_size p) \<le> n"
  shows "zb_ptr (block_of p i) + unat (zb_size (block_of p i)) \<le> sm_memory_region p + n"
proof -
  have "Suc i * unat (sm_block_size p) \<le> sm_total_blocks p * unat (sm_block_size p)" using assms(1) by (intro mult_le_mono1) simp
  then show ?thesis using assms(2) by (simp add: block_of_def)
qed

text \<open>Block sizes are multiples of 64, so the span that a copy writes, which can pass the data by up to 31 bytes, stays in the
  block.\<close>

lemma pool_new_size:
  assumes "pool_new r k region_size bs = Ok p"
  shows "64 dvd unat (sm_block_size p)"
proof -
  have "sm_block_size p = (bs + 63) AND NOT 63"
    using assms by (auto simp: pool_new_def Let_def split: if_splits option.splits)
  moreover have "take_bit 6 ((bs + 63) AND NOT 63) = (0 :: u64)"
    by (rule bit_word_eqI) (auto simp: bit_simps bit_iff_odd_drop_bit)
  ultimately have "take_bit 6 (unat (sm_block_size p)) = 0"
    by (metis unsigned_0 unsigned_take_bit_eq)
  then show ?thesis by (simp add: take_bit_eq_mod mod_eq_0_iff_dvd)
qed

lemma copy_span_fits:
  assumes "len \<le> n" "64 dvd n"
  shows "copy_span len \<le> n"
proof -
  obtain k where n: "n = 64 * k" using assms(2) by blast
  show ?thesis
  proof (cases "len \<le> 16")
    case True
    then show ?thesis using assms(1) n by (cases k) (auto simp: copy_span_def)
  next
    case False
    have "(len + 31) div 32 \<le> 2 * k" using assms(1) n by linarith
    then show ?thesis using False n by (simp add: copy_span_def)
  qed
qed

lemma block_write:
  assumes "64 dvd unat (zb_size b)" "len \<le> unat (zb_size b)" "apart (zb_ptr b) data (unat (zb_size b))"
  shows "\<exists>m'. write_bytes avx512 b data len m = Ok m' \<and> read_bytes b len m' = Ok (load m data len)
    \<and> take len (block_as_slice b m') = load m data len
    \<and> (\<forall>x. x < zb_ptr b \<or> zb_ptr b + unat (zb_size b) \<le> x \<longrightarrow> m' x = m x)"
proof -
  have fits: "copy_span len \<le> unat (zb_size b)" using copy_span_fits assms(1,2) by blast
  then have run: "write_bytes avx512 b data len m = Ok (move m (zb_ptr b) data (copy_span len))"
    using memcpy_run [OF apart_mono [OF assms(3)], of len] assms(2) by (simp add: write_bytes_def)
  have prefix: "load (move m (zb_ptr b) data (copy_span len)) (zb_ptr b) len = load m data len"
    by (rule load_move) (rule copy_span_ge)
  have "take len (block_as_slice b m') = load m' (zb_ptr b) len" for m'
    using assms(2) load_add [of m' "zb_ptr b" len "unat (zb_size b) - len"] by (simp add: block_as_slice_def)
  then show ?thesis
    using run prefix fits assms(2) by (auto simp: read_bytes_def move_apply)
qed

lemma allocate_block_None:
  assumes "pool_ok p"
  shows "fst (allocate_block p) = None \<longleftrightarrow> free_blocks p = {}"
  using allocate_index_cases [OF assms] by (auto simp: allocate_block_def split: if_splits)

text \<open>After any sequence of allocations and returns on a new pool, the blocks a client holds are different,
  lie inside the mapping and do not overlap, the counted available blocks are the ones it does not hold, and the
  next allocation fails exactly when it holds them all.
\<close>
theorem pool_blocks_disjoint:
  assumes "pool_new (Some base) pool_id region_size block_size = Ok p"
    and "pool_client ops ([], p) = (held, p')"
  shows "distinct held
    \<and> (\<forall>b \<in> set held. base \<le> zb_ptr b \<and> zb_ptr b + unat (zb_size b) \<le> base + unat region_size)
    \<and> (\<forall>b \<in> set held. \<forall>c \<in> set held. b = c \<or> zb_ptr b + unat (zb_size b) \<le> zb_ptr c \<or> zb_ptr c + unat (zb_size c) \<le> zb_ptr b)
    \<and> available_blocks p' + length held = sm_total_blocks p
    \<and> (fst (allocate_block p') = None \<longleftrightarrow> length held = sm_total_blocks p)"
proof -
  note new = pool_new_ok [OF assms(1)]
  obtain idx q where c: "pool.block_client ops ([], p) = (idx, q)" by fastforce
  have "pool.partition [] p" using new by (simp add: pool.partition_def)
  note part = pool.block_client_partition [OF this c]
  have held: "held = map (block_of p) idx" and q: "q = p'"
    using pool_client_blocks [OF c] assms(2) by simp_all
  have ok: "pool_ok p'" and d: "distinct idx" and disj: "set idx \<inter> free_blocks p' = {}"
    and all: "set idx \<union> free_blocks p' = {..<sm_total_blocks p}"
    using part unfolding pool.partition_def q by simp_all
  have card: "available_blocks p' + length idx = sm_total_blocks p"
  proof -
    have "finite (free_blocks p')" by (simp add: free_blocks_def)
    then have "card (set idx \<union> free_blocks p') = length idx + card (free_blocks p')"
      using card_Un_disjoint [OF _ _ disj] distinct_card [OF d] by simp
    then show ?thesis unfolding all available_blocks_card [OF ok] by simp
  qed
  have inside: "i < sm_total_blocks p" if "i \<in> set idx" for i using that all by auto
  have "distinct held" unfolding held by (simp add: distinct_map d inj_on_def block_of_inject)
  moreover have "base \<le> zb_ptr b \<and> zb_ptr b + unat (zb_size b) \<le> base + unat region_size" if "b \<in> set held" for b
    using that inside block_inside [OF _ new(3)] new(4) by (auto simp: held) (simp add: block_of_def)
  moreover have "b = c \<or> zb_ptr b + unat (zb_size b) \<le> zb_ptr c \<or> zb_ptr c + unat (zb_size c) \<le> zb_ptr b"
    if "b \<in> set held" "c \<in> set held" for b c
  proof -
    from that obtain i j where "b = block_of p i" "c = block_of p j" by (auto simp: held)
    then show ?thesis using blocks_apart [of i j p] blocks_apart [of j i p] by (cases i j rule: linorder_cases) simp_all
  qed
  moreover have "fst (allocate_block p') = None \<longleftrightarrow> length held = sm_total_blocks p"
  proof -
    have "finite (free_blocks p')" by (simp add: free_blocks_def)
    then show ?thesis using card unfolding allocate_block_None [OF ok] available_blocks_card [OF ok] held
      by (metis add_cancel_right_left card_0_eq length_map)
  qed
  ultimately show ?thesis using card by (auto simp: held)
qed

lemma trailing_zerosI:
  assumes "k < 64" "bit w k" "list_all (\<lambda>i. \<not> bit w i) [0..<k]"
  shows "trailing_zeros w = k"
proof -
  have "[0..<64] = [0..<k] @ [k..<64]" using assms(1) upt_add_eq_append [of 0 k "64 - k"] by simp
  moreover have "[k..<64] = k # [Suc k..<64]" using assms(1) by (simp add: upt_conv_Cons)
  moreover have "takeWhile (\<lambda>i. \<not> bit w i) ([0..<k] @ k # [Suc k..<64]) = [0..<k]"
    using assms(2,3) by (subst takeWhile_append2) (auto simp: list_all_iff)
  ultimately show ?thesis by (simp add: trailing_zeros_def)
qed

lemma trailing_zeros_small: "trailing_zeros 7 = 0" "trailing_zeros 6 = 1" "trailing_zeros 5 = 0" "trailing_zeros 4 = 2" "trailing_zeros (- 1) = 0"
  by (rule trailing_zerosI; simp add: upt_conv_Cons numeral_2_eq_2)+

lemma pool_blocks_disjoint_witness:
  "\<exists>p held p'. pool_new (Some 4096) 7 384 100 = Ok p
    \<and> pool_client [Alloc, Alloc, Dealloc 1, Alloc, Alloc, Alloc] ([], p) = (held, p')
    \<and> map zb_ptr held = [4352, 4096, 4224] \<and> available_blocks p' + length held = 3"
proof -
  define pool where "pool w h = \<lparr> sm_memory_region = 4096, sm_free_blocks = [w], sm_block_size = 128, sm_total_blocks = 3,
    sm_allocator_head = h, sm_pool_id = 7 \<rparr>" for w h
  define blk where "blk i = \<lparr> zb_ptr = 4096 + i * 128, zb_size = 128, zb_pool_id = 7, zb_block_index = i \<rparr>" for i
  have new: "pool_new (Some 4096) 7 384 100 = Ok (pool 7 0)"
    by (simp add: pool_new_def initial_bitmap_def Let_def pool_def)
  note alloc = allocate_block_def allocate_index_def Let_def trailing_zeros_small block_of_def pool_def blk_def
  have steps: "allocate_block (pool 7 0) = (Some (blk 0), pool 6 64)" "allocate_block (pool 6 64) = (Some (blk 1), pool 4 128)"
    "allocate_block (pool 5 128) = (Some (blk 0), pool 4 64)" "allocate_block (pool 4 64) = (Some (blk 2), pool 0 192)"
    "allocate_block (pool 0 192) = (None, pool 0 192)" "deallocate_block (blk 0) (pool 4 128) = pool 5 128"
    by (simp_all add: alloc deallocate_block_def free_index_def)
  have run: "pool_client [Alloc, Alloc, Dealloc 1, Alloc, Alloc, Alloc] ([], pool 7 0) = ([blk 2, blk 0, blk 1], pool 0 192)"
    by (simp add: steps)
  have "sm_total_blocks (pool 7 0) = 3" by (simp add: pool_def)
  moreover have "map zb_ptr [blk 2, blk 0, blk 1] = [4352, 4096, 4224]" by (simp add: blk_def)
  ultimately show ?thesis using pool_blocks_disjoint [OF new run] new run by metis
qed

text \<open>The managers that a new one becomes by any calls; the sizes of its pools' blocks stay.\<close>

datatype manager_op = Allocate nat | Deallocate ZeroCopyBlock

fun manager_run :: "manager_op list \<Rightarrow> ZeroCopyMemoryManager \<Rightarrow> ZeroCopyMemoryManager" where
  "manager_run [] z = z"
| "manager_run (Allocate n # ops) z = manager_run ops (snd (manager_allocate n z))"
| "manager_run (Deallocate b # ops) z = manager_run ops (manager_deallocate b z)"

definition block_sizes :: "ZeroCopyMemoryManager \<Rightarrow> u64 list" where
  "block_sizes z = map sm_block_size (zm_shared_pools z)"

lemma alloc_scan_block_size: "sm_block_size (snd (alloc_scan n k p)) = sm_block_size p"
  by (induction n k p rule: alloc_scan.induct) (auto simp: Let_def)

lemma allocate_block_size:
  "allocate_block p = (r, p') \<Longrightarrow> sm_block_size p' = sm_block_size p \<and> (\<forall>b. r = Some b \<longrightarrow> zb_size b = sm_block_size p)"
  using alloc_scan_block_size [of "length (sm_free_blocks p)" "sm_allocator_head p div 64 mod length (sm_free_blocks p)" p]
  by (auto simp: allocate_block_def allocate_index_def block_of_def split: prod.splits option.splits)

lemma update_same: "x = xs ! i \<or> \<not> i < length xs \<Longrightarrow> xs[i := x] = xs"
  by (auto simp: list_update_beyond)

lemma manager_allocate_sizes: "block_sizes (snd (manager_allocate n z)) = block_sizes z"
  using allocate_block_size [of "zm_shared_pools z ! pool_for n"]
  by (cases "pool_for n < length (zm_shared_pools z)")
    (auto simp: manager_allocate_def block_sizes_def map_update intro!: update_same split: prod.splits option.splits)

lemma manager_deallocate_sizes: "block_sizes (manager_deallocate b z) = block_sizes z"
  by (auto simp: manager_deallocate_def block_sizes_def Let_def map_update deallocate_block_def free_index_def intro!: update_same)

lemma manager_run_sizes: "block_sizes (manager_run ops z) = block_sizes z"
  by (induction ops z rule: manager_run.induct) (simp_all add: manager_allocate_sizes manager_deallocate_sizes)

lemma zero_copy_new_sizes: "zero_copy_new r0 r1 r2 = Ok z \<Longrightarrow> block_sizes z = [2 ^ 16, 2 ^ 20, 2 ^ 24]"
  by (auto simp: zero_copy_new_def pool_new_def block_sizes_def Let_def split: option.splits)

text \<open>The manager serves a request from the pool of 64 KiB, 1 MiB or 16 MiB blocks by its size, whatever was
  allocated and returned before; the block is large enough exactly up to 16 MiB, and a larger request gets a
  16 MiB block all the same.
\<close>
theorem manager_block_size:
  assumes "zero_copy_new r0 r1 r2 = Ok z" "manager_allocate n (manager_run ops z) = (Some b, z')"
  shows "unat (zb_size b) = (if n \<le> 2 ^ 16 then 2 ^ 16 else if n \<le> 2 ^ 20 then 2 ^ 20 else 2 ^ 24)
    \<and> (n \<le> unat (zb_size b) \<longleftrightarrow> n \<le> 2 ^ 24)"
proof -
  let ?z = "manager_run ops z"
  have sizes: "map sm_block_size (zm_shared_pools ?z) = [2 ^ 16, 2 ^ 20, 2 ^ 24]"
    using zero_copy_new_sizes [OF assms(1)] manager_run_sizes [of ops z] by (simp add: block_sizes_def)
  then have "length (zm_shared_pools ?z) = 3" by (metis length_map list.size(3,4) numeral_3_eq_3 One_nat_def add_Suc_right add_0_right)
  then have "zb_size b = map sm_block_size (zm_shared_pools ?z) ! pool_for n"
    using assms(2) allocate_block_size [of "zm_shared_pools ?z ! pool_for n"]
    by (auto simp: manager_allocate_def pool_for_def split: prod.splits option.splits)
  then show ?thesis unfolding sizes by (simp add: pool_for_def)
qed

lemma manager_block_size_witness:
  "\<exists>z b z'. zero_copy_new (Some 0) (Some 0) (Some 0) = Ok z \<and> manager_allocate 20000000 z = (Some b, z')
    \<and> unat (zb_size b) = 16777216"
proof -
  define z where "z = (case zero_copy_new (Some 0) (Some 0) (Some 0) of Ok z \<Rightarrow> z)"
  have new: "zero_copy_new (Some 0) (Some 0) (Some 0) = Ok z"
    by (simp add: z_def zero_copy_new_def pool_new_def Let_def)
  have pool: "zm_shared_pools z ! 2 = \<lparr> sm_memory_region = 0, sm_free_blocks = initial_bitmap 512, sm_block_size = 16777216,
      sm_total_blocks = 512, sm_allocator_head = 0, sm_pool_id = 2 \<rparr>"
    by (simp add: z_def zero_copy_new_def pool_new_def Let_def)
  have bitmap: "initial_bitmap 512 = [-1, -1, -1, -1, -1, -1, -1, -1]"
    by (simp add: initial_bitmap_def Let_def upt_conv_Cons)
  have "\<exists>b p. allocate_block (zm_shared_pools z ! 2) = (Some b, p)"
    using alloc_scan.simps(2) [of 7 0 "zm_shared_pools z ! 2"]
    by (simp add: pool bitmap allocate_block_def allocate_index_def Let_def trailing_zeros_small)
  then obtain b p where "allocate_block (zm_shared_pools z ! 2) = (Some b, p)" by blast
  then obtain z' where "manager_allocate 20000000 (manager_run [] z) = (Some b, z')"
    by (simp add: manager_allocate_def pool_for_def)
  then show ?thesis using manager_block_size [OF new, of 20000000 "[]" b z'] new by auto
qed

end
