(* ===== verification/Ring_Buffer.thy ===== *)
theory Ring_Buffer
  imports Prelude
begin

text \<open>
  The ring buffer of perf/hardware_optimizations.rs, for one producer and one consumer: its operations, the
  contract of a bounded queue that they meet, and the interleaving of the atomic actions of the two threads.
  Positions are 64-bit counters that only grow and wrap around; a slot is a position masked to the capacity. The
  aligned counter of the same file is here too.
\<close>

unbundle bit_operations_syntax

section \<open>The interface: a bounded queue\<close>

text \<open>\<open>push\<close> reports whether the item was taken; a full queue refuses it and stays as it is.\<close>

locale bounded_queue =
  fixes ok :: "'s \<Rightarrow> bool" and contents :: "'s \<Rightarrow> 'a list" and room :: "'s \<Rightarrow> nat"
    and push :: "'a \<Rightarrow> 's \<Rightarrow> bool \<times> 's" and pop :: "'s \<Rightarrow> 'a option \<times> 's"
  assumes push_ok: "ok s \<Longrightarrow> ok (snd (push x s)) \<and> room (snd (push x s)) = room s"
    and push_taken: "ok s \<Longrightarrow> length (contents s) < room s \<Longrightarrow> fst (push x s) \<and> contents (snd (push x s)) = contents s @ [x]"
    and push_full: "ok s \<Longrightarrow> room s \<le> length (contents s) \<Longrightarrow> push x s = (False, s)"
    and pop_ok: "ok s \<Longrightarrow> ok (snd (pop s)) \<and> room (snd (pop s)) = room s"
    and pop_item: "ok s \<Longrightarrow> contents s = x # xs \<Longrightarrow> fst (pop s) = Some x \<and> contents (snd (pop s)) = xs"
    and pop_empty: "ok s \<Longrightarrow> contents s = [] \<Longrightarrow> pop s = (None, s)"
begin

text \<open>A client that pushes (\<open>Some x\<close>) and pops (\<open>None\<close>) in any order: what was taken, what was given out,
  and the final state.\<close>

fun client :: "'a option list \<Rightarrow> 's \<Rightarrow> 'a list \<times> 'a list \<times> 's" where
  "client [] s = ([], [], s)"
| "client (Some x # ops) s =
    (case push x s of (taken, s') \<Rightarrow> case client ops s' of (ins, outs, t) \<Rightarrow> ((if taken then x # ins else ins), outs, t))"
| "client (None # ops) s =
    (case pop s of (got, s') \<Rightarrow> case client ops s' of (ins, outs, t) \<Rightarrow>
       (ins, (case got of Some x \<Rightarrow> x # outs | None \<Rightarrow> outs), t))"

lemma client_fifo:
  "ok s \<Longrightarrow> client ops s = (ins, outs, t) \<Longrightarrow> ok t \<and> contents s @ ins = outs @ contents t"
proof (induction ops arbitrary: s ins outs)
  case (Cons op ops)
  show ?case
  proof (cases op)
    case (Some x)
    obtain ins' where c: "client ops (snd (push x s)) = (ins', outs, t)"
        "ins = (if fst (push x s) then x # ins' else ins')"
      using Cons.prems(2) Some by (auto split: prod.splits)
    show ?thesis
      using Cons.IH [OF _ c(1)] c(2) push_ok [OF Cons.prems(1), of x] push_taken [OF Cons.prems(1), of x]
        push_full [OF Cons.prems(1), of x]
      by (cases "length (contents s) < room s") auto
  next
    case None
    obtain outs' where c: "client ops (snd (pop s)) = (ins, outs', t)"
        "outs = (case fst (pop s) of Some x \<Rightarrow> x # outs' | None \<Rightarrow> outs')"
      using Cons.prems(2) None by (auto split: prod.splits)
    show ?thesis
      using Cons.IH [OF _ c(1)] c(2) pop_ok [OF Cons.prems(1)] pop_item [OF Cons.prems(1)] pop_empty [OF Cons.prems(1)]
      by (cases "contents s") auto
  qed
qed simp

end

section \<open>The ring buffer\<close>

record 'a CacheOptimizedRingBuffer =
  rb_buffer :: "'a list"
  rb_producer_head :: u64
  rb_consumer_tail :: u64
  rb_capacity :: u64
  rb_mask :: u64

definition is_power_of_two :: "u64 \<Rightarrow> bool" where
  "is_power_of_two n = list_ex (\<lambda>k. n = push_bit k 1) [0..<64]"

definition err_power_of_two :: string where "err_power_of_two = ''Capacity must be a power of 2''"

definition ring_new :: "'a \<Rightarrow> u64 \<Rightarrow> ('a CacheOptimizedRingBuffer, string) outcome" where
  "ring_new def capacity =
    (if \<not> is_power_of_two capacity then Err err_power_of_two
     else Ok \<lparr> rb_buffer = replicate (unat capacity) def, rb_producer_head = 0, rb_consumer_tail = 0,
            rb_capacity = capacity, rb_mask = capacity - 1 \<rparr>)"

definition ring_slot :: "'a CacheOptimizedRingBuffer \<Rightarrow> u64 \<Rightarrow> nat" where
  "ring_slot r pos = unat (pos AND rb_mask r)"

definition ring_full :: "'a CacheOptimizedRingBuffer \<Rightarrow> bool" where
  "ring_full r \<longleftrightarrow> (rb_producer_head r + 1) AND rb_mask r = rb_consumer_tail r AND rb_mask r"

definition try_push :: "'a \<Rightarrow> 'a CacheOptimizedRingBuffer \<Rightarrow> bool \<times> 'a CacheOptimizedRingBuffer" where
  "try_push item r =
    (let current_head = rb_producer_head r
     in if ring_full r then (False, r)
        else (True, r \<lparr> rb_buffer := (rb_buffer r)[ring_slot r current_head := item],
                      rb_producer_head := current_head + 1 \<rparr>))"

definition try_pop :: "'a CacheOptimizedRingBuffer \<Rightarrow> 'a option \<times> 'a CacheOptimizedRingBuffer" where
  "try_pop r =
    (let current_tail = rb_consumer_tail r
     in if current_tail = rb_producer_head r then (None, r)
        else (Some (rb_buffer r ! ring_slot r current_tail), r \<lparr> rb_consumer_tail := current_tail + 1 \<rparr>))"

definition ring_len :: "'a CacheOptimizedRingBuffer \<Rightarrow> nat" where
  "ring_len r = unat ((rb_producer_head r + rb_capacity r - rb_consumer_tail r) AND rb_mask r)"

definition ring_is_empty :: "'a CacheOptimizedRingBuffer \<Rightarrow> bool" where
  "ring_is_empty r \<longleftrightarrow> rb_producer_head r = rb_consumer_tail r"

section \<open>The aligned counter\<close>

text \<open>One atomic word; an increment returns the value before it.\<close>

record CacheAlignedCounter =
  cc_value :: u64

definition counter_new :: "u64 \<Rightarrow> CacheAlignedCounter" where
  "counter_new initial = \<lparr> cc_value = initial \<rparr>"

definition counter_increment :: "CacheAlignedCounter \<Rightarrow> u64 \<times> CacheAlignedCounter" where
  "counter_increment c = (cc_value c, c \<lparr> cc_value := cc_value c + 1 \<rparr>)"

definition counter_load :: "CacheAlignedCounter \<Rightarrow> u64" where
  "counter_load c = cc_value c"

definition counter_store :: "u64 \<Rightarrow> CacheAlignedCounter \<Rightarrow> CacheAlignedCounter" where
  "counter_store val c = c \<lparr> cc_value := val \<rparr>"

fun increments :: "nat \<Rightarrow> CacheAlignedCounter \<Rightarrow> u64 list \<times> CacheAlignedCounter" where
  "increments 0 c = ([], c)"
| "increments (Suc n) c =
    (case counter_increment c of (v, c) \<Rightarrow> case increments n c of (vs, c) \<Rightarrow> (v # vs, c))"

lemma increments_run:
  "increments n c = (map (\<lambda>i. cc_value c + of_nat i) [0..<n], c \<lparr> cc_value := cc_value c + of_nat n \<rparr>)"
proof (induction n arbitrary: c)
  case (Suc n)
  have "[0..<Suc n] = 0 # map Suc [0..<n]" by (simp add: map_Suc_upt upt_conv_Cons del: upt_Suc)
  then show ?case by (simp add: Suc counter_increment_def add_ac)
qed simp

text \<open>The numbers that increments hand out are different until the counter has gone round.\<close>

lemma increments_distinct:
  assumes "n \<le> 2 ^ 64"
  shows "distinct (fst (increments n c))"
proof -
  have "(of_nat i :: u64) \<noteq> of_nat j" if "i < n" "j < n" "i \<noteq> j" for i j
  proof
    assume "(of_nat i :: u64) = of_nat j"
    then have "unat (of_nat i :: u64) = unat (of_nat j :: u64)" by simp
    then show False using that assms by (simp add: unsigned_of_nat take_bit_nat_eq_self)
  qed
  then have "inj_on (\<lambda>i. cc_value c + of_nat i) {0..<n}" unfolding inj_on_def by (metis add_left_cancel atLeastLessThan_iff)
  then show ?thesis by (simp add: increments_run distinct_map)
qed

section \<open>The queue in the ring\<close>

definition ring_count :: "'a CacheOptimizedRingBuffer \<Rightarrow> nat" where
  "ring_count r = unat (rb_producer_head r - rb_consumer_tail r)"

definition ring_at :: "'a CacheOptimizedRingBuffer \<Rightarrow> nat \<Rightarrow> nat" where
  "ring_at r i = (unat (rb_consumer_tail r) + i) mod length (rb_buffer r)"

definition ring_contents :: "'a CacheOptimizedRingBuffer \<Rightarrow> 'a list" where
  "ring_contents r = map (\<lambda>i. rb_buffer r ! ring_at r i) [0..<ring_count r]"

text \<open>One slot stays free: a ring of capacity \<open>2^k\<close> holds up to \<open>2^k - 1\<close> items.\<close>

definition ring_room :: "'a CacheOptimizedRingBuffer \<Rightarrow> nat" where
  "ring_room r = length (rb_buffer r) - 1"

definition ring_ok :: "'a CacheOptimizedRingBuffer \<Rightarrow> bool" where
  "ring_ok r \<longleftrightarrow> (\<exists>k<64. rb_capacity r = push_bit k 1) \<and> rb_mask r = rb_capacity r - 1
    \<and> length (rb_buffer r) = unat (rb_capacity r) \<and> ring_count r < length (rb_buffer r)"

lemma ring_okE:
  assumes "ring_ok r"
  obtains k where "k < 64" "rb_mask r = mask k" "rb_capacity r = push_bit k 1" "length (rb_buffer r) = 2 ^ k"
    "ring_count r < 2 ^ k"
proof -
  obtain k where k: "k < 64" "rb_capacity r = push_bit k 1" using assms by (auto simp: ring_ok_def)
  moreover have "unat (push_bit k 1 :: u64) = 2 ^ k" 
    using power_strict_increasing [OF k(1), of "2 :: nat"]
    by (simp only: unsigned_push_bit_eq) (simp add: take_bit_eq_mod push_bit_eq_mult)
  ultimately show ?thesis using that assms by (auto simp: ring_ok_def mask_eq_exp_minus_1 push_bit_of_1)
qed

lemma unat_and_mask: "unat (w AND mask k) = unat (w :: u64) mod 2 ^ k"
  by (simp only: take_bit_eq_mask [symmetric] unsigned_take_bit_eq) (simp add: take_bit_eq_mod)

lemma mod_add_wrap: "k \<le> 64 \<Longrightarrow> unat (w + word_of_nat i :: u64) mod 2 ^ k = (unat w + i) mod 2 ^ k"
proof -
  assume "k \<le> 64"
  then have "(2::nat) ^ k dvd 2 ^ 64" by (rule le_imp_power_dvd)
  then show ?thesis by (simp add: unat_word_ariths unat_of_nat mod_mod_cancel mod_add_right_eq)
qed

lemma head_tail: "rb_producer_head r = rb_consumer_tail r + word_of_nat (ring_count r)"
  by (simp add: ring_count_def)

lemma slot_tail: "ring_ok r \<Longrightarrow> ring_slot r (rb_consumer_tail r + word_of_nat i) = ring_at r i"
  by (erule ring_okE) (simp add: ring_slot_def ring_at_def unat_and_mask mod_add_wrap)

lemma slot_head: "ring_ok r \<Longrightarrow> ring_slot r (rb_producer_head r) = ring_at r (ring_count r)"
  using slot_tail [of r "ring_count r"] head_tail [of r] by simp

lemma ring_at_less [simp]: "ring_ok r \<Longrightarrow> ring_at r i < length (rb_buffer r)"
  by (erule ring_okE) (simp add: ring_at_def)

lemma mod_window:
  assumes "i < n" "j < n" "(t + i) mod n = (t + j) mod (n::nat)"
  shows "i = j"
  using assms
proof (induction i j rule: linorder_wlog)
  case (le i j)
  then have "n dvd (t + j) - (t + i)" by (metis mod_eq_dvd_iff_nat add_left_mono)
  then show ?case using le by (auto dest: dvd_imp_le)
qed auto

lemma ring_at_inj: "i < length (rb_buffer r) \<Longrightarrow> j < length (rb_buffer r) \<Longrightarrow> ring_at r i = ring_at r j \<longleftrightarrow> i = j"
  using mod_window [of i "length (rb_buffer r)" j] by (auto simp: ring_at_def)

lemma ring_full_iff:
  assumes "ring_ok r"
  shows "ring_full r \<longleftrightarrow> ring_room r \<le> ring_count r"
proof -
  let ?n = "length (rb_buffer r)"
  have n: "ring_count r < ?n" using assms by (simp add: ring_ok_def)
  have "ring_full r \<longleftrightarrow> ring_slot r (rb_producer_head r + 1) = ring_slot r (rb_consumer_tail r)"
    by (simp add: ring_full_def ring_slot_def word_unat_eq_iff)
  also have "rb_producer_head r + 1 = rb_consumer_tail r + word_of_nat (Suc (ring_count r))"
    using head_tail [of r] by simp
  also have "ring_slot r \<dots> = ring_at r (Suc (ring_count r))" by (rule slot_tail [OF assms])
  also have "ring_slot r (rb_consumer_tail r) = ring_at r 0" using slot_tail [OF assms, of 0] by simp
  also have "ring_at r (Suc (ring_count r)) = ring_at r 0 \<longleftrightarrow> Suc (ring_count r) = ?n"
    using n less_le_trans [OF le_less_trans [OF le0 n] order_refl] mod_window [of "Suc (ring_count r)" ?n 0 "unat (rb_consumer_tail r)"]
    by (cases "Suc (ring_count r) = ?n") (auto simp: ring_at_def)
  finally show ?thesis using n by (auto simp: ring_room_def)
qed

lemma ring_contents_length [simp]: "length (ring_contents r) = ring_count r"
  by (simp add: ring_contents_def)

lemma ring_count_Suc:
  assumes "ring_count r < 2 ^ 63"
  shows "unat (rb_producer_head r + 1 - rb_consumer_tail r) = Suc (ring_count r)"
proof -
  have "rb_producer_head r + 1 - rb_consumer_tail r = word_of_nat (Suc (ring_count r))"
    by (simp add: ring_count_def algebra_simps)
  then show ?thesis using assms by (simp add: unat_of_nat del: of_nat_Suc)
qed

lemma ring_count_less: "ring_ok r \<Longrightarrow> ring_count r < 2 ^ 63"
proof (erule ring_okE)
  fix k :: nat assume "k < 64" "ring_count r < 2 ^ k"
  moreover have "(2::nat) ^ k \<le> 2 ^ 63" by (rule power_increasing) (use \<open>k < 64\<close> in auto)
  ultimately show "ring_count r < 2 ^ 63" by linarith
qed

lemma ring_push_run:
  fixes r :: "'a CacheOptimizedRingBuffer" and x :: 'a
  assumes "ring_ok r" "ring_count r < ring_room r"
  defines "r' \<equiv> r \<lparr> rb_buffer := (rb_buffer r)[ring_slot r (rb_producer_head r) := x], rb_producer_head := rb_producer_head r + 1 \<rparr>"
  shows "try_push x r = (True, r')" "ring_ok r'" "ring_contents r' = ring_contents r @ [x]" "ring_room r' = ring_room r"
proof -
  have count: "ring_count r' = Suc (ring_count r)"
    using ring_count_Suc [OF ring_count_less [OF assms(1)]] by (simp add: ring_count_def r'_def)
  show "try_push x r = (True, r')"
    using ring_full_iff [OF assms(1)] assms(2) by (simp add: try_push_def r'_def Let_def)
  show "ring_room r' = ring_room r" by (simp add: ring_room_def r'_def)
  show "ring_ok r'" using assms(1,2) count by (auto simp: ring_ok_def r'_def ring_room_def)
  have at: "ring_at r' i = ring_at r i" for i by (simp add: ring_at_def r'_def)
  have buf: "rb_buffer r' = (rb_buffer r)[ring_at r (ring_count r) := x]" by (simp add: r'_def slot_head [OF assms(1)])
  show "ring_contents r' = ring_contents r @ [x]"
  proof (rule nth_equalityI)
    fix i assume "i < length (ring_contents r')"
    then have i: "i < Suc (ring_count r)" by (simp add: count)
    have "ring_at r i = ring_at r (ring_count r) \<longleftrightarrow> i = ring_count r"
      by (rule ring_at_inj) (use i assms(2) in \<open>auto simp: ring_room_def\<close>)
    then show "ring_contents r' ! i = (ring_contents r @ [x]) ! i"
      using i assms(1) unfolding ring_contents_def count at buf
      by (auto simp: nth_append nth_list_update simp del: upt_Suc)
  qed (simp add: count)
qed

lemma ring_pop_run:
  assumes "ring_ok r" "0 < ring_count r"
  defines "r' \<equiv> r \<lparr> rb_consumer_tail := rb_consumer_tail r + 1 \<rparr>"
  shows "try_pop r = (Some (hd (ring_contents r)), r')" "ring_ok r'" "ring_contents r' = tl (ring_contents r)"
    "ring_room r' = ring_room r"
proof -
  have "rb_producer_head r - rb_consumer_tail r \<noteq> 0" using assms(2) by (auto simp: ring_count_def)
  then have count: "ring_count r' = ring_count r - 1"
    by (simp add: ring_count_def r'_def unat_minus_one diff_diff_eq [symmetric])
  show "ring_room r' = ring_room r" by (simp add: ring_room_def r'_def)
  show "ring_ok r'" using assms(1) count by (auto simp: ring_ok_def r'_def)
  have at: "ring_at r' i = ring_at r (Suc i)" for i
  proof -
    have "rb_consumer_tail r + 1 + word_of_nat i = rb_consumer_tail r + word_of_nat (Suc i)" by simp
    then have "ring_slot r' (rb_consumer_tail r' + word_of_nat i) = ring_slot r (rb_consumer_tail r + word_of_nat (Suc i))"
      by (simp add: ring_slot_def r'_def add.assoc)
    then show ?thesis using slot_tail [OF \<open>ring_ok r'\<close>, of i] slot_tail [OF assms(1), of "Suc i"] by simp
  qed
  have buf: "rb_buffer r' = rb_buffer r" by (simp add: r'_def)
  show "ring_contents r' = tl (ring_contents r)"
    by (rule nth_equalityI) (simp_all add: nth_tl ring_contents_def count at buf less_diff_conv)
  have "ring_contents r \<noteq> []" using assms(2) by (simp flip: length_greater_0_conv)
  then show "try_pop r = (Some (hd (ring_contents r)), r')"
    using assms slot_tail [OF assms(1), of 0]
    by (auto simp: try_pop_def Let_def r'_def ring_count_def hd_conv_nth ring_contents_def)
qed

lemma ring_pop_empty: "ring_count r = 0 \<Longrightarrow> try_pop r = (None, r)"
  by (simp add: try_pop_def ring_count_def unat_eq_0)

interpretation ring: bounded_queue ring_ok ring_contents ring_room try_push try_pop
proof
  fix s :: "'a CacheOptimizedRingBuffer" and x :: 'a and xs
  assume ok: "ring_ok s"
  show full: "try_push x s = (False, s)" if "ring_room s \<le> length (ring_contents s)"
    using that ring_full_iff [OF ok] by (simp add: try_push_def)
  show "ring_ok (snd (try_push x s)) \<and> ring_room (snd (try_push x s)) = ring_room s"
    using full ring_push_run [OF ok, of x] ok by (cases "ring_count s < ring_room s") auto
  show "fst (try_push x s) \<and> ring_contents (snd (try_push x s)) = ring_contents s @ [x]"
    if "length (ring_contents s) < ring_room s" using that ring_push_run [OF ok, of x] by simp
  show "ring_ok (snd (try_pop s)) \<and> ring_room (snd (try_pop s)) = ring_room s"
    using ring_pop_run [OF ok] ring_pop_empty [of s] ok by (cases "ring_count s = 0") auto
  show "fst (try_pop s) = Some x \<and> ring_contents (snd (try_pop s)) = xs" if "ring_contents s = x # xs"
    using that ring_pop_run [OF ok] ring_contents_length [of s] by (cases "ring_count s") auto
  show "try_pop s = (None, s)" if "ring_contents s = []"
    using that ring_pop_empty [of s] ring_contents_length [of s] by simp
qed

section \<open>The producer and the consumer as threads\<close>

text \<open>The atomic actions of \<open>try_push\<close>: the two loads (the producer alone writes the head), the write of the slot, and
  the store that publishes it; likewise for \<open>try_pop\<close>. \<open>sp_pushed\<close> and \<open>sp_popped\<close> record the items of the
  calls that have returned with success.\<close>

datatype 'a producer = PIdle | PWriting u64 'a | PPublishing u64 'a
datatype 'a consumer = CIdle | CReading u64 | CReleasing u64 'a

record 'a spsc =
  sp_ring :: "'a CacheOptimizedRingBuffer"
  sp_producer :: "'a producer"
  sp_consumer :: "'a consumer"
  sp_pushed :: "'a list"
  sp_popped :: "'a list"

inductive spsc_step :: "'a spsc \<Rightarrow> 'a spsc \<Rightarrow> bool" where
  push_check: "sp_producer s = PIdle \<Longrightarrow>
    spsc_step s (if ring_full (sp_ring s) then s
                 else s \<lparr> sp_producer := PWriting (rb_producer_head (sp_ring s)) x \<rparr>)"
| push_write: "sp_producer s = PWriting h x \<Longrightarrow>
    spsc_step s (s \<lparr> sp_ring := (sp_ring s) \<lparr> rb_buffer := (rb_buffer (sp_ring s))[ring_slot (sp_ring s) h := x] \<rparr>,
                     sp_producer := PPublishing h x \<rparr>)"
| push_publish: "sp_producer s = PPublishing h x \<Longrightarrow>
    spsc_step s (s \<lparr> sp_ring := (sp_ring s) \<lparr> rb_producer_head := h + 1 \<rparr>, sp_producer := PIdle,
                     sp_pushed := sp_pushed s @ [x] \<rparr>)"
| pop_check: "sp_consumer s = CIdle \<Longrightarrow>
    spsc_step s (if rb_consumer_tail (sp_ring s) = rb_producer_head (sp_ring s) then s
                 else s \<lparr> sp_consumer := CReading (rb_consumer_tail (sp_ring s)) \<rparr>)"
| pop_read: "sp_consumer s = CReading t \<Longrightarrow>
    spsc_step s (s \<lparr> sp_consumer := CReleasing t (rb_buffer (sp_ring s) ! ring_slot (sp_ring s) t) \<rparr>)"
| pop_release: "sp_consumer s = CReleasing t x \<Longrightarrow>
    spsc_step s (s \<lparr> sp_ring := (sp_ring s) \<lparr> rb_consumer_tail := t + 1 \<rparr>, sp_consumer := CIdle,
                     sp_popped := sp_popped s @ [x] \<rparr>)"

inductive_cases spsc_stepE: "spsc_step s s'"

definition spsc_init :: "'a CacheOptimizedRingBuffer \<Rightarrow> 'a spsc" where
  "spsc_init r = \<lparr> sp_ring = r, sp_producer = PIdle, sp_consumer = CIdle, sp_pushed = [], sp_popped = [] \<rparr>"

text \<open>The invariant: what was pushed is what was popped followed by what the ring holds; the producer works on the
  free slot at the head, and the consumer on the first item.\<close>

definition producer_inv :: "'a CacheOptimizedRingBuffer \<Rightarrow> 'a producer \<Rightarrow> bool" where
  "producer_inv r p = (case p of
      PIdle \<Rightarrow> True
    | PWriting h x \<Rightarrow> h = rb_producer_head r \<and> ring_count r < ring_room r
    | PPublishing h x \<Rightarrow> h = rb_producer_head r \<and> ring_count r < ring_room r \<and> rb_buffer r ! ring_slot r h = x)"

definition consumer_inv :: "'a CacheOptimizedRingBuffer \<Rightarrow> 'a consumer \<Rightarrow> bool" where
  "consumer_inv r c = (case c of
      CIdle \<Rightarrow> True
    | CReading t \<Rightarrow> t = rb_consumer_tail r \<and> 0 < ring_count r
    | CReleasing t x \<Rightarrow> t = rb_consumer_tail r \<and> 0 < ring_count r \<and> hd (ring_contents r) = x)"

definition spsc_inv :: "'a spsc \<Rightarrow> bool" where
  "spsc_inv s \<longleftrightarrow> ring_ok (sp_ring s) \<and> sp_pushed s = sp_popped s @ ring_contents (sp_ring s)
    \<and> producer_inv (sp_ring s) (sp_producer s) \<and> consumer_inv (sp_ring s) (sp_consumer s)"

lemmas spsc_invs = spsc_inv_def producer_inv_def consumer_inv_def

text \<open>Writing the free slot changes nothing that the consumer sees.\<close>

lemma write_free_slot:
  fixes r :: "'a CacheOptimizedRingBuffer" and x :: 'a
  assumes "ring_ok r" "ring_count r < ring_room r"
  defines "r' \<equiv> r \<lparr> rb_buffer := (rb_buffer r)[ring_slot r (rb_producer_head r) := x] \<rparr>"
  shows "ring_ok r'" "ring_contents r' = ring_contents r" "ring_count r' = ring_count r" "ring_room r' = ring_room r"
    "rb_buffer r' ! ring_slot r' (rb_producer_head r) = x"
proof -
  show count: "ring_count r' = ring_count r" and "ring_room r' = ring_room r"
    by (simp_all add: ring_count_def ring_room_def r'_def)
  show "ring_ok r'" using assms(1) count by (simp add: ring_ok_def r'_def)
  have at: "ring_at r' i = ring_at r i" for i by (simp add: ring_at_def r'_def)
  have buf: "rb_buffer r' = (rb_buffer r)[ring_at r (ring_count r) := x]" by (simp add: r'_def slot_head [OF assms(1)])
  have "ring_at r (ring_count r) \<noteq> ring_at r i" if "i < ring_count r" for i
    using ring_at_inj [of "ring_count r" r i] that assms(2) by (auto simp: ring_room_def)
  then show "ring_contents r' = ring_contents r"
    by (intro nth_equalityI) (simp_all add: count ring_contents_def at buf nth_list_update_neq)
  have "ring_slot r' (rb_producer_head r) = ring_at r (ring_count r)"
    using slot_head [OF assms(1)] by (simp add: ring_slot_def r'_def)
  then show "rb_buffer r' ! ring_slot r' (rb_producer_head r) = x" using assms(1) by (simp add: buf)
qed

lemma update_same_slot: "xs ! i = x \<Longrightarrow> xs[i := x] = xs"
  by (auto simp: list_update_same_conv list_update_id)

lemma publish_slot:
  assumes "ring_ok r" "ring_count r < ring_room r" "rb_buffer r ! ring_slot r (rb_producer_head r) = x"
  defines "r' \<equiv> r \<lparr> rb_producer_head := rb_producer_head r + 1 \<rparr>"
  shows "ring_ok r'" "ring_contents r' = ring_contents r @ [x]" "ring_count r' = Suc (ring_count r)"
proof -
  have "r' = r \<lparr> rb_buffer := (rb_buffer r)[ring_slot r (rb_producer_head r) := x], rb_producer_head := rb_producer_head r + 1 \<rparr>"
    using assms(3) by (simp add: r'_def update_same_slot)
  then show "ring_ok r'" "ring_contents r' = ring_contents r @ [x]" using ring_push_run [OF assms(1,2), of x] by simp_all
  then show "ring_count r' = Suc (ring_count r)" by (metis length_append_singleton ring_contents_length)
qed

lemma first_item:
  assumes "ring_ok r" "0 < ring_count r"
  shows "rb_buffer r ! ring_slot r (rb_consumer_tail r) = hd (ring_contents r)"
proof -
  have "ring_contents r \<noteq> []" using assms(2) by (simp flip: length_greater_0_conv)
  then show ?thesis using assms slot_tail [OF assms(1), of 0] by (simp add: hd_conv_nth ring_contents_def)
qed

lemma release_slot:
  assumes "ring_ok r" "0 < ring_count r"
  defines "r' \<equiv> r \<lparr> rb_consumer_tail := rb_consumer_tail r + 1 \<rparr>"
  shows "ring_ok r'" "ring_contents r = hd (ring_contents r) # ring_contents r'" "Suc (ring_count r') = ring_count r"
    "ring_room r' = ring_room r"
proof -
  have ne: "ring_contents r \<noteq> []" using assms(2) by (simp flip: length_greater_0_conv)
  show "ring_ok r'" "ring_room r' = ring_room r" using ring_pop_run [OF assms(1,2)] by (simp_all add: r'_def)
  show c: "ring_contents r = hd (ring_contents r) # ring_contents r'" using ring_pop_run(3) [OF assms(1,2)] ne by (simp add: r'_def)
  show "Suc (ring_count r') = ring_count r" using arg_cong [OF c, of length] by simp
qed

lemma room_cong: "length (rb_buffer r') = length (rb_buffer r) \<Longrightarrow> ring_room r' = ring_room r"
  by (simp add: ring_room_def)

lemma spsc_step_inv:
  assumes "spsc_step s s'" "spsc_inv s"
  shows "spsc_inv s'"
  using assms(1)
proof (cases rule: spsc_step.cases)
  case (push_check x)
  then show ?thesis using assms(2) ring_full_iff [of "sp_ring s"]
    by (auto simp: spsc_invs split: consumer.splits)
next
  case (push_write h x)
  then show ?thesis using assms(2) write_free_slot [of "sp_ring s" x]
    by (auto simp: spsc_invs split: consumer.splits)
next
  case (push_publish h x)
  let ?r = "sp_ring s"
  have h: "h = rb_producer_head ?r" "ring_count ?r < ring_room ?r" "rb_buffer ?r ! ring_slot ?r h = x" "ring_ok ?r"
    using assms(2) push_publish by (auto simp: spsc_invs)
  note p = publish_slot [OF h(4,2) h(3) [unfolded h(1)]]
  have "hd (ring_contents ?r @ [x]) = hd (ring_contents ?r)" if "0 < ring_count ?r"
    using that ring_contents_length [of ?r] by (cases "ring_contents ?r") auto
  then show ?thesis using assms(2) push_publish h p by (auto simp: spsc_invs split: consumer.splits)
next
  case pop_check
  have "rb_consumer_tail (sp_ring s) \<noteq> rb_producer_head (sp_ring s) \<Longrightarrow> 0 < ring_count (sp_ring s)"
    by (auto simp: ring_count_def unat_gt_0)
  then show ?thesis using assms(2) pop_check by (auto simp: spsc_invs split: producer.splits)
next
  case (pop_read t)
  then show ?thesis using assms(2) first_item [of "sp_ring s"]
    by (auto simp: spsc_invs split: producer.splits)
next
  case (pop_release t x)
  let ?r = "sp_ring s"
  have t: "t = rb_consumer_tail ?r" "0 < ring_count ?r" "hd (ring_contents ?r) = x" "ring_ok ?r"
    using assms(2) pop_release by (auto simp: spsc_invs)
  note p = release_slot [OF t(4,2)]
  have "ring_slot (?r \<lparr> rb_consumer_tail := t + 1 \<rparr>) h = ring_slot ?r h" for h by (simp add: ring_slot_def)
  then show ?thesis using assms(2) pop_release t p by (auto simp: spsc_invs split: producer.splits)
qed

section \<open>Properties\<close>


lemma ring_new_ok:
  assumes "ring_new def capacity = Ok r"
  shows "ring_ok r" "ring_contents r = []" "rb_capacity r = capacity"
proof -
  obtain k where k: "k < 64" "capacity = push_bit k 1" and r: "r = \<lparr> rb_buffer = replicate (unat capacity) def,
      rb_producer_head = 0, rb_consumer_tail = 0, rb_capacity = capacity, rb_mask = capacity - 1 \<rparr>"
    using assms by (auto simp: ring_new_def is_power_of_two_def list_ex_iff split: if_splits)
  have "capacity \<noteq> 0" unfolding k(2) using k(1) by (simp add: push_bit_of_1)
  then show "ring_ok r" using k by (auto simp: r ring_ok_def ring_count_def unat_gt_0)
  show "ring_contents r = []" "rb_capacity r = capacity" by (simp_all add: r ring_contents_def ring_count_def)
qed

definition sample_ring :: "nat CacheOptimizedRingBuffer" where
  "sample_ring = \<lparr> rb_buffer = [0, 0], rb_producer_head = -1, rb_consumer_tail = -1, rb_capacity = 2, rb_mask = 1 \<rparr>"

lemma sample_ring_ok: "ring_ok sample_ring"
  unfolding ring_ok_def by (intro conjI exI [of _ 1]) (simp_all add: sample_ring_def ring_count_def)


text \<open>C30 (invariant): the producer and the consumer never race. However the atomic actions of a pushing and a popping thread
  interleave on a fresh ring, what has been popped is always a prefix of what has been pushed, in order, the
  rest being in the ring; the slot that the producer writes is never the one that the consumer reads; and an
  item that the consumer took stays the one it releases.\<close>

theorem spsc_no_race:
  assumes "ring_new def capacity = Ok r" "spsc_step\<^sup>*\<^sup>* (spsc_init r) s"
  shows "sp_pushed s = sp_popped s @ ring_contents (sp_ring s)
    \<and> ring_count (sp_ring s) < unat capacity
    \<and> (\<forall>h x t. sp_producer s = PWriting h x \<longrightarrow> sp_consumer s = CReading t \<longrightarrow>
          ring_slot (sp_ring s) h \<noteq> ring_slot (sp_ring s) t)
    \<and> (\<forall>t x. sp_consumer s = CReleasing t x \<longrightarrow> (\<exists>rest. sp_pushed s = sp_popped s @ x # rest))"
proof -
  have "spsc_inv s \<and> rb_capacity (sp_ring s) = capacity"
    using assms(2)
  proof (induction rule: rtranclp_induct)
    case base
    then show ?case using ring_new_ok [OF assms(1)] by (simp add: spsc_invs spsc_init_def)
  next
    case (step y z)
    have "rb_capacity (sp_ring z) = rb_capacity (sp_ring y)" using step.hyps(2) by (auto elim!: spsc_stepE)
    then show ?case using spsc_step_inv step by blast
  qed
  then have inv: "spsc_inv s" "rb_capacity (sp_ring s) = capacity" by simp_all
  have ok: "ring_ok (sp_ring s)" using inv by (simp add: spsc_inv_def)
  have "ring_slot (sp_ring s) h \<noteq> ring_slot (sp_ring s) t"
    if "sp_producer s = PWriting h x" "sp_consumer s = CReading t" for h x t
  proof -
    have "h = rb_producer_head (sp_ring s)" "t = rb_consumer_tail (sp_ring s)" "0 < ring_count (sp_ring s)"
      "ring_count (sp_ring s) < length (rb_buffer (sp_ring s))"
      using inv that ok by (auto simp: spsc_invs ring_ok_def)
    moreover from this(3,4) have "ring_at (sp_ring s) (ring_count (sp_ring s)) \<noteq> ring_at (sp_ring s) 0"
      by (subst ring_at_inj) auto
    ultimately show ?thesis using slot_head [OF ok] slot_tail [OF ok, of 0] by simp
  qed
  moreover have "\<exists>rest. sp_pushed s = sp_popped s @ x # rest" if "sp_consumer s = CReleasing t x" for t x
  proof -
    have "0 < ring_count (sp_ring s)" "hd (ring_contents (sp_ring s)) = x" "sp_pushed s = sp_popped s @ ring_contents (sp_ring s)"
      using inv that by (auto simp: spsc_invs)
    then show ?thesis using release_slot(2) [OF ok] by auto
  qed
  ultimately show ?thesis using inv ok by (auto simp: spsc_inv_def ring_ok_def)
qed

theorem spsc_no_race_witness:
  "\<exists>s :: nat spsc. sp_pushed s = [9] \<and> sp_consumer s = CReleasing 0 9 \<and> ring_count (sp_ring s) < unat (2 :: u64)"
proof -
  let ?r = "\<lparr> rb_buffer = [0, 0], rb_producer_head = 0, rb_consumer_tail = 0, rb_capacity = 2, rb_mask = 1 \<rparr> :: nat CacheOptimizedRingBuffer"
  have new: "ring_new 0 2 = Ok ?r"
  proof -
    have "is_power_of_two 2" unfolding is_power_of_two_def list_ex_iff by (rule bexI [of _ 1]) simp_all
    moreover have "unat (2 :: u64) = Suc (Suc 0)" by simp
    then have "replicate (unat (2 :: u64)) (0 :: nat) = [0, 0]" by (simp only: replicate.simps)
    ultimately show ?thesis by (simp add: ring_new_def)
  qed
  let ?a = "spsc_init ?r \<lparr> sp_producer := PWriting 0 9 \<rparr>"
  let ?b = "?a \<lparr> sp_ring := ?r \<lparr> rb_buffer := [9, 0] \<rparr>, sp_producer := PPublishing 0 9 \<rparr>"
  let ?c = "?b \<lparr> sp_ring := ?r \<lparr> rb_buffer := [9, 0], rb_producer_head := 1 \<rparr>, sp_producer := PIdle, sp_pushed := [9] \<rparr>"
  let ?d = "?c \<lparr> sp_consumer := CReading 0 \<rparr>"
  let ?e = "?d \<lparr> sp_consumer := CReleasing 0 9 \<rparr>"
  have "spsc_step (spsc_init ?r) ?a"
    using spsc_step.push_check [of "spsc_init ?r" 9] by (simp add: spsc_init_def ring_full_def)
  moreover have "spsc_step ?a ?b"
    using spsc_step.push_write [of ?a 0 9] by (simp add: spsc_init_def ring_slot_def)
  moreover have "spsc_step ?b ?c"
    using spsc_step.push_publish [of ?b 0 9] by (simp add: spsc_init_def)
  moreover have "spsc_step ?c ?d"
    using spsc_step.pop_check [of ?c] by (simp add: spsc_init_def)
  moreover have "spsc_step ?d ?e"
    using spsc_step.pop_read [of ?d 0] by (simp add: spsc_init_def ring_slot_def)
  ultimately have "spsc_step\<^sup>*\<^sup>* (spsc_init ?r) ?e" by (meson converse_rtranclp_into_rtranclp rtranclp.rtrancl_refl)
  from spsc_no_race [OF new this] have "ring_count (sp_ring ?e) < unat (2 :: u64)" by blast
  moreover have "sp_pushed ?e = [9]" "sp_consumer ?e = CReleasing 0 9" by simp_all
  ultimately show ?thesis by blast
qed

end
