(* ===== verification/Syscall_Bypass.thy ===== *)
theory Syscall_Bypass
  imports Ring_Buffer Rpc_Fetch "HOL-Library.While_Combinator"
begin

text \<open>
  perf/syscall\_bypass.rs: the batch processor and its worker, the fast clock, the simulated asynchronous I/O, the
  allocator in a static array, and the manager that combines them. The queue of the crossbeam crate is a parameter;
  theorems about it assume the contract \<open>bounded_queue\<close>, which the ring buffer of this crate meets as well. A time
  source is a parameter too: every function that reads the clock takes the readings it makes.
\<close>

unbundle bit_operations_syntax

section \<open>Configuration\<close>

record SyscallBypassConfig =
  cf_enable_batch_processing :: bool
  cf_batch_size :: u64
  cf_enable_fast_time :: bool
  cf_enable_vdso :: bool
  cf_enable_io_uring :: bool
  cf_enable_mmap_optimization :: bool
  cf_enable_userspace_impl :: bool
  cf_syscall_cache_size :: u64

definition bypass_config_default :: SyscallBypassConfig where
  "bypass_config_default = \<lparr> cf_enable_batch_processing = True, cf_batch_size = 100, cf_enable_fast_time = True,
     cf_enable_vdso = True, cf_enable_io_uring = True, cf_enable_mmap_optimization = True,
     cf_enable_userspace_impl = True, cf_syscall_cache_size = 1000 \<rparr>"

definition extreme_bypass_config :: SyscallBypassConfig where
  "extreme_bypass_config = \<lparr> cf_enable_batch_processing = True, cf_batch_size = 1000, cf_enable_fast_time = True,
     cf_enable_vdso = True, cf_enable_io_uring = True, cf_enable_mmap_optimization = True,
     cf_enable_userspace_impl = True, cf_syscall_cache_size = 10000 \<rparr>"

section \<open>The batch processor\<close>

datatype SyscallRequest =
    WriteCall int "u8 list"
  | ReadCall int nat
  | SendCall int "u8 list"
  | RecvCall int nat
  | GetTime
  | MemAlloc nat
  | MemFree nat

text \<open>The queue of pending calls: \<open>new\<close> panics (\<open>None\<close>) for the capacity 0.\<close>

record 'q array_queue =
  aq_new :: "nat \<Rightarrow> 'q option"
  aq_push :: "SyscallRequest \<Rightarrow> 'q \<Rightarrow> bool \<times> 'q"
  aq_pop :: "'q \<Rightarrow> SyscallRequest option \<times> 'q"
  aq_is_empty :: "'q \<Rightarrow> bool"

record 'q SyscallBatchProcessor =
  bp_pending_calls :: 'q
  bp_batch_stats :: u64

definition batch_processor_new :: "'q array_queue \<Rightarrow> u64 \<Rightarrow> ('q SyscallBatchProcessor, string) outcome" where
  "batch_processor_new Q batch_size =
    (case aq_new Q (unat (batch_size * 10)) of
       None \<Rightarrow> Panic
     | Some q \<Rightarrow> Ok \<lparr> bp_pending_calls = q, bp_batch_stats = 0 \<rparr>)"

definition err_queue_full :: string where "err_queue_full = ''Batch queue full''"

definition submit_request ::
  "'q array_queue \<Rightarrow> SyscallRequest \<Rightarrow> ('q SyscallBatchProcessor, unit, string) stateful" where
  "submit_request Q request p =
    (case aq_push Q request (bp_pending_calls p) of
       (True, q) \<Rightarrow> (Ok (), p \<lparr> bp_pending_calls := q \<rparr>)
     | (False, q) \<Rightarrow> (Err err_queue_full, p \<lparr> bp_pending_calls := q \<rparr>))"

text \<open>The loop that collects at most 100 calls; it goes round again when the queue is not empty and gives nothing,
  so it is not a structural recursion.\<close>

definition collect_more :: "'q array_queue \<Rightarrow> SyscallRequest list \<times> 'q \<Rightarrow> bool" where
  "collect_more Q s \<longleftrightarrow> length (fst s) < 100 \<and> \<not> aq_is_empty Q (snd s)"

definition collect_one :: "'q array_queue \<Rightarrow> SyscallRequest list \<times> 'q \<Rightarrow> SyscallRequest list \<times> 'q" where
  "collect_one Q s =
    (case aq_pop Q (snd s) of
       (Some request, q) \<Rightarrow> (fst s @ [request], q)
     | (None, q) \<Rightarrow> (fst s, q))"

definition collect_batch :: "'q array_queue \<Rightarrow> 'q \<Rightarrow> (SyscallRequest list \<times> 'q) option" where
  "collect_batch Q q = while_option (collect_more Q) (collect_one Q) ([], q)"

text \<open>The three groups, and the trace line that stands for each executed call; the other kinds of requests are taken
  from the queue and dropped.\<close>

datatype traced_call = BatchedWrite int nat | BatchedRead int nat | BatchedSend int nat

fun group_request :: "SyscallRequest \<Rightarrow> traced_call list \<times> traced_call list \<times> traced_call list \<Rightarrow>
    traced_call list \<times> traced_call list \<times> traced_call list" where
  "group_request (WriteCall fd data) (ws, rs, ns) = (ws @ [BatchedWrite fd (length data)], rs, ns)"
| "group_request (ReadCall fd n) (ws, rs, ns) = (ws, rs @ [BatchedRead fd n], ns)"
| "group_request (SendCall socket data) (ws, rs, ns) = (ws, rs, ns @ [BatchedSend socket (length data)])"
| "group_request _ (ws, rs, ns) = (ws, rs, ns)"

definition execute_batch ::
  "'q array_queue \<Rightarrow> 'q SyscallBatchProcessor \<Rightarrow> (nat \<times> traced_call list \<times> 'q SyscallBatchProcessor) option" where
  "execute_batch Q p =
    (case collect_batch Q (bp_pending_calls p) of
       None \<Rightarrow> None
     | Some (batch, q) \<Rightarrow>
         if batch = [] then Some (0, [], p \<lparr> bp_pending_calls := q \<rparr>)
         else case fold group_request batch ([], [], []) of (writes, reads, network) \<Rightarrow>
           Some (length batch, writes @ reads @ network,
                 p \<lparr> bp_pending_calls := q, bp_batch_stats := bp_batch_stats p + 1 \<rparr>))"

section \<open>The fast clock\<close>

text \<open>The readings a call makes, in this order: the monotonic time since the start of the provider, the wall clock
  (\<open>None\<close> before 1970) and the monotonic time again, and the raw monotonic clock of the system (\<open>None\<close> when
  \<open>clock_gettime\<close> fails). All in nanoseconds but the last, in seconds and nanoseconds.\<close>

record time_reading =
  tr_elapsed :: nat
  tr_wall :: "nat option"
  tr_elapsed_after :: nat
  tr_raw :: "(u64 \<times> u64) option"

record FastTimeProvider =
  ft_time_cache :: u64
  ft_cache_update_interval_ns :: u64
  ft_last_update :: u64
  ft_vdso_enabled :: bool

definition err_before_epoch :: string where "err_before_epoch = ''second time provided was later than self''"

definition time_provider_new :: "time_reading \<Rightarrow> bool \<Rightarrow> (FastTimeProvider, string) outcome" where
  "time_provider_new T enable_vdso =
    (case tr_wall T of
       None \<Rightarrow> Err err_before_epoch
     | Some now \<Rightarrow> Ok \<lparr> ft_time_cache = word_of_nat now, ft_cache_update_interval_ns = 1000000,
         ft_last_update = word_of_nat (tr_elapsed_after T), ft_vdso_enabled = enable_vdso \<rparr>)"

definition update_time_cache :: "time_reading \<Rightarrow> FastTimeProvider \<Rightarrow> FastTimeProvider" where
  "update_time_cache T f =
    (case tr_wall T of
       Some now \<Rightarrow> f \<lparr> ft_time_cache := word_of_nat now, ft_last_update := word_of_nat (tr_elapsed_after T) \<rparr>
     | None \<Rightarrow> f)"

text \<open>On Linux.\<close>

definition vdso_time_nanos :: "time_reading \<Rightarrow> FastTimeProvider \<Rightarrow> u64" where
  "vdso_time_nanos T f =
    (case tr_raw T of
       Some (sec, nsec) \<Rightarrow> sec * 1000000000 + nsec
     | None \<Rightarrow> ft_time_cache f)"

definition fast_now_nanos :: "time_reading \<Rightarrow> FastTimeProvider \<Rightarrow> u64 \<times> FastTimeProvider" where
  "fast_now_nanos T f =
    (if ft_vdso_enabled f then (vdso_time_nanos T f, f)
     else let now_mono = word_of_nat (tr_elapsed T);
              f' = (if saturating_sub now_mono (ft_last_update f) > ft_cache_update_interval_ns f
                    then update_time_cache T f else f)
       in (ft_time_cache f', f'))"

definition provider_now_micros :: "time_reading \<Rightarrow> FastTimeProvider \<Rightarrow> u64 \<times> FastTimeProvider" where
  "provider_now_micros T f = (case fast_now_nanos T f of (t, f') \<Rightarrow> (t div 1000, f'))"

definition provider_now_millis :: "time_reading \<Rightarrow> FastTimeProvider \<Rightarrow> u64 \<times> FastTimeProvider" where
  "provider_now_millis T f = (case fast_now_nanos T f of (t, f') \<Rightarrow> (t div 1000000, f'))"

section \<open>The I/O optimizer\<close>

record MemoryMappedRegion =
  mr_address :: nat
  mr_size :: nat
  mr_file_descriptor :: int

record IOOptimizer =
  io_uring_available :: bool
  io_operations_queued :: u64
  io_operations_completed :: u64
  io_bytes_transferred :: u64
  io_syscalls_avoided :: u64
  io_mmap_regions :: "MemoryMappedRegion list"

text \<open>\<open>str::parse::<u32>\<close> of the kernel version up to its first dot.\<close>

definition parse_u32 :: "string \<Rightarrow> u32 option" where
  "parse_u32 s = (case parse_u64 s of Ok n \<Rightarrow> if n < 2 ^ 32 then Some (ucast n) else None | _ \<Rightarrow> None)"

text \<open>\<open>uname\<close> is the output of \<open>uname -r\<close>, if the command ran (on Linux).\<close>

definition check_io_uring_support :: "string option \<Rightarrow> bool" where
  "check_io_uring_support uname =
    (case uname of
       None \<Rightarrow> False
     | Some kernel_version \<Rightarrow>
         (case parse_u32 (takeWhile (\<lambda>c. c \<noteq> CHR ''.'') kernel_version) of
            Some major_version \<Rightarrow> major_version \<ge> 5
          | None \<Rightarrow> False))"

definition io_optimizer_new :: "string option \<Rightarrow> IOOptimizer" where
  "io_optimizer_new uname = \<lparr> io_uring_available = check_io_uring_support uname, io_operations_queued = 0,
     io_operations_completed = 0, io_bytes_transferred = 0, io_syscalls_avoided = 0, io_mmap_regions = [] \<rparr>"

fun uring_each :: "(int \<times> u8 list) list \<Rightarrow> IOOptimizer \<Rightarrow> nat list \<times> IOOptimizer" where
  "uring_each [] io = ([], io)"
| "uring_each ((fd, data) # requests) io =
    (case uring_each requests (io \<lparr> io_operations_queued := io_operations_queued io + 1,
         io_bytes_transferred := io_bytes_transferred io + word_of_nat (length data),
         io_operations_completed := io_operations_completed io + 1 \<rparr>) of
       (results, io') \<Rightarrow> (length data # results, io'))"

definition io_uring_batch_write :: "(int \<times> u8 list) list \<Rightarrow> IOOptimizer \<Rightarrow> nat list \<times> IOOptimizer" where
  "io_uring_batch_write requests io =
    (case uring_each requests io of (results, io') \<Rightarrow>
       (results, io' \<lparr> io_syscalls_avoided := io_syscalls_avoided io' + (word_of_nat (length requests) - 1) \<rparr>))"

fun standard_batch_write :: "(int \<times> u8 list) list \<Rightarrow> IOOptimizer \<Rightarrow> nat list \<times> IOOptimizer" where
  "standard_batch_write [] io = ([], io)"
| "standard_batch_write ((fd, data) # requests) io =
    (case standard_batch_write requests
        (io \<lparr> io_bytes_transferred := io_bytes_transferred io + word_of_nat (length data) \<rparr>) of
       (results, io') \<Rightarrow> (length data # results, io'))"

definition batch_async_write :: "(int \<times> u8 list) list \<Rightarrow> IOOptimizer \<Rightarrow> nat list \<times> IOOptimizer" where
  "batch_async_write requests io =
    (if io_uring_available io \<and> length requests > 1 then io_uring_batch_write requests io
     else standard_batch_write requests io)"

definition err_map_failed :: string where "err_map_failed = ''Memory mapping failed''"

text \<open>\<open>opened\<close> is the descriptor of the opened file or the error, \<open>mapped\<close> the address that \<open>mmap\<close> gives. The file is
  closed when the function returns; the region keeps its number.\<close>

definition create_memory_mapped_io ::
  "(int, string) outcome \<Rightarrow> nat option \<Rightarrow> nat \<Rightarrow> (IOOptimizer, nat, string) stateful" where
  "create_memory_mapped_io opened mapped len io =
    (case opened of
       Err e \<Rightarrow> (Err e, io)
     | Panic \<Rightarrow> (Panic, io)
     | Ok fd \<Rightarrow>
         (case mapped of
            None \<Rightarrow> (Err err_map_failed, io)
          | Some addr \<Rightarrow> (Ok addr, io \<lparr> io_mmap_regions := io_mmap_regions io @
              [\<lparr> mr_address = addr, mr_size = len, mr_file_descriptor = fd \<rparr>] \<rparr>)))"

section \<open>The manager\<close>

record SyscallBypassStats =
  st_syscalls_bypassed :: u64
  st_syscalls_batched :: u64
  st_time_calls_cached :: u64
  st_io_operations_optimized :: u64
  st_memory_operations_avoided :: u64

record 'q SystemCallBypassManager =
  bm_config :: SyscallBypassConfig
  bm_batch_processor :: "'q SyscallBatchProcessor"
  bm_fast_time_provider :: FastTimeProvider
  bm_io_optimizer :: IOOptimizer
  bm_stats :: SyscallBypassStats

definition bypass_manager_new ::
  "'q array_queue \<Rightarrow> time_reading \<Rightarrow> string option \<Rightarrow> SyscallBypassConfig \<Rightarrow> ('q SystemCallBypassManager, string) outcome" where
  "bypass_manager_new Q T uname config =
    obind (batch_processor_new Q (cf_batch_size config)) (\<lambda>batch_processor.
    obind (time_provider_new T (cf_enable_vdso config)) (\<lambda>fast_time_provider.
    Ok \<lparr> bm_config = config, bm_batch_processor = batch_processor, bm_fast_time_provider = fast_time_provider,
         bm_io_optimizer = io_optimizer_new uname,
         bm_stats = \<lparr> st_syscalls_bypassed = 0, st_syscalls_batched = 0, st_time_calls_cached = 0,
           st_io_operations_optimized = 0, st_memory_operations_avoided = 0 \<rparr> \<rparr>))"

definition fast_timestamp_nanos :: "time_reading \<Rightarrow> 'q SystemCallBypassManager \<Rightarrow> u64 \<times> 'q SystemCallBypassManager" where
  "fast_timestamp_nanos T self =
    (if cf_enable_fast_time (bm_config self)
     then case fast_now_nanos T (bm_fast_time_provider self) of (t, f) \<Rightarrow>
       (t, self \<lparr> bm_fast_time_provider := f,
             bm_stats := (bm_stats self) \<lparr> st_time_calls_cached := st_time_calls_cached (bm_stats self) + 1 \<rparr> \<rparr>)
     else (word_of_nat (unwrap_or 0 (tr_wall T)), self))"

definition err_batch_disabled :: string where "err_batch_disabled = ''Batch processing disabled''"

fun submit_each :: "'q array_queue \<Rightarrow> SyscallRequest list \<Rightarrow> ('q SyscallBatchProcessor, unit, string) stateful" where
  "submit_each Q [] p = (Ok (), p)"
| "submit_each Q (op # operations) p =
    (case submit_request Q op p of
       (Ok _, p') \<Rightarrow> submit_each Q operations p'
     | (Err e, p') \<Rightarrow> (Err e, p')
     | (Panic, p') \<Rightarrow> (Panic, p'))"

definition submit_batch_io ::
  "'q array_queue \<Rightarrow> SyscallRequest list \<Rightarrow> ('q SystemCallBypassManager, unit, string) stateful" where
  "submit_batch_io Q operations self =
    (if \<not> cf_enable_batch_processing (bm_config self) then (Err err_batch_disabled, self)
     else case submit_each Q operations (bm_batch_processor self) of
       (Ok _, p) \<Rightarrow> (Ok (), self \<lparr> bm_batch_processor := p,
          bm_stats := (bm_stats self) \<lparr> st_syscalls_batched := st_syscalls_batched (bm_stats self) + 1 \<rparr> \<rparr>)
     | (Err e, p) \<Rightarrow> (Err e, self \<lparr> bm_batch_processor := p \<rparr>)
     | (Panic, p) \<Rightarrow> (Panic, self \<lparr> bm_batch_processor := p \<rparr>))"

text \<open>One tick of the worker that \<open>start_batch_processing\<close> spawns; \<open>None\<close> when the batch is never complete.\<close>

definition worker_tick :: "'q array_queue \<Rightarrow> 'q SystemCallBypassManager \<Rightarrow> (traced_call list \<times> 'q SystemCallBypassManager) option" where
  "worker_tick Q self =
    (case execute_batch Q (bm_batch_processor self) of
       None \<Rightarrow> None
     | Some (processed, calls, p) \<Rightarrow>
         Some (calls, if processed > 0
           then self \<lparr> bm_batch_processor := p, bm_stats := (bm_stats self)
                  \<lparr> st_syscalls_bypassed := st_syscalls_bypassed (bm_stats self) + word_of_nat processed \<rparr> \<rparr>
           else self \<lparr> bm_batch_processor := p \<rparr>))"

section \<open>The allocator in a static array\<close>

text \<open>\<open>base\<close> is the address of the array of \<open>1024 * 1024\<close> bytes, which all managers share. The sum is computed in
  \<open>usize\<close>.\<close>

definition POOL_LEN :: u64 where "POOL_LEN = 1024 * 1024"

definition err_pool_exhausted :: string where "err_pool_exhausted = ''Memory pool exhausted''"
definition err_allocation :: string where "err_allocation = ''Allocation failed''"
definition err_layout :: string where "err_layout = ''invalid parameters to Layout::from_size_align''"

definition userspace_allocate :: "nat \<Rightarrow> u64 \<Rightarrow> (u64, nat, string) stateful" where
  "userspace_allocate base n = (\<lambda>offset.
    if offset + n > POOL_LEN then (Err err_pool_exhausted, offset)
    else (Ok (base + unat offset), offset + ((n + 7) AND NOT 7)))"

text \<open>\<open>heap\<close> is the answer of the standard allocator; a size above \<open>isize::MAX\<close> rounded down to the alignment has no
  layout. The state is the offset of the array and the manager.\<close>

definition fast_allocate ::
  "nat \<Rightarrow> nat option \<Rightarrow> u64 \<Rightarrow> (u64 \<times> 'q SystemCallBypassManager, nat, string) stateful" where
  "fast_allocate base heap n = (\<lambda>(offset, self).
    if cf_enable_userspace_impl (bm_config self)
    then case userspace_allocate base n offset of (r, offset') \<Rightarrow>
      (r, offset', self \<lparr> bm_stats := (bm_stats self)
         \<lparr> st_memory_operations_avoided := st_memory_operations_avoided (bm_stats self) + 1 \<rparr> \<rparr>)
    else if n > 2 ^ 63 - 8 then (Err err_layout, offset, self)
    else case heap of None \<Rightarrow> (Err err_allocation, offset, self) | Some p \<Rightarrow> (Ok p, offset, self))"

text \<open>The sum that \<open>print_stats\<close> reports leaves out the batched calls.\<close>

definition total_optimizations :: "SyscallBypassStats \<Rightarrow> u64" where
  "total_optimizations s = st_syscalls_bypassed s + st_time_calls_cached s + st_io_operations_optimized s
     + st_memory_operations_avoided s"

section \<open>The queue's contract and its instance\<close>

text \<open>What the batch processor relies on: a bounded queue whose emptiness test is right.\<close>

locale call_queue = bounded_queue ok contents room "aq_push Q" "aq_pop Q"
  for ok :: "'q \<Rightarrow> bool" and contents :: "'q \<Rightarrow> SyscallRequest list" and room :: "'q \<Rightarrow> nat" and Q :: "'q array_queue" +
  assumes is_empty: "ok q \<Longrightarrow> aq_is_empty Q q \<longleftrightarrow> contents q = []"
begin

lemma collect_run:
  assumes "ok q" "length b \<le> 100"
  shows "\<exists>q'. while_option (collect_more Q) (collect_one Q) (b, q) = Some (b @ take (100 - length b) (contents q), q')
    \<and> ok q' \<and> room q' = room q \<and> contents q' = drop (100 - length b) (contents q)"
  using assms
proof (induction "contents q" arbitrary: b q)
  case Nil
  then have "\<not> collect_more Q (b, q)" using is_empty by (simp add: collect_more_def)
  then show ?case using Nil by (subst while_option_unfold) (simp flip: Nil.hyps)
next
  case (Cons x xs)
  show ?case
  proof (cases "length b < 100")
    case False
    then have "\<not> collect_more Q (b, q)" by (simp add: collect_more_def)
    then show ?thesis using False Cons.prems by (subst while_option_unfold) simp
  next
    case True
    obtain q' where q': "aq_pop Q q = (Some x, q')" using pop_item [OF Cons.prems(1) Cons.hyps(2) [symmetric]] by (metis prod.collapse)
    then have k: "ok q'" "room q' = room q" "contents q' = xs"
      using pop_item [OF Cons.prems(1) Cons.hyps(2) [symmetric]] pop_ok [OF Cons.prems(1)] by simp_all
    have "collect_more Q (b, q)" using True is_empty [OF Cons.prems(1)] Cons.hyps(2) [symmetric] by (simp add: collect_more_def)
    moreover have "collect_one Q (b, q) = (b @ [x], q')" using q' by (simp add: collect_one_def)
    ultimately have loop: "while_option (collect_more Q) (collect_one Q) (b, q)
        = while_option (collect_more Q) (collect_one Q) (b @ [x], q')"
      by (subst while_option_unfold) simp
    have "100 - length b = Suc (100 - Suc (length b))" using True by simp
    then show ?thesis
      using Cons.hyps(1) [of q' "b @ [x]"] k True unfolding loop Cons.hyps(2) [symmetric] by simp
  qed
qed

lemma collect_batch_run:
  assumes "ok q"
  shows "\<exists>q'. collect_batch Q q = Some (take 100 (contents q), q') \<and> ok q' \<and> room q' = room q
    \<and> contents q' = drop 100 (contents q)"
  using collect_run [OF assms, of "[]"] by (simp add: collect_batch_def)

lemma submit_run:
  assumes "ok (bp_pending_calls p)"
  shows "\<exists>q. ok q \<and> room q = room (bp_pending_calls p)
    \<and> submit_request Q x p = (if length (contents (bp_pending_calls p)) < room q then Ok () else Err err_queue_full,
        p \<lparr> bp_pending_calls := q \<rparr>)
    \<and> contents q = (if length (contents (bp_pending_calls p)) < room q then contents (bp_pending_calls p) @ [x]
        else contents (bp_pending_calls p))"
proof -
  let ?q = "bp_pending_calls p"
  obtain t q where q: "aq_push Q x ?q = (t, q)" by fastforce
  then show ?thesis
    using push_ok [OF assms, of x] push_taken [OF assms, of x] push_full [OF assms, of x]
    by (cases "length (contents ?q) < room ?q") (auto simp: submit_request_def)
qed

lemma submit_each_run:
  assumes "ok (bp_pending_calls p)" "length (contents (bp_pending_calls p)) \<le> room (bp_pending_calls p)"
  shows "\<exists>q. ok q \<and> room q = room (bp_pending_calls p)
    \<and> submit_each Q ops p = (if length (contents (bp_pending_calls p)) + length ops \<le> room q then Ok () else Err err_queue_full,
        p \<lparr> bp_pending_calls := q \<rparr>)
    \<and> contents q = contents (bp_pending_calls p) @ take (room q - length (contents (bp_pending_calls p))) ops"
  using assms
proof (induction ops arbitrary: p)
  case Nil
  then show ?case by (intro exI [of _ "bp_pending_calls p"]) simp
next
  case (Cons x ops)
  let ?c = "contents (bp_pending_calls p)"
  obtain q where q: "ok q" "room q = room (bp_pending_calls p)"
      "submit_request Q x p = (if length ?c < room q then Ok () else Err err_queue_full, p \<lparr> bp_pending_calls := q \<rparr>)"
      "contents q = (if length ?c < room q then ?c @ [x] else ?c)"
    using submit_run [OF Cons.prems(1), of x] by blast
  show ?case
  proof (cases "length ?c < room q")
    case True
    have "room q - length ?c = Suc (room q - Suc (length ?c))" using True by simp
    then show ?thesis using Cons.IH [of "p \<lparr> bp_pending_calls := q \<rparr>"] q True by auto
  next
    case False
    then show ?thesis using q Cons.prems(2) by (intro exI [of _ q]) auto
  qed
qed

end

text \<open>The crate's own ring buffer as such a queue.\<close>

definition ring_calls :: "SyscallRequest CacheOptimizedRingBuffer array_queue" where
  "ring_calls = \<lparr> aq_new = (\<lambda>n. case ring_new GetTime (word_of_nat n) of Ok r \<Rightarrow> Some r | _ \<Rightarrow> None),
     aq_push = try_push, aq_pop = try_pop, aq_is_empty = ring_is_empty \<rparr>"

interpretation ring_calls: call_queue ring_ok ring_contents ring_room ring_calls
proof -
  have "ring_is_empty q \<longleftrightarrow> ring_contents q = []" for q :: "SyscallRequest CacheOptimizedRingBuffer"
    by (simp add: ring_is_empty_def ring_count_def unat_eq_0 flip: length_0_conv)
  then show "call_queue ring_ok ring_contents ring_room ring_calls"
    using ring.bounded_queue_axioms by (simp add: ring_calls_def call_queue_def call_queue_axioms_def)
qed

section \<open>Batches\<close>

text \<open>The executed calls of a batch: writes, reads and sends, each in the order of submission.\<close>

fun write_of :: "SyscallRequest \<Rightarrow> traced_call option" where
  "write_of (WriteCall fd data) = Some (BatchedWrite fd (length data))"
| "write_of _ = None"

fun read_of :: "SyscallRequest \<Rightarrow> traced_call option" where
  "read_of (ReadCall fd n) = Some (BatchedRead fd n)"
| "read_of _ = None"

fun send_of :: "SyscallRequest \<Rightarrow> traced_call option" where
  "send_of (SendCall fd data) = Some (BatchedSend fd (length data))"
| "send_of _ = None"

definition calls_of :: "SyscallRequest list \<Rightarrow> traced_call list" where
  "calls_of batch = List.map_filter write_of batch @ List.map_filter read_of batch @ List.map_filter send_of batch"

lemma fold_group:
  "fold group_request batch (ws, rs, ns)
    = (ws @ List.map_filter write_of batch, rs @ List.map_filter read_of batch, ns @ List.map_filter send_of batch)"
proof (induction batch arbitrary: ws rs ns)
  case (Cons r batch)
  then show ?case by (cases r) (simp_all add: map_filter_simps)
qed (simp add: map_filter_simps)

context call_queue
begin

lemma execute_run:
  assumes "ok (bp_pending_calls p)"
  shows "\<exists>p'. execute_batch Q p = Some (length (take 100 (contents (bp_pending_calls p))),
        calls_of (take 100 (contents (bp_pending_calls p))), p')
    \<and> ok (bp_pending_calls p') \<and> contents (bp_pending_calls p') = drop 100 (contents (bp_pending_calls p))"
proof -
  obtain q' where "collect_batch Q (bp_pending_calls p) = Some (take 100 (contents (bp_pending_calls p)), q')"
      "ok q'" "contents q' = drop 100 (contents (bp_pending_calls p))"
    using collect_batch_run [OF assms] by blast
  then show ?thesis by (auto simp: execute_batch_def fold_group calls_of_def map_filter_simps)
qed

lemma tick_run:
  assumes "ok (bp_pending_calls (bm_batch_processor self))"
  shows "\<exists>self'. worker_tick Q self = Some (calls_of (take 100 (contents (bp_pending_calls (bm_batch_processor self)))), self')
    \<and> ok (bp_pending_calls (bm_batch_processor self'))
    \<and> contents (bp_pending_calls (bm_batch_processor self')) = drop 100 (contents (bp_pending_calls (bm_batch_processor self)))
    \<and> st_syscalls_bypassed (bm_stats self') = st_syscalls_bypassed (bm_stats self)
        + word_of_nat (length (take 100 (contents (bp_pending_calls (bm_batch_processor self)))))"
  using execute_run [OF assms] by (auto simp: worker_tick_def)

end

text \<open>The worker's ticks, and the calls they execute.\<close>

fun worker_ticks :: "'q array_queue \<Rightarrow> nat \<Rightarrow> 'q SystemCallBypassManager \<Rightarrow> (traced_call list list \<times> 'q SystemCallBypassManager) option" where
  "worker_ticks Q 0 self = Some ([], self)"
| "worker_ticks Q (Suc n) self =
    (case worker_tick Q self of
       None \<Rightarrow> None
     | Some (calls, self') \<Rightarrow>
         (case worker_ticks Q n self' of
            None \<Rightarrow> None
          | Some (rest, self'') \<Rightarrow> Some (calls # rest, self'')))"

text \<open>C36 (liveness): the worker empties the queue. Every tick ends; after \<open>n\<close> ticks the \<open>100 * n\<close> oldest pending calls are
  gone and counted as bypassed, tick \<open>i\<close> having executed the writes, then the reads, then the sends of the \<open>i\<close>-th
  hundred. Received, time and memory calls are counted although nothing executes them.\<close>
theorem worker_drains:
  assumes "call_queue ok contents room Q" "ok (bp_pending_calls (bm_batch_processor self))"
    and "contents (bp_pending_calls (bm_batch_processor self)) = pending"
  shows "\<exists>self'. worker_ticks Q n self = Some (map (\<lambda>i. calls_of (take 100 (drop (100 * i) pending))) [0..<n], self')
    \<and> contents (bp_pending_calls (bm_batch_processor self')) = drop (100 * n) pending
    \<and> st_syscalls_bypassed (bm_stats self')
        = st_syscalls_bypassed (bm_stats self) + word_of_nat (min (100 * n) (length pending))"
  using assms(2,3)
proof (induction n arbitrary: self pending)
  case (Suc n)
  obtain s1 where s1: "worker_tick Q self = Some (calls_of (take 100 pending), s1)"
      "ok (bp_pending_calls (bm_batch_processor s1))"
      "contents (bp_pending_calls (bm_batch_processor s1)) = drop 100 pending"
      "st_syscalls_bypassed (bm_stats s1) = st_syscalls_bypassed (bm_stats self) + word_of_nat (length (take 100 pending))"
    using call_queue.tick_run [OF assms(1) Suc.prems(1)] Suc.prems(2) by auto
  have split: "[0..<Suc n] = 0 # map Suc [0..<n]" by (simp add: map_Suc_upt upt_conv_Cons)
  have count: "min (100 * Suc n) (length pending) = length (take 100 pending) + min (100 * n) (length (drop 100 pending))" by simp
  show ?case
    using Suc.IH [OF s1(2,3)] s1(1) unfolding count of_nat_add s1(4)
    by (auto simp: split o_def drop_drop add.commute simp del: upt_Suc length_take length_drop)
qed simp

text \<open>A submission that does not fit stops half way. The calls that fit are queued in order and stay queued when
  the result is an error; only a complete submission counts as batched, and a disabled manager queues nothing.\<close>
theorem batch_submission_partial:
  assumes "call_queue ok contents room Q" "ok (bp_pending_calls (bm_batch_processor self))"
    and "length (contents (bp_pending_calls (bm_batch_processor self))) \<le> room (bp_pending_calls (bm_batch_processor self))"
  defines "pending \<equiv> contents (bp_pending_calls (bm_batch_processor self))"
    and "free \<equiv> room (bp_pending_calls (bm_batch_processor self)) - length (contents (bp_pending_calls (bm_batch_processor self)))"
  shows "case submit_batch_io Q ops self of (result, self') \<Rightarrow>
    result = (if \<not> cf_enable_batch_processing (bm_config self) then Err err_batch_disabled
              else if length ops \<le> free then Ok () else Err err_queue_full)
    \<and> contents (bp_pending_calls (bm_batch_processor self'))
        = (if cf_enable_batch_processing (bm_config self) then pending @ take free ops else pending)
    \<and> st_syscalls_batched (bm_stats self') = st_syscalls_batched (bm_stats self) + of_bool (result = Ok ())"
proof -
  obtain q where q: "room q = room (bp_pending_calls (bm_batch_processor self))"
      "submit_each Q ops (bm_batch_processor self)
        = (if length pending + length ops \<le> room q then Ok () else Err err_queue_full,
           (bm_batch_processor self) \<lparr> bp_pending_calls := q \<rparr>)"
      "contents q = pending @ take (room q - length pending) ops"
    using call_queue.submit_each_run [OF assms(1-3), of ops] unfolding pending_def by blast
  have "length pending + length ops \<le> room q \<longleftrightarrow> length ops \<le> free"
    using assms(3) q(1) by (auto simp: pending_def free_def)
  then show ?thesis using q by (auto simp: submit_batch_io_def pending_def free_def)
qed

definition sample_calls :: "SyscallRequest CacheOptimizedRingBuffer" where
  "sample_calls = \<lparr> rb_buffer = [SendCall 5 [1, 2], RecvCall 2 9, WriteCall 3 [7], GetTime], rb_producer_head = 3,
     rb_consumer_tail = 0, rb_capacity = 4, rb_mask = 3 \<rparr>"

definition sample_manager :: "SyscallRequest CacheOptimizedRingBuffer SystemCallBypassManager" where
  "sample_manager = \<lparr> bm_config = bypass_config_default,
     bm_batch_processor = \<lparr> bp_pending_calls = sample_calls, bp_batch_stats = 0 \<rparr>,
     bm_fast_time_provider = \<lparr> ft_time_cache = 0, ft_cache_update_interval_ns = 1000000, ft_last_update = 0,
       ft_vdso_enabled = True \<rparr>,
     bm_io_optimizer = io_optimizer_new None,
     bm_stats = \<lparr> st_syscalls_bypassed = 0, st_syscalls_batched = 0, st_time_calls_cached = 0,
       st_io_operations_optimized = 0, st_memory_operations_avoided = 0 \<rparr> \<rparr>"

lemma sample_calls_facts:
  "ring_ok sample_calls" "ring_contents sample_calls = [SendCall 5 [1, 2], RecvCall 2 9, WriteCall 3 [7]]"
  "ring_room sample_calls = 3"
  subgoal unfolding ring_ok_def by (intro conjI exI [of _ 2]) (simp_all add: sample_calls_def ring_count_def)
  subgoal by (simp add: ring_contents_def ring_count_def ring_at_def sample_calls_def upt_conv_Cons)
  subgoal by (simp add: ring_room_def sample_calls_def)
  done

lemma sample_manager_pending [simp]: "bp_pending_calls (bm_batch_processor sample_manager) = sample_calls"
  by (simp add: sample_manager_def)

lemma worker_drains_witness:
  "\<exists>self'. worker_ticks ring_calls 1 sample_manager = Some ([[BatchedWrite 3 1, BatchedSend 5 2]], self')
    \<and> st_syscalls_bypassed (bm_stats self') = 3"
proof -
  have "ring_ok (bp_pending_calls (bm_batch_processor sample_manager))" by (simp add: sample_calls_facts)
  note drained = worker_drains [OF ring_calls.call_queue_axioms this refl, of 1]
  have "st_syscalls_bypassed (bm_stats sample_manager) = 0" by (simp add: sample_manager_def)
  then show ?thesis using drained by (auto simp: sample_calls_facts calls_of_def map_filter_simps simp del: worker_ticks.simps)
qed

lemma batch_submission_partial_witness:
  "fst (submit_batch_io ring_calls [GetTime] sample_manager) = Err err_queue_full"
  using batch_submission_partial [OF ring_calls.call_queue_axioms, of sample_manager "[GetTime]"] sample_calls_facts
  by (simp add: split_beta) (simp add: sample_manager_def bypass_config_default_def)

section \<open>The cached clock\<close>

text \<open>Readings of clocks that run evenly: the wall clock is \<open>base\<close> ahead of the monotonic one, up to the time \<open>d\<close> that
  passes between two readings of one call, and the calls follow one another.\<close>

fun even_clocks :: "nat \<Rightarrow> nat \<Rightarrow> nat \<Rightarrow> time_reading list \<Rightarrow> bool" where
  "even_clocks base d before [] \<longleftrightarrow> True"
| "even_clocks base d before (T # Ts) \<longleftrightarrow>
    before \<le> tr_elapsed T \<and> tr_elapsed T \<le> tr_elapsed_after T \<and> base + tr_elapsed_after T < 2 ^ 64
    \<and> (\<exists>w. tr_wall T = Some w \<and> base + tr_elapsed T \<le> w \<and> w \<le> base + tr_elapsed_after T \<and> base + tr_elapsed_after T \<le> w + d)
    \<and> even_clocks base d (tr_elapsed_after T) Ts"

fun fast_reads :: "time_reading list \<Rightarrow> FastTimeProvider \<Rightarrow> u64 list" where
  "fast_reads [] f = []"
| "fast_reads (T # Ts) f = (case fast_now_nanos T f of (t, f') \<Rightarrow> t # fast_reads Ts f')"

definition cache_near :: "nat \<Rightarrow> nat \<Rightarrow> nat \<Rightarrow> FastTimeProvider \<Rightarrow> bool" where
  "cache_near base d now f \<longleftrightarrow> \<not> ft_vdso_enabled f \<and> ft_cache_update_interval_ns f = 1000000
    \<and> unat (ft_last_update f) \<le> now \<and> unat (ft_time_cache f) \<le> base + unat (ft_last_update f)
    \<and> base + unat (ft_last_update f) \<le> unat (ft_time_cache f) + d"

lemma fast_now_near:
  assumes "cache_near base d before f" "even_clocks base d before (T # Ts)"
  shows "case fast_now_nanos T f of (t, f') \<Rightarrow> t = ft_time_cache f' \<and> cache_near base d (tr_elapsed_after T) f'
    \<and> ft_time_cache f \<le> t \<and> unat t \<le> base + tr_elapsed_after T \<and> base + tr_elapsed T \<le> unat t + 1000000 + d"
proof -
  obtain w where w: "tr_wall T = Some w" "base + tr_elapsed T \<le> w" "w \<le> base + tr_elapsed_after T" "base + tr_elapsed_after T \<le> w + d"
    using assms(2) by auto
  have lt: "tr_elapsed T < 2 ^ 64" "tr_elapsed_after T < 2 ^ 64" "w < 2 ^ 64" using assms(2) w by auto
  have exact: "unat (word_of_nat n :: u64) = n" if "n < 2 ^ 64" for n using that by (simp add: unat_of_nat)
  note n = exact [OF lt(1)] exact [OF lt(2)] exact [OF lt(3)]
  have late: "saturating_sub (word_of_nat (tr_elapsed T)) (ft_last_update f) > 1000000
      \<longleftrightarrow> tr_elapsed T - unat (ft_last_update f) > 1000000"
    by (simp add: word_less_nat_alt unat_saturating_sub n(1))
  show ?thesis
  proof (cases "tr_elapsed T - unat (ft_last_update f) > 1000000")
    case True
    then show ?thesis
      using assms w n late by (auto simp: fast_now_nanos_def update_time_cache_def cache_near_def word_le_nat_alt Let_def)
  next
    case False
    then show ?thesis
      using assms w n late by (auto simp: fast_now_nanos_def cache_near_def Let_def)
  qed
qed

lemma fast_reads_near:
  assumes "cache_near base d before f" "even_clocks base d before Ts"
  shows "sorted (ft_time_cache f # fast_reads Ts f)
    \<and> list_all2 (\<lambda>T t. base + tr_elapsed T \<le> unat t + 1000000 + d \<and> unat t \<le> base + tr_elapsed_after T) Ts (fast_reads Ts f)"
  using assms
proof (induction Ts arbitrary: before f)
  case (Cons T Ts)
  obtain t f' where f': "fast_now_nanos T f = (t, f')" by fastforce
  note near = fast_now_near [OF Cons.prems, unfolded f' case_prod_conv]
  show ?case using Cons.IH [of "tr_elapsed_after T" f'] near Cons.prems(2) f' by auto
qed simp

text \<open>The cached clock lags at most a millisecond. Without the vDSO, on clocks that run evenly, every answer of a
  fresh provider is at most the wall clock and at least the wall clock less one millisecond and the time \<open>d\<close>
  between two readings of one call, and the answers never go back.\<close>
theorem cached_clock_lag:
  assumes "time_provider_new T0 False = Ok f" "tr_wall T0 = Some w0" "w0 \<le> base + tr_elapsed_after T0"
    and "base + tr_elapsed_after T0 \<le> w0 + d" "w0 < 2 ^ 64" "tr_elapsed_after T0 < 2 ^ 64"
    and "even_clocks base d (tr_elapsed_after T0) Ts"
  shows "sorted (fast_reads Ts f)
    \<and> list_all2 (\<lambda>T t. base + tr_elapsed T \<le> unat t + 1000000 + d \<and> unat t \<le> base + tr_elapsed_after T) Ts (fast_reads Ts f)"
proof -
  have "cache_near base d (tr_elapsed_after T0) f"
    using assms(1-6) by (auto simp: time_provider_new_def cache_near_def unat_of_nat)
  from fast_reads_near [OF this assms(7)] show ?thesis by simp
qed

lemma cached_clock_lag_witness:
  "\<exists>f. time_provider_new \<lparr> tr_elapsed = 0, tr_wall = Some 5000, tr_elapsed_after = 40, tr_raw = None \<rparr> False = Ok f
    \<and> sorted (fast_reads [\<lparr> tr_elapsed = 900000, tr_wall = Some 905010, tr_elapsed_after = 900020, tr_raw = None \<rparr>,
        \<lparr> tr_elapsed = 1000041, tr_wall = Some 1005051, tr_elapsed_after = 1000061, tr_raw = None \<rparr>] f)"
proof -
  let ?T0 = "\<lparr> tr_elapsed = 0, tr_wall = Some 5000, tr_elapsed_after = 40, tr_raw = None \<rparr>"
  obtain f where f: "time_provider_new ?T0 False = Ok f" by (simp add: time_provider_new_def)
  show ?thesis
    using cached_clock_lag [OF f, of 5000 5000 100 "[\<lparr> tr_elapsed = 900000, tr_wall = Some 905010, tr_elapsed_after = 900020, tr_raw = None \<rparr>,
        \<lparr> tr_elapsed = 1000041, tr_wall = Some 1005051, tr_elapsed_after = 1000061, tr_raw = None \<rparr>]"] f by simp
qed

text \<open>With the vDSO the answer is the raw monotonic clock, whatever the wall clock says.\<close>

lemma vdso_ignores_wall:
  "ft_vdso_enabled f \<Longrightarrow> tr_raw T = Some (s, n) \<Longrightarrow> fst (fast_now_nanos T f) = s * 1000000000 + n"
  by (simp add: fast_now_nanos_def vdso_time_nanos_def)

section \<open>The static allocator\<close>

text \<open>The blocks that a sequence of requests gets, from an offset on; refused requests get none.\<close>

fun userspace_blocks :: "nat \<Rightarrow> u64 list \<Rightarrow> u64 \<Rightarrow> (nat \<times> nat) list" where
  "userspace_blocks base [] offset = []"
| "userspace_blocks base (n # ns) offset =
    (case userspace_allocate base n offset of
       (Ok p, offset') \<Rightarrow> (p, unat n) # userspace_blocks base ns offset'
     | (_, offset') \<Rightarrow> userspace_blocks base ns offset')"

lemma unat_round_8:
  assumes "unat n + 7 < 2 ^ 64"
  shows "unat ((n + 7) AND NOT 7 :: u64) = 8 * ((unat n + 7) div 8)"
proof -
  have seven: "7 = (mask 3 :: u64)" by (simp add: mask_eq_exp_minus_1)
  have round: "w AND NOT (mask 3) = push_bit 3 (drop_bit 3 w)" for w :: u64
    by (rule bit_word_eqI) (auto simp: bit_simps)
  have sum: "unat (n + 7) = unat n + 7" using assms by (simp add: unat_word_ariths)
  have "8 * (unat (n + 7) div 8) < 2 ^ 64"
    using assms times_div_less_eq_dividend [of 8 "unat n + 7"] unfolding sum by linarith
  then have "unat (push_bit 3 (drop_bit 3 (n + 7))) = 8 * (unat (n + 7) div 8)"
    using assms sum unfolding unsigned_push_bit_eq unsigned_drop_bit_eq
    unfolding push_bit_eq_mult drop_bit_eq_div by (simp add: take_bit_nat_eq_self mult.commute)
  then show ?thesis using sum by (simp add: seven round)
qed

lemma userspace_step:
  assumes "unat n < 2 ^ 63" "8 dvd unat offset" "unat offset \<le> 2 ^ 20"
  shows "\<exists>offset'. userspace_allocate base n offset
      = (if unat offset + unat n \<le> 2 ^ 20 then (Ok (base + unat offset), offset') else (Err err_pool_exhausted, offset))
    \<and> 8 dvd unat offset' \<and> unat offset' \<le> 2 ^ 20 \<and> unat offset + unat n \<le> unat offset'
      + (if unat offset + unat n \<le> 2 ^ 20 then 0 else unat n)"
proof -
  have sum: "unat (offset + n) = unat offset + unat n" using assms by (simp add: unat_word_ariths)
  then have fits: "offset + n > POOL_LEN \<longleftrightarrow> \<not> unat offset + unat n \<le> 2 ^ 20"
    by (auto simp: POOL_LEN_def word_less_nat_alt)
  show ?thesis
  proof (cases "unat offset + unat n \<le> 2 ^ 20")
    case True
    let ?r = "8 * ((unat n + 7) div 8)"
    obtain k where k: "unat offset = 8 * k" using assms(2) by (auto elim: dvdE)
    have room: "8 * k + 8 * q \<le> 1048576" if "8 * k + m \<le> 1048576" "8 * q \<le> m + 7" for q m :: nat
      using that by presburger
    have "unat n \<le> ?r" by simp
    moreover have "unat offset + ?r \<le> 2 ^ 20"
      using room [OF _ times_div_less_eq_dividend, of "unat n"] True unfolding k by simp
    ultimately have r: "unat n \<le> ?r" "unat offset + ?r \<le> 2 ^ 20" .
    have "unat (offset + ((n + 7) AND NOT 7)) = unat offset + ?r"
      using r(2) True unat_round_8 [of n] unat_word_ariths(1) [of offset "(n + 7) AND NOT 7"] by simp
    then show ?thesis using True fits r assms(2)
      by (intro exI [of _ "offset + ((n + 7) AND NOT 7)"]) (simp add: userspace_allocate_def)
  next
    case False
    then show ?thesis using fits assms by (intro exI [of _ offset]) (simp add: userspace_allocate_def)
  qed
qed

lemma userspace_blocks_apart:
  assumes "\<forall>n \<in> set ns. unat n < 2 ^ 63" "8 dvd unat offset" "unat offset \<le> 2 ^ 20"
  shows "sorted_wrt (\<lambda>(p, n) (q, m). p + n \<le> q) (userspace_blocks base ns offset)
    \<and> (\<forall>(p, n) \<in> set (userspace_blocks base ns offset). base + unat offset \<le> p \<and> p + n \<le> base + 2 ^ 20 \<and> 8 dvd p - base)"
  using assms
proof (induction ns arbitrary: offset)
  case (Cons n ns)
  have n: "unat n < 2 ^ 63" using Cons.prems(1) by simp
  obtain offset' where o: "userspace_allocate base n offset
        = (if unat offset + unat n \<le> 2 ^ 20 then (Ok (base + unat offset), offset') else (Err err_pool_exhausted, offset))"
      "8 dvd unat offset'" "unat offset' \<le> 2 ^ 20"
      "unat offset + unat n \<le> unat offset' + (if unat offset + unat n \<le> 2 ^ 20 then 0 else unat n)"
    using userspace_step [OF n Cons.prems(2,3), of base] by blast
  show ?case
  proof (cases "unat offset + unat n \<le> 2 ^ 20")
    case True
    have "sorted_wrt (\<lambda>(p, n) (q, m). p + n \<le> q) (userspace_blocks base ns offset')"
        "\<forall>(p, n) \<in> set (userspace_blocks base ns offset'). base + unat offset' \<le> p \<and> p + n \<le> base + 2 ^ 20 \<and> 8 dvd p - base"
      using Cons.IH [OF _ o(2,3)] Cons.prems(1) by auto
    then show ?thesis using True o Cons.prems(2) by (auto simp: case_prod_unfold)
  next
    case False
    then show ?thesis using Cons.IH [OF _ Cons.prems(2,3)] Cons.prems(1) o(1) by auto
  qed
qed simp

text \<open>Blocks of the static allocator. As long as every request is below \<open>2^63\<close> bytes, the blocks are inside
  the array, aligned to 8 bytes and do not overlap. A larger request can wrap around in the check: with 64 bytes
  in use, a request for \<open>2^64 - 64\<close> bytes succeeds and moves the offset back to 0, so the next block is the first
  one again.\<close>
theorem userspace_blocks_disjoint:
  assumes "\<forall>n \<in> set ns. unat n < 2 ^ 63"
  shows "sorted_wrt (\<lambda>(p, n) (q, m). p + n \<le> q) (userspace_blocks base ns 0)
    \<and> (\<forall>(p, n) \<in> set (userspace_blocks base ns 0). base \<le> p \<and> p + n \<le> base + 2 ^ 20 \<and> 8 dvd p - base)
    \<and> userspace_blocks base [64, - 64, 64] 0 = [(base, 64), (base + 64, 2 ^ 64 - 64), (base, 64)]"
proof -
  have "userspace_blocks base [64, - 64, 64] 0 = [(base, 64), (base + 64, 2 ^ 64 - 64), (base, 64)]"
    by (simp add: userspace_allocate_def POOL_LEN_def)
  then show ?thesis using userspace_blocks_apart [OF assms, of 0 base] by simp
qed

lemma userspace_blocks_disjoint_witness:
  "userspace_blocks 4096 [100, 2000000, 1] 0 = [(4096, 100), (4200, 1)]
    \<and> sorted_wrt (\<lambda>(p, n) (q, m). p + n \<le> q) (userspace_blocks 4096 [100, 2000000, 1] 0)"
  using userspace_blocks_disjoint [of "[100, 2000000, 1]" 4096]
  by (simp add: userspace_allocate_def POOL_LEN_def)

end
