(* ===== verification/Clocks.thy ===== *)
theory Clocks
  imports Syscall_Bypass
begin

text \<open>
  common/clock.rs, a clock that adds the monotonic time to a base in UTC and is recalibrated, and common/fast\_timing.rs,
  timers on the timestamps of the system call bypass. Instants are nanoseconds of the monotonic clock and never go
  back; UTC is in microseconds, an integer (\<open>i64\<close> in the code, which it leaves only after some 290000 years).
\<close>

section \<open>The calibrated clock\<close>

record HighPerformanceClock =
  hc_base_instant :: nat
  hc_base_timestamp_us :: int
  hc_last_calibration :: nat
  hc_calibration_interval_secs :: u64

text \<open>One round of the constructor: the instant before, UTC, the instant after.\<close>

record clock_sample =
  sm_before :: nat
  sm_utc :: int
  sm_after :: nat

definition sample_latency :: "clock_sample \<Rightarrow> nat" where
  "sample_latency s = sm_after s - sm_before s"

definition I64_MAX :: nat where "I64_MAX = 2 ^ 63 - 1"

text \<open>The best offset, instant and timestamp so far.\<close>

definition better_sample :: "clock_sample \<Rightarrow> nat \<times> nat \<times> int \<Rightarrow> nat \<times> nat \<times> int" where
  "better_sample s best =
    (if sample_latency s < fst best then (sample_latency s, sm_before s, sm_utc s) else best)"

text \<open>The constructor reads the clocks once before its three rounds.\<close>

definition clock_new ::
  "nat \<Rightarrow> int \<Rightarrow> clock_sample \<Rightarrow> clock_sample \<Rightarrow> clock_sample \<Rightarrow> u64 \<Rightarrow> HighPerformanceClock" where
  "clock_new instant0 utc0 s1 s2 s3 interval =
    (case fold better_sample [s1, s2, s3] (I64_MAX, instant0, utc0) of
       (_, best_instant, best_timestamp) \<Rightarrow> \<lparr> hc_base_instant = best_instant, hc_base_timestamp_us = best_timestamp,
          hc_last_calibration = best_instant, hc_calibration_interval_secs = interval \<rparr>)"

definition now_micros_at :: "nat \<Rightarrow> HighPerformanceClock \<Rightarrow> int" where
  "now_micros_at now c = hc_base_timestamp_us c + int ((now - hc_base_instant c) div 1000)"

definition recalibrate :: "nat \<Rightarrow> int \<Rightarrow> HighPerformanceClock \<Rightarrow> HighPerformanceClock" where
  "recalibrate current_monotonic current_utc c =
    (let expected_utc = hc_base_timestamp_us c + int ((current_monotonic - hc_base_instant c) div 1000);
         drift_us = current_utc - expected_utc;
         c' = (if \<bar>drift_us\<bar> > 1000
           then c \<lparr> hc_base_instant := current_monotonic, hc_base_timestamp_us := current_utc \<rparr> else c)
     in c' \<lparr> hc_last_calibration := current_monotonic \<rparr>)"

text \<open>The readings of one call: the instant of the test, the clocks that a recalibration reads, the instant of the answer.\<close>

definition now_micros_with_calibration ::
  "nat \<Rightarrow> nat \<times> int \<Rightarrow> nat \<Rightarrow> HighPerformanceClock \<Rightarrow> int \<times> HighPerformanceClock" where
  "now_micros_with_calibration t1 reading t3 c =
    (let c' = (if (t1 - hc_last_calibration c) div 1000000000 \<ge> unat (hc_calibration_interval_secs c)
         then recalibrate (fst reading) (snd reading) c else c)
     in (now_micros_at t3 c', c'))"

definition elapsed_micros_since :: "nat \<Rightarrow> int \<Rightarrow> HighPerformanceClock \<Rightarrow> int" where
  "elapsed_micros_since now start_timestamp_us c = now_micros_at now c - start_timestamp_us"

section \<open>Fast timers\<close>

text \<open>The timer wraps a manager with the default configuration and panics when the manager cannot be made; the fields
  of its start time are not used again. Every operation takes the readings of the clocks.\<close>

definition fast_timer_new ::
  "'q array_queue \<Rightarrow> time_reading \<Rightarrow> time_reading \<Rightarrow> string option \<Rightarrow> ('q SystemCallBypassManager, string) outcome" where
  "fast_timer_new Q T T' uname =
    obind (unwrap_result (bypass_manager_new Q T uname bypass_config_default)) (\<lambda>m.
    Ok (snd (fast_timestamp_nanos T' m)))"

definition timer_now_nanos :: "time_reading \<Rightarrow> 'q SystemCallBypassManager \<Rightarrow> u64 \<times> 'q SystemCallBypassManager" where
  "timer_now_nanos T timer = fast_timestamp_nanos T timer"

definition timer_now_micros :: "time_reading \<Rightarrow> 'q SystemCallBypassManager \<Rightarrow> u64 \<times> 'q SystemCallBypassManager" where
  "timer_now_micros T timer = (case timer_now_nanos T timer of (t, timer') \<Rightarrow> (t div 1000, timer'))"

definition timer_now_millis :: "time_reading \<Rightarrow> 'q SystemCallBypassManager \<Rightarrow> u64 \<times> 'q SystemCallBypassManager" where
  "timer_now_millis T timer = (case timer_now_nanos T timer of (t, timer') \<Rightarrow> (t div 1000000, timer'))"

definition timer_elapsed_nanos :: "time_reading \<Rightarrow> u64 \<Rightarrow> 'q SystemCallBypassManager \<Rightarrow> u64 \<times> 'q SystemCallBypassManager" where
  "timer_elapsed_nanos T start_nanos timer =
    (case timer_now_nanos T timer of (t, timer') \<Rightarrow> (saturating_sub t start_nanos, timer'))"

record FastStopwatch =
  sw_start_nanos :: u64
  sw_label :: string

definition stopwatch_start :: "time_reading \<Rightarrow> string \<Rightarrow> 'q SystemCallBypassManager \<Rightarrow> FastStopwatch \<times> 'q SystemCallBypassManager" where
  "stopwatch_start T label timer =
    (case timer_now_nanos T timer of (t, timer') \<Rightarrow> (\<lparr> sw_start_nanos = t, sw_label = label \<rparr>, timer'))"

definition stopwatch_elapsed_nanos :: "time_reading \<Rightarrow> FastStopwatch \<Rightarrow> 'q SystemCallBypassManager \<Rightarrow> u64 \<times> 'q SystemCallBypassManager" where
  "stopwatch_elapsed_nanos T sw timer = timer_elapsed_nanos T (sw_start_nanos sw) timer"

definition stopwatch_elapsed_micros :: "time_reading \<Rightarrow> FastStopwatch \<Rightarrow> 'q SystemCallBypassManager \<Rightarrow> u64 \<times> 'q SystemCallBypassManager" where
  "stopwatch_elapsed_micros T sw timer = (case stopwatch_elapsed_nanos T sw timer of (t, timer') \<Rightarrow> (t div 1000, timer'))"

definition stopwatch_elapsed_millis :: "time_reading \<Rightarrow> FastStopwatch \<Rightarrow> 'q SystemCallBypassManager \<Rightarrow> u64 \<times> 'q SystemCallBypassManager" where
  "stopwatch_elapsed_millis T sw timer = (case stopwatch_elapsed_nanos T sw timer of (t, timer') \<Rightarrow> (t div 1000000, timer'))"

section \<open>Properties\<close>

lemma best_of_three:
  assumes "\<forall>s \<in> {s1, s2, s3}. sample_latency s < I64_MAX"
  shows "\<exists>s \<in> {s1, s2, s3}. fold better_sample [s1, s2, s3] (I64_MAX, t0, u0) = (sample_latency s, sm_before s, sm_utc s)
    \<and> (\<forall>r \<in> {s1, s2, s3}. sample_latency s \<le> sample_latency r)"
  using assms by (auto simp: better_sample_def)

lemma recalibrate_drift:
  "\<bar>now_micros_at m (recalibrate m u c) - u\<bar> \<le> 1000"
  "hc_base_instant (recalibrate m u c) = hc_base_instant c \<or> now_micros_at m (recalibrate m u c) = u"
  by (simp_all add: now_micros_at_def recalibrate_def Let_def abs_minus_commute)

text \<open>The calibrated clock. When UTC runs with the monotonic clock, a new clock is never more than a microsecond behind
  UTC and ahead of it by at most the shortest of its three sampling rounds (and a microsecond for the rounding). A
  recalibration leaves at most a millisecond of drift at its instant, and replaces the base only beyond that.\<close>
theorem clock_accuracy:
  assumes "\<forall>s \<in> {s1, s2, s3}. sample_latency s < I64_MAX"
    and "\<forall>s \<in> {s1, s2, s3}. \<exists>x. sm_before s \<le> x \<and> x \<le> sm_after s \<and> sm_utc s = utc + int (x div 1000)"
    and "\<forall>s \<in> {s1, s2, s3}. sm_before s \<le> now"
  shows "utc + int (now div 1000) - 1 \<le> now_micros_at now (clock_new t0 u0 s1 s2 s3 interval)
    \<and> (\<forall>s \<in> {s1, s2, s3}. now_micros_at now (clock_new t0 u0 s1 s2 s3 interval)
        \<le> utc + int (now div 1000) + int (sample_latency s div 1000) + 1)
    \<and> \<bar>now_micros_at m (recalibrate m u c) - u\<bar> \<le> 1000
    \<and> (hc_base_instant (recalibrate m u c) = hc_base_instant c \<or> now_micros_at m (recalibrate m u c) = u)"
proof -
  obtain s where s: "s \<in> {s1, s2, s3}" "\<forall>r \<in> {s1, s2, s3}. sample_latency s \<le> sample_latency r"
      "fold better_sample [s1, s2, s3] (I64_MAX, t0, u0) = (sample_latency s, sm_before s, sm_utc s)"
    using best_of_three [OF assms(1)] by blast
  obtain x where x: "sm_before s \<le> x" "x \<le> sm_after s" "sm_utc s = utc + int (x div 1000)"
    using assms(2) s(1) by blast
  have b: "sm_before s \<le> now" using assms(3) s(1) by blast
  have at: "now_micros_at now (clock_new t0 u0 s1 s2 s3 interval) = utc + int (x div 1000 + (now - sm_before s) div 1000)"
    unfolding now_micros_at_def clock_new_def s(3) by (simp add: x(3))
  have low: "now div 1000 \<le> x div 1000 + (now - sm_before s) div 1000 + 1"
    using x(1) b by linarith
  have high: "x div 1000 + (now - sm_before s) div 1000 \<le> now div 1000 + (x - sm_before s) div 1000 + 1"
    using x(1) b by linarith
  have "(x - sm_before s) div 1000 \<le> sample_latency r div 1000" if "r \<in> {s1, s2, s3}" for r
    using s(2) that x(2) by (intro div_le_mono) (auto simp: sample_latency_def)
  then have "\<forall>r \<in> {s1, s2, s3}. utc + int (x div 1000 + (now - sm_before s) div 1000)
      \<le> utc + int (now div 1000) + int (sample_latency r div 1000) + 1"
    using high by fastforce
  moreover have "utc + int (now div 1000) - 1 \<le> utc + int (x div 1000 + (now - sm_before s) div 1000)" using low by linarith
  ultimately show ?thesis using recalibrate_drift [of m u c] unfolding at by blast
qed

lemma clock_accuracy_witness:
  "let s = \<lparr> sm_before = 5000, sm_utc = 1006, sm_after = 7000 \<rparr>; s' = \<lparr> sm_before = 8000, sm_utc = 1008, sm_after = 8900 \<rparr>;
       c = clock_new 0 1000 s s' s 300
   in 1000 + 50 - 1 \<le> now_micros_at 50000 c \<and> now_micros_at 50000 c \<le> 1000 + 50 + 0 + 1"
proof -
  let ?s = "\<lparr> sm_before = 5000, sm_utc = 1006, sm_after = 7000 \<rparr>" and ?s' = "\<lparr> sm_before = 8000, sm_utc = 1008, sm_after = 8900 \<rparr>"
  have "\<exists>x\<ge>5000. x \<le> (7000 :: nat) \<and> x div 1000 = 6" by (intro exI [of _ 6000]) simp
  moreover have "\<exists>x\<ge>8000. x \<le> (8900 :: nat) \<and> x div 1000 = 8" by (intro exI [of _ 8000]) simp
  ultimately show ?thesis
    using clock_accuracy [of ?s ?s' ?s 1000 50000 0 1000 300] by (simp add: sample_latency_def I64_MAX_def)
qed

text \<open>A stopwatch reads the raw monotonic clock twice, as long as \<open>clock_gettime\<close> works; when it fails for the second
  reading, the stopwatch subtracts a monotonic start from the wall clock of the start-up.\<close>

lemma timer_reads:
  assumes "fast_timer_new Q T0 T0' uname = Ok timer"
  shows "bm_config timer = bypass_config_default" "ft_vdso_enabled (bm_fast_time_provider timer)"
    "tr_wall T0 = Some w \<Longrightarrow> ft_time_cache (bm_fast_time_provider timer) = word_of_nat w"
  using assms
  by (auto simp: fast_timer_new_def bypass_manager_new_def time_provider_new_def bypass_config_default_def
      fast_timestamp_nanos_def fast_now_nanos_def obind_Ok_iff unwrap_result_def
      split: outcome.splits option.splits)

theorem stopwatch_measures:
  assumes "fast_timer_new Q T0 T0' uname = Ok timer" "tr_raw T1 = Some (s1, n1)"
    and "stopwatch_start T1 label timer = (sw, timer1)" "tr_wall T0 = Some w"
  shows "fst (stopwatch_elapsed_nanos T2 sw timer1)
    = saturating_sub (case tr_raw T2 of Some (s2, n2) \<Rightarrow> s2 * 1000000000 + n2 | None \<Rightarrow> word_of_nat w) (s1 * 1000000000 + n1)"
proof -
  note timer = timer_reads [OF assms(1)]
  have "sw_start_nanos sw = s1 * 1000000000 + n1" "bm_config timer1 = bm_config timer"
      "bm_fast_time_provider timer1 = bm_fast_time_provider timer"
    using assms(2,3) timer by (auto simp: stopwatch_start_def timer_now_nanos_def fast_timestamp_nanos_def fast_now_nanos_def
        vdso_time_nanos_def bypass_config_default_def)
  then show ?thesis
    using timer(1,2) timer(3) [OF assms(4)] by (simp add: stopwatch_elapsed_nanos_def timer_elapsed_nanos_def timer_now_nanos_def
        fast_timestamp_nanos_def fast_now_nanos_def vdso_time_nanos_def bypass_config_default_def split: option.split)
qed

end
