(* ===== verification/Prices.thy ===== *)
theory Prices
  imports Complex_Main Accounts
begin

text \<open>
  Prices as the crate computes them, in \<open>f64\<close> (utils/price). A double is read as the rational it stands for and every
  operation rounds its exact result to 53 bits, to nearest and ties to even; all values of this module are far
  inside the range of normal doubles, so there is no overflow, underflow, infinity or NaN. \<open>powi\<close> of the standard
  library, whose precision is not specified, is a parameter.
\<close>

section \<open>Rounding to a double\<close>

type_synonym f64_value = rat

function ilog2 :: "rat \<Rightarrow> int" where
  "ilog2 x = (if x \<le> 0 then 0 else if x \<ge> 2 then ilog2 (x / 2) + 1 else if x < 1 then ilog2 (2 * x) - 1 else 0)"
  by pat_completeness auto
termination
proof (relation "measure (\<lambda>x. if x \<ge> 2 then nat \<lfloor>x\<rfloor> else if 0 < x \<and> x < 1 then nat \<lfloor>2 / x\<rfloor> else 0)")
  fix x :: rat
  assume "\<not> x \<le> 0" "x \<ge> 2"
  then have "\<lfloor>x / 2\<rfloor> < \<lfloor>x\<rfloor>" "0 \<le> \<lfloor>x / 2\<rfloor>" "\<not> x / 2 < 1" by linarith+
  then show "(x / 2, x) \<in> measure (\<lambda>x. if x \<ge> 2 then nat \<lfloor>x\<rfloor> else if 0 < x \<and> x < 1 then nat \<lfloor>2 / x\<rfloor> else 0)"
    using \<open>x \<ge> 2\<close> by (simp del: floor_divide_eq_div_numeral)
next
  fix x :: rat
  assume x: "\<not> x \<le> 0" "\<not> x \<ge> 2" "x < 1"
  then have "1 < 1 / x" by simp
  then have "\<lfloor>1 / x\<rfloor> < \<lfloor>2 / x\<rfloor>" "1 \<le> \<lfloor>1 / x\<rfloor>" by linarith+
  then have "nat \<lfloor>1 / x\<rfloor> < nat \<lfloor>2 / x\<rfloor>" "0 < nat \<lfloor>2 / x\<rfloor>" by linarith+
  moreover have "2 / (2 * x) = 1 / x" "\<not> 2 * x \<ge> 2" using x by simp_all
  ultimately show "(2 * x, x) \<in> measure (\<lambda>x. if x \<ge> 2 then nat \<lfloor>x\<rfloor> else if 0 < x \<and> x < 1 then nat \<lfloor>2 / x\<rfloor> else 0)"
    using x by (simp only: in_measure if_False if_True simp_thms) (cases "2 * x < 1"; simp)
qed simp

declare ilog2.simps [simp del]

definition round_even :: "rat \<Rightarrow> int" where
  "round_even y = (let f = \<lfloor>y\<rfloor>; d = y - of_int f in if d < 1 / 2 then f else if d > 1 / 2 then f + 1 else if even f then f else f + 1)"

definition fl :: "rat \<Rightarrow> f64_value" where
  "fl x = (if x = 0 then 0 else let q = 2 powi (ilog2 \<bar>x\<bar> - 52) in of_int (round_even (x / q)) * q)"

lemma ilog2_bounds: "0 < x \<Longrightarrow> 2 powi ilog2 x \<le> x \<and> x < 2 powi (ilog2 x + 1)"
proof (induction x rule: ilog2.induct)
  case (1 x)
  have half: "2 powi (k - 1) = 2 powi k / (2 :: rat)" for k by (simp add: power_int_diff)
  have twice: "2 powi (k + 1) = 2 powi k * (2 :: rat)" for k by (simp add: power_int_add)
  have twice2: "2 powi (k + 1 + 1) = 2 powi k * (4 :: rat)" for k by (simp add: power_int_add)
  consider "x \<ge> 2" | "x < 1" | "1 \<le> x" "x < 2" by linarith
  then show ?case
  proof cases
    case 1
    then have "2 powi ilog2 (x / 2) \<le> x / 2 \<and> x / 2 < 2 powi (ilog2 (x / 2) + 1)" using "1.IH"(1) "1.prems" by simp
    moreover have "ilog2 x = ilog2 (x / 2) + 1" using 1 by (subst ilog2.simps) simp
    ultimately show ?thesis by (simp only: twice twice2) simp
  next
    case 2
    then have "2 powi ilog2 (2 * x) \<le> 2 * x \<and> 2 * x < 2 powi (ilog2 (2 * x) + 1)" using "1.IH"(2) "1.prems" by simp
    then show ?thesis using 2 "1.prems" by (subst (1 2) ilog2.simps) (simp add: half twice)
  next
    case 3
    then show ?thesis by (subst (1 2) ilog2.simps) simp
  qed
qed

lemma round_even_error: "\<bar>of_int (round_even y) - y\<bar> \<le> 1 / 2"
proof -
  have "0 \<le> y - of_int \<lfloor>y\<rfloor>" "y - of_int \<lfloor>y\<rfloor> < 1" by linarith+
  then show ?thesis unfolding round_even_def Let_def by (simp split: if_split)
qed

lemma round_even_int [simp]: "round_even (of_int k) = k"
  by (simp add: round_even_def)

lemma round_even_mono: "x \<le> y \<Longrightarrow> round_even x \<le> round_even y"
proof -
  assume le: "x \<le> y"
  show ?thesis
  proof (cases "\<lfloor>x\<rfloor> = \<lfloor>y\<rfloor>")
    case True
    then show ?thesis using le by (auto simp: round_even_def Let_def)
  next
    case False
    then have "\<lfloor>x\<rfloor> + 1 \<le> \<lfloor>y\<rfloor>" using floor_mono [OF le] by simp
    then show ?thesis by (auto simp: round_even_def Let_def)
  qed
qed

lemma ilog2_mono:
  assumes "0 < x" "x \<le> y"
  shows "ilog2 x \<le> ilog2 y"
proof (rule ccontr)
  assume "\<not> ilog2 x \<le> ilog2 y"
  then have "(2 :: rat) powi (ilog2 y + 1) \<le> 2 powi ilog2 x" by (intro power_int_increasing) auto
  then show False using ilog2_bounds [of x] ilog2_bounds [of y] assms by linarith
qed

lemma fl_0 [simp]: "fl 0 = 0"
  by (simp add: fl_def)

lemma fl_pos: "0 < x \<Longrightarrow> fl x = of_int (round_even (x / 2 powi (ilog2 x - 52))) * 2 powi (ilog2 x - 52)"
  by (simp add: fl_def Let_def)

text \<open>The significand has 53 bits.\<close>

lemma significand:
  assumes "0 < x"
  shows "2 ^ 52 \<le> x / 2 powi (ilog2 x - 52)" "x / 2 powi (ilog2 x - 52) < 2 ^ 53"
proof -
  have q: "(2 :: rat) powi (ilog2 x - 52) = 2 powi ilog2 x / 2 ^ 52" by (simp add: power_int_diff)
  have "(2 :: rat) powi (ilog2 x + 1) = 2 powi ilog2 x * 2" by (simp add: power_int_add)
  then have "2 powi ilog2 x \<le> x" "x < 2 powi ilog2 x * 2" using ilog2_bounds [OF assms] by simp_all
  moreover have "(0 :: rat) < 2 powi ilog2 x" by simp
  ultimately show "2 ^ 52 \<le> x / 2 powi (ilog2 x - 52)" "x / 2 powi (ilog2 x - 52) < 2 ^ 53"
    unfolding q by (simp_all add: field_simps)
qed

lemma fl_error:
  assumes "0 < x"
  shows "\<bar>fl x - x\<bar> \<le> x / 2 ^ 53"
proof -
  let ?q = "2 powi (ilog2 x - 52) :: rat"
  have q: "0 < ?q" by simp
  have "fl x - x = (of_int (round_even (x / ?q)) - x / ?q) * ?q" using q by (simp add: fl_pos [OF assms] left_diff_distrib)
  then have "\<bar>fl x - x\<bar> = \<bar>of_int (round_even (x / ?q)) - x / ?q\<bar> * ?q" using q by (simp add: abs_mult)
  also have "\<dots> \<le> 1 / 2 * ?q" by (rule mult_right_mono [OF round_even_error]) (use q in simp)
  also have "\<dots> \<le> x / 2 ^ 53" using significand(1) [OF assms] q by (simp add: field_simps)
  finally show ?thesis .
qed

lemma near: "\<bar>a - x\<bar> \<le> u \<Longrightarrow> x - u \<le> a \<and> a \<le> x + u" for a x u :: rat
  by (simp add: abs_le_iff)

lemma fl_bounds:
  assumes "0 \<le> x"
  shows "x * (1 - 1 / 2 ^ 53) \<le> fl x" "fl x \<le> x * (1 + 1 / 2 ^ 53)"
proof -
  have "\<bar>fl x - x\<bar> \<le> x / 2 ^ 53" using fl_error [of x] assms by (cases "x = 0") simp_all
  moreover have "x * (1 - 1 / 2 ^ 53) = x - x / 2 ^ 53" "x * (1 + 1 / 2 ^ 53) = x + x / 2 ^ 53"
    by (simp_all add: right_diff_distrib distrib_left)
  ultimately show "x * (1 - 1 / 2 ^ 53) \<le> fl x" "fl x \<le> x * (1 + 1 / 2 ^ 53)" using near [of "fl x" x "x / 2 ^ 53"] by simp_all
qed

lemma fl_nonneg [simp]: "0 \<le> x \<Longrightarrow> 0 \<le> fl x"
  using fl_bounds(1) [of x] by (auto intro: order_trans [rotated])

lemma fl_eq_0 [simp]: "0 \<le> x \<Longrightarrow> fl x = 0 \<longleftrightarrow> x = 0"
  using fl_bounds(1) [of x] by (cases "x = 0") (auto simp: mult_le_0_iff)

lemma fl_mono:
  assumes "0 \<le> x" "x \<le> y"
  shows "fl x \<le> fl y"
proof (cases "x = 0")
  case True
  then show ?thesis using assms by simp
next
  case False
  then have x: "0 < x" and y: "0 < y" using assms by simp_all
  let ?q = "\<lambda>x. 2 powi (ilog2 x - 52) :: rat"
  show ?thesis
  proof (cases "ilog2 x = ilog2 y")
    case True
    have "round_even (x / ?q y) \<le> round_even (y / ?q y)" by (rule round_even_mono) (use assms in \<open>simp add: divide_right_mono\<close>)
    then show ?thesis using True by (simp add: fl_pos x y)
  next
    case False
    then have lt: "ilog2 x + 1 \<le> ilog2 y" using ilog2_mono [OF x assms(2)] by simp
    have "round_even (x / ?q x) \<le> round_even (of_int (2 ^ 53))"
      by (rule round_even_mono) (use significand(2) [OF x] in simp)
    then have "of_int (round_even (x / ?q x)) \<le> rat_of_int (2 ^ 53)" unfolding round_even_int by (rule of_int_le_iff [THEN iffD2])
    then have "of_int (round_even (x / ?q x)) * ?q x \<le> 2 ^ 53 * ?q x" by (intro mult_right_mono) simp_all
    also have "\<dots> = 2 powi (ilog2 x + 1)" by (simp add: power_int_diff power_int_add)
    also have "\<dots> \<le> 2 powi ilog2 y" using lt by (intro power_int_increasing) auto
    also have "\<dots> = 2 ^ 52 * ?q y" by (simp add: power_int_diff)
    also have "\<dots> \<le> of_int (round_even (y / ?q y)) * ?q y"
    proof (rule mult_right_mono)
      have "round_even (of_int (2 ^ 52)) \<le> round_even (y / ?q y)"
        by (rule round_even_mono) (use significand(1) [OF y] in simp)
      then have "rat_of_int (2 ^ 52) \<le> of_int (round_even (y / ?q y))" unfolding round_even_int by (rule of_int_le_iff [THEN iffD2])
      then show "(2 :: rat) ^ 52 \<le> of_int (round_even (y / ?q y))" by simp
    qed simp
    finally show ?thesis by (simp add: fl_pos x y)
  qed
qed

section \<open>The prices\<close>

definition as_f64 :: "u64 \<Rightarrow> f64_value" where
  "as_f64 n = fl (of_nat (unat n))"

definition price_base_in_quote :: "(nat \<Rightarrow> f64_value) \<Rightarrow> u64 \<Rightarrow> u64 \<Rightarrow> u8 \<Rightarrow> u8 \<Rightarrow> f64_value" where
  "price_base_in_quote pow_ten base_reserve quote_reserve base_decimals quote_decimals =
    (let base = fl (as_f64 base_reserve / pow_ten (unat base_decimals));
         quote = fl (as_f64 quote_reserve / pow_ten (unat quote_decimals))
     in if base = 0 then 0 else fl (quote / base))"

definition price_quote_in_base :: "(nat \<Rightarrow> f64_value) \<Rightarrow> u64 \<Rightarrow> u64 \<Rightarrow> u8 \<Rightarrow> u8 \<Rightarrow> f64_value" where
  "price_quote_in_base pow_ten base_reserve quote_reserve base_decimals quote_decimals =
    (let base = fl (as_f64 base_reserve / pow_ten (unat base_decimals));
         quote = fl (as_f64 quote_reserve / pow_ten (unat quote_decimals))
     in if quote = 0 then 0 else fl (base / quote))"

text \<open>The functions of utils/price/pumpswap.rs pass their arguments on.\<close>

definition ps_price_base_in_quote :: "(nat \<Rightarrow> f64_value) \<Rightarrow> u64 \<Rightarrow> u64 \<Rightarrow> u8 \<Rightarrow> u8 \<Rightarrow> f64_value" where
  "ps_price_base_in_quote pow_ten base_reserve quote_reserve base_decimals quote_decimals =
    price_base_in_quote pow_ten base_reserve quote_reserve base_decimals quote_decimals"

definition ps_price_quote_in_base :: "(nat \<Rightarrow> f64_value) \<Rightarrow> u64 \<Rightarrow> u64 \<Rightarrow> u8 \<Rightarrow> u8 \<Rightarrow> f64_value" where
  "ps_price_quote_in_base pow_ten base_reserve quote_reserve base_decimals quote_decimals =
    price_quote_in_base pow_ten base_reserve quote_reserve base_decimals quote_decimals"

definition LAMPORTS_PER_SOL :: u64 where "LAMPORTS_PER_SOL = 1000000000"
definition SCALE :: u64 where "SCALE = 1000000"

definition price_token_in_sol :: "u64 \<Rightarrow> u64 \<Rightarrow> f64_value" where
  "price_token_in_sol virtual_sol_reserves virtual_token_reserves =
    (let v_sol = fl (as_f64 virtual_sol_reserves / as_f64 LAMPORTS_PER_SOL);
         v_tokens = fl (as_f64 virtual_token_reserves / as_f64 SCALE)
     in if v_tokens = 0 then 0 else fl (v_sol / v_tokens))"

text \<open>\<open>get_token_price\<close> of the curve account has no guard: a division by zero gives an infinity or NaN, here
  \<open>None\<close>.\<close>

definition get_token_price :: "u64 \<Rightarrow> u64 \<Rightarrow> f64_value option" where
  "get_token_price virtual_sol_reserves virtual_token_reserves =
    (let v_sol = fl (as_f64 virtual_sol_reserves / 100000000);
         v_tokens = fl (as_f64 virtual_token_reserves / 100000)
     in if v_tokens = 0 then None else Some (fl (v_sol / v_tokens)))"

section \<open>Accuracy\<close>

text \<open>Two roundings of a scaled reserve and one of the quotient.\<close>

lemma scaled_bounds:
  assumes "0 < k"
  shows "of_nat n / k * (1 - 1 / 2 ^ 53) ^ 2 \<le> fl (fl (of_nat n) / k)"
    and "fl (fl (of_nat n) / k) \<le> of_nat n / k * (1 + 1 / 2 ^ 53) ^ 2"
proof -
  let ?lo = "1 - 1 / 2 ^ 53 :: rat" and ?hi = "1 + 1 / 2 ^ 53 :: rat"
  have inner: "of_nat n * ?lo \<le> fl (of_nat n)" "fl (of_nat n) \<le> of_nat n * ?hi" by (rule fl_bounds; simp)+
  have outer: "fl (of_nat n) / k * ?lo \<le> fl (fl (of_nat n) / k)" "fl (fl (of_nat n) / k) \<le> fl (of_nat n) / k * ?hi"
    by (rule fl_bounds; use assms in simp)+
  have "of_nat n / k * ?lo ^ 2 = of_nat n * ?lo / k * ?lo" by (simp add: power2_eq_square)
  also have "\<dots> \<le> fl (of_nat n) / k * ?lo" using inner(1) assms by (intro mult_right_mono divide_right_mono) auto
  finally show "of_nat n / k * ?lo ^ 2 \<le> fl (fl (of_nat n) / k)" using outer(1) by (rule order_trans)
  have "fl (of_nat n) / k * ?hi \<le> of_nat n * ?hi / k * ?hi" using inner(2) assms by (intro mult_right_mono divide_right_mono) auto
  also have "\<dots> = of_nat n / k * ?hi ^ 2" by (simp add: power2_eq_square)
  finally show "fl (fl (of_nat n) / k) \<le> of_nat n / k * ?hi ^ 2" using outer(2) by (rule order_trans [rotated])
qed

lemma quotient_error:
  fixes n d :: nat and k l :: rat
  assumes "0 < d" "0 < k" "0 < l"
  defines "p \<equiv> fl (fl (fl (of_nat n) / k) / fl (fl (of_nat d) / l))"
    and "exact \<equiv> (of_nat n / k) / (of_nat d / l)"
  shows "\<bar>p - exact\<bar> \<le> exact / 2 ^ 50"
proof -
  let ?lo = "1 - 1 / 2 ^ 53 :: rat" and ?hi = "1 + 1 / 2 ^ 53 :: rat"
  define N D x y where "N = of_nat n / k" and "D = of_nat d / l"
    and "x = fl (fl (of_nat n) / k)" and "y = fl (fl (of_nat d) / l)"
  have N: "0 \<le> N" "N * ?lo ^ 2 \<le> x" "x \<le> N * ?hi ^ 2"
    using scaled_bounds [OF assms(2), of n] assms(2) by (simp_all add: N_def x_def)
  have D: "0 < D" "D * ?lo ^ 2 \<le> y" "y \<le> D * ?hi ^ 2"
    using scaled_bounds [OF assms(3), of d] assms(1,3) by (simp_all add: D_def y_def)
  have "0 < D * ?lo ^ 2" using D(1) by simp
  then have y: "0 < y" using D(2) by linarith
  have x: "0 \<le> x" by (simp add: x_def assms(2) less_imp_le)
  have p: "p = fl (x / y)" by (simp add: p_def x_def y_def)
  have p0: "0 \<le> p" using x y by (simp add: p)
  have "x / y * ?lo \<le> p" "p \<le> x / y * ?hi" unfolding p using x y by (intro fl_bounds; simp)+
  then have py: "x * ?lo \<le> p * y" "p * y \<le> x * ?hi" using y by (simp_all add: field_simps)
  have "p * (D * ?lo ^ 2) \<le> p * y" using D(2) p0 by (rule mult_left_mono)
  also have "\<dots> \<le> N * ?hi ^ 2 * ?hi" using py(2) mult_right_mono [OF N(3), of ?hi] by simp
  finally have up: "p * D * ?lo ^ 2 \<le> N * ?hi ^ 3" by (simp add: power3_eq_cube power2_eq_square mult.assoc)
  have "N * ?lo ^ 2 * ?lo \<le> p * y" using py(1) mult_right_mono [OF N(2), of ?lo] by simp
  also have "\<dots> \<le> p * (D * ?hi ^ 2)" using D(3) p0 by (rule mult_left_mono)
  finally have down: "N * ?lo ^ 3 \<le> p * D * ?hi ^ 2" by (simp add: power3_eq_cube power2_eq_square mult.assoc)
  have exact: "exact = N / D" by (simp add: exact_def N_def D_def)
  have num: "?hi ^ 3 \<le> (1 + 1 / 2 ^ 50) * ?lo ^ 2" "(1 - 1 / 2 ^ 50) * ?hi ^ 2 \<le> ?lo ^ 3" "0 < ?lo ^ 2" "0 < ?hi ^ 2"
    by (simp_all add: power2_eq_square power3_eq_cube)
  have "p * D * ?lo ^ 2 \<le> N * (1 + 1 / 2 ^ 50) * ?lo ^ 2"
    using up mult_left_mono [OF num(1) N(1)] by (simp only: mult.assoc)
  then have "p * D \<le> N * (1 + 1 / 2 ^ 50)" using num(3) by (rule mult_right_le_imp_le)
  then have a: "p \<le> exact * (1 + 1 / 2 ^ 50)" unfolding exact using D(1) by (simp only: pos_le_divide_eq times_divide_eq_left)
  have "N * (1 - 1 / 2 ^ 50) * ?hi ^ 2 \<le> p * D * ?hi ^ 2"
    using mult_left_mono [OF num(2) N(1)] down by (simp only: mult.assoc)
  then have "N * (1 - 1 / 2 ^ 50) \<le> p * D" using num(4) by (rule mult_right_le_imp_le)
  then have b: "exact * (1 - 1 / 2 ^ 50) \<le> p" unfolding exact using D(1) by (simp only: pos_divide_le_eq times_divide_eq_left)
  have "exact * (1 + 1 / 2 ^ 50) = exact + exact / 2 ^ 50" "exact * (1 - 1 / 2 ^ 50) = exact - exact / 2 ^ 50"
    by (simp_all add: distrib_left right_diff_distrib)
  then show ?thesis using a b by (simp only: abs_le_iff) simp
qed

lemma quotient_zero: "fl (fl (of_nat d) / l) = 0 \<longleftrightarrow> d = 0" if "0 < l" for l :: rat
  using that by simp

lemma quotient_mono:
  fixes n n' d d' :: nat and k l :: rat
  assumes "0 < k" "0 < l" "n \<le> n'" "d' \<le> d" "0 < d'"
  shows "fl (fl (fl (of_nat n) / k) / fl (fl (of_nat d) / l)) \<le> fl (fl (fl (of_nat n') / k) / fl (fl (of_nat d') / l))"
proof -
  have scaled: "fl (fl (of_nat a) / m) \<le> fl (fl (of_nat b) / m)" if "a \<le> b" "0 < m" for a b :: nat and m :: rat
    using that by (intro fl_mono divide_right_mono) auto
  have pos: "0 < fl (fl (of_nat d') / l)"
  proof -
    have "fl (fl (of_nat d') / l) \<noteq> 0" using assms(5) quotient_zero [OF assms(2), of d'] by blast
    moreover have "0 \<le> fl (fl (of_nat d') / l)" using assms(2) by (intro fl_nonneg divide_nonneg_nonneg) simp_all
    ultimately show ?thesis by (simp only: less_le not_sym simp_thms)
  qed
  show ?thesis
  proof (rule fl_mono)
    show "fl (fl (of_nat n) / k) / fl (fl (of_nat d) / l) \<le> fl (fl (of_nat n') / k) / fl (fl (of_nat d') / l)"
      by (intro frac_le scaled pos assms fl_nonneg divide_nonneg_nonneg) (use assms in simp_all)
    show "0 \<le> fl (fl (of_nat n) / k) / fl (fl (of_nat d) / l)" using assms by (intro divide_nonneg_nonneg fl_nonneg) auto
  qed
qed

text \<open>Integers below \<open>2^53\<close> are doubles.\<close>

lemma fl_of_nat:
  assumes "m < 2 ^ 53"
  shows "fl (of_nat m) = of_nat m"
proof (cases "m = 0")
  case False
  let ?x = "of_nat m :: rat" and ?k = "ilog2 (of_nat m)"
  have x: "0 < ?x" using False by simp
  have "?k < 53"
  proof (rule ccontr)
    assume "\<not> ?k < 53"
    then have "(2 :: rat) powi 53 \<le> 2 powi ?k" by (rule_tac power_int_increasing) simp_all
    also have "\<dots> \<le> ?x" using ilog2_bounds [OF x] by blast
    also have "\<dots> < rat_of_nat (2 ^ 53)" using assms by (simp only: of_nat_less_iff)
    also have "\<dots> = 2 powi 53" by simp
    finally show False by simp
  qed
  define n where "n = nat (52 - ?k)"
  have q: "(2 :: rat) powi (?k - 52) = 1 / 2 ^ n" using \<open>?k < 53\<close> by (simp add: n_def power_int_def field_simps)
  have "?x / (1 / 2 ^ n) = of_int (int m * 2 ^ n)" by simp
  then have "fl ?x = of_int (int m * 2 ^ n) * (1 / 2 ^ n)" unfolding fl_pos [OF x] q by (simp only: round_even_int)
  then show ?thesis by simp
qed simp

lemma as_f64_consts: "as_f64 LAMPORTS_PER_SOL = 10 ^ 9" "as_f64 SCALE = 10 ^ 6"
proof -
  have "unat LAMPORTS_PER_SOL = 10 ^ 9" "unat SCALE = 10 ^ 6" by (simp_all add: LAMPORTS_PER_SOL_def SCALE_def)
  then show "as_f64 LAMPORTS_PER_SOL = 10 ^ 9" "as_f64 SCALE = 10 ^ 6"
    using fl_of_nat [of "10 ^ 9"] fl_of_nat [of "10 ^ 6"] by (simp_all add: as_f64_def del: of_nat_unat)
qed

text \<open>All price functions are this quotient.\<close>

definition rounded_quotient :: "rat \<Rightarrow> rat \<Rightarrow> nat \<Rightarrow> nat \<Rightarrow> rat" where
  "rounded_quotient k l n d = (if d = 0 then 0 else fl (fl (fl (of_nat n) / k) / fl (fl (of_nat d) / l)))"

lemma rounded_quotient_error:
  assumes "0 < k" "0 < l"
  shows "\<bar>rounded_quotient k l n d - of_nat n / k / (of_nat d / l)\<bar> \<le> of_nat n / k / (of_nat d / l) / 2 ^ 50"
  using quotient_error [of d k l n] assms by (cases "d = 0") (simp_all add: rounded_quotient_def)

lemma rounded_quotient_mono:
  assumes "0 < k" "0 < l" "n \<le> n'" "d' \<le> d" "0 < d'"
  shows "rounded_quotient k l n d \<le> rounded_quotient k l n' d'"
  using quotient_mono [OF assms] assms(4,5) by (simp add: rounded_quotient_def)

lemma guarded_quotient:
  assumes "0 < l"
  shows "(if fl (as_f64 d / l) = 0 then 0 else fl (fl (as_f64 n / k) / fl (as_f64 d / l))) = rounded_quotient k l (unat n) (unat d)"
  using assms by (simp add: rounded_quotient_def as_f64_def del: of_nat_unat)

lemmas price_quotients = price_base_in_quote_def price_quote_in_base_def price_token_in_sol_def Let_def

text \<open>C33 (bounds): the computed prices are accurate. When \<open>powi\<close> gives the powers of ten of the decimals, both prices of a pool and the
  price of a bonding curve differ from the exact ratio by at most one part in \<open>2^50\<close>, and an empty divisor gives 0;
  the unguarded \<open>get_token_price\<close> is as accurate on a curve with tokens and has no finite value without.\<close>
theorem price_accuracy:
  fixes b q vs vt :: u64 and bd qd :: u8
  assumes "pow_ten (unat bd) = 10 ^ unat bd" "pow_ten (unat qd) = 10 ^ unat qd"
  defines "base \<equiv> rat_of_nat (unat b) / 10 ^ unat bd" and "quote \<equiv> rat_of_nat (unat q) / 10 ^ unat qd"
    and "curve \<equiv> rat_of_nat (unat vs) / 10 ^ 9 / (rat_of_nat (unat vt) / 10 ^ 6)"
  shows "\<bar>price_base_in_quote pow_ten b q bd qd - quote / base\<bar> \<le> quote / base / 2 ^ 50
    \<and> \<bar>price_quote_in_base pow_ten b q bd qd - base / quote\<bar> \<le> base / quote / 2 ^ 50
    \<and> \<bar>price_token_in_sol vs vt - curve\<bar> \<le> curve / 2 ^ 50
    \<and> (case get_token_price vs vt of None \<Rightarrow> vt = 0 | Some p \<Rightarrow> vt \<noteq> 0 \<and> \<bar>p - curve\<bar> \<le> curve / 2 ^ 50)"
proof (intro conjI)
  have pos: "(0 :: rat) < 10 ^ n" for n by simp
  note error = rounded_quotient_error [OF pos pos]
  show "\<bar>price_base_in_quote pow_ten b q bd qd - quote / base\<bar> \<le> quote / base / 2 ^ 50"
    unfolding price_quotients assms guarded_quotient [OF pos] by (rule error)
  show "\<bar>price_quote_in_base pow_ten b q bd qd - base / quote\<bar> \<le> base / quote / 2 ^ 50"
    unfolding price_quotients assms guarded_quotient [OF pos] by (rule error)
  show "\<bar>price_token_in_sol vs vt - curve\<bar> \<le> curve / 2 ^ 50"
    unfolding price_quotients as_f64_consts guarded_quotient [OF pos] curve_def by (rule error)
  have same: "curve = rat_of_nat (unat vs) / 10 ^ 8 / (rat_of_nat (unat vt) / 10 ^ 5)" by (simp add: curve_def)
  have "get_token_price vs vt = (if vt = 0 then None else Some (rounded_quotient (10 ^ 8) (10 ^ 5) (unat vs) (unat vt)))"
    by (simp add: get_token_price_def rounded_quotient_def as_f64_def Let_def unat_eq_0 del: of_nat_unat)
  then show "case get_token_price vs vt of None \<Rightarrow> vt = 0 | Some p \<Rightarrow> vt \<noteq> 0 \<and> \<bar>p - curve\<bar> \<le> curve / 2 ^ 50"
    using error [of 8 5 "unat vs" "unat vt"] unfolding same by (cases "vt = 0") (simp_all del: of_nat_unat)
qed

lemma price_accuracy_witness:
  "\<bar>price_base_in_quote (\<lambda>n. 10 ^ n) 2000000 3000000000 6 9 - 3 / 2\<bar> \<le> 3 / 2 / 2 ^ 50"
  using price_accuracy [where pow_ten = "\<lambda>n. 10 ^ n" and bd = 6 and qd = 9 and b = 2000000 and q = 3000000000] by simp

text \<open>Prices follow the reserves. More quote tokens or fewer base tokens never lower the price of the base token and
  never raise the price of the quote token, in spite of the rounding; an empty base reserve has the price 0.\<close>
theorem price_monotone:
  assumes "0 < pow_ten (unat bd)" "0 < pow_ten (unat qd)" "q \<noteq> 0" "q \<le> q'" "b' \<le> b" "b' \<noteq> 0"
  shows "price_base_in_quote pow_ten b q bd qd \<le> price_base_in_quote pow_ten b' q' bd qd
    \<and> price_quote_in_base pow_ten b' q' bd qd \<le> price_quote_in_base pow_ten b q bd qd
    \<and> price_base_in_quote pow_ten 0 q bd qd = 0"
proof -
  have n: "unat q \<le> unat q'" "unat b' \<le> unat b" "0 < unat b'" "0 < unat q"
    using assms by (simp_all add: word_le_nat_alt unat_gt_0)
  show ?thesis
    unfolding price_quotients guarded_quotient [OF assms(1)] guarded_quotient [OF assms(2)]
    using rounded_quotient_mono [OF assms(2,1) n(1-3)] rounded_quotient_mono [OF assms(1,2) n(2,1) n(4)]
    by (simp add: rounded_quotient_def [of _ _ _ 0])
qed

lemma price_monotone_witness:
  "price_base_in_quote (\<lambda>n. 10 ^ n) 9000000 7 6 9 \<le> price_base_in_quote (\<lambda>n. 10 ^ n) 8999999 8 6 9"
  using price_monotone [where pow_ten = "\<lambda>n. 10 ^ n" and bd = 6 and qd = 9 and b = 9000000 and b' = 8999999 and q = 7 and q' = 8]
  by simp

end
