(* ===== verification/Compiler_Config.thy ===== *)
theory Compiler_Config
  imports Prelude
begin

text \<open>
  perf/compiler\_optimization.rs: the compiler settings (\<open>CompilerOptimizer\<close>), the flags, environment and cargo profile
  generated from them, and the text of the cargo configuration file. The tables of the event processor are in
  Simd\_Batch.
\<close>

section \<open>Settings\<close>

datatype OptLevel = OptNone | OptLess | OptDefault | OptAggressive | OptSize | OptSizeZ

datatype CodeModel = Small | Kernel | Medium | Large

record OptimizationFlags =
  of_opt_level :: OptLevel
  of_enable_lto :: bool
  of_enable_pgo :: bool
  of_target_cpu :: string
  of_target_features :: "string list"
  of_code_model :: CodeModel
  of_debug_info :: bool
  of_incremental :: bool
  of_codegen_units :: "nat option"

record CodegenConfig =
  cg_panic_abort :: bool
  cg_overflow_checks :: bool
  cg_fat_lto :: bool
  cg_enable_simd :: bool
  cg_enable_vectorization :: bool
  cg_enable_loop_unrolling :: bool
  cg_max_unroll_count :: nat
  cg_enable_branch_prediction :: bool

record InlineStrategy =
  is_inline_threshold :: nat
  is_force_inline_hot_paths :: bool
  is_no_inline_cold_paths :: bool
  is_cross_crate_inline :: bool

record CompilerOptimizer =
  co_optimization_flags :: OptimizationFlags
  co_codegen_config :: CodegenConfig
  co_inline_strategy :: InlineStrategy

text \<open>\<open>x86_64\<close> says whether the crate is built for that architecture.\<close>

definition ultra_performance_flags :: "bool \<Rightarrow> OptimizationFlags" where
  "ultra_performance_flags x86_64 = \<lparr> of_opt_level = OptAggressive, of_enable_lto = True, of_enable_pgo = False,
     of_target_cpu = ''native'',
     of_target_features = (if x86_64 then [''+sse4.2'', ''+avx'', ''+avx2'', ''+fma'', ''+bmi1'', ''+bmi2'', ''+lzcnt'', ''+popcnt'']
       else []),
     of_code_model = Small, of_debug_info = False, of_incremental = False, of_codegen_units = Some 1 \<rparr>"

definition ultra_performance_codegen :: CodegenConfig where
  "ultra_performance_codegen = \<lparr> cg_panic_abort = True, cg_overflow_checks = False, cg_fat_lto = True, cg_enable_simd = True,
     cg_enable_vectorization = True, cg_enable_loop_unrolling = True, cg_max_unroll_count = 16,
     cg_enable_branch_prediction = True \<rparr>"

definition aggressive :: InlineStrategy where
  "aggressive = \<lparr> is_inline_threshold = 1000, is_force_inline_hot_paths = True, is_no_inline_cold_paths = True,
     is_cross_crate_inline = True \<rparr>"

definition compiler_optimizer_new :: "bool \<Rightarrow> CompilerOptimizer" where
  "compiler_optimizer_new x86_64 = \<lparr> co_optimization_flags = ultra_performance_flags x86_64,
     co_codegen_config = ultra_performance_codegen, co_inline_strategy = aggressive \<rparr>"

section \<open>Text\<close>

text \<open>An integer in decimal, \<open>join(",")\<close>, and the lower-case name of a code model.\<close>

fun show_decimal :: "nat \<Rightarrow> string" where
  "show_decimal n = (if n < 10 then [char_of (48 + n)] else show_decimal (n div 10) @ [char_of (48 + n mod 10)])"

declare show_decimal.simps [simp del]

fun join_with :: "string \<Rightarrow> string list \<Rightarrow> string" where
  "join_with sep [] = ''''"
| "join_with sep [s] = s"
| "join_with sep (s # t # rest) = s @ sep @ join_with sep (t # rest)"

definition to_lowercase :: "string \<Rightarrow> string" where
  "to_lowercase s = map (\<lambda>c. if 65 \<le> (of_char c :: nat) \<and> (of_char c :: nat) \<le> 90 then char_of ((of_char c :: nat) + 32) else c) s"

fun debug_code_model :: "CodeModel \<Rightarrow> string" where
  "debug_code_model Small = ''Small''"
| "debug_code_model Kernel = ''Kernel''"
| "debug_code_model Medium = ''Medium''"
| "debug_code_model Large = ''Large''"

section \<open>The generated configuration\<close>

record ProfileConfig =
  pr_opt_level :: u8
  pr_lto :: bool
  pr_codegen_units :: nat
  pr_panic :: string
  pr_overflow_checks :: bool
  pr_debug :: bool
  pr_debug_assertions :: bool
  pr_rpath :: bool
  pr_strip :: bool

record CargoConfig =
  cc_profile_release :: ProfileConfig

record CompilerConfig =
  cf_rustflags :: "string list"
  cf_env_vars :: "string \<rightharpoonup> string"
  cf_cargo_config :: CargoConfig

definition dash_C :: string where "dash_C = ''-C''"

definition generate_rustflags :: "CompilerOptimizer \<Rightarrow> string list" where
  "generate_rustflags self =
    (let fl = co_optimization_flags self; cg = co_codegen_config self;
         rustflags = [dash_C, ''opt-level=3''];
         rustflags = (if of_enable_lto fl then rustflags @ [dash_C, ''lto=fat''] else rustflags);
         rustflags = (if of_target_cpu fl \<noteq> '''' then rustflags @ [dash_C, ''target-cpu='' @ of_target_cpu fl] else rustflags);
         rustflags = (if of_target_features fl \<noteq> []
           then rustflags @ [dash_C, ''target-feature='' @ join_with '','' (of_target_features fl)] else rustflags);
         rustflags = rustflags @ [dash_C, to_lowercase (''code-model='' @ debug_code_model (of_code_model fl))];
         rustflags = (if cg_panic_abort cg then rustflags @ [dash_C, ''panic=abort''] else rustflags);
         rustflags = (if \<not> cg_overflow_checks cg then rustflags @ [dash_C, ''overflow-checks=no''] else rustflags);
         rustflags = (case of_codegen_units fl of
             Some units \<Rightarrow> rustflags @ [dash_C, ''codegen-units='' @ show_decimal units] | None \<Rightarrow> rustflags);
         rustflags = rustflags @ [dash_C, ''inline-threshold='' @ show_decimal (is_inline_threshold (co_inline_strategy self))]
     in rustflags @ [dash_C, ''embed-bitcode=no'', dash_C, ''debuginfo=0'', dash_C, ''rpath=no'', dash_C, ''force-frame-pointers=no''])"

definition generate_env_vars :: "CompilerOptimizer \<Rightarrow> string \<rightharpoonup> string" where
  "generate_env_vars self =
    (let fl = co_optimization_flags self;
         env_vars = Map.empty(''CARGO_CFG_TARGET_FEATURE'' \<mapsto> join_with '','' (of_target_features fl));
         env_vars = env_vars(''RUSTC_BOOTSTRAP'' \<mapsto> ''1'')
     in if of_incremental fl then env_vars(''CARGO_INCREMENTAL'' \<mapsto> ''1'') else env_vars(''CARGO_INCREMENTAL'' \<mapsto> ''0''))"

definition generate_cargo_config :: "CompilerOptimizer \<Rightarrow> CargoConfig" where
  "generate_cargo_config self = \<lparr> cc_profile_release = \<lparr> pr_opt_level = 3,
     pr_lto = of_enable_lto (co_optimization_flags self),
     pr_codegen_units = unwrap_or 1 (of_codegen_units (co_optimization_flags self)),
     pr_panic = (if cg_panic_abort (co_codegen_config self) then ''abort'' else ''unwind''),
     pr_overflow_checks = cg_overflow_checks (co_codegen_config self),
     pr_debug = False, pr_debug_assertions = False, pr_rpath = False, pr_strip = True \<rparr> \<rparr>"

definition generate_ultra_performance_config :: "CompilerOptimizer \<Rightarrow> (CompilerConfig, string) outcome" where
  "generate_ultra_performance_config self = Ok \<lparr> cf_rustflags = generate_rustflags self,
     cf_env_vars = generate_env_vars self, cf_cargo_config = generate_cargo_config self \<rparr>"

text \<open>\<open>generate_cargo_config_toml\<close>: the lines of the file; the function gives each with a line feed behind it, after an
  empty first line.\<close>

definition dq_char :: string where "dq_char = [CHR 0x22]"

definition in_quotes :: "string \<Rightarrow> string" where
  "in_quotes s = dq_char @ s @ dq_char"

definition flag_line :: "string \<Rightarrow> string" where
  "flag_line s = ''    '' @ in_quotes ''-C'' @ '', '' @ in_quotes s @ '',''"

definition build_flags :: "string list" where
  "build_flags = [''opt-level=3'', ''lto=fat'', ''panic=abort'', ''codegen-units=1'', ''target-cpu=native'',
     ''embed-bitcode=no'', ''debuginfo=0'', ''overflow-checks=no'', ''inline-threshold=1000'']"

definition feature_flag :: string where
  "feature_flag = ''target-feature=+sse4.2,+avx,+avx2,+fma,+bmi1,+bmi2,+lzcnt,+popcnt''"

definition cargo_config_lines :: "string list" where
  "cargo_config_lines =
    [''[build]'', ''rustflags = [''] @ map flag_line build_flags @ ['']'', '''',
     ''[profile.release]'', ''opt-level = 3'', ''lto = '' @ in_quotes ''fat'', ''codegen-units = 1'',
     ''panic = '' @ in_quotes ''abort'', ''overflow-checks = false'', ''debug = false'', ''debug-assertions = false'',
     ''rpath = false'', ''strip = true'', '''',
     ''[profile.release-with-debug]'', ''inherits = '' @ in_quotes ''release'', ''debug = true'', ''strip = false'', '''',
     ''[target.x86_64-unknown-linux-gnu]'', ''linker = '' @ in_quotes ''clang'', ''rustflags = ['',
     flag_line ''link-arg=-fuse-ld=lld'', flag_line ''link-arg=-Wl,--gc-sections'', flag_line ''link-arg=-Wl,--icf=all'',
     flag_line feature_flag, '']'', '''',
     ''[target.x86_64-apple-darwin]'', ''rustflags = ['', flag_line feature_flag, '']'', '''',
     ''[target.x86_64-pc-windows-msvc]'', ''rustflags = ['', flag_line feature_flag, '']'']"

definition generate_cargo_config_toml :: string where
  "generate_cargo_config_toml = [CHR 0x0A] @ concat (map (\<lambda>l. l @ [CHR 0x0A]) cargo_config_lines)"

section \<open>The list of flags\<close>

text \<open>What a compiler reads: the options behind each \<open>-C\<close>.\<close>

fun options_of :: "string list \<Rightarrow> string list option" where
  "options_of [] = Some []"
| "options_of [s] = None"
| "options_of (c # s # rest) = (if c = dash_C then map_option ((#) s) (options_of rest) else None)"

lemma options_of_append:
  "options_of xs = Some os \<Longrightarrow> options_of (xs @ ys) = map_option ((@) os) (options_of ys)"
  by (induction xs arbitrary: os rule: options_of.induct)
    (cases "options_of ys"; auto split: if_splits)+

definition expected_options :: "CompilerOptimizer \<Rightarrow> string list" where
  "expected_options self =
    (let fl = co_optimization_flags self; cg = co_codegen_config self in
     [''opt-level=3'']
     @ (if of_enable_lto fl then [''lto=fat''] else [])
     @ (if of_target_cpu fl = '''' then [] else [''target-cpu='' @ of_target_cpu fl])
     @ (if of_target_features fl = [] then [] else [''target-feature='' @ join_with '','' (of_target_features fl)])
     @ [''code-model='' @ to_lowercase (debug_code_model (of_code_model fl))]
     @ (if cg_panic_abort cg then [''panic=abort''] else [])
     @ (if cg_overflow_checks cg then [] else [''overflow-checks=no''])
     @ (case of_codegen_units fl of None \<Rightarrow> [] | Some units \<Rightarrow> [''codegen-units='' @ show_decimal units])
     @ [''inline-threshold='' @ show_decimal (is_inline_threshold (co_inline_strategy self)),
        ''embed-bitcode=no'', ''debuginfo=0'', ''rpath=no'', ''force-frame-pointers=no''])"

lemma options_generated: "options_of (generate_rustflags self) = Some (expected_options self)"
  by (simp add: generate_rustflags_def expected_options_def Let_def to_lowercase_def split: option.split)

text \<open>The generated compiler flags. Every option stands behind its own \<open>-C\<close> and the options are the
  configured ones in this order; the optimization level, the kind of LTO, the debug information and the other
  settings of the loops and of PGO are ignored. The cargo profile and the environment agree with the flags, and the
  configuration file carries flags that the default optimizer generates. With LTO the flags ask for
  \<open>lto=fat\<close> and \<open>embed-bitcode=no\<close> together, which rustc refuses.\<close>
theorem compiler_flags:
  shows "\<exists>c. generate_ultra_performance_config self = Ok c
    \<and> options_of (cf_rustflags c) = Some (expected_options self)
    \<and> (''lto=fat'' \<in> set (expected_options self) \<longleftrightarrow> pr_lto (cc_profile_release (cf_cargo_config c)))
    \<and> ''embed-bitcode=no'' \<in> set (expected_options self)
    \<and> generate_ultra_performance_config (self \<lparr> co_optimization_flags := (co_optimization_flags self)
        \<lparr> of_opt_level := l, of_enable_pgo := b1, of_debug_info := b2 \<rparr>,
        co_codegen_config := (co_codegen_config self) \<lparr> cg_fat_lto := b3, cg_enable_simd := b4 \<rparr> \<rparr>) = Ok c
    \<and> cf_env_vars c ''CARGO_INCREMENTAL'' = Some (if of_incremental (co_optimization_flags self) then ''1'' else ''0'')
    \<and> set build_flags \<subseteq> set (expected_options (compiler_optimizer_new True))
    \<and> feature_flag \<in> set (expected_options (compiler_optimizer_new True))"
proof -
  define c where "c = \<lparr> cf_rustflags = generate_rustflags self, cf_env_vars = generate_env_vars self,
    cf_cargo_config = generate_cargo_config self \<rparr>"
  have lto: "''lto=fat'' \<in> set (expected_options self) \<longleftrightarrow> of_enable_lto (co_optimization_flags self)"
    by (auto simp: expected_options_def Let_def split: if_splits option.splits)
  have bitcode: "''embed-bitcode=no'' \<in> set (expected_options self)" by (simp add: expected_options_def Let_def)
  have default: "set build_flags \<subseteq> set (expected_options (compiler_optimizer_new True))"
      "feature_flag \<in> set (expected_options (compiler_optimizer_new True))"
    by (simp_all add: build_flags_def feature_flag_def expected_options_def compiler_optimizer_new_def Let_def
        ultra_performance_flags_def ultra_performance_codegen_def aggressive_def show_decimal.simps char_of_def bit_0)
  show ?thesis
  proof (intro exI [of _ c] conjI lto default bitcode)
    show "generate_ultra_performance_config self = Ok c" by (simp add: generate_ultra_performance_config_def c_def)
    show "options_of (cf_rustflags c) = Some (expected_options self)" by (simp add: c_def options_generated)
    show "''lto=fat'' \<in> set (expected_options self) \<longleftrightarrow> pr_lto (cc_profile_release (cf_cargo_config c))"
      by (simp add: c_def lto generate_cargo_config_def)
    show "cf_env_vars c ''CARGO_INCREMENTAL'' = Some (if of_incremental (co_optimization_flags self) then ''1'' else ''0'')"
      by (simp add: c_def generate_env_vars_def Let_def)
  qed (simp add: c_def generate_ultra_performance_config_def generate_rustflags_def generate_env_vars_def
      generate_cargo_config_def Let_def cong: if_cong option.case_cong)
qed

end
