(* ===== verification/Quic_Client.thy ===== *)
theory Quic_Client
  imports Relay_Clients
begin

text \<open>
  The QUIC connection of the Soyas and Speedlanding clients (swqos/soyas.rs, swqos/speedlanding.rs): opening it, sending
  on it, replacing it after a failure under a lock that is only tried. First the calls of one task, then any number of
  tasks that share the client. The quinn crate is a parameter: it answers a request by its number.
\<close>

section \<open>One task\<close>

record quic_net =
  qn_open_uni :: "nat \<Rightarrow> nat \<Rightarrow> string + nat"
  qn_write_all :: "nat \<Rightarrow> nat \<Rightarrow> u8 list \<Rightarrow> string + unit"
  qn_finish :: "nat \<Rightarrow> nat \<Rightarrow> string + unit"
  qn_connect :: "nat \<Rightarrow> string + nat"

text \<open>The client's connection and lock, and the number of requests so far.\<close>

record quic_client =
  qc_connection :: nat
  qc_reconnect :: bool
  qc_requests :: nat

definition request :: "(nat \<Rightarrow> string + 'a) \<Rightarrow> (quic_client, 'a, string) stateful" where
  "request f = (\<lambda>s. (of_sum (f (qc_requests s)), s \<lparr> qc_requests := Suc (qc_requests s) \<rparr>))"

definition try_send_bytes :: "quic_net \<Rightarrow> nat \<Rightarrow> u8 list \<Rightarrow> (quic_client, unit, string) stateful" where
  "try_send_bytes N connection payload =
    sbind (request (\<lambda>t. qn_open_uni N t connection)) (\<lambda>stream.
    sbind (request (\<lambda>t. qn_write_all N t stream payload)) (\<lambda>_.
    request (\<lambda>t. qn_finish N t stream)))"

definition err_lock :: string where "err_lock = ''operation would block''"

text \<open>The guard of \<open>try_lock\<close> is dropped at the end of the function, whatever the outcome.\<close>

definition reconnect :: "quic_net \<Rightarrow> (quic_client, unit, string) stateful" where
  "reconnect N = (\<lambda>s.
    if qc_reconnect s then (Err err_lock, s)
    else case request (qn_connect N) (s \<lparr> qc_reconnect := True \<rparr>) of
      (Ok connection, s') \<Rightarrow> (Ok (), s' \<lparr> qc_connection := connection, qc_reconnect := False \<rparr>)
    | (Err e, s') \<Rightarrow> (Err e, s' \<lparr> qc_reconnect := False \<rparr>)
    | (Panic, s') \<Rightarrow> (Panic, s' \<lparr> qc_reconnect := False \<rparr>))"

definition resend :: "quic_net \<Rightarrow> u8 list \<Rightarrow> (quic_client, unit, string) stateful" where
  "resend N payload = (\<lambda>s. try_send_bytes N (qc_connection s) payload s)"

definition submit_payload :: "quic_net \<Rightarrow> u8 list \<Rightarrow> (quic_client, unit, string) stateful" where
  "submit_payload N payload = (\<lambda>s.
    case try_send_bytes N (qc_connection s) payload s of
      (Err _, s') \<Rightarrow> sbind (reconnect N) (\<lambda>_. resend N payload) s'
    | r \<Rightarrow> r)"

text \<open>The constructor: the results of the library calls in their order, the addresses the endpoint resolves to, and
  the first connection.\<close>

record quic_setup =
  qu_keypair_parses :: bool
  qu_client_cert :: "string + unit"
  qu_crypto :: "string + unit"
  qu_idle_timeout :: "string + unit"
  qu_endpoint :: "string + unit"
  qu_addresses :: "string + nat list"
  qu_connect :: "nat \<Rightarrow> string + nat"

definition quic_client_new :: "quic_setup \<Rightarrow> (quic_client, string) outcome" where
  "quic_client_new U =
    obind (if qu_keypair_parses U then Ok () else Panic) (\<lambda>_.
    obind (map_err (\<lambda>_. ''failed to configure client certificate'') (of_sum (qu_client_cert U))) (\<lambda>_.
    obind (map_err (\<lambda>_. ''failed to convert rustls config into quinn crypto config'') (of_sum (qu_crypto U))) (\<lambda>_.
    obind (of_sum (qu_idle_timeout U)) (\<lambda>_.
    obind (of_sum (qu_endpoint U)) (\<lambda>_.
    obind (of_sum (qu_addresses U)) (\<lambda>addresses.
    obind (case addresses of [] \<Rightarrow> Err ''Address not resolved'' | a # _ \<Rightarrow> Ok a) (\<lambda>addr.
    obind (of_sum (qu_connect U addr)) (\<lambda>connection.
    Ok \<lparr> qc_connection = connection, qc_reconnect = False, qc_requests = 0 \<rparr>))))))))"

section \<open>Several tasks\<close>

text \<open>Where a task is between two accesses to the shared client: it has loaded a connection, its first sending has
  failed, it holds the lock, it has stored the new connection, it has loaded the connection again.\<close>

datatype send_error = LockHeld | ConnectFailed | SendFailed

datatype quic_phase =
    Start
  | Sending nat
  | Failed nat
  | Connecting nat
  | Reconnected nat
  | Resending nat nat
  | Delivered nat
  | Lost send_error

text \<open>The shared client with its tasks; connections are numbered in the order they are made.\<close>

record quic_world =
  qw_connection :: nat
  qw_locked :: bool
  qw_made :: nat
  qw_tasks :: "quic_phase list"

inductive quic_step :: "quic_world \<Rightarrow> quic_world \<Rightarrow> bool" where
  load: "i < length (qw_tasks w) \<Longrightarrow> qw_tasks w ! i = Start \<Longrightarrow>
    quic_step w (w \<lparr> qw_tasks := (qw_tasks w)[i := Sending (qw_connection w)] \<rparr>)"
| sent: "i < length (qw_tasks w) \<Longrightarrow> qw_tasks w ! i = Sending c \<Longrightarrow>
    quic_step w (w \<lparr> qw_tasks := (qw_tasks w)[i := Delivered c] \<rparr>)"
| send_failed: "i < length (qw_tasks w) \<Longrightarrow> qw_tasks w ! i = Sending c \<Longrightarrow>
    quic_step w (w \<lparr> qw_tasks := (qw_tasks w)[i := Failed c] \<rparr>)"
| locked: "i < length (qw_tasks w) \<Longrightarrow> qw_tasks w ! i = Failed c \<Longrightarrow> \<not> qw_locked w \<Longrightarrow>
    quic_step w (w \<lparr> qw_locked := True, qw_tasks := (qw_tasks w)[i := Connecting c] \<rparr>)"
| lock_held: "i < length (qw_tasks w) \<Longrightarrow> qw_tasks w ! i = Failed c \<Longrightarrow> qw_locked w \<Longrightarrow>
    quic_step w (w \<lparr> qw_tasks := (qw_tasks w)[i := Lost LockHeld] \<rparr>)"
| connected: "i < length (qw_tasks w) \<Longrightarrow> qw_tasks w ! i = Connecting c \<Longrightarrow>
    quic_step w (w \<lparr> qw_connection := qw_made w, qw_made := Suc (qw_made w), qw_locked := False,
      qw_tasks := (qw_tasks w)[i := Reconnected c] \<rparr>)"
| connect_failed: "i < length (qw_tasks w) \<Longrightarrow> qw_tasks w ! i = Connecting c \<Longrightarrow>
    quic_step w (w \<lparr> qw_locked := False, qw_tasks := (qw_tasks w)[i := Lost ConnectFailed] \<rparr>)"
| reload: "i < length (qw_tasks w) \<Longrightarrow> qw_tasks w ! i = Reconnected c \<Longrightarrow>
    quic_step w (w \<lparr> qw_tasks := (qw_tasks w)[i := Resending c (qw_connection w)] \<rparr>)"
| resent: "i < length (qw_tasks w) \<Longrightarrow> qw_tasks w ! i = Resending c d \<Longrightarrow>
    quic_step w (w \<lparr> qw_tasks := (qw_tasks w)[i := Delivered d] \<rparr>)"
| resend_failed: "i < length (qw_tasks w) \<Longrightarrow> qw_tasks w ! i = Resending c d \<Longrightarrow>
    quic_step w (w \<lparr> qw_tasks := (qw_tasks w)[i := Lost SendFailed] \<rparr>)"

definition quic_start :: "nat \<Rightarrow> quic_world" where
  "quic_start n = \<lparr> qw_connection = 0, qw_locked = False, qw_made = 1, qw_tasks = replicate n Start \<rparr>"

section \<open>Lemmas\<close>

fun connecting :: "quic_phase \<Rightarrow> bool" where
  "connecting (Connecting c) = True"
| "connecting _ = False"

text \<open>A task never uses a connection that has not been made, and the second connection of a task is newer than the
  one that failed.\<close>

fun phase_ok :: "quic_world \<Rightarrow> quic_phase \<Rightarrow> bool" where
  "phase_ok w (Sending c) \<longleftrightarrow> c \<le> qw_connection w"
| "phase_ok w (Failed c) \<longleftrightarrow> c \<le> qw_connection w"
| "phase_ok w (Connecting c) \<longleftrightarrow> c \<le> qw_connection w"
| "phase_ok w (Reconnected c) \<longleftrightarrow> c < qw_connection w"
| "phase_ok w (Resending c d) \<longleftrightarrow> c < d \<and> d \<le> qw_connection w"
| "phase_ok w (Delivered d) \<longleftrightarrow> d \<le> qw_connection w"
| "phase_ok w _ \<longleftrightarrow> True"

definition quic_inv :: "quic_world \<Rightarrow> bool" where
  "quic_inv w \<longleftrightarrow> qw_made w = Suc (qw_connection w) \<and> (\<forall>p \<in> set (qw_tasks w). phase_ok w p)
    \<and> length (filter connecting (qw_tasks w)) = of_bool (qw_locked w)"

lemma filter_update:
  "i < length xs \<Longrightarrow> length (filter P (xs[i := y])) + of_bool (P (xs ! i)) = length (filter P xs) + of_bool (P y)"
proof (induction xs arbitrary: i)
  case (Cons x xs)
  then show ?case by (cases i) auto
qed simp

lemma phase_ok_mono:
  "phase_ok w p \<Longrightarrow> qw_connection w \<le> qw_connection w' \<Longrightarrow> phase_ok w' p"
  by (cases p) auto

lemma phases_update:
  assumes "\<forall>p \<in> set (qw_tasks w). phase_ok w p" "qw_connection w \<le> qw_connection w'" "phase_ok w' q"
  shows "\<forall>p \<in> set ((qw_tasks w)[i := q]). phase_ok w' p"
  using assms phase_ok_mono [of w _ w'] set_update_subset_insert [of "qw_tasks w" i q] by blast

text \<open>Every step replaces one task's phase.\<close>

lemma step_keeps:
  assumes "quic_inv w" "i < length (qw_tasks w)" "qw_connection w \<le> qw_connection w'" "qw_made w' = Suc (qw_connection w')"
    and "qw_tasks w' = (qw_tasks w)[i := q]" "phase_ok w (qw_tasks w ! i) \<Longrightarrow> phase_ok w' q"
    and "of_bool (qw_locked w') + of_bool (connecting (qw_tasks w ! i)) = of_bool (qw_locked w) + (of_bool (connecting q) :: nat)"
  shows "quic_inv w'"
proof -
  have "phase_ok w (qw_tasks w ! i)" using assms(1,2) by (simp add: quic_inv_def)
  then have "\<forall>p \<in> set (qw_tasks w'). phase_ok w' p"
    using assms(1,3,6) phases_update [of w w' q i] unfolding quic_inv_def assms(5) by blast
  moreover have "length (filter connecting (qw_tasks w')) = of_bool (qw_locked w')"
    using filter_update [OF assms(2), of connecting q] assms(1,7) unfolding quic_inv_def assms(5) by simp
  ultimately show ?thesis using assms(4) by (simp add: quic_inv_def)
qed

lemma connecting_locked:
  assumes "quic_inv w" "i < length (qw_tasks w)" "qw_tasks w ! i = Connecting c"
  shows "qw_locked w"
proof (rule ccontr)
  assume "\<not> qw_locked w"
  then have "filter connecting (qw_tasks w) = []" using assms(1) by (simp add: quic_inv_def)
  then show False using nth_mem [OF assms(2)] assms(3) by (auto simp: filter_empty_conv)
qed

lemma quic_made: "quic_inv w \<Longrightarrow> qw_made w = Suc (qw_connection w)"
  by (simp add: quic_inv_def)

lemma quic_step_inv: "quic_step w w' \<Longrightarrow> quic_inv w \<Longrightarrow> quic_inv w'"
proof (induction rule: quic_step.induct)
  case (load i w)
  show ?case
    by (rule step_keeps [OF load.prems load.hyps(1), where q = "Sending (qw_connection w)"])
      (use quic_made [OF load.prems] load.hyps in simp_all)
next
  case (sent i w c)
  show ?case
    by (rule step_keeps [OF sent.prems sent.hyps(1), where q = "Delivered c"])
      (use quic_made [OF sent.prems] sent.hyps in simp_all)
next
  case (send_failed i w c)
  show ?case
    by (rule step_keeps [OF send_failed.prems send_failed.hyps(1), where q = "Failed c"])
      (use quic_made [OF send_failed.prems] send_failed.hyps in simp_all)
next
  case (locked i w c)
  show ?case
    by (rule step_keeps [OF locked.prems locked.hyps(1), where q = "Connecting c"])
      (use quic_made [OF locked.prems] locked.hyps in simp_all)
next
  case (lock_held i w c)
  show ?case
    by (rule step_keeps [OF lock_held.prems lock_held.hyps(1), where q = "Lost LockHeld"])
      (use quic_made [OF lock_held.prems] lock_held.hyps in simp_all)
next
  case (connected i w c)
  show ?case
    by (rule step_keeps [OF connected.prems connected.hyps(1), where q = "Reconnected c"])
      (use connecting_locked [OF connected.prems connected.hyps] quic_made [OF connected.prems] connected.hyps in simp_all)
next
  case (connect_failed i w c)
  show ?case
    by (rule step_keeps [OF connect_failed.prems connect_failed.hyps(1), where q = "Lost ConnectFailed"])
      (use connecting_locked [OF connect_failed.prems connect_failed.hyps] quic_made [OF connect_failed.prems] connect_failed.hyps in simp_all)
next
  case (reload i w c)
  show ?case
    by (rule step_keeps [OF reload.prems reload.hyps(1), where q = "Resending c (qw_connection w)"])
      (use quic_made [OF reload.prems] reload.hyps in simp_all)
next
  case (resent i w c d)
  show ?case
    by (rule step_keeps [OF resent.prems resent.hyps(1), where q = "Delivered d"])
      (use quic_made [OF resent.prems] resent.hyps in simp_all)
next
  case (resend_failed i w c d)
  show ?case
    by (rule step_keeps [OF resend_failed.prems resend_failed.hyps(1), where q = "Lost SendFailed"])
      (use quic_made [OF resend_failed.prems] resend_failed.hyps in simp_all)
qed

lemma quic_reachable: "quic_step\<^sup>*\<^sup>* (quic_start n) w \<Longrightarrow> quic_inv w"
proof (induction rule: rtranclp_induct)
  case base
  then show ?case by (simp add: quic_inv_def quic_start_def)
qed (rule quic_step_inv)

text \<open>Sending changes neither the connection nor the lock.\<close>

lemma try_send_keeps:
  "try_send_bytes N c payload s = (r, s') \<Longrightarrow> qc_connection s' = qc_connection s \<and> qc_reconnect s' = qc_reconnect s"
  by (auto simp: try_send_bytes_def sbind_def request_def split: outcome.splits prod.splits)

lemma reconnect_keeps:
  assumes "reconnect N s = (r, s')" "\<not> qc_reconnect s"
  shows "\<not> qc_reconnect s' \<and> (r \<noteq> Ok () \<longrightarrow> qc_connection s' = qc_connection s)"
  using assms by (auto simp: reconnect_def request_def split: outcome.splits prod.splits)

section \<open>Properties\<close>

text \<open>C34 (invariant): one task reconnects at a time. However the tasks that share a client interleave, the lock is held exactly
  while one task connects, no two tasks connect together, and a task that sends a second time uses a connection
  that was made after the one that failed it.\<close>
theorem reconnect_exclusive:
  assumes "quic_step\<^sup>*\<^sup>* (quic_start n) w" "i < length (qw_tasks w)" "j < length (qw_tasks w)"
  shows "(qw_locked w \<longleftrightarrow> (\<exists>p \<in> set (qw_tasks w). connecting p))
    \<and> (connecting (qw_tasks w ! i) \<and> connecting (qw_tasks w ! j) \<longrightarrow> i = j)
    \<and> (qw_tasks w ! i = Resending c d \<longrightarrow> c < d \<and> d \<le> qw_connection w)"
proof -
  have inv: "quic_inv w" by (rule quic_reachable [OF assms(1)])
  then have count: "length (filter connecting (qw_tasks w)) = of_bool (qw_locked w)" by (simp add: quic_inv_def)
  have "qw_locked w \<longleftrightarrow> (\<exists>p \<in> set (qw_tasks w). connecting p)"
    using count by (cases "qw_locked w") (auto simp: filter_empty_conv length_Suc_conv filter_eq_Cons_iff)
  moreover have "i = j" if "connecting (qw_tasks w ! i)" "connecting (qw_tasks w ! j)"
  proof -
    have "card {k. k < length (qw_tasks w) \<and> connecting (qw_tasks w ! k)} \<le> 1"
      using count by (simp add: length_filter_conv_card)
    then show ?thesis using that assms(2,3) by (auto simp: card_le_Suc0_iff_eq)
  qed
  moreover have "phase_ok w (qw_tasks w ! i)" using inv assms(2) by (simp add: quic_inv_def)
  ultimately show ?thesis by auto
qed

definition one_connecting :: quic_world where
  "one_connecting = \<lparr> qw_connection = 0, qw_locked = True, qw_made = 1, qw_tasks = [Connecting 0, Failed 0] \<rparr>"

lemma one_connecting_reached: "quic_step\<^sup>*\<^sup>* (quic_start 2) one_connecting"
proof -
  define w where "w l a b = \<lparr> qw_connection = 0, qw_locked = l, qw_made = 1, qw_tasks = [a, b] \<rparr>" for l a b
  have "quic_step (w False Start Start) (w False (Sending 0) Start)"
    using quic_step.load [of 0 "w False Start Start"] by (simp add: w_def)
  moreover have "quic_step (w False (Sending 0) Start) (w False (Sending 0) (Sending 0))"
    using quic_step.load [of 1 "w False (Sending 0) Start"] by (simp add: w_def)
  moreover have "quic_step (w False (Sending 0) (Sending 0)) (w False (Failed 0) (Sending 0))"
    using quic_step.send_failed [of 0 "w False (Sending 0) (Sending 0)"] by (simp add: w_def)
  moreover have "quic_step (w False (Failed 0) (Sending 0)) (w False (Failed 0) (Failed 0))"
    using quic_step.send_failed [of 1 "w False (Failed 0) (Sending 0)"] by (simp add: w_def)
  moreover have "quic_step (w False (Failed 0) (Failed 0)) (w True (Connecting 0) (Failed 0))"
    using quic_step.locked [of 0 "w False (Failed 0) (Failed 0)"] by (simp add: w_def)
  ultimately have "quic_step\<^sup>*\<^sup>* (w False Start Start) (w True (Connecting 0) (Failed 0))"
    by (meson r_into_rtranclp rtranclp_trans)
  then show ?thesis by (simp add: w_def one_connecting_def quic_start_def numeral_2_eq_2)
qed

theorem reconnect_exclusive_witness:
  "qw_locked one_connecting \<and> connecting (qw_tasks one_connecting ! 0) \<and> \<not> connecting (qw_tasks one_connecting ! 1)"
  using reconnect_exclusive [OF one_connecting_reached, of 0 1 0 0] by (simp add: one_connecting_def)

text \<open>A task that only finds the lock held is lost. While another task replaces the broken connection, a task whose
  sending has failed too does not wait: it gives up although the new connection works and the other task's
  transaction is delivered.\<close>
theorem held_lock_loses:
  shows "\<exists>w. quic_step\<^sup>*\<^sup>* (quic_start 2) w \<and> qw_tasks w = [Delivered 1, Lost LockHeld]"
proof -
  define w where "w c l m a b = \<lparr> qw_connection = c, qw_locked = l, qw_made = m, qw_tasks = [a, b] \<rparr>" for c l m a b
  have start: "quic_start 2 = w 0 False 1 Start Start" by (simp add: quic_start_def w_def numeral_2_eq_2)
  have "quic_step (w 0 False 1 Start Start) (w 0 False 1 (Sending 0) Start)"
    using quic_step.load [of 0 "w 0 False 1 Start Start"] by (simp add: w_def)
  moreover have "quic_step (w 0 False 1 (Sending 0) Start) (w 0 False 1 (Sending 0) (Sending 0))"
    using quic_step.load [of 1 "w 0 False 1 (Sending 0) Start"] by (simp add: w_def)
  moreover have "quic_step (w 0 False 1 (Sending 0) (Sending 0)) (w 0 False 1 (Failed 0) (Sending 0))"
    using quic_step.send_failed [of 0 "w 0 False 1 (Sending 0) (Sending 0)"] by (simp add: w_def)
  moreover have "quic_step (w 0 False 1 (Failed 0) (Sending 0)) (w 0 False 1 (Failed 0) (Failed 0))"
    using quic_step.send_failed [of 1 "w 0 False 1 (Failed 0) (Sending 0)"] by (simp add: w_def)
  moreover have "quic_step (w 0 False 1 (Failed 0) (Failed 0)) (w 0 True 1 (Connecting 0) (Failed 0))"
    using quic_step.locked [of 0 "w 0 False 1 (Failed 0) (Failed 0)"] by (simp add: w_def)
  moreover have "quic_step (w 0 True 1 (Connecting 0) (Failed 0)) (w 0 True 1 (Connecting 0) (Lost LockHeld))"
    using quic_step.lock_held [of 1 "w 0 True 1 (Connecting 0) (Failed 0)"] by (simp add: w_def)
  moreover have "quic_step (w 0 True 1 (Connecting 0) (Lost LockHeld)) (w 1 False 2 (Reconnected 0) (Lost LockHeld))"
    using quic_step.connected [of 0 "w 0 True 1 (Connecting 0) (Lost LockHeld)"] by (simp add: w_def numeral_2_eq_2)
  moreover have "quic_step (w 1 False 2 (Reconnected 0) (Lost LockHeld)) (w 1 False 2 (Resending 0 1) (Lost LockHeld))"
    using quic_step.reload [of 0 "w 1 False 2 (Reconnected 0) (Lost LockHeld)"] by (simp add: w_def)
  moreover have "quic_step (w 1 False 2 (Resending 0 1) (Lost LockHeld)) (w 1 False 2 (Delivered 1) (Lost LockHeld))"
    using quic_step.resent [of 0 "w 1 False 2 (Resending 0 1) (Lost LockHeld)"] by (simp add: w_def)
  ultimately have "quic_step\<^sup>*\<^sup>* (quic_start 2) (w 1 False 2 (Delivered 1) (Lost LockHeld))"
    unfolding start by (meson r_into_rtranclp rtranclp_trans)
  then show ?thesis by (rule exI [where x = "w 1 False 2 (Delivered 1) (Lost LockHeld)", OF conjI]) (simp add: w_def)
qed


text \<open>A library whose first connection is broken and whose second one works, and the same for the relay client.\<close>

definition broken_first :: quic_net where
  "broken_first = \<lparr> qn_open_uni = (\<lambda>_ c. if c = 0 then Inl ''connection lost'' else Inr c),
    qn_write_all = (\<lambda>_ _ _. Inr ()), qn_finish = (\<lambda>_ _. Inr ()), qn_connect = (\<lambda>_. Inr 1) \<rparr>"

definition broken_relay :: relay_net where
  "broken_relay = sample_net \<lparr> rl_quic_send := (\<lambda>_ k _. if k = 0 then Inl ''connection lost'' else Inr ()),
    rl_quic_reconnect := (\<lambda>_. Inr ()) \<rparr>"

definition first_client :: quic_client where
  "first_client = \<lparr> qc_connection = 0, qc_reconnect = False, qc_requests = 0 \<rparr>"


end
