(* ===== verification/Block_Race.thy ===== *)
theory Block_Race
  imports Block_Clients "HOL-Library.Multiset"
begin

text \<open>
  The shared memory pools of perf/zero\_copy\_io.rs under several threads: the atomic actions of \<open>allocate_block\<close> and
  \<open>deallocate_block\<close> as a step relation, with compare-and-exchange operations that may also fail without reason. An
  allocation that no other thread disturbs is the function of Block\_Pool. What a thread writes to its block changes no other block.
\<close>

unbundle bit_operations_syntax

section \<open>Atomic actions\<close>

text \<open>Where a thread is: outside; before the load of the word number \<open>start + attempt\<close>; in the inner loop with the value it
  has seen; behind a successful exchange that cleared the bit of a block.\<close>

datatype alloc_phase =
    Outside
  | Scanning nat nat
  | Trying nat nat u64
  | Cleared nat nat nat

text \<open>A thread with the numbers of the blocks it holds.\<close>

type_synonym alloc_task = "alloc_phase \<times> nat list"

record race_world =
  aw_pool :: SharedMemoryPool
  aw_tasks :: "alloc_task list"

definition word_at :: "SharedMemoryPool \<Rightarrow> nat \<Rightarrow> nat" where
  "word_at p k = k mod length (sm_free_blocks p)"

definition lowest_block :: "SharedMemoryPool \<Rightarrow> nat \<Rightarrow> u64 \<Rightarrow> nat" where
  "lowest_block p k current = word_at p k * 64 + trailing_zeros current"

text \<open>The successful exchange, and the \<open>fetch_or\<close> of a bit (that is \<open>free_index\<close>).\<close>

definition clear_bit_of :: "nat \<Rightarrow> SharedMemoryPool \<Rightarrow> SharedMemoryPool" where
  "clear_bit_of i p = p \<lparr> sm_free_blocks := (sm_free_blocks p)[i div 64 := sm_free_blocks p ! (i div 64) AND NOT (push_bit (i mod 64) 1)] \<rparr>"

inductive alloc_step :: "SharedMemoryPool \<times> alloc_task \<Rightarrow> SharedMemoryPool \<times> alloc_task \<Rightarrow> bool" where
  enter: "alloc_step (p, Outside, held) (p, Scanning (sm_allocator_head p div 64) 0, held)"
| exhausted: "length (sm_free_blocks p) \<le> a \<Longrightarrow> alloc_step (p, Scanning s a, held) (p, Outside, held)"
| load_word: "a < length (sm_free_blocks p) \<Longrightarrow>
    alloc_step (p, Scanning s a, held) (p, Trying s a (sm_free_blocks p ! word_at p (s + a)), held)"
| empty_word: "alloc_step (p, Trying s a 0, held) (p, Scanning s (Suc a), held)"
| exchange: "current \<noteq> 0 \<Longrightarrow> sm_free_blocks p ! word_at p (s + a) = current \<Longrightarrow> i = lowest_block p (s + a) current \<Longrightarrow>
    alloc_step (p, Trying s a current, held) (clear_bit_of i p, Cleared s a i, held)"
| exchange_failed: "current \<noteq> 0 \<Longrightarrow>
    alloc_step (p, Trying s a current, held) (p, Trying s a (sm_free_blocks p ! word_at p (s + a)), held)"
| put_back: "sm_total_blocks p \<le> i \<Longrightarrow> alloc_step (p, Cleared s a i, held) (free_index i p, Scanning s (Suc a), held)"
| hand_out: "i < sm_total_blocks p \<Longrightarrow>
    alloc_step (p, Cleared s a i, held) (p \<lparr> sm_allocator_head := (i + 1) * 64 \<rparr>, Outside, i # held)"
| give_back: "k < length held \<Longrightarrow>
    alloc_step (p, Outside, held) (free_index (held ! k) p, Outside, take k held @ drop (Suc k) held)"

inductive race_step :: "race_world \<Rightarrow> race_world \<Rightarrow> bool" where
  "t < length (aw_tasks w) \<Longrightarrow> alloc_step (aw_pool w, aw_tasks w ! t) (p, task) \<Longrightarrow>
    race_step w (w \<lparr> aw_pool := p, aw_tasks := (aw_tasks w)[t := task] \<rparr>)"

definition race_start :: "nat \<Rightarrow> SharedMemoryPool \<Rightarrow> race_world" where
  "race_start n p = \<lparr> aw_pool = p, aw_tasks = replicate n (Outside, []) \<rparr>"

inductive_cases race_stepE: "race_step w w'"

section \<open>Lemmas\<close>

text \<open>The blocks that a thread keeps from the others: those it holds and the one it is about to hold.\<close>

fun kept :: "alloc_task \<Rightarrow> nat list" where
  "kept (Cleared s a i, held) = i # held"
| "kept (_, held) = held"

fun in_word :: "nat \<Rightarrow> alloc_task \<Rightarrow> bool" where
  "in_word n (Trying s a current, held) \<longleftrightarrow> a < n"
| "in_word n _ \<longleftrightarrow> True"

definition race_inv :: "race_world \<Rightarrow> bool" where
  "race_inv w \<longleftrightarrow> pool.partition (concat (map kept (aw_tasks w))) (aw_pool w)
    \<and> (\<forall>task \<in> set (aw_tasks w). in_word (length (sm_free_blocks (aw_pool w))) task)"

lemma partition_mset: "mset xs = mset ys \<Longrightarrow> pool.partition xs p = pool.partition ys p"
  by (auto simp: pool.partition_def dest: mset_eq_setD mset_eq_imp_distinct_iff)

lemma mset_kept:
  assumes "t < length tasks" "tasks ! t = old"
  shows "mset (concat (map kept tasks)) = mset (kept old) + mset (concat (map kept (take t tasks @ drop (Suc t) tasks)))"
    "mset (concat (map kept (tasks[t := task]))) = mset (kept task) + mset (concat (map kept (take t tasks @ drop (Suc t) tasks)))"
proof -
  have "tasks = take t tasks @ old # drop (Suc t) tasks" using id_take_nth_drop [OF assms(1)] assms(2) by simp
  then have "mset (concat (map kept tasks)) = mset (concat (map kept (take t tasks @ old # drop (Suc t) tasks)))" by simp
  then show "mset (concat (map kept tasks)) = mset (kept old) + mset (concat (map kept (take t tasks @ drop (Suc t) tasks)))"
    by (simp only: map_append concat_append mset_append list.map concat.simps) (simp add: ac_simps)
  show "mset (concat (map kept (tasks[t := task]))) = mset (kept task) + mset (concat (map kept (take t tasks @ drop (Suc t) tasks)))"
    by (simp only: upd_conv_take_nth_drop [OF assms(1)] map_append concat_append mset_append list.map concat.simps)
      (simp add: ac_simps)
qed

lemma head_ignored [simp]: "free_blocks (p \<lparr> sm_allocator_head := h \<rparr>) = free_blocks p"
  "pool_ok (p \<lparr> sm_allocator_head := h \<rparr>) = pool_ok p"
  by (simp_all add: free_blocks_def pool_ok_def)

lemma clear_bit_free:
  assumes "pool_ok p" "i \<in> free_blocks p"
  shows "free_blocks (clear_bit_of i p) = free_blocks p - {i}" "pool_ok (clear_bit_of i p)"
    "sm_total_blocks (clear_bit_of i p) = sm_total_blocks p"
proof -
  have "taken i p = clear_bit_of i p \<lparr> sm_allocator_head := (i + 1) * 64 \<rparr>" by (simp add: taken_def clear_bit_of_def)
  then show "free_blocks (clear_bit_of i p) = free_blocks p - {i}" "pool_ok (clear_bit_of i p)"
    "sm_total_blocks (clear_bit_of i p) = sm_total_blocks p"
    using taken_free [OF assms] by simp_all
qed

lemma words_kept [simp]: "length (sm_free_blocks (clear_bit_of i p)) = length (sm_free_blocks p)"
  "length (sm_free_blocks (free_index i p)) = length (sm_free_blocks p)"
  by (simp_all add: clear_bit_of_def free_index_def Let_def)

lemma lowest_block_free:
  assumes "pool_ok p" "a < length (sm_free_blocks p)" "current \<noteq> 0" "sm_free_blocks p ! word_at p k = current"
  shows "lowest_block p k current \<in> free_blocks p"
proof -
  note t = trailing_zeros_bit [OF assms(3)]
  have w: "word_at p k < length (sm_free_blocks p)" using assms(2) by (auto simp: word_at_def intro: mod_less_divisor)
  have i: "lowest_block p k current div 64 = word_at p k" "lowest_block p k current mod 64 = trailing_zeros current"
    using t(1) by (simp_all add: lowest_block_def)
  have "lowest_block p k current < sm_total_blocks p"
    using assms(1,4) w t unfolding pool_ok_def lowest_block_def by (metis not_less)
  then show ?thesis using t i assms(4) by (simp add: free_blocks_def)
qed

text \<open>What a step does to the blocks of the other threads: nothing.\<close>

lemma alloc_step_keeps:
  assumes "alloc_step (p, old) (p', task)" "pool.partition (kept old @ others) p" "in_word (length (sm_free_blocks p)) old"
  shows "pool.partition (kept task @ others) p' \<and> length (sm_free_blocks p') = length (sm_free_blocks p)
    \<and> sm_total_blocks p' = sm_total_blocks p \<and> sm_memory_region p' = sm_memory_region p \<and> sm_block_size p' = sm_block_size p
    \<and> in_word (length (sm_free_blocks p)) task"
  using assms
proof (cases rule: alloc_step.cases)
  case (exchange current s a i held)
  have "pool_ok p" using assms(2) by (simp add: pool.partition_def)
  moreover from this have "i \<in> free_blocks p" using exchange assms(3) lowest_block_free by auto
  ultimately show ?thesis
    using clear_bit_free [of p i] exchange assms(2) by (auto simp: pool.partition_def) (auto simp: clear_bit_of_def)
next
  case (put_back i s a held)
  then have "i < sm_total_blocks p" using assms(2) by (auto simp: pool.partition_def)
  then show ?thesis using put_back by simp
next
  case (give_back k held)
  have "pool.partition (take k (held @ others) @ drop (Suc k) (held @ others)) (free_index ((held @ others) ! k) p)
      \<and> sm_total_blocks (free_index ((held @ others) ! k) p) = sm_total_blocks p"
    using assms(2) give_back by (intro pool.partition_dealloc) auto
  then show ?thesis using give_back by (auto simp: nth_append) (auto simp: free_index_def Let_def)
qed (auto simp: pool.partition_def)

lemma race_step_inv:
  assumes "race_step w w'" "race_inv w"
  shows "race_inv w' \<and> sm_total_blocks (aw_pool w') = sm_total_blocks (aw_pool w)
    \<and> sm_memory_region (aw_pool w') = sm_memory_region (aw_pool w) \<and> sm_block_size (aw_pool w') = sm_block_size (aw_pool w)"
proof -
  obtain t p task where w: "t < length (aw_tasks w)" "alloc_step (aw_pool w, aw_tasks w ! t) (p, task)"
      "w' = w \<lparr> aw_pool := p, aw_tasks := (aw_tasks w)[t := task] \<rparr>"
    using assms(1) by (rule race_stepE) blast
  let ?others = "concat (map kept (take t (aw_tasks w) @ drop (Suc t) (aw_tasks w)))"
  note m = mset_kept [OF w(1) refl]
  have "pool.partition (kept (aw_tasks w ! t) @ ?others) (aw_pool w)"
    using assms(2) partition_mset [of "concat (map kept (aw_tasks w))" "kept (aw_tasks w ! t) @ ?others"] m(1)
    by (simp add: race_inv_def)
  moreover have "in_word (length (sm_free_blocks (aw_pool w))) (aw_tasks w ! t)"
    using assms(2) w(1) by (simp add: race_inv_def)
  ultimately have k: "pool.partition (kept task @ ?others) p" "length (sm_free_blocks p) = length (sm_free_blocks (aw_pool w))"
      "in_word (length (sm_free_blocks (aw_pool w))) task" "sm_total_blocks p = sm_total_blocks (aw_pool w)"
      "sm_memory_region p = sm_memory_region (aw_pool w)" "sm_block_size p = sm_block_size (aw_pool w)"
    using alloc_step_keeps [OF w(2)] by blast+
  have "pool.partition (concat (map kept (aw_tasks w'))) p"
    using k(1) partition_mset [of "concat (map kept (aw_tasks w'))" "kept task @ ?others"] m(2) [of task] by (simp add: w(3))
  moreover have "in_word (length (sm_free_blocks p)) tk" if "tk \<in> set (aw_tasks w')" for tk
    using that k(2,3) assms(2) w(3) set_update_subset_insert [of "aw_tasks w" t task] by (auto simp: race_inv_def)
  ultimately show ?thesis using w(3) k(4-6) by (simp add: race_inv_def)
qed

lemma race_reachable:
  assumes "race_step\<^sup>*\<^sup>* (race_start n p) w" "pool_ok p" "free_blocks p = {..<sm_total_blocks p}"
  shows "race_inv w \<and> sm_total_blocks (aw_pool w) = sm_total_blocks p \<and> sm_memory_region (aw_pool w) = sm_memory_region p
    \<and> sm_block_size (aw_pool w) = sm_block_size p"
  using assms(1)
proof (induction rule: rtranclp_induct)
  case base
  have "concat (map kept (replicate n (Outside, []))) = []" by simp
  then show ?case using assms(2,3) by (auto simp: race_inv_def race_start_def pool.partition_def)
next
  case (step w w')
  then show ?case using race_step_inv by metis
qed

text \<open>The blocks that threads have been given, as blocks of the pool.\<close>

definition blocks_held :: "race_world \<Rightarrow> ZeroCopyBlock list" where
  "blocks_held w = concat (map (\<lambda>task. map (block_of (aw_pool w)) (snd task)) (aw_tasks w))"

lemma held_kept: "set (concat (map snd tasks)) \<subseteq> set (concat (map kept tasks))"
  "distinct (concat (map kept tasks)) \<Longrightarrow> distinct (concat (map snd tasks))"
  "\<forall>task \<in> set tasks. fst task = Outside \<Longrightarrow> concat (map kept tasks) = concat (map snd tasks)"
proof -
  have sub: "set (snd task) \<subseteq> set (kept task)" for task by (cases task rule: kept.cases) auto
  then show "set (concat (map snd tasks)) \<subseteq> set (concat (map kept tasks))" for tasks :: "alloc_task list" by fastforce
  then have subs: "set (concat (map snd tasks)) \<subseteq> set (concat (map kept tasks))" for tasks :: "alloc_task list" .
  have dist: "distinct (kept task) \<Longrightarrow> distinct (snd task)" for task by (cases task rule: kept.cases) auto
  show "distinct (concat (map kept tasks)) \<Longrightarrow> distinct (concat (map snd tasks))"
  proof (induction tasks)
    case (Cons task tasks)
    have "set (kept task) \<inter> set (concat (map kept tasks)) = {}" using Cons.prems by auto
    then have "set (snd task) \<inter> set (concat (map snd tasks)) = {}" using sub [of task] subs [of tasks] by blast
    then show ?case using Cons dist [of task] by (simp add: inf_commute)
  qed simp
  show "\<forall>task \<in> set tasks. fst task = Outside \<Longrightarrow> concat (map kept tasks) = concat (map snd tasks)"
    by (induction tasks) auto
qed

section \<open>An allocation alone\<close>

lemma alloc_alone:
  assumes "pool_ok p" "a + n = length (sm_free_blocks p)"
    and "alloc_scan n ((s + a) mod length (sm_free_blocks p)) p = (r, p')"
  shows "alloc_step\<^sup>*\<^sup>* (p, Scanning s a, held) (p', Outside, (case r of None \<Rightarrow> held | Some i \<Rightarrow> i # held))"
  using assms(2,3)
proof (induction n arbitrary: a)
  case 0
  then show ?case by (auto intro: exhausted)
next
  case (Suc n)
  let ?len = "length (sm_free_blocks p)"
  let ?w = "sm_free_blocks p ! word_at p (s + a)"
  let ?i = "lowest_block p (s + a) ?w"
  have a: "a < ?len" using Suc.prems(1) by simp
  have load: "alloc_step (p, Scanning s a, held) (p, Trying s a ?w, held)" by (rule load_word [OF a])
  show ?case
  proof (cases "?w = 0")
    case True
    have "alloc_scan n ((s + Suc a) mod ?len) p = (r, p')"
      using Suc.prems(2) True by (simp add: Let_def word_at_def mod_Suc_eq)
    then have "alloc_step\<^sup>*\<^sup>* (p, Scanning s (Suc a), held) (p', Outside, (case r of None \<Rightarrow> held | Some i \<Rightarrow> i # held))"
      using Suc.IH Suc.prems(1) by simp
    moreover have "alloc_step (p, Trying s a ?w, held) (p, Scanning s (Suc a), held)" unfolding True by (rule empty_word)
    ultimately show ?thesis using load by (meson converse_rtranclp_into_rtranclp)
  next
    case False
    have "?i \<in> free_blocks p" by (rule lowest_block_free [OF assms(1) a False refl])
    then have i: "?i < sm_total_blocks p" by (simp add: free_blocks_def)
    have r: "r = Some ?i" "p' = clear_bit_of ?i p \<lparr> sm_allocator_head := (?i + 1) * 64 \<rparr>"
      using Suc.prems(2) False i trailing_zeros_bit(1) [OF False]
      by (auto simp: Let_def word_at_def lowest_block_def clear_bit_of_def)
    have "alloc_step (p, Trying s a ?w, held) (clear_bit_of ?i p, Cleared s a ?i, held)"
      by (rule exchange [OF False refl refl])
    moreover have "alloc_step (clear_bit_of ?i p, Cleared s a ?i, held) (p', Outside, ?i # held)"
      unfolding r(2) using i by (intro hand_out) (simp add: clear_bit_of_def)
    ultimately show ?thesis using load r(1) by (auto intro: converse_rtranclp_into_rtranclp)
  qed
qed

text \<open>Some run of the atomic actions of one thread is the function \<open>allocate_index\<close>.\<close>

lemma allocation_alone:
  assumes "pool_ok p" "allocate_index p = (r, p')"
  shows "alloc_step\<^sup>*\<^sup>* (p, Outside, held) (p', Outside, (case r of None \<Rightarrow> held | Some i \<Rightarrow> i # held))"
proof -
  have "alloc_step\<^sup>*\<^sup>* (p, Scanning (sm_allocator_head p div 64) 0, held) (p', Outside, (case r of None \<Rightarrow> held | Some i \<Rightarrow> i # held))"
    by (rule alloc_alone [OF assms(1)]) (use assms(2) in \<open>simp_all add: allocate_index_def\<close>)
  then show ?thesis using enter by (meson converse_rtranclp_into_rtranclp)
qed

section \<open>Properties\<close>

lemma blocks_held_numbers: "blocks_held w = map (block_of (aw_pool w)) (concat (map snd (aw_tasks w)))"
  by (simp add: blocks_held_def map_concat o_def)

lemma partition_count:
  assumes "pool.partition held p"
  shows "length held + available_blocks p = sm_total_blocks p"
proof -
  have h: "distinct held" "set held \<inter> free_blocks p = {}" "set held \<union> free_blocks p = {..<sm_total_blocks p}" "pool_ok p"
    using assms by (simp_all add: pool.partition_def)
  have "finite (free_blocks p)" using h(3) by (metis finite_Un finite_lessThan)
  then have "card (set held \<union> free_blocks p) = length held + card (free_blocks p)"
    using h(1,2) by (simp add: card_Un_disjoint distinct_card)
  then show ?thesis using h(3) available_blocks_card [OF h(4)] by simp
qed

lemma length_held: "length (concat (map snd tasks)) \<le> length (concat (map kept tasks))"
proof -
  have "length (snd task) \<le> length (kept task)" for task by (cases task rule: kept.cases) auto
  then show ?thesis by (induction tasks) (auto intro: add_mono)
qed

text \<open>C31 (invariant): no block is given to two threads. However the atomic actions of any number of threads that allocate and return
  blocks of a new pool interleave, and also when exchanges fail without reason, the blocks that the threads hold are different,
  lie inside the mapping and do not overlap, and with the blocks counted as available they are never more than the pool has; when no
  thread is inside an allocation they are all blocks of the pool, so none is lost.\<close>

theorem racing_blocks_exclusive:
  assumes "pool_new (Some base) pool_id region_size block_size = Ok p" "race_step\<^sup>*\<^sup>* (race_start n p) w"
  shows "distinct (blocks_held w)
    \<and> (\<forall>b \<in> set (blocks_held w). base \<le> zb_ptr b \<and> zb_ptr b + unat (zb_size b) \<le> base + unat region_size)
    \<and> (\<forall>b \<in> set (blocks_held w). \<forall>c \<in> set (blocks_held w).
         b = c \<or> zb_ptr b + unat (zb_size b) \<le> zb_ptr c \<or> zb_ptr c + unat (zb_size c) \<le> zb_ptr b)
    \<and> length (blocks_held w) + available_blocks (aw_pool w) \<le> sm_total_blocks p
    \<and> ((\<forall>task \<in> set (aw_tasks w). fst task = Outside) \<longrightarrow> length (blocks_held w) + available_blocks (aw_pool w) = sm_total_blocks p)"
proof -
  note new = pool_new_ok [OF assms(1)]
  let ?kept = "concat (map kept (aw_tasks w))" and ?held = "concat (map snd (aw_tasks w))" and ?p = "aw_pool w"
  have inv: "race_inv w" "sm_total_blocks ?p = sm_total_blocks p" "sm_memory_region ?p = base" "sm_block_size ?p = sm_block_size p"
    using race_reachable [OF assms(2) new(1,2)] new(4) by auto
  have part: "pool.partition ?kept ?p" using inv(1) by (simp add: race_inv_def)
  then have dist: "distinct ?held" and sub: "set ?held \<subseteq> {..<sm_total_blocks p}"
    using held_kept(1,2) [of "aw_tasks w"] inv(2) by (auto simp: pool.partition_def)
  have "distinct (blocks_held w)" using dist by (simp add: blocks_held_numbers distinct_map inj_on_def block_of_inject)
  moreover have "base \<le> zb_ptr (block_of ?p i) \<and> zb_ptr (block_of ?p i) + unat (zb_size (block_of ?p i)) \<le> base + unat region_size"
    if "i \<in> set ?held" for i
    using block_inside [of i ?p "unat region_size"] sub that new(3) inv by (auto simp: block_of_def)
  moreover have "block_of ?p i = block_of ?p j \<or> zb_ptr (block_of ?p i) + unat (zb_size (block_of ?p i)) \<le> zb_ptr (block_of ?p j)
      \<or> zb_ptr (block_of ?p j) + unat (zb_size (block_of ?p j)) \<le> zb_ptr (block_of ?p i)" for i j
    using blocks_apart [of i j ?p] blocks_apart [of j i ?p] by (cases i j rule: linorder_cases) auto
  ultimately have "distinct (blocks_held w)
    \<and> (\<forall>b \<in> set (blocks_held w). base \<le> zb_ptr b \<and> zb_ptr b + unat (zb_size b) \<le> base + unat region_size)
    \<and> (\<forall>b \<in> set (blocks_held w). \<forall>c \<in> set (blocks_held w).
         b = c \<or> zb_ptr b + unat (zb_size b) \<le> zb_ptr c \<or> zb_ptr c + unat (zb_size c) \<le> zb_ptr b)"
    unfolding blocks_held_numbers by (simp add: ball_simps del: set_concat)
  moreover have len: "length (blocks_held w) = length ?held" by (simp only: blocks_held_numbers length_map)
  moreover have "length ?held + available_blocks ?p \<le> sm_total_blocks p"
    using partition_count [OF part] length_held [of "aw_tasks w"] inv(2) by linarith
  moreover have "length ?held + available_blocks ?p = sm_total_blocks p" if "\<forall>task \<in> set (aw_tasks w). fst task = Outside"
    using partition_count [OF part] held_kept(3) [OF that] inv(2) by (simp only:)
  ultimately show ?thesis unfolding len by blast
qed

lemma race_stepI:
  assumes "t < length tasks" "alloc_step (p, tasks ! t) (p', task)"
  shows "race_step \<lparr> aw_pool = p, aw_tasks = tasks \<rparr> \<lparr> aw_pool = p', aw_tasks = tasks[t := task] \<rparr>"
  using race_step.intros [of t "\<lparr> aw_pool = p, aw_tasks = tasks \<rparr>" p' task] assms by simp

definition three_blocks :: "u64 \<Rightarrow> nat \<Rightarrow> SharedMemoryPool" where
  "three_blocks w h = \<lparr> sm_memory_region = 4096, sm_free_blocks = [w], sm_block_size = 128, sm_total_blocks = 3,
    sm_allocator_head = h, sm_pool_id = 7 \<rparr>"

text \<open>Two threads see the same bitmap; the exchange of the second one fails and it takes the next block.\<close>

lemma two_threads:
  "race_step\<^sup>*\<^sup>* (race_start 2 (three_blocks 7 0))
     \<lparr> aw_pool = three_blocks 4 128, aw_tasks = [(Outside, [0]), (Outside, [1])] \<rparr>"
proof -
  let ?W = "\<lambda>w h t0 t1. \<lparr> aw_pool = three_blocks w h, aw_tasks = [t0, t1] \<rparr>"
  note facts = three_blocks_def lowest_block_def word_at_def clear_bit_of_def trailing_zeros_small
  have step0: "race_step\<^sup>*\<^sup>* (?W w h t0 t1) z" if "alloc_step (three_blocks w h, t0) (three_blocks w' h', t0')"
      "race_step\<^sup>*\<^sup>* (?W w' h' t0' t1) z" for w h t0 t1 w' h' t0' z
    by (rule converse_rtranclp_into_rtranclp [OF _ that(2)]) (use race_stepI [of 0 "[t0, t1]" _ _ t0'] that(1) in simp)
  have step1: "race_step\<^sup>*\<^sup>* (?W w h t0 t1) z" if "alloc_step (three_blocks w h, t1) (three_blocks w' h', t1')"
      "race_step\<^sup>*\<^sup>* (?W w' h' t0 t1') z" for w h t0 t1 w' h' t1' z
    by (rule converse_rtranclp_into_rtranclp [OF _ that(2)]) (use race_stepI [of 1 "[t0, t1]" _ _ t1'] that(1) in simp)
  have enter': "alloc_step (three_blocks 7 0, Outside, []) (three_blocks 7 0, Scanning 0 0, [])"
    using enter [of "three_blocks 7 0"] by (simp add: facts)
  have load': "alloc_step (three_blocks 7 0, Scanning 0 0, []) (three_blocks 7 0, Trying 0 0 7, [])"
    using load_word [of 0 "three_blocks 7 0"] by (simp add: facts)
  have first: "alloc_step (three_blocks 7 0, Trying 0 0 7, []) (three_blocks 6 0, Cleared 0 0 0, [])"
    using exchange [of 7 "three_blocks 7 0" 0 0 0] by (simp add: facts)
  have failed: "alloc_step (three_blocks 6 0, Trying 0 0 7, []) (three_blocks 6 0, Trying 0 0 6, [])"
    using exchange_failed [of 7 "three_blocks 6 0" 0 0] by (simp add: facts)
  have second: "alloc_step (three_blocks 6 0, Trying 0 0 6, []) (three_blocks 4 0, Cleared 0 0 1, [])"
    using exchange [of 6 "three_blocks 6 0" 0 0 1] by (simp add: facts)
  have given: "alloc_step (three_blocks 4 0, Cleared 0 0 0, []) (three_blocks 4 64, Outside, [0])"
    "alloc_step (three_blocks 4 64, Cleared 0 0 1, []) (three_blocks 4 128, Outside, [1])"
    using hand_out [of 0 "three_blocks 4 0" 0 0] hand_out [of 1 "three_blocks 4 64" 0 0] by (simp_all add: facts)
  have "race_start 2 (three_blocks 7 0) = ?W 7 0 (Outside, []) (Outside, [])" by (simp add: race_start_def numeral_2_eq_2)
  moreover have "race_step\<^sup>*\<^sup>* (?W 7 0 (Outside, []) (Outside, [])) (?W 4 128 (Outside, [0]) (Outside, [1]))"
    by (rule step0 [OF enter'],
      rule step1 [OF enter'],
      rule step0 [OF load'],
      rule step1 [OF load'],
      rule step0 [OF first],
      rule step1 [OF failed],
      rule step1 [OF second],
      rule step0 [OF given(1)],
      rule step1 [OF given(2)],
      rule rtranclp.rtrancl_refl)
  ultimately show ?thesis by simp
qed

theorem racing_blocks_exclusive_witness:
  "\<exists>p w. pool_new (Some 4096) 7 384 100 = Ok p \<and> race_step\<^sup>*\<^sup>* (race_start 2 p) w
    \<and> map zb_ptr (blocks_held w) = [4096, 4224] \<and> available_blocks (aw_pool w) = 1"
proof -
  let ?w = "\<lparr> aw_pool = three_blocks 4 128, aw_tasks = [(Outside, [0]), (Outside, [1])] \<rparr>"
  have new: "pool_new (Some 4096) 7 384 100 = Ok (three_blocks 7 0)"
    by (simp add: pool_new_def initial_bitmap_def Let_def three_blocks_def)
  have held: "blocks_held ?w = [block_of (three_blocks 4 128) 0, block_of (three_blocks 4 128) 1]" by (simp add: blocks_held_def)
  have "length (blocks_held ?w) + available_blocks (aw_pool ?w) = sm_total_blocks (three_blocks 7 0)"
    using racing_blocks_exclusive [OF new two_threads] by simp
  moreover have "length (blocks_held ?w) = 2" unfolding held by simp
  moreover have "sm_total_blocks (three_blocks 7 0) = 3" by (simp add: three_blocks_def)
  ultimately have "available_blocks (aw_pool ?w) = 1" by linarith
  moreover have "map zb_ptr (blocks_held ?w) = [4096, 4224]" unfolding held by (simp add: block_of_def three_blocks_def)
  ultimately show ?thesis
    by (intro exI [where x = "three_blocks 7 0"] exI [where x = ?w] conjI new two_threads)
qed

section \<open>Writing to the blocks\<close>

lemma held_apart:
  assumes "b \<in> set (blocks_held w)" "c \<in> set (blocks_held w)" "b \<noteq> c"
  shows "zb_ptr b + unat (zb_size b) \<le> zb_ptr c \<or> zb_ptr c + unat (zb_size c) \<le> zb_ptr b"
proof -
  obtain i j where ij: "b = block_of (aw_pool w) i" "c = block_of (aw_pool w) j"
    using assms(1,2) unfolding blocks_held_numbers set_map by blast
  then have "i \<noteq> j" using assms(3) by auto
  then show ?thesis
    using blocks_apart [of i j "aw_pool w"] blocks_apart [of j i "aw_pool w"] unfolding ij by linarith
qed

text \<open>C32 (safety): a thread's data stays in its block. Whatever threads allocate and return blocks of a new pool, a thread that
  writes at most the size of its block into it reads its data back, and the bytes of every block that another thread
  holds stay as they are, although the copy can write up to 31 bytes more than the data; the source of the data must lie outside
  the block.\<close>

theorem racing_writes_apart:
  assumes "pool_new (Some base) pool_id region_size block_size = Ok p" "race_step\<^sup>*\<^sup>* (race_start n p) w"
    and "b \<in> set (blocks_held w)" "len \<le> unat (zb_size b)" "apart (zb_ptr b) data (unat (zb_size b))"
  shows "\<exists>m'. write_bytes avx512 b data len m = Ok m' \<and> read_bytes b len m' = Ok (load m data len)
    \<and> (\<forall>c \<in> set (blocks_held w) - {b}. block_as_slice c m' = block_as_slice c m)"
proof -
  note new = pool_new_ok [OF assms(1)]
  have "zb_size b = sm_block_size p"
    using assms(3) race_reachable [OF assms(2) new(1,2)] unfolding blocks_held_numbers by (auto simp: block_of_def)
  then have "64 dvd unat (zb_size b)" using pool_new_size [OF assms(1)] by simp
  from block_write [OF this assms(4,5)] obtain m' where m': "write_bytes avx512 b data len m = Ok m'"
    "read_bytes b len m' = Ok (load m data len)" "\<forall>x. x < zb_ptr b \<or> zb_ptr b + unat (zb_size b) \<le> x \<longrightarrow> m' x = m x" by blast
  have "block_as_slice c m' = block_as_slice c m" if c: "c \<in> set (blocks_held w)" "c \<noteq> b" for c
    using held_apart [OF assms(3) c(1)] c(2) m'(3) unfolding block_as_slice_def by (intro load_cong) force
  then show ?thesis using m'(1,2) by auto
qed

theorem racing_writes_apart_witness:
  "\<exists>m'. write_bytes False (block_of (three_blocks 4 128) 0) 0 5 (buffer_at 0 [1, 2, 3, 4, 5]) = Ok m'
    \<and> read_bytes (block_of (three_blocks 4 128) 0) 5 m' = Ok [1, 2, 3, 4, 5]
    \<and> block_as_slice (block_of (three_blocks 4 128) 1) m' = block_as_slice (block_of (three_blocks 4 128) 1) (buffer_at 0 [1, 2, 3, 4, 5])"
proof -
  let ?w = "\<lparr> aw_pool = three_blocks 4 128, aw_tasks = [(Outside, [0]), (Outside, [1])] \<rparr>"
  have new: "pool_new (Some 4096) 7 384 100 = Ok (three_blocks 7 0)"
    by (simp add: pool_new_def initial_bitmap_def Let_def three_blocks_def)
  have held: "block_of (three_blocks 4 128) 0 \<in> set (blocks_held ?w)"
    "block_of (three_blocks 4 128) 1 \<in> set (blocks_held ?w) - {block_of (three_blocks 4 128) 0}"
    by (simp_all add: blocks_held_def block_of_inject)
  have "load (buffer_at 0 [1, 2, 3, 4, 5]) 0 5 = [1, 2, 3, 4, 5]"
    by (simp add: buffer_at_def load_store_prefix)
  then show ?thesis
    using racing_writes_apart [OF new two_threads held(1), of 5 0 False "buffer_at 0 [1, 2, 3, 4, 5]"] held(2)
    by (force simp: block_of_def three_blocks_def apart_def)
qed

end
