(* ===== verification/Cache_Race.thy ===== *)
theory Cache_Race
  imports Caches
begin

text \<open>
  The caches of common/fast\_fn.rs and trading/common/compute\_budget\_manager.rs under several threads. A lookup and an
  insertion of the concurrent map are atomic, the computation between them is not: other threads may answer and insert
  the same key meanwhile. The instruction cache holds its entry from the lookup to the insertion, so its call is one
  atomic action and is not part of this theory.
\<close>

section \<open>Atomic actions\<close>

datatype cache_call = PdaCall PdaCacheKey | AtaCall AtaCacheKey | BudgetCall ComputeBudgetCacheKey

datatype cache_answer =
    PdaAnswer "pubkey option"
  | AtaAnswer "(pubkey, string) outcome"
  | BudgetAnswer "Instruction list"

text \<open>The lookup, what is computed when it fails, and the insertion of the result.\<close>

fun cached_answer :: "caches \<Rightarrow> cache_call \<Rightarrow> cache_answer option" where
  "cached_answer c (PdaCall k) = map_option (\<lambda>a. PdaAnswer (Some a)) (pda_cache c k)"
| "cached_answer c (AtaCall k) = map_option (\<lambda>a. AtaAnswer (Ok a)) (ata_cache c k)"
| "cached_answer c (BudgetCall k) = map_option BudgetAnswer (compute_budget_cache c k)"

fun computed_answer :: "extern \<Rightarrow> cache_call \<Rightarrow> cache_answer" where
  "computed_answer X (PdaCall k) = PdaAnswer (pda_of X k)"
| "computed_answer X (AtaCall k) = AtaAnswer (ata_compute X k)"
| "computed_answer X (BudgetCall k) = BudgetAnswer (cb_compute X k)"

fun insert_answer :: "cache_call \<Rightarrow> cache_answer \<Rightarrow> caches \<Rightarrow> caches" where
  "insert_answer (PdaCall k) (PdaAnswer (Some a)) c = c \<lparr> pda_cache := (pda_cache c)(k \<mapsto> a) \<rparr>"
| "insert_answer (AtaCall k) (AtaAnswer (Ok a)) c = c \<lparr> ata_cache := (ata_cache c)(k \<mapsto> a) \<rparr>"
| "insert_answer (BudgetCall k) (BudgetAnswer ixs) c = c \<lparr> compute_budget_cache := (compute_budget_cache c)(k \<mapsto> ixs) \<rparr>"
| "insert_answer _ _ c = c"

datatype cache_task = Calling cache_call | Computing cache_call | Answered cache_call cache_answer

inductive lookup_step :: "extern \<Rightarrow> caches \<times> cache_task \<Rightarrow> caches \<times> cache_task \<Rightarrow> bool" for X :: extern where
  lookup_hit: "cached_answer c call = Some a \<Longrightarrow> lookup_step X (c, Calling call) (c, Answered call a)"
| lookup_miss: "cached_answer c call = None \<Longrightarrow> lookup_step X (c, Calling call) (c, Computing call)"
| lookup_insert: "a = computed_answer X call \<Longrightarrow>
    lookup_step X (c, Computing call) (insert_answer call a c, Answered call a)"

inductive caches_step :: "extern \<Rightarrow> caches \<times> cache_task list \<Rightarrow> caches \<times> cache_task list \<Rightarrow> bool" for X :: extern where
  "i < length ts \<Longrightarrow> lookup_step X (c, ts ! i) (c', t) \<Longrightarrow> caches_step X (c, ts) (c', ts[i := t])"

inductive_cases lookup_stepE: "lookup_step X (c, t) (c', t')"
inductive_cases caches_stepE: "caches_step X (c, ts) (c', ts')"

section \<open>Lemmas\<close>

fun task_call :: "cache_task \<Rightarrow> cache_call" where
  "task_call (Calling call) = call"
| "task_call (Computing call) = call"
| "task_call (Answered call a) = call"

fun task_right :: "extern \<Rightarrow> cache_task \<Rightarrow> bool" where
  "task_right X (Answered call a) \<longleftrightarrow> a = computed_answer X call"
| "task_right X _ \<longleftrightarrow> True"

fun steps_left :: "cache_task \<Rightarrow> nat" where
  "steps_left (Calling call) = 2"
| "steps_left (Computing call) = 1"
| "steps_left (Answered call a) = 0"

lemma cached_right:
  assumes "coherent X rs c" "cached_answer c call = Some a"
  shows "a = computed_answer X call"
  using assms by (cases call) (auto simp: coherent_def agrees_defs)

lemma insert_coherent:
  assumes "coherent X rs c"
  shows "coherent X rs (insert_answer call (computed_answer X call) c)"
  using assms by (cases "(call, computed_answer X call, c)" rule: insert_answer.cases) (auto simp: coherent_def agrees_defs split: if_splits)

lemma lookup_step_keeps:
  assumes "lookup_step X (c, t) (c', t')" "coherent X rs c"
  shows "coherent X rs c' \<and> task_right X t' \<and> task_call t' = task_call t \<and> steps_left t' < steps_left t"
  using assms(1) by (rule lookup_stepE) (use assms(2) cached_right insert_coherent in auto)

text \<open>A thread alone computes the function of Caches.\<close>

fun call_alone :: "extern \<Rightarrow> cache_call \<Rightarrow> caches \<Rightarrow> caches \<times> cache_answer" where
  "call_alone X (PdaCall k) c = (case get_cached_pda k (pda_of X k) c of (r, c') \<Rightarrow> (c', PdaAnswer r))"
| "call_alone X (AtaCall k) c = (case ata_get k (ata_compute X k) c of (r, c') \<Rightarrow> (c', AtaAnswer r))"
| "call_alone X (BudgetCall k) c = (case cb_get k (cb_compute X k) c of (r, c') \<Rightarrow> (c', BudgetAnswer r))"

lemma call_alone_cases:
  "call_alone X call c = (case cached_answer c call of Some a \<Rightarrow> (c, a)
     | None \<Rightarrow> (insert_answer call (computed_answer X call) c, computed_answer X call))"
  by (cases call) (auto simp: get_cached_pda_def ata_get_def cb_get_def split: option.splits outcome.splits)

lemma lookup_alone:
  assumes "call_alone X call c = (c', a)"
  shows "(lookup_step X)\<^sup>*\<^sup>* (c, Calling call) (c', Answered call a)"
proof (cases "cached_answer c call")
  case None
  then have "lookup_step X (c, Computing call) (c', Answered call a)"
    using assms lookup_insert by (auto simp: call_alone_cases)
  then show ?thesis using lookup_miss [OF None] by (meson converse_rtranclp_into_rtranclp r_into_rtranclp)
next
  case (Some b)
  then show ?thesis using assms lookup_hit [OF Some, of X] by (simp add: call_alone_cases)
qed

lemma caches_step_keeps:
  assumes "caches_step X (c, ts) (c', ts')" "coherent X rs c" "list_all (task_right X) ts"
  shows "coherent X rs c' \<and> list_all (task_right X) ts' \<and> map task_call ts' = map task_call ts
    \<and> sum_list (map steps_left ts') < sum_list (map steps_left ts)"
  using assms(1)
proof (rule caches_stepE)
  fix i t
  assume i: "i < length ts" "ts' = ts[i := t]" and step: "lookup_step X (c, ts ! i) (c', t)"
  note k = lookup_step_keeps [OF step assms(2)]
  have "map task_call ts' = map task_call ts"
    using k i by (simp add: map_update list_update_same_conv)
  moreover have "sum_list (map steps_left ts') < sum_list (map steps_left ts)"
  proof -
    have "steps_left (ts ! i) \<le> sum_list (map steps_left ts)"
      using i(1) elem_le_sum_list [of i "map steps_left ts"] by simp
    moreover have "sum_list (map steps_left ts') = sum_list (map steps_left ts) + steps_left t - steps_left (ts ! i)"
      using i by (simp add: map_update sum_list_update)
    ultimately show ?thesis using k by linarith
  qed
  ultimately show ?thesis
    using k i assms(3) by (auto simp: list_all_length nth_list_update)
qed

lemma caches_reachable:
  assumes "(caches_step X)\<^sup>*\<^sup>* (c, map Calling calls) s" "coherent X rs c"
  shows "case s of (c', ts) \<Rightarrow> coherent X rs c' \<and> list_all (task_right X) ts \<and> map task_call ts = calls"
  using assms(1)
proof (induction rule: rtranclp_induct)
  case base
  have "list_all (task_right X) (map Calling calls)" by (simp add: list_all_iff)
  then show ?case using assms(2) by (simp add: o_def)
next
  case (step s s')
  then show ?case using caches_step_keeps by (cases s; cases s') (simp, metis)
qed

lemma caches_steps_count:
  assumes "(caches_step X ^^ n) (c, ts) (c', ts')" "coherent X rs c" "list_all (task_right X) ts"
  shows "n + sum_list (map steps_left ts') \<le> sum_list (map steps_left ts)"
  using assms
proof (induction n arbitrary: c ts)
  case (Suc n)
  obtain d us where d: "caches_step X (c, ts) (d, us)" "(caches_step X ^^ n) (d, us) (c', ts')"
    using relpowp_Suc_D2 [OF Suc.prems(1)] by auto
  note k = caches_step_keeps [OF d(1) Suc.prems(2,3)]
  have "n + sum_list (map steps_left ts') \<le> sum_list (map steps_left us)" using Suc.IH [OF d(2)] k by blast
  then show ?case using k by linarith
qed simp

lemma step_possible: "\<exists>c' t'. lookup_step X (c, t) (c', t')" if "\<forall>call a. t \<noteq> Answered call a"
proof (cases t)
  case (Calling call)
  then show ?thesis by (cases "cached_answer c call") (auto intro: lookup_step.intros)
qed (use that in \<open>auto intro: lookup_step.intros\<close>)

section \<open>Properties\<close>

text \<open>C19 (invariant): the caches cannot be told from the computation, also by threads that race. From every coherent state, however
  the lookups, computations and insertions of any number of calls interleave, the caches stay coherent and every call that has
  been answered has the answer that is computed without a cache; the calls never block each other, and after at
  most two actions for each call all are answered.\<close>

theorem racing_lookups_agree:
  assumes "coherent X rs c" "(caches_step X)\<^sup>*\<^sup>* (c, map Calling calls) (c', ts)"
  shows "coherent X rs c'
    \<and> (\<forall>i < length ts. \<forall>call a. ts ! i = Answered call a \<longrightarrow> call = calls ! i \<and> a = computed_answer X call)
    \<and> ((\<exists>s. caches_step X (c', ts) s) \<or> (\<forall>t \<in> set ts. \<exists>call a. t = Answered call a))
    \<and> (\<forall>n s. (caches_step X ^^ n) (c, map Calling calls) s \<longrightarrow> n \<le> 2 * length calls)"
proof (intro conjI)
  have inv: "coherent X rs c'" "list_all (task_right X) ts" "map task_call ts = calls"
    using caches_reachable [OF assms(2,1)] by simp_all
  then show "coherent X rs c'" by simp
  show "\<forall>i < length ts. \<forall>call a. ts ! i = Answered call a \<longrightarrow> call = calls ! i \<and> a = computed_answer X call"
    using inv(2,3) by (auto simp: list_all_length)
  show "(\<exists>s. caches_step X (c', ts) s) \<or> (\<forall>t \<in> set ts. \<exists>call a. t = Answered call a)"
    using step_possible [where X = X and c = c'] caches_step.intros by (metis in_set_conv_nth)
  have start: "list_all (task_right X) (map Calling calls)" by (simp add: list_all_iff)
  have "sum_list (map steps_left (map Calling calls)) = 2 * length calls" by (induction calls) simp_all
  then show "\<forall>n s. (caches_step X ^^ n) (c, map Calling calls) s \<longrightarrow> n \<le> 2 * length calls"
    using caches_steps_count [OF _ assms(1) start] by fastforce
qed

text \<open>Two threads ask for one address at once; both miss, and both insert it.\<close>

lemma two_misses:
  assumes "pda_of X k = Some a"
  shows "(caches_step X)\<^sup>*\<^sup>* (empty_caches, map Calling [PdaCall k, PdaCall k])
    (empty_caches \<lparr> pda_cache := [k \<mapsto> a] \<rparr>, replicate 2 (Answered (PdaCall k) (PdaAnswer (Some a))))"
proof -
  let ?call = "Calling (PdaCall k)" and ?comp = "Computing (PdaCall k)" and ?done = "Answered (PdaCall k) (PdaAnswer (Some a))"
  let ?c = "empty_caches \<lparr> pda_cache := [k \<mapsto> a] \<rparr>"
  have miss: "lookup_step X (empty_caches, ?call) (empty_caches, ?comp)"
    by (rule lookup_miss) (simp add: empty_caches_def)
  have ins: "lookup_step X (c, ?comp) (c \<lparr> pda_cache := (pda_cache c)(k \<mapsto> a) \<rparr>, ?done)" for c
    using lookup_insert [of "PdaAnswer (Some a)" X "PdaCall k" c] assms by simp
  have "caches_step X (empty_caches, [?call, ?call]) (empty_caches, [?comp, ?call])"
    using caches_step.intros [of 0 "[?call, ?call]" X empty_caches] miss by simp
  moreover have "caches_step X (empty_caches, [?comp, ?call]) (empty_caches, [?comp, ?comp])"
    using caches_step.intros [of 1 "[?comp, ?call]" X empty_caches] miss by simp
  moreover have "caches_step X (empty_caches, [?comp, ?comp]) (?c, [?done, ?comp])"
    using caches_step.intros [of 0 "[?comp, ?comp]" X empty_caches] ins [of empty_caches] by (simp add: empty_caches_def)
  moreover have "caches_step X (?c, [?done, ?comp]) (?c, [?done, ?done])"
    using caches_step.intros [of 1 "[?done, ?comp]" X ?c] ins [of ?c] by simp
  ultimately have "(caches_step X)\<^sup>*\<^sup>* (empty_caches, [?call, ?call]) (?c, [?done, ?done])"
    by (meson converse_rtranclp_into_rtranclp rtranclp.rtrancl_refl)
  then show ?thesis by (simp add: numeral_2_eq_2)
qed

theorem racing_lookups_agree_witness:
  "\<exists>c. coherent sample_extern initial_rents (c :: caches) \<and> (caches_step sample_extern)\<^sup>*\<^sup>*
      (empty_caches, map Calling [PdaCall (PumpFunBondingCurve 77), PdaCall (PumpFunBondingCurve 77)])
      (c, replicate 2 (Answered (PdaCall (PumpFunBondingCurve 77)) (PdaAnswer (bonding_curve_pda sample_extern 77))))"
proof -
  obtain a where a: "bonding_curve_pda sample_extern 77 = Some a"
    by (simp add: bonding_curve_pda_def derive_def sample_extern_def)
  note run = two_misses [of sample_extern "PumpFunBondingCurve 77" a]
  show ?thesis using run a racing_lookups_agree [OF coherent_empty run] by auto
qed

end
