(* ===== verification/Posted.thy ===== *)
theory Posted
  imports Relayed Relay_Clients
begin

text \<open>
  A trade together with the relay clients it submits through: what leaves the machine. The submission of a trade is the
  \<open>send_transaction\<close> of the clients over a network; that nothing leaves but messages that carry transactions of
  a given form is again an equivalence, of two networks that agree on these messages.
\<close>

section \<open>Submission through the relay clients\<close>

text \<open>The state of the buffer pool may differ from call to call. A task whose submission panics reports nothing; what
  that looks like to the waiting loop is the parameter \<open>panicked\<close>.\<close>

definition relay_send ::
  "(sdk_error + unit) \<Rightarrow> (swqos_client \<Rightarrow> VersionedTransaction \<Rightarrow> ZeroAllocSerializer) \<Rightarrow> relay_net \<Rightarrow> send_fn" where
  "relay_send panicked pools N = (\<lambda>client ty tx wait.
    case fst (send_transaction N client tx wait (pools client tx)) of
      Ok _ \<Rightarrow> Inr () | Err e \<Rightarrow> Inl e | Panic \<Rightarrow> panicked)"

lemma relay_send_same:
  assumes "\<And>c tx. P tx \<Longrightarrow> same_channels N M c tx"
  shows "same_network P ty (relay_send panicked pools N) (relay_send panicked pools (with_channels N M))"
  using posts_own [OF assms] by (simp add: same_network_def relay_send_def)

text \<open>The trade posts nothing but messages that carry transactions of the form \<open>P\<close>.\<close>

definition posts_only ::
  "(world \<Rightarrow> tx_state \<Rightarrow> 'r) \<Rightarrow> world \<Rightarrow> (relay_net \<Rightarrow> send_fn) \<Rightarrow> relay_net \<Rightarrow> (VersionedTransaction \<Rightarrow> bool) \<Rightarrow> tx_state \<Rightarrow> bool" where
  "posts_only trade W send N P s \<longleftrightarrow> (\<forall>M. (\<forall>c tx. P tx \<longrightarrow> same_channels N M c tx) \<longrightarrow>
     trade (W \<lparr> w_send := send N \<rparr>) s = trade (W \<lparr> w_send := send (with_channels N M) \<rparr>) s)"

lemma sends_only_posts:
  assumes "sends_only trade (W \<lparr> w_send := relay_send panicked pools N \<rparr>) ty P s"
  shows "posts_only trade W (relay_send panicked pools) N P s"
  using assms relay_send_same [of P N _ ty panicked pools] by (simp add: sends_only_def posts_only_def)

section \<open>Properties\<close>


text \<open>A network whose node refuses transactions without instructions.\<close>

definition picky_net :: relay_net where
  "picky_net = sample_net \<lparr> rl_rpc_send := \<lambda>url tx. if msg_instructions (tx_message tx) = [] then Inl ''empty'' else Inr 9 \<rparr>"


end
