(* ===== verification/Protocol_Fast.thy ===== *)
theory Protocol_Fast
  imports Simd_Memory Prices
begin

text \<open>
  perf/protocol\_optimization.rs: the serializer that writes an event through raw pointers, its cache of serialized
  events, the buffer write with and without bounds check, the table of routes and the counters. Memory is the
  state, so that copies of too many bytes show their effect. The file is not declared in perf/mod.rs. The event type of
  the fzstream crate is a record of the fields that are read; the two encoders of bincode and serde\_json and
  the debug text of an event type are parameters.
\<close>

section \<open>Events and settings\<close>

datatype event_type = BlockMeta | PumpFunBuy | OtherEvent nat

datatype SerializationProtocol = Bincode | JSON | AutoProtocol

text \<open>The two byte strings of an event with their addresses.\<close>

record event_message =
  em_event_id :: "u8 list"
  em_event_id_ptr :: nat
  em_event_type :: event_type
  em_data :: "u8 list"
  em_data_ptr :: nat
  em_timestamp :: u64
  em_format :: SerializationProtocol

record event_codec =
  ec_bincode :: "event_message \<Rightarrow> string + u8 list"
  ec_json :: "event_message \<Rightarrow> string + u8 list"
  ec_show_type :: "event_type \<Rightarrow> u8 list"

record ProtocolOptimizationConfig =
  po_enable_quic_fast_path :: bool
  po_skip_integrity_checks :: bool
  po_skip_error_recovery :: bool
  po_enable_unchecked_buffers :: bool
  po_enable_inline_serialization :: bool
  po_enable_batch_processing :: bool
  po_max_batch_size :: nat
  po_enable_preallocation :: bool
  po_enable_raw_pointer_ops :: bool

definition protocol_config_default :: ProtocolOptimizationConfig where
  "protocol_config_default = \<lparr> po_enable_quic_fast_path = True, po_skip_integrity_checks = True,
     po_skip_error_recovery = False, po_enable_unchecked_buffers = True, po_enable_inline_serialization = True,
     po_enable_batch_processing = True, po_max_batch_size = 1000, po_enable_preallocation = True,
     po_enable_raw_pointer_ops = True \<rparr>"

definition extreme_optimization_config :: ProtocolOptimizationConfig where
  "extreme_optimization_config = \<lparr> po_enable_quic_fast_path = True, po_skip_integrity_checks = True,
     po_skip_error_recovery = True, po_enable_unchecked_buffers = True, po_enable_inline_serialization = True,
     po_enable_batch_processing = True, po_max_batch_size = 10000, po_enable_preallocation = True,
     po_enable_raw_pointer_ops = True \<rparr>"

record ProtocolOptimizationStats =
  ps_fast_path_hits :: u64
  ps_slow_path_hits :: u64
  ps_checks_skipped :: u64
  ps_batch_operations :: u64
  ps_unchecked_operations :: u64
  ps_inline_operations :: u64

record RouteInfo =
  ri_endpoint :: string
  ri_connection_id :: u64
  ri_last_used :: u64

text \<open>The cache's map of hashes is never written, and its flag never read; both are left out.\<close>

record ProtocolStackOptimizer =
  op_config :: ProtocolOptimizationConfig
  op_stats :: ProtocolOptimizationStats
  op_serialization_cache :: "u8 list \<rightharpoonup> u8 list"
  op_routing_cache :: "string \<rightharpoonup> RouteInfo"

definition optimizer_new :: "ProtocolOptimizationConfig \<Rightarrow> ProtocolStackOptimizer" where
  "optimizer_new config = \<lparr> op_config = config,
     op_stats = \<lparr> ps_fast_path_hits = 0, ps_slow_path_hits = 0, ps_checks_skipped = 0, ps_batch_operations = 0,
       ps_unchecked_operations = 0, ps_inline_operations = 0 \<rparr>,
     op_serialization_cache = Map.empty, op_routing_cache = Map.empty \<rparr>"

text \<open>The counters that are increased.\<close>

definition count_fast :: "ProtocolStackOptimizer \<Rightarrow> ProtocolStackOptimizer" where
  "count_fast self = self \<lparr> op_stats := (op_stats self) \<lparr> ps_fast_path_hits := ps_fast_path_hits (op_stats self) + 1 \<rparr> \<rparr>"

definition count_slow :: "ProtocolStackOptimizer \<Rightarrow> ProtocolStackOptimizer" where
  "count_slow self = self \<lparr> op_stats := (op_stats self) \<lparr> ps_slow_path_hits := ps_slow_path_hits (op_stats self) + 1 \<rparr> \<rparr>"

definition count_skipped :: "u64 \<Rightarrow> ProtocolStackOptimizer \<Rightarrow> ProtocolStackOptimizer" where
  "count_skipped n self = (if po_skip_integrity_checks (op_config self)
     then self \<lparr> op_stats := (op_stats self) \<lparr> ps_checks_skipped := ps_checks_skipped (op_stats self) + n \<rparr> \<rparr> else self)"

definition count_batch :: "ProtocolStackOptimizer \<Rightarrow> ProtocolStackOptimizer" where
  "count_batch self = self \<lparr> op_stats := (op_stats self) \<lparr> ps_batch_operations := ps_batch_operations (op_stats self) + 1 \<rparr> \<rparr>"

definition count_unchecked :: "ProtocolStackOptimizer \<Rightarrow> ProtocolStackOptimizer" where
  "count_unchecked self =
    self \<lparr> op_stats := (op_stats self) \<lparr> ps_unchecked_operations := ps_unchecked_operations (op_stats self) + 1 \<rparr> \<rparr>"

definition count_inline :: "ProtocolStackOptimizer \<Rightarrow> ProtocolStackOptimizer" where
  "count_inline self =
    self \<lparr> op_stats := (op_stats self) \<lparr> ps_inline_operations := ps_inline_operations (op_stats self) + 1 \<rparr> \<rparr>"

section \<open>Serialization\<close>

abbreviation u32_le :: "u32 \<Rightarrow> u8 list" where
  "u32_le \<equiv> le_bytes 4"

text \<open>A buffer is an address and a length.\<close>

definition event_type_byte :: "event_type \<Rightarrow> u8" where
  "event_type_byte ty = (case ty of BlockMeta \<Rightarrow> 0 | PumpFunBuy \<Rightarrow> 1 | OtherEvent _ \<Rightarrow> 255)"

text \<open>The bytes through the raw pointer: stores of four, one, four and eight bytes, and the dispatching copy for
  the two byte strings.\<close>

definition inline_serialize_unchecked ::
  "bool \<Rightarrow> event_message \<Rightarrow> nat \<Rightarrow> (memory \<times> ProtocolStackOptimizer, nat, string) stateful" where
  "inline_serialize_unchecked avx512 event buffer = (\<lambda>(m, self).
    let offset = 0; event_id_len = length (em_event_id event);
        m1 = store m (buffer + offset) (u32_le (word_of_nat event_id_len)); offset = offset + 4
    in case memcpy_simd_optimized avx512 m1 (buffer + offset) (em_event_id_ptr event) event_id_len of
      Err e \<Rightarrow> (Err e, m1, self)
    | Panic \<Rightarrow> (Panic, m1, self)
    | Ok m2 \<Rightarrow>
        let offset = offset + event_id_len;
            m3 = store m2 (buffer + offset) [event_type_byte (em_event_type event)]; offset = offset + 1;
            data_len = length (em_data event);
            m4 = store m3 (buffer + offset) (u32_le (word_of_nat data_len)); offset = offset + 4
        in case (if data_len > 0 then memcpy_simd_optimized avx512 m4 (buffer + offset) (em_data_ptr event) data_len
                 else Ok m4) of
          Err e \<Rightarrow> (Err e, m4, self)
        | Panic \<Rightarrow> (Panic, m4, self)
        | Ok m5 \<Rightarrow>
            let offset = offset + data_len;
                m6 = store m5 (buffer + offset) (u64_le (em_timestamp event)); offset = offset + 8
            in (Ok offset, m6, count_skipped 5 self))"

definition err_buffer_small :: string where "err_buffer_small = ''Buffer too small''"

definition put_serialized :: "u8 list \<Rightarrow> nat \<Rightarrow> nat \<Rightarrow> memory \<Rightarrow> (nat, string) outcome \<times> memory" where
  "put_serialized serialized buffer buffer_len m =
    (if length serialized \<le> buffer_len then (Ok (length serialized), store m buffer serialized)
     else (Err err_buffer_small, m))"

definition fast_bincode_serialize :: "event_codec \<Rightarrow> event_message \<Rightarrow> nat \<Rightarrow> nat \<Rightarrow> memory \<Rightarrow> (nat, string) outcome \<times> memory" where
  "fast_bincode_serialize C event buffer buffer_len m =
    (case ec_bincode C event of
       Inl e \<Rightarrow> (Err (''Bincode serialization failed: '' @ e), m)
     | Inr serialized \<Rightarrow> put_serialized serialized buffer buffer_len m)"

definition fast_json_serialize :: "event_codec \<Rightarrow> event_message \<Rightarrow> nat \<Rightarrow> nat \<Rightarrow> memory \<Rightarrow> (nat, string) outcome \<times> memory" where
  "fast_json_serialize C event buffer buffer_len m =
    (case ec_json C event of
       Inl e \<Rightarrow> (Err (''JSON serialization failed: '' @ e), m)
     | Inr json_bytes \<Rightarrow> put_serialized json_bytes buffer buffer_len m)"

definition fast_serialize_event :: "event_codec \<Rightarrow> event_message \<Rightarrow> nat \<Rightarrow> nat \<Rightarrow> memory \<Rightarrow> (nat, string) outcome \<times> memory" where
  "fast_serialize_event C event buffer buffer_len m =
    (case em_format event of
       Bincode \<Rightarrow> fast_bincode_serialize C event buffer buffer_len m
     | JSON \<Rightarrow> fast_json_serialize C event buffer buffer_len m
     | AutoProtocol \<Rightarrow>
         if length (em_data event) < 1024 then fast_json_serialize C event buffer buffer_len m
         else fast_bincode_serialize C event buffer buffer_len m)"

definition event_cache_key :: "event_codec \<Rightarrow> event_message \<Rightarrow> u8 list" where
  "event_cache_key C event = em_event_id event @ str_bytes ''_'' @ ec_show_type C (em_event_type event)"

text \<open>The inline path ignores the length of the buffer.\<close>

definition serialize_event_unchecked ::
  "bool \<Rightarrow> event_codec \<Rightarrow> event_message \<Rightarrow> nat \<times> nat \<Rightarrow> (memory \<times> ProtocolStackOptimizer, nat, string) stateful" where
  "serialize_event_unchecked avx512 C event = (\<lambda>(buffer, buffer_len) (m, self).
    let self = count_unchecked self
    in if po_enable_inline_serialization (op_config self)
       then inline_serialize_unchecked avx512 event buffer (m, count_inline self)
       else
         let key = event_cache_key C event;
             slow = (case fast_serialize_event C event buffer buffer_len m of
                 (Ok n, m') \<Rightarrow> (Ok n, m', if n < 4096
                    then self \<lparr> op_serialization_cache := (op_serialization_cache self)(key \<mapsto> load m' buffer n) \<rparr>
                    else self)
               | (Err e, m') \<Rightarrow> (Err e, m', self)
               | (Panic, m') \<Rightarrow> (Panic, m', self))
         in case op_serialization_cache self key of
              Some cached \<Rightarrow>
                if buffer_len \<ge> length cached
                then (Ok (length cached), store m buffer cached, count_fast self)
                else slow
            | None \<Rightarrow> slow)"

definition err_mismatch :: string where "err_mismatch = ''Events and buffers length mismatch''"

fun serialize_each ::
  "bool \<Rightarrow> event_codec \<Rightarrow> (event_message \<times> nat \<times> nat) list \<Rightarrow> (memory \<times> ProtocolStackOptimizer, nat list, string) stateful" where
  "serialize_each avx512 C [] = sret []"
| "serialize_each avx512 C ((event, buffer) # rest) =
    sbind (serialize_event_unchecked avx512 C event buffer) (\<lambda>n.
    sbind (serialize_each avx512 C rest) (\<lambda>sizes. sret (n # sizes)))"

definition process_events_batch ::
  "bool \<Rightarrow> event_codec \<Rightarrow> event_message list \<Rightarrow> (nat \<times> nat) list \<Rightarrow> (memory \<times> ProtocolStackOptimizer, nat list, string) stateful" where
  "process_events_batch avx512 C events output_buffers = (\<lambda>(m, self).
    if length events \<noteq> length output_buffers then (Err err_mismatch, m, self)
    else serialize_each avx512 C (zip events output_buffers) (m, count_batch self))"

section \<open>Sending, writing and routing\<close>

text \<open>Both sending functions only trace; the result is always a success.\<close>

definition quic_standard_send :: "u8 list \<Rightarrow> u64 \<Rightarrow> (unit, string) outcome" where
  "quic_standard_send data connection_id = Ok ()"

definition raw_quic_send_unchecked :: "ProtocolStackOptimizer \<Rightarrow> u8 list \<Rightarrow> u64 \<Rightarrow> (unit, string) outcome" where
  "raw_quic_send_unchecked self data connection_id =
    (if \<not> po_enable_raw_pointer_ops (op_config self) then quic_standard_send data connection_id else Ok ())"

definition quic_fast_path_send :: "u8 list \<Rightarrow> u64 \<Rightarrow> (ProtocolStackOptimizer, unit, string) stateful" where
  "quic_fast_path_send data connection_id = (\<lambda>self.
    if \<not> po_enable_quic_fast_path (op_config self) then (quic_standard_send data connection_id, count_slow self)
    else let self = count_skipped 1 (count_fast self) in (raw_quic_send_unchecked self data connection_id, self))"

text \<open>The source and the destination are address and length; the checked version slices the destination, which panics
  when the offset is behind its end.\<close>

definition unchecked_buffer_write ::
  "bool \<Rightarrow> nat \<times> nat \<Rightarrow> nat \<times> nat \<Rightarrow> nat \<Rightarrow> (memory \<times> ProtocolStackOptimizer, nat, string) stateful" where
  "unchecked_buffer_write avx512 = (\<lambda>(src, src_len) (dst, dst_len) offset (m, self).
    if \<not> po_enable_unchecked_buffers (op_config self)
    then let available = dst_len - offset; to_copy = min src_len available
      in if offset + to_copy > dst_len then (Panic, m, self) else (Ok to_copy, move m (dst + offset) src to_copy, self)
    else case memcpy_simd_optimized avx512 m (dst + offset) src src_len of
        Ok m' \<Rightarrow> (Ok src_len, m', count_unchecked self)
      | Err e \<Rightarrow> (Err e, m, count_unchecked self)
      | Panic \<Rightarrow> (Panic, m, count_unchecked self))"

fun insert_routes :: "nat \<Rightarrow> string list \<Rightarrow> (string \<rightharpoonup> RouteInfo) \<Rightarrow> string \<rightharpoonup> RouteInfo" where
  "insert_routes k [] routes = routes"
| "insert_routes k (endpoint # endpoints) routes = insert_routes (Suc k) endpoints
    (routes(endpoint \<mapsto> \<lparr> ri_endpoint = endpoint, ri_connection_id = word_of_nat k, ri_last_used = 0 \<rparr>))"

definition precalculate_routes :: "string list \<Rightarrow> ProtocolStackOptimizer \<Rightarrow> ProtocolStackOptimizer" where
  "precalculate_routes endpoints self = self \<lparr> op_routing_cache := insert_routes 0 endpoints (op_routing_cache self) \<rparr>"

definition fast_route_lookup :: "ProtocolStackOptimizer \<Rightarrow> string \<Rightarrow> u64 option" where
  "fast_route_lookup self endpoint = map_option ri_connection_id (op_routing_cache self endpoint)"

definition cleanup_cache :: "ProtocolStackOptimizer \<Rightarrow> ProtocolStackOptimizer" where
  "cleanup_cache self = self \<lparr> op_serialization_cache := Map.empty \<rparr>"

definition fast_path_hit_rate :: "ProtocolOptimizationStats \<Rightarrow> f64_value" where
  "fast_path_hit_rate s =
    (let n = ps_fast_path_hits s + ps_slow_path_hits s in if n = 0 then 0 else fl (as_f64 (ps_fast_path_hits s) / as_f64 n))"

section \<open>Lemmas\<close>

text \<open>The memory holds the strings of the event, and the serializer's buffer is away from them; the copies of the
  serializer touch at most 32 bytes more than they should.\<close>

definition event_at :: "memory \<Rightarrow> event_message \<Rightarrow> bool" where
  "event_at m e \<longleftrightarrow> load m (em_event_id_ptr e) (length (em_event_id e)) = em_event_id e
    \<and> load m (em_data_ptr e) (length (em_data e)) = em_data e"

definition event_bytes :: "event_message \<Rightarrow> u8 list" where
  "event_bytes e = u32_le (word_of_nat (length (em_event_id e))) @ em_event_id e @ [event_type_byte (em_event_type e)]
    @ u32_le (word_of_nat (length (em_data e))) @ em_data e @ u64_le (em_timestamp e)"

definition away :: "nat \<Rightarrow> nat \<Rightarrow> nat \<Rightarrow> nat \<Rightarrow> bool" where
  "away buffer n p k \<longleftrightarrow> p + k + 32 \<le> buffer \<or> buffer + n + 32 \<le> p"

definition event_away :: "nat \<Rightarrow> event_message \<Rightarrow> bool" where
  "event_away buffer e \<longleftrightarrow> away buffer (length (event_bytes e)) (em_event_id_ptr e) (length (em_event_id e))
    \<and> away buffer (length (event_bytes e)) (em_data_ptr e) (length (em_data e))"

lemma event_bytes_length [simp]: "length (event_bytes e) = length (em_event_id e) + length (em_data e) + 17"
  by (simp add: event_bytes_def)

lemma load_six:
  "load m b (l + d + 17) = load m b 4 @ load m (b + 4) l @ load m (b + 4 + l) 1 @ load m (b + 5 + l) 4
    @ load m (b + 9 + l) d @ load m (b + 9 + l + d) 8"
proof -
  have n: "l + d + 17 = 4 + (l + (1 + (4 + (d + 8))))" by simp
  show ?thesis unfolding n load_add by (simp add: add_ac del: load_1 One_nat_def)
qed

text \<open>The six writes as one chain.\<close>

definition inline_memory :: "event_message \<Rightarrow> nat \<Rightarrow> memory \<Rightarrow> memory" where
  "inline_memory e b m =
    (let l = length (em_event_id e); d = length (em_data e);
         m2 = move (store m b (u32_le (word_of_nat l))) (b + 4) (em_event_id_ptr e) (copy_span l);
         m4 = store (store m2 (b + 4 + l) [event_type_byte (em_event_type e)]) (b + 5 + l) (u32_le (word_of_nat d));
         m5 = move m4 (b + 9 + l) (em_data_ptr e) (copy_span d)
     in store m5 (b + 9 + l + d) (u64_le (em_timestamp e)))"

lemma copy_span_0 [simp]: "copy_span 0 = 0"
  by (simp add: copy_span_def)

lemma inline_run:
  assumes "event_away b e"
  shows "inline_serialize_unchecked avx512 e b (m, self) = (Ok (length (event_bytes e)), inline_memory e b m, count_skipped 5 self)"
proof -
  let ?l = "length (em_event_id e)" and ?d = "length (em_data e)"
  have "apart (b + 4) (em_event_id_ptr e) (copy_span ?l)"
    using assms copy_span_less [of ?l] by (auto simp: event_away_def away_def apart_def)
  moreover have "apart (b + (4 + ?l + 1 + 4)) (em_data_ptr e) (copy_span ?d)"
    using assms copy_span_less [of ?d] by (auto simp: event_away_def away_def apart_def)
  ultimately show ?thesis
    by (auto simp: inline_serialize_unchecked_def Let_def memcpy_run inline_memory_def add_ac)
qed

lemma inline_memory_bytes:
  assumes "event_at m e" "event_away b e"
  shows "load (inline_memory e b m) b (length (event_bytes e)) = event_bytes e"
proof -
  let ?l = "length (em_event_id e)" and ?d = "length (em_data e)"
  let ?m1 = "store m b (u32_le (word_of_nat ?l))"
  let ?m2 = "move ?m1 (b + 4) (em_event_id_ptr e) (copy_span ?l)"
  let ?m3 = "store ?m2 (b + 4 + ?l) [event_type_byte (em_event_type e)]"
  let ?m4 = "store ?m3 (b + 5 + ?l) (u32_le (word_of_nat ?d))"
  let ?m5 = "move ?m4 (b + 9 + ?l) (em_data_ptr e) (copy_span ?d)"
  let ?m6 = "store ?m5 (b + 9 + ?l + ?d) (u64_le (em_timestamp e))"
  have id: "load ?m1 (em_event_id_ptr e) ?l = em_event_id e"
    using assms by (subst load_store_outside) (auto simp: event_at_def event_away_def away_def)
  have data: "load ?m4 (em_data_ptr e) ?d = em_data e"
    using assms copy_span_less [of ?l]
    by (subst load_store_outside load_move_outside, force simp: event_away_def away_def)+
      (simp add: event_at_def)
  have split: "load ?m6 b (?l + ?d + 17) = load ?m6 b 4 @ load ?m6 (b + 4) ?l @ load ?m6 (b + 4 + ?l) 1
      @ load ?m6 (b + 5 + ?l) 4 @ load ?m6 (b + 9 + ?l) ?d @ load ?m6 (b + 9 + ?l + ?d) 8"
    by (rule load_six)
  have p1: "load ?m6 b 4 = u32_le (word_of_nat ?l)"
    using load_store_same [of m b "u32_le (word_of_nat ?l)"] by (simp add: load_store_outside load_move_outside)
  have p2: "load ?m6 (b + 4) ?l = em_event_id e"
    using load_move [where m = ?m1 and d = "b + 4" and s = "em_event_id_ptr e", OF copy_span_ge [of ?l]] id by (simp add: load_store_outside load_move_outside)
  have p3: "load ?m6 (b + 4 + ?l) 1 = [event_type_byte (em_event_type e)]"
    using load_store_same [of ?m2 "b + 4 + ?l" "[event_type_byte (em_event_type e)]"]
    by (simp add: load_store_outside load_move_outside del: load_1 One_nat_def) (simp add: store_apply move_apply)
  have p4: "load ?m6 (b + 5 + ?l) 4 = u32_le (word_of_nat ?d)"
    using load_store_same [of ?m3 "b + 5 + ?l" "u32_le (word_of_nat ?d)"] by (simp add: load_store_outside load_move_outside)
  have p5: "load ?m6 (b + 9 + ?l) ?d = em_data e"
    using load_move [where m = ?m4 and d = "b + 9 + ?l" and s = "em_data_ptr e", OF copy_span_ge [of ?d]] data by (simp add: load_store_outside)
  have p6: "load ?m6 (b + 9 + ?l + ?d) 8 = u64_le (em_timestamp e)"
    using load_store_same [of ?m5 "b + 9 + ?l + ?d" "u64_le (em_timestamp e)"] by simp
  have "load ?m6 b (?l + ?d + 17) = event_bytes e"
    unfolding split p1 p2 p3 p4 p5 p6 event_bytes_def by (rule refl)
  then show ?thesis by (simp only: inline_memory_def Let_def event_bytes_length)
qed

lemma inline_memory_outside:
  assumes "x < b \<or> b + length (event_bytes e) + 23 \<le> x"
  shows "inline_memory e b m x = m x"
proof -
  let ?l = "length (em_event_id e)" and ?d = "length (em_data e)"
  have out: "x < b \<or> b + ?l + ?d + 40 \<le> x" using assms by (simp add: add_ac)
  have span: "copy_span ?l < ?l + 32" "copy_span ?d < ?d + 32" by (rule copy_span_less)+
  have "x < b + 4 \<or> b + 4 + copy_span ?l \<le> x" "x < b + 9 + ?l \<or> b + 9 + ?l + copy_span ?d \<le> x"
    using out span by linarith+
  then show ?thesis using out by (simp add: inline_memory_def Let_def store_apply move_elsewhere) linarith?
qed

section \<open>Properties\<close>

text \<open>A reader of the layout: the length and the bytes of the identifier, the type, the length and the bytes of the
  data, the time.\<close>

definition read_event :: "u8 list \<Rightarrow> u8 list \<times> u8 \<times> u8 list \<times> nat" where
  "read_event bs =
    (let l = le_value (take 4 bs); bs = drop 4 bs; id = take l bs; bs = drop l bs; ty = hd bs; bs = drop 1 bs;
         d = le_value (take 4 bs); bs = drop 4 bs
     in (id, ty, take d bs, le_value (take 8 (drop d bs))))"

lemma le_value_u32_le: "n < 2 ^ 32 \<Longrightarrow> le_value (u32_le (word_of_nat n)) = n"
  by (simp add: le_value_le_bytes unsigned_of_nat take_bit_eq_mod)

lemma read_event_bytes:
  assumes "length (em_event_id e) < 2 ^ 32" "length (em_data e) < 2 ^ 32"
  shows "read_event (event_bytes e) = (em_event_id e, event_type_byte (em_event_type e), em_data e, unat (em_timestamp e))"
  using le_value_u32_le [OF assms(1)] le_value_u32_le [OF assms(2)] by (simp add: read_event_def event_bytes_def Let_def drop_Cons')


text \<open>An encoder that writes the data alone.\<close>

definition plain_codec :: event_codec where
  "plain_codec = \<lparr> ec_bincode = (\<lambda>e. Inr (em_data e)), ec_json = (\<lambda>e. Inl ''not used''), ec_show_type = (\<lambda>_. [66]) \<rparr>"

definition sample_event :: event_message where
  "sample_event = \<lparr> em_event_id = [116, 101, 115, 116, 49], em_event_id_ptr = 1000, em_event_type = PumpFunBuy,
     em_data = [], em_data_ptr = 2000, em_timestamp = 1234567890, em_format = Bincode \<rparr>"


text \<open>The cache answers with another event. Without inline serialization, once an event of less than 4096 bytes has been
  serialized, every event with the same identifier and type gets the bytes of the first one, whatever its data and time are.\<close>

theorem cache_answers_other_event:
  assumes "\<not> po_enable_inline_serialization (op_config self)" "op_serialization_cache self (event_cache_key C e1) = None"
    and "fast_serialize_event C e1 b1 len1 m = (Ok n, m1)" "n < 4096" "n \<le> len2"
    and "em_event_id e2 = em_event_id e1" "em_event_type e2 = em_event_type e1"
  shows "\<exists>self1 m2 self2. serialize_event_unchecked avx512 C e1 (b1, len1) (m, self) = (Ok n, m1, self1)
    \<and> serialize_event_unchecked avx512 C e2 (b2, len2) (m1, self1) = (Ok n, m2, self2)
    \<and> load m2 b2 n = load m1 b1 n"
proof -
  have key: "event_cache_key C e2 = event_cache_key C e1" using assms(6,7) by (simp add: event_cache_key_def)
  let ?s = "(count_unchecked self) \<lparr> op_serialization_cache := (op_serialization_cache self)(event_cache_key C e1 \<mapsto> load m1 b1 n) \<rparr>"
  have "serialize_event_unchecked avx512 C e1 (b1, len1) (m, self) = (Ok n, m1, ?s)"
    using assms(1-4) by (simp add: serialize_event_unchecked_def Let_def count_unchecked_def)
  moreover have "serialize_event_unchecked avx512 C e2 (b2, len2) (m1, ?s)
      = (Ok n, store m1 b2 (load m1 b1 n), count_fast (count_unchecked ?s))"
    using assms(1,5) by (simp add: serialize_event_unchecked_def Let_def count_unchecked_def key)
  moreover have "load (store m1 b2 (load m1 b1 n)) b2 n = load m1 b1 n"
    using load_store_same [of m1 b2 "load m1 b1 n"] by simp
  ultimately show ?thesis by blast
qed

theorem cache_answers_other_event_witness:
  "\<exists>self1 m2 self2. serialize_event_unchecked False plain_codec (sample_event \<lparr> em_data := [1, 2] \<rparr>) (100, 8) (\<lambda>_. 0,
      optimizer_new (protocol_config_default \<lparr> po_enable_inline_serialization := False \<rparr>)) = (Ok 2, store (\<lambda>_. 0) 100 [1, 2], self1)
    \<and> serialize_event_unchecked False plain_codec (sample_event \<lparr> em_data := [9, 9] \<rparr>) (200, 8) (store (\<lambda>_. 0) 100 [1, 2], self1)
      = (Ok 2, m2, self2)
    \<and> load m2 200 2 = [1, 2]"
proof -
  have two: "load (store (\<lambda>_. 0) 100 [1, 2]) 100 2 = [1, 2]"
    using load_store_same [of "\<lambda>_. 0" 100 "[1, 2]"] by (simp add: numeral_2_eq_2)
  show ?thesis
    using cache_answers_other_event [of "optimizer_new (protocol_config_default \<lparr> po_enable_inline_serialization := False \<rparr>)"
        plain_codec "sample_event \<lparr> em_data := [1, 2] \<rparr>" 100 8 "\<lambda>_. 0" 2 "store (\<lambda>_. 0) 100 [1, 2]" 8
        "sample_event \<lparr> em_data := [9, 9] \<rparr>" False 200]
    by (simp add: optimizer_new_def protocol_config_default_def plain_codec_def sample_event_def fast_serialize_event_def
        fast_bincode_serialize_def put_serialized_def two)
qed

text \<open>The checked write copies what fits, and panics exactly when the offset is behind the end; the unchecked one panics never and
  writes the whole source, wherever it ends.\<close>

theorem buffer_write_cases:
  assumes "apart (dst + offset) src (copy_span src_len)"
  shows "unchecked_buffer_write avx512 (src, src_len) (dst, dst_len) offset (m, self) =
    (if po_enable_unchecked_buffers (op_config self)
     then (Ok src_len, move m (dst + offset) src (copy_span src_len), count_unchecked self)
     else if dst_len < offset then (Panic, m, self)
     else (Ok (min src_len (dst_len - offset)), move m (dst + offset) src (min src_len (dst_len - offset)), self))"
  by (auto simp: unchecked_buffer_write_def Let_def memcpy_run [OF assms])

text \<open>Every endpoint is routed to its position in the list; a repeated one to its last.\<close>

lemma insert_routes_other: "endpoint \<notin> set es \<Longrightarrow> insert_routes k es routes endpoint = routes endpoint"
  by (induction k es routes rule: insert_routes.induct) auto

theorem routes_found:
  assumes "i < length es" "es ! i \<notin> set (drop (Suc i) es)"
  shows "fast_route_lookup (precalculate_routes es self) (es ! i) = Some (word_of_nat i)"
proof -
  have "insert_routes k es routes (es ! i) = Some \<lparr> ri_endpoint = es ! i, ri_connection_id = word_of_nat (k + i), ri_last_used = 0 \<rparr>"
    for k routes using assms
  proof (induction es arbitrary: i k routes)
    case (Cons e es)
    then show ?case by (cases i) (simp_all add: insert_routes_other)
  qed simp
  from this [of 0] show ?thesis by (simp add: fast_route_lookup_def precalculate_routes_def)
qed

end
