(* ===== verification/Kernel_Bypass.thy ===== *)
theory Kernel_Bypass
  imports Simd_Memory Prices
begin

text \<open>
  perf/kernel\_bypass.rs: packets in two memory-mapped rings, the threads that empty them, and the counters. The file is
  not declared in perf/mod.rs. Memory is the state; a ring is an address and a number of slots of 1532 bytes, 32 for
  the descriptor and 1500 for the packet. The readings of the clock are arguments.
\<close>

section \<open>Packets in memory\<close>

text \<open>The layout of a \<open>repr(C)\<close> structure: the padding behind the length stays as it is.\<close>

record PacketDescriptor =
  pd_length :: u32
  pd_timestamp_ns :: u64
  pd_dst_addr :: u32
  pd_dst_port :: u16
  pd_flags :: u16
  pd_data_offset :: u32

definition DESCRIPTOR_SIZE :: nat where "DESCRIPTOR_SIZE = 32"

definition write_descriptor :: "memory \<Rightarrow> nat \<Rightarrow> PacketDescriptor \<Rightarrow> memory" where
  "write_descriptor m p d = store (store m p (le_bytes 4 (pd_length d))) (p + 8)
     (le_bytes 8 (pd_timestamp_ns d) @ le_bytes 4 (pd_dst_addr d) @ le_bytes 2 (pd_dst_port d) @ le_bytes 2 (pd_flags d)
      @ le_bytes 4 (pd_data_offset d) @ [0, 0, 0, 0])"

definition read_word :: "memory \<Rightarrow> nat \<Rightarrow> nat \<Rightarrow> 'a::len word" where
  "read_word m p n = word_of_nat (le_value (load m p n))"

definition read_descriptor :: "memory \<Rightarrow> nat \<Rightarrow> PacketDescriptor" where
  "read_descriptor m p = \<lparr> pd_length = read_word m p 4, pd_timestamp_ns = read_word m (p + 8) 8,
     pd_dst_addr = read_word m (p + 16) 4, pd_dst_port = read_word m (p + 20) 2, pd_flags = read_word m (p + 22) 2,
     pd_data_offset = read_word m (p + 24) 4 \<rparr>"

text \<open>The copy of both queues: whole vectors and then the rest.\<close>

definition fast_memcpy :: "memory \<Rightarrow> nat \<Rightarrow> nat \<Rightarrow> nat \<Rightarrow> memory" where
  "fast_memcpy m dst src len =
    (if len \<le> 32 then move m dst src len
     else let chunks = len div 32; m' = copy_chunks_32 chunks m dst src; offset = 32 * chunks; remaining = len mod 32
       in if remaining > 0 then move m' (dst + offset) (src + offset) remaining else m')"

datatype ip_addr = V4 u32 | V6 u128

section \<open>The queues\<close>

record TxQueue =
  tq_ring_buffer :: nat
  tq_capacity :: u64
  tq_head :: u64
  tq_tail :: u64

record RxQueue =
  rq_ring_buffer :: nat
  rq_capacity :: u64
  rq_head :: u64
  rq_tail :: u64

text \<open>The number of bytes that are mapped; the mapping is a parameter.\<close>

definition ring_bytes :: "u64 \<Rightarrow> u64" where
  "ring_bytes capacity = capacity * (word_of_nat DESCRIPTOR_SIZE + 1500)"

definition tx_new :: "(u64 \<Rightarrow> string + nat) \<Rightarrow> u64 \<Rightarrow> (TxQueue, string) outcome" where
  "tx_new map_anon capacity =
    (case map_anon (ring_bytes capacity) of
       Inl e \<Rightarrow> Err e
     | Inr ring_buffer \<Rightarrow> Ok \<lparr> tq_ring_buffer = ring_buffer, tq_capacity = capacity, tq_head = 0, tq_tail = 0 \<rparr>)"

definition rx_new :: "(u64 \<Rightarrow> string + nat) \<Rightarrow> u64 \<Rightarrow> (RxQueue, string) outcome" where
  "rx_new map_anon capacity =
    (case map_anon (ring_bytes capacity) of
       Inl e \<Rightarrow> Err e
     | Inr ring_buffer \<Rightarrow> Ok \<lparr> rq_ring_buffer = ring_buffer, rq_capacity = capacity, rq_head = 0, rq_tail = 0 \<rparr>)"

text \<open>The slot of a counter; the remainder by a capacity of 0 panics, which the operations test first.\<close>

definition entry_offset :: "u64 \<Rightarrow> u64 \<Rightarrow> nat" where
  "entry_offset pos capacity = unat (pos mod capacity) * (DESCRIPTOR_SIZE + 1500)"

definition err_tx_full :: string where "err_tx_full = ''TX queue is full''"
definition err_only_ipv4 :: string where "err_only_ipv4 = ''Only IPv4 supported''"
definition err_rx_empty :: string where "err_rx_empty = ''RX queue is empty''"

definition tx_full :: "TxQueue \<Rightarrow> bool" where
  "tx_full q \<longleftrightarrow> (tq_head q + 1) mod tq_capacity q = tq_tail q"

text \<open>The packet is \<open>data_len\<close> bytes at \<open>data\<close>; \<open>now_ns\<close> is the time that passes between two readings of the clock.\<close>

definition send_packet_zero_copy ::
  "u64 \<Rightarrow> nat \<times> nat \<Rightarrow> ip_addr \<times> u16 \<Rightarrow> (memory \<times> TxQueue, unit, string) stateful" where
  "send_packet_zero_copy now_ns = (\<lambda>(data, data_len) (ip, port) (m, q).
    if tq_capacity q = 0 then (Panic, m, q)
    else if tx_full q then (Err err_tx_full, m, q)
    else let buffer_ptr = tq_ring_buffer q + entry_offset (tq_head q) (tq_capacity q)
      in case ip of
        V6 _ \<Rightarrow> (Err err_only_ipv4, m, q)
      | V4 ipv4 \<Rightarrow>
          let descriptor = \<lparr> pd_length = word_of_nat data_len, pd_timestamp_ns = now_ns, pd_dst_addr = ipv4, pd_dst_port = port,
                pd_flags = 0, pd_data_offset = word_of_nat DESCRIPTOR_SIZE \<rparr>;
              m1 = write_descriptor m buffer_ptr descriptor;
              m2 = fast_memcpy m1 (buffer_ptr + DESCRIPTOR_SIZE) data data_len
          in (Ok (), m2, q \<lparr> tq_head := tq_head q + 1 \<rparr>))"

definition pending_packets :: "TxQueue \<Rightarrow> u64" where
  "pending_packets q = (tq_head q + tq_capacity q - tq_tail q) mod tq_capacity q"

definition receive_packet_zero_copy ::
  "(nat \<Rightarrow> string) \<Rightarrow> nat \<times> nat \<Rightarrow> (memory \<times> RxQueue, nat \<times> ip_addr \<times> u16, string) stateful" where
  "receive_packet_zero_copy show_nat = (\<lambda>(buffer, buffer_len) (m, q).
    if rq_tail q = rq_head q then (Err err_rx_empty, m, q)
    else if rq_capacity q = 0 then (Panic, m, q)
    else let buffer_ptr = rq_ring_buffer q + entry_offset (rq_tail q) (rq_capacity q);
             descriptor = read_descriptor m buffer_ptr; data_len = unat (pd_length descriptor)
      in if data_len > buffer_len
         then (Err (''Buffer too small: need '' @ show_nat data_len @ '', got '' @ show_nat buffer_len), m, q)
         else (Ok (data_len, V4 (pd_dst_addr descriptor), pd_dst_port descriptor),
               fast_memcpy m buffer (buffer_ptr + DESCRIPTOR_SIZE) data_len, q \<lparr> rq_tail := rq_tail q + 1 \<rparr>))"

definition available_packets :: "RxQueue \<Rightarrow> u64" where
  "available_packets q = (rq_head q + rq_capacity q - rq_tail q) mod rq_capacity q"

section \<open>The network interface\<close>

record AtomicNetworkStats =
  an_packets_sent :: u64
  an_packets_received :: u64
  an_bytes_sent :: u64
  an_bytes_received :: u64
  an_send_errors :: u64
  an_receive_errors :: u64
  an_total_send_latency_ns :: u64
  an_total_receive_latency_ns :: u64

record KernelBypassUDP =
  kb_interface_name :: string
  kb_tx_queue :: TxQueue
  kb_rx_queue :: RxQueue
  kb_stats :: AtomicNetworkStats
  kb_running :: bool
  kb_cpu_affinity :: "nat option"

definition network_stats_default :: AtomicNetworkStats where
  "network_stats_default = \<lparr> an_packets_sent = 0, an_packets_received = 0, an_bytes_sent = 0, an_bytes_received = 0,
     an_send_errors = 0, an_receive_errors = 0, an_total_send_latency_ns = 0, an_total_receive_latency_ns = 0 \<rparr>"

definition udp_new :: "(u64 \<Rightarrow> string + nat) \<Rightarrow> (u64 \<Rightarrow> string + nat) \<Rightarrow> string \<Rightarrow> nat option \<Rightarrow> (KernelBypassUDP, string) outcome" where
  "udp_new map_tx map_rx interface_name cpu_affinity =
    obind (tx_new map_tx 1000000) (\<lambda>tx_queue.
    obind (rx_new map_rx 1000000) (\<lambda>rx_queue.
    Ok \<lparr> kb_interface_name = interface_name, kb_tx_queue = tx_queue, kb_rx_queue = rx_queue,
         kb_stats = network_stats_default, kb_running = False, kb_cpu_affinity = cpu_affinity \<rparr>))"

definition udp_start :: "KernelBypassUDP \<Rightarrow> KernelBypassUDP" where
  "udp_start u = u \<lparr> kb_running := True \<rparr>"

definition udp_stop :: "KernelBypassUDP \<Rightarrow> KernelBypassUDP" where
  "udp_stop u = u \<lparr> kb_running := False \<rparr>"

text \<open>One round of the sending thread, while it runs; the receiving thread does nothing.\<close>

definition tx_round :: "KernelBypassUDP \<Rightarrow> KernelBypassUDP" where
  "tx_round u =
    (let pending = pending_packets (kb_tx_queue u)
     in if pending > 0
        then u \<lparr> kb_stats := (kb_stats u) \<lparr> an_packets_sent := an_packets_sent (kb_stats u) + pending \<rparr>,
                 kb_tx_queue := (kb_tx_queue u) \<lparr> tq_tail := tq_tail (kb_tx_queue u) + pending \<rparr> \<rparr>
        else u)"

definition send_raw_packet ::
  "u64 \<times> u64 \<Rightarrow> nat \<times> nat \<Rightarrow> ip_addr \<times> u16 \<Rightarrow> (memory \<times> KernelBypassUDP, unit, string) stateful" where
  "send_raw_packet = (\<lambda>(now_ns, latency_ns) data dst_addr (m, u).
    case send_packet_zero_copy now_ns data dst_addr (m, kb_tx_queue u) of
      (Ok _, m', q) \<Rightarrow> (Ok (), m', u \<lparr> kb_tx_queue := q, kb_stats := (kb_stats u)
         \<lparr> an_bytes_sent := an_bytes_sent (kb_stats u) + word_of_nat (snd data),
           an_total_send_latency_ns := an_total_send_latency_ns (kb_stats u) + latency_ns \<rparr> \<rparr>)
    | (Err e, m', q) \<Rightarrow> (Err e, m', u \<lparr> kb_tx_queue := q, kb_stats := (kb_stats u)
         \<lparr> an_send_errors := an_send_errors (kb_stats u) + 1 \<rparr> \<rparr>)
    | (Panic, m', q) \<Rightarrow> (Panic, m', u \<lparr> kb_tx_queue := q \<rparr>))"

definition receive_raw_packet ::
  "(nat \<Rightarrow> string) \<Rightarrow> u64 \<Rightarrow> nat \<times> nat \<Rightarrow> (memory \<times> KernelBypassUDP, nat \<times> ip_addr \<times> u16, string) stateful" where
  "receive_raw_packet show_nat latency_ns buffer = (\<lambda>(m, u).
    case receive_packet_zero_copy show_nat buffer (m, kb_rx_queue u) of
      (Ok (len, addr), m', q) \<Rightarrow> (Ok (len, addr), m', u \<lparr> kb_rx_queue := q, kb_stats := (kb_stats u)
         \<lparr> an_packets_received := an_packets_received (kb_stats u) + 1,
           an_bytes_received := an_bytes_received (kb_stats u) + word_of_nat len,
           an_total_receive_latency_ns := an_total_receive_latency_ns (kb_stats u) + latency_ns \<rparr> \<rparr>)
    | (Err e, m', q) \<Rightarrow> (Err e, m', u \<lparr> kb_rx_queue := q, kb_stats := (kb_stats u)
         \<lparr> an_receive_errors := an_receive_errors (kb_stats u) + 1 \<rparr> \<rparr>)
    | (Panic, m', q) \<Rightarrow> (Panic, m', u \<lparr> kb_rx_queue := q \<rparr>))"

record NetworkStats =
  ns_packets_sent :: u64
  ns_packets_received :: u64
  ns_bytes_sent :: u64
  ns_bytes_received :: u64
  ns_send_errors :: u64
  ns_receive_errors :: u64
  ns_avg_send_latency_ns :: f64_value
  ns_avg_receive_latency_ns :: f64_value

definition get_network_stats :: "KernelBypassUDP \<Rightarrow> NetworkStats" where
  "get_network_stats u =
    (let s = kb_stats u; avg = (\<lambda>sum n. if n > 0 then fl (as_f64 sum / as_f64 n) else 0)
     in \<lparr> ns_packets_sent = an_packets_sent s, ns_packets_received = an_packets_received s,
          ns_bytes_sent = an_bytes_sent s, ns_bytes_received = an_bytes_received s,
          ns_send_errors = an_send_errors s, ns_receive_errors = an_receive_errors s,
          ns_avg_send_latency_ns = avg (an_total_send_latency_ns s) (an_packets_sent s),
          ns_avg_receive_latency_ns = avg (an_total_receive_latency_ns s) (an_packets_received s) \<rparr>)"

section \<open>Lemmas\<close>

lemma fast_memcpy_run: "apart dst src len \<Longrightarrow> fast_memcpy m dst src len = move m dst src len"
proof (cases "len \<le> 32")
  case False
  assume a: "apart dst src len"
  let ?k = "32 * (len div 32)"
  have len: "?k + len mod 32 = len" by simp
  have "apart dst src ?k" by (rule apart_mono [OF a]) simp
  then have "copy_chunks_32 (len div 32) m dst src = move m dst src ?k" by (rule copy_chunks_32_run)
  moreover have "move (move m dst src ?k) (dst + ?k) (src + ?k) (len mod 32) = move m dst src len"
    using move_move [where n = ?k and k = "len mod 32" and d = dst and s = src and m = m] a by (simp only: len)
  ultimately show ?thesis using False len by (cases "len mod 32 = 0") (simp_all add: fast_memcpy_def Let_def)
qed (simp add: fast_memcpy_def)

lemma load_store_inside: "k + n \<le> length bs \<Longrightarrow> load (store m a bs) (a + k) n = take n (drop k bs)"
  by (rule nth_equalityI) (auto simp: store_apply)

lemma read_word_le_bytes:
  fixes w :: "'a::len word"
  assumes "load m p n = le_bytes n w" "LENGTH('a) \<le> 8 * n"
  shows "read_word m p n = w"
proof -
  have "(2::nat) ^ LENGTH('a) \<le> 2 ^ (8 * n)" using assms(2) by (intro power_increasing) simp_all
  then have "unat w < 256 ^ n" using less_le_trans [OF unsigned_less [of w, where 'a = nat]] by (simp add: power_mult)
  then show ?thesis by (simp add: read_word_def assms(1) le_value_le_bytes)
qed

text \<open>A descriptor is read as it was written, also when the bytes behind it change.\<close>

lemma read_write_descriptor:
  assumes "p + 32 \<le> a"
  shows "read_descriptor (move (write_descriptor m p d) a s k) p = d"
proof -
  let ?tail = "le_bytes 8 (pd_timestamp_ns d) @ le_bytes 4 (pd_dst_addr d) @ le_bytes 2 (pd_dst_port d)
    @ le_bytes 2 (pd_flags d) @ le_bytes 4 (pd_data_offset d) @ [0, 0, 0, 0]"
  have head: "load (write_descriptor m p d) p 4 = le_bytes 4 (pd_length d)"
    using load_store_same [of m p "le_bytes 4 (pd_length d)"] by (simp add: write_descriptor_def load_store_outside)
  have field: "load (write_descriptor m p d) a n = take n (drop j ?tail)" if "j + n \<le> 24" "a = p + 8 + j" for a j n
    unfolding write_descriptor_def that(2) by (rule load_store_inside) (use that in simp)
  have out: "load (move (write_descriptor m p d) a s k) x n = load (write_descriptor m p d) x n" if "x + n \<le> p + 32" for x n
    by (rule load_move_outside) (use assms that in simp)
  have "load (write_descriptor m p d) (p + 8) 8 = le_bytes 8 (pd_timestamp_ns d)"
    "load (write_descriptor m p d) (p + 16) 4 = le_bytes 4 (pd_dst_addr d)"
    "load (write_descriptor m p d) (p + 20) 2 = le_bytes 2 (pd_dst_port d)"
    "load (write_descriptor m p d) (p + 22) 2 = le_bytes 2 (pd_flags d)"
    "load (write_descriptor m p d) (p + 24) 4 = le_bytes 4 (pd_data_offset d)"
    using field [of 0 8 "p + 8"] field [of 8 4 "p + 16"] field [of 12 2 "p + 20"] field [of 14 2 "p + 22"] field [of 16 4 "p + 24"]
    by simp_all
  then show ?thesis using head by (simp add: read_descriptor_def out read_word_le_bytes)
qed

lemma send_run:
  assumes "tq_capacity q \<noteq> 0" "\<not> tx_full q" "apart (tq_ring_buffer q + entry_offset (tq_head q) (tq_capacity q) + 32) data len"
  shows "send_packet_zero_copy now_ns (data, len) (V4 ip, port) (m, q) =
    (Ok (), move (write_descriptor m (tq_ring_buffer q + entry_offset (tq_head q) (tq_capacity q))
        \<lparr> pd_length = word_of_nat len, pd_timestamp_ns = now_ns, pd_dst_addr = ip, pd_dst_port = port, pd_flags = 0,
          pd_data_offset = 32 \<rparr>) (tq_ring_buffer q + entry_offset (tq_head q) (tq_capacity q) + 32) data len,
      q \<lparr> tq_head := tq_head q + 1 \<rparr>)"
  using assms by (simp add: send_packet_zero_copy_def Let_def DESCRIPTOR_SIZE_def fast_memcpy_run)

lemma write_descriptor_outside: "x < p \<or> p + 32 \<le> x \<Longrightarrow> write_descriptor m p d x = m x"
  by (auto simp: write_descriptor_def store_apply)

lemma slot_inside:
  assumes "capacity \<noteq> 0"
  shows "entry_offset pos capacity + 1532 \<le> unat capacity * 1532"
proof -
  have "unat (pos mod capacity) < unat capacity"
    using assms by (simp add: unat_mod_distrib unat_gt_0)
  then have "Suc (unat (pos mod capacity)) * 1532 \<le> unat capacity * 1532" by (intro mult_le_mono1) simp
  then show ?thesis by (simp add: entry_offset_def DESCRIPTOR_SIZE_def)
qed

section \<open>Properties\<close>

text \<open>A packet comes out of the ring as it went in. A packet for an IPv4 address that the sending queue accepts is given
  by a receiving queue over the same mapping whose tail is at its slot, with its length, address, port and bytes; nothing outside
  the 32 bytes of the slot's descriptor and the packet behind them has changed. Only for packets of up to 1500 bytes
  this is inside the slot, and the queue does not refuse longer ones.\<close>

theorem packet_round_trip:
  fixes q r p
  defines "p \<equiv> tq_ring_buffer q + entry_offset (tq_head q) (tq_capacity q)"
  assumes "tq_capacity q \<noteq> 0" "\<not> tx_full q" "len < 2 ^ 32" "data + len \<le> p \<or> p + 32 + len \<le> data"
    and "rq_ring_buffer r = tq_ring_buffer q" "rq_capacity r = tq_capacity q" "rq_tail r = tq_head q" "rq_head r \<noteq> rq_tail r"
    and "len \<le> buffer_len" "apart buffer (p + 32) len"
  shows "\<exists>m1 m2. send_packet_zero_copy now_ns (data, len) (V4 ip, port) (m, q) = (Ok (), m1, q \<lparr> tq_head := tq_head q + 1 \<rparr>)
    \<and> receive_packet_zero_copy show_nat (buffer, buffer_len) (m1, r) = (Ok (len, V4 ip, port), m2, r \<lparr> rq_tail := rq_tail r + 1 \<rparr>)
    \<and> load m2 buffer len = load m data len
    \<and> (\<forall>x. x < p \<or> p + 32 + len \<le> x \<longrightarrow> m1 x = m x)
    \<and> p + 32 + 1500 \<le> tq_ring_buffer q + unat (tq_capacity q) * 1532"
proof -
  define d where "d = \<lparr> pd_length = word_of_nat len, pd_timestamp_ns = now_ns, pd_dst_addr = ip, pd_dst_port = port,
    pd_flags = 0, pd_data_offset = 32 \<rparr>"
  define m1 where "m1 = move (write_descriptor m p d) (p + 32) data len"
  have "apart (p + 32) data len" using assms(5) by (auto simp: apart_def)
  then have send: "send_packet_zero_copy now_ns (data, len) (V4 ip, port) (m, q) = (Ok (), m1, q \<lparr> tq_head := tq_head q + 1 \<rparr>)"
    using send_run [of q data len] assms(2,3) by (simp add: p_def m1_def d_def)
  have "read_descriptor m1 p = d" unfolding m1_def by (rule read_write_descriptor) simp
  moreover have "unat (word_of_nat len :: u32) = len" using assms(4) by (simp add: unsigned_of_nat take_bit_eq_mod)
  ultimately have receive: "receive_packet_zero_copy show_nat (buffer, buffer_len) (m1, r)
      = (Ok (len, V4 ip, port), move m1 buffer (p + 32) len, r \<lparr> rq_tail := rq_tail r + 1 \<rparr>)"
    using assms(2,6-11) by (simp add: receive_packet_zero_copy_def Let_def d_def p_def DESCRIPTOR_SIZE_def fast_memcpy_run)
  have "load (move m1 buffer (p + 32) len) buffer len = load m1 (p + 32) len" by (rule load_move) simp
  also have "\<dots> = load (write_descriptor m p d) data len" unfolding m1_def by (rule load_move) simp
  also have "\<dots> = load m data len"
    by (rule load_cong) (use assms(5) in \<open>auto intro!: write_descriptor_outside\<close>)
  finally have bytes: "load (move m1 buffer (p + 32) len) buffer len = load m data len" .
  have "m1 x = m x" if "x < p \<or> p + 32 + len \<le> x" for x
    using that by (auto simp: m1_def move_apply write_descriptor_outside)
  then show ?thesis using send receive bytes slot_inside [OF assms(2), of "tq_head q"] unfolding p_def by auto
qed

definition sample_tx :: TxQueue where
  "sample_tx = \<lparr> tq_ring_buffer = 0, tq_capacity = 4, tq_head = 5, tq_tail = 5 \<rparr>"

definition sample_rx :: RxQueue where
  "sample_rx = \<lparr> rq_ring_buffer = 0, rq_capacity = 4, rq_head = 6, rq_tail = 5 \<rparr>"

theorem packet_round_trip_witness:
  "\<exists>m1 m2. send_packet_zero_copy 0 (10000, 3) (V4 0x7F000001, 8080) (buffer_at 10000 [1, 2, 3], sample_tx)
      = (Ok (), m1, sample_tx \<lparr> tq_head := 6 \<rparr>)
    \<and> receive_packet_zero_copy (\<lambda>_. []) (20000, 16) (m1, sample_rx) = (Ok (3, V4 0x7F000001, 8080), m2, sample_rx \<lparr> rq_tail := 6 \<rparr>)
    \<and> load m2 20000 3 = [1, 2, 3]"
proof -
  have "load (buffer_at 10000 [1, 2, 3]) 10000 3 = [1, 2, 3]" by (simp add: load_def buffer_at_def store_def upt_rec)
  then show ?thesis
    using packet_round_trip [of sample_tx 3 10000 sample_rx 16 20000 0 "0x7F000001" 8080 "buffer_at 10000 [1, 2, 3]" "\<lambda>_. []"]
    by (auto simp: sample_tx_def sample_rx_def tx_full_def entry_offset_def DESCRIPTOR_SIZE_def apart_def)
qed

text \<open>A queue whose counters have not wrapped around holds fewer packets than its capacity.\<close>

definition tx_counted :: "TxQueue \<Rightarrow> bool" where
  "tx_counted q \<longleftrightarrow> tq_tail q \<le> tq_head q \<and> unat (tq_head q) < unat (tq_tail q) + unat (tq_capacity q)
    \<and> unat (tq_head q) + unat (tq_capacity q) < 2 ^ 64"

lemma tx_full_nat:
  assumes "tx_counted q"
  shows "tx_full q \<longleftrightarrow> (unat (tq_head q) + 1) mod unat (tq_capacity q) = unat (tq_tail q)"
proof -
  have c: "tq_capacity q \<noteq> 0" using assms by (auto simp: tx_counted_def word_le_nat_alt)
  then have "unat (tq_head q) + 1 < 2 ^ 64" using assms by (auto simp: tx_counted_def simp flip: unat_gt_0)
  then have "unat (tq_head q + 1) = unat (tq_head q) + 1" by (simp add: unat_word_ariths)
  then show ?thesis by (simp add: tx_full_def word_unat_eq_iff unat_mod_distrib)
qed

lemma pending_nat:
  assumes "tx_counted q"
  shows "unat (pending_packets q) = unat (tq_head q) - unat (tq_tail q)"
proof -
  have "unat (tq_head q + tq_capacity q - tq_tail q) = unat (tq_head q) - unat (tq_tail q) + unat (tq_capacity q)"
    using assms by (subst unat_sub) (auto simp: tx_counted_def word_le_nat_alt unat_word_ariths)
  moreover have "unat (tq_head q) - unat (tq_tail q) < unat (tq_capacity q)"
    using assms by (auto simp: tx_counted_def word_le_nat_alt)
  ultimately show ?thesis by (simp add: pending_packets_def unat_mod_distrib)
qed

text \<open>The test for a full queue works for the first round only. While the counters have not wrapped around,
  the sending queue is reported full exactly when it holds one packet less than its capacity and its tail counter is below
  the capacity: once as many packets as the queue has slots have been transmitted, it is never reported full again.\<close>

theorem tx_full_check:
  assumes "tx_counted q"
  shows "tx_full q \<longleftrightarrow> tq_tail q < tq_capacity q \<and> unat (pending_packets q) = unat (tq_capacity q) - 1"
proof -
  define h t c where "h = unat (tq_head q)" and "t = unat (tq_tail q)" and "c = unat (tq_capacity q)"
  have b: "t \<le> h" "h < t + c" "0 < c" using assms by (auto simp: tx_counted_def h_def t_def c_def word_le_nat_alt)
  have "(h + 1) mod c = t \<longleftrightarrow> t < c \<and> h - t = c - 1"
  proof
    assume m: "(h + 1) mod c = t"
    then have t: "t < c" using b(3) by (metis mod_less_divisor)
    have "(h + 1 - t) mod c = 0" using m b(1) by (metis le_SucI Suc_eq_plus1 minus_mod_eq_div_mult mod_mult_self2_is_0)
    moreover have "0 < h + 1 - t" "h + 1 - t \<le> c" using b by simp_all
    ultimately have "h + 1 - t = c" by (cases "h + 1 - t = c") auto
    then show "t < c \<and> h - t = c - 1" using t by simp
  next
    assume a: "t < c \<and> h - t = c - 1"
    then have "h + 1 = t + c" using b by linarith
    then show "(h + 1) mod c = t" using a by simp
  qed
  then show ?thesis by (simp add: tx_full_nat [OF assms] pending_nat [OF assms] word_less_nat_alt h_def t_def c_def)
qed

theorem tx_full_check_witness:
  "tx_full \<lparr> tq_ring_buffer = 0, tq_capacity = 4, tq_head = 5, tq_tail = 2 \<rparr>
    \<and> \<not> tx_full \<lparr> tq_ring_buffer = 0, tq_capacity = 4, tq_head = 8, tq_tail = 5 \<rparr>"
proof -
  have p: "pending_packets \<lparr> tq_ring_buffer = 0, tq_capacity = 4, tq_head = 5, tq_tail = 2 \<rparr> = 3"
    by (simp add: pending_packets_def)
  show ?thesis
    using tx_full_check [of "\<lparr> tq_ring_buffer = 0, tq_capacity = 4, tq_head = 5, tq_tail = 2 \<rparr>"]
      tx_full_check [of "\<lparr> tq_ring_buffer = 0, tq_capacity = 4, tq_head = 8, tq_tail = 5 \<rparr>"]
    by (simp add: tx_counted_def p)
qed

fun send_all :: "((nat \<times> nat) \<times> ip_addr \<times> u16) list \<Rightarrow> memory \<times> TxQueue \<Rightarrow> (unit, string) outcome list \<times> memory \<times> TxQueue" where
  "send_all [] s = ([], s)"
| "send_all ((data, addr) # packets) s =
    (case send_packet_zero_copy 0 data addr s of (r, s') \<Rightarrow> case send_all packets s' of (rs, s'') \<Rightarrow> (r # rs, s''))"

lemma send_all_run:
  assumes "tq_capacity q \<noteq> 0" "tq_capacity q \<le> tq_tail q" "\<forall>(d, ip, port) \<in> set packets. \<exists>a. ip = V4 a"
  shows "fst (send_all packets (m, q)) = replicate (length packets) (Ok ())
    \<and> snd (snd (send_all packets (m, q))) = q \<lparr> tq_head := tq_head q + word_of_nat (length packets) \<rparr>"
  using assms
proof (induction packets arbitrary: m q)
  case (Cons packet packets)
  obtain data len ip port where packet: "packet = ((data, len), V4 ip, port)" using Cons.prems(3) by (cases packet) auto
  have "(tq_head q + 1) mod tq_capacity q < tq_capacity q"
    using Cons.prems(1) by (simp add: word_less_nat_alt unat_mod_distrib unat_gt_0)
  then have "\<not> tx_full q" using Cons.prems(2) by (auto simp: tx_full_def)
  then obtain m' where "send_packet_zero_copy 0 (data, len) (V4 ip, port) (m, q) = (Ok (), m', q \<lparr> tq_head := tq_head q + 1 \<rparr>)"
    using Cons.prems(1) by (simp add: send_packet_zero_copy_def Let_def)
  then show ?case
    using Cons.IH [of "q \<lparr> tq_head := tq_head q + 1 \<rparr>" m'] Cons.prems packet
    by (cases "send_all packets (m', q \<lparr> tq_head := tq_head q + 1 \<rparr>)") (simp add: add.assoc)
qed simp

text \<open>A full round of packets is lost. On an empty sending queue whose tail has passed the capacity, as many sends as
  the queue has slots all succeed, although no packet is transmitted between them; then nothing is pending, and the sending
  thread transmits none of them.\<close>

theorem tx_overrun_loses:
  assumes "tq_capacity (kb_tx_queue u) \<noteq> 0" "tq_capacity (kb_tx_queue u) \<le> tq_tail (kb_tx_queue u)"
    and "tq_head (kb_tx_queue u) = tq_tail (kb_tx_queue u)" "unat (tq_capacity (kb_tx_queue u)) < 2 ^ 63"
    and "\<forall>(d, ip, port) \<in> set packets. \<exists>a. ip = V4 a" "length packets = unat (tq_capacity (kb_tx_queue u))"
    and "send_all packets (m, kb_tx_queue u) = (results, m', q)"
  shows "results = replicate (length packets) (Ok ()) \<and> pending_packets q = 0
    \<and> tx_round (u \<lparr> kb_tx_queue := q \<rparr>) = u \<lparr> kb_tx_queue := q \<rparr>"
proof -
  define c where "c = tq_capacity (kb_tx_queue u)"
  have run: "results = replicate (length packets) (Ok ())" "q = kb_tx_queue u \<lparr> tq_head := tq_head (kb_tx_queue u) + c \<rparr>"
    using send_all_run [OF assms(1,2,5), of m] assms(6,7) by (simp_all add: c_def)
  have "unat (c + c) = 2 * unat c" using assms(4) by (simp add: c_def unat_word_ariths)
  then have "unat ((c + c) mod c) = 0" by (simp add: unat_mod_distrib)
  then have "(c + c) mod c = 0" by (simp add: unat_eq_0)
  then have "pending_packets q = 0"
    using assms(3) by (simp add: run(2) pending_packets_def flip: c_def)
  then show ?thesis using run(1) by (simp add: tx_round_def Let_def)
qed

definition wrapped_udp :: KernelBypassUDP where
  "wrapped_udp = \<lparr> kb_interface_name = ''eth0'', kb_tx_queue = \<lparr> tq_ring_buffer = 0, tq_capacity = 2, tq_head = 7, tq_tail = 7 \<rparr>,
     kb_rx_queue = sample_rx, kb_stats = network_stats_default, kb_running = True, kb_cpu_affinity = None \<rparr>"

theorem tx_overrun_loses_witness:
  "\<exists>m q. send_all [((10000, 3), V4 1, 80), ((20000, 3), V4 1, 80)] (\<lambda>_. 0, kb_tx_queue wrapped_udp) = ([Ok (), Ok ()], m, q)
    \<and> tx_round (wrapped_udp \<lparr> kb_tx_queue := q \<rparr>) = wrapped_udp \<lparr> kb_tx_queue := q \<rparr>"
proof -
  obtain results m q where
    run: "send_all [((10000, 3), V4 1, 80), ((20000, 3), V4 1, 80)] (\<lambda>_. 0, kb_tx_queue wrapped_udp) = (results, m, q)"
    by (cases "send_all [((10000, 3), V4 1, 80), ((20000, 3), V4 1, 80)] (\<lambda>_. 0, kb_tx_queue wrapped_udp)") auto
  have "results = [Ok (), Ok ()] \<and> pending_packets q = 0
      \<and> tx_round (wrapped_udp \<lparr> kb_tx_queue := q \<rparr>) = wrapped_udp \<lparr> kb_tx_queue := q \<rparr>"
    using tx_overrun_loses [OF _ _ _ _ _ _ run] by (simp add: wrapped_udp_def)
  then show ?thesis using run by simp
qed

text \<open>Every other slot is misaligned for the 8-byte fields of a descriptor, which the code writes and reads through a
  pointer to the structure.\<close>

theorem slots_misaligned:
  "entry_offset pos capacity mod 8 = (if even (unat (pos mod capacity)) then 0 else 4)"
proof (cases "even (unat (pos mod capacity))")
  case True
  then obtain k where "unat (pos mod capacity) = 2 * k" by (elim evenE)
  then show ?thesis by (simp add: entry_offset_def DESCRIPTOR_SIZE_def)
next
  case False
  then obtain k where k: "unat (pos mod capacity) = 2 * k + 1" by (elim oddE)
  have "(2 * k + 1) * 1532 = 8 * (383 * k + 191) + 4" by simp
  then have "(2 * k + 1) * 1532 mod 8 = 4" by (simp only: mod_mult_self4) simp
  then show ?thesis using False k by (simp add: entry_offset_def DESCRIPTOR_SIZE_def del: One_nat_def)
qed

end
