(* ===== verification/Event_Dispatch.thy ===== *)
theory Event_Dispatch
  imports Ring_Buffer Prices
begin

text \<open>
  perf/ultra\_low\_latency.rs: the event dispatcher with its queues and workers, the prefetch cache, the latency
  statistics with their compare-and-swap loops, and the pool of serialization buffers. The file is not declared in
  perf/mod.rs. \<open>ArrayQueue\<close> of the crossbeam crate is a bounded list: a full queue refuses, items leave in order.
  Events are of any type; measured times are arguments.
\<close>

section \<open>Bounded queues\<close>

record 'a array_fifo =
  af_capacity :: nat
  af_items :: "'a list"

definition fifo_new :: "nat \<Rightarrow> ('a array_fifo, 'e) outcome" where
  "fifo_new capacity = (if capacity = 0 then Panic else Ok \<lparr> af_capacity = capacity, af_items = [] \<rparr>)"

definition fifo_push :: "'a \<Rightarrow> 'a array_fifo \<Rightarrow> bool \<times> 'a array_fifo" where
  "fifo_push x q = (if length (af_items q) < af_capacity q then (True, q \<lparr> af_items := af_items q @ [x] \<rparr>) else (False, q))"

definition fifo_pop :: "'a array_fifo \<Rightarrow> 'a option \<times> 'a array_fifo" where
  "fifo_pop q = (case af_items q of [] \<Rightarrow> (None, q) | x # xs \<Rightarrow> (Some x, q \<lparr> af_items := xs \<rparr>))"

section \<open>The prefetch cache\<close>

record 'e PrefetchOptimizer =
  po_prediction_cache :: "'e array_fifo"
  po_hit_count :: u64
  po_miss_count :: u64
  po_learning_enabled :: bool

definition prefetch_new :: "nat \<Rightarrow> ('e PrefetchOptimizer, 'err) outcome" where
  "prefetch_new cache_size = obind (fifo_new cache_size) (\<lambda>q.
     Ok \<lparr> po_prediction_cache = q, po_hit_count = 0, po_miss_count = 0, po_learning_enabled = True \<rparr>)"

definition prefetch_event_data :: "'e \<Rightarrow> 'e PrefetchOptimizer \<Rightarrow> 'e PrefetchOptimizer" where
  "prefetch_event_data event p =
    (if \<not> po_learning_enabled p then p
     else p \<lparr> po_prediction_cache := snd (fifo_push event (po_prediction_cache p)) \<rparr>)"

definition try_get_prefetched :: "'e PrefetchOptimizer \<Rightarrow> 'e option \<times> 'e PrefetchOptimizer" where
  "try_get_prefetched p =
    (case fifo_pop (po_prediction_cache p) of
       (Some event, q) \<Rightarrow> (Some event, p \<lparr> po_prediction_cache := q, po_hit_count := po_hit_count p + 1 \<rparr>)
     | (None, q) \<Rightarrow> (None, p \<lparr> po_prediction_cache := q, po_miss_count := po_miss_count p + 1 \<rparr>))"

definition prefetch_stats :: "'e PrefetchOptimizer \<Rightarrow> u64 \<times> u64 \<times> f64_value" where
  "prefetch_stats p =
    (let hits = po_hit_count p; misses = po_miss_count p;
         hit_rate = (if hits + misses > 0 then fl (as_f64 hits / as_f64 (hits + misses)) else 0)
     in (hits, misses, hit_rate))"

section \<open>Latency statistics\<close>

record UltraLowLatencyStats =
  ul_events_processed :: u64
  ul_total_latency_ns :: u64
  ul_min_latency_ns :: u64
  ul_max_latency_ns :: u64
  ul_sub_millisecond_events :: u64
  ul_ultra_fast_events :: u64
  ul_lightning_fast_events :: u64
  ul_queue_overflows :: u64
  ul_prefetch_hits :: u64

definition latency_stats_new :: UltraLowLatencyStats where
  "latency_stats_new = \<lparr> ul_events_processed = 0, ul_total_latency_ns = 0, ul_min_latency_ns = - 1, ul_max_latency_ns = 0,
     ul_sub_millisecond_events = 0, ul_ultra_fast_events = 0, ul_lightning_fast_events = 0, ul_queue_overflows = 0,
     ul_prefetch_hits = 0 \<rparr>"

text \<open>One thread alone: the first exchange of each loop succeeds. The loops of several threads are a step relation below.\<close>

definition record_event_latency :: "u64 \<Rightarrow> UltraLowLatencyStats \<Rightarrow> UltraLowLatencyStats" where
  "record_event_latency latency_ns s =
    (let s = s \<lparr> ul_events_processed := ul_events_processed s + 1, ul_total_latency_ns := ul_total_latency_ns s + latency_ns \<rparr>;
         s = (if latency_ns < ul_min_latency_ns s then s \<lparr> ul_min_latency_ns := latency_ns \<rparr> else s);
         s = (if latency_ns > ul_max_latency_ns s then s \<lparr> ul_max_latency_ns := latency_ns \<rparr> else s);
         s = (if latency_ns < 1000000 then s \<lparr> ul_sub_millisecond_events := ul_sub_millisecond_events s + 1 \<rparr> else s);
         s = (if latency_ns < 100000 then s \<lparr> ul_ultra_fast_events := ul_ultra_fast_events s + 1 \<rparr> else s)
     in if latency_ns < 10000 then s \<lparr> ul_lightning_fast_events := ul_lightning_fast_events s + 1 \<rparr> else s)"

record UltraLatencySummary =
  us_events_processed :: u64
  us_avg_latency_ns :: f64_value
  us_min_latency_ns :: f64_value
  us_max_latency_ns :: f64_value
  us_avg_latency_us :: f64_value
  us_sub_millisecond_percentage :: f64_value
  us_ultra_fast_percentage :: f64_value
  us_lightning_fast_percentage :: f64_value
  us_target_achieved :: bool

definition percentage_of :: "u64 \<Rightarrow> u64 \<Rightarrow> f64_value" where
  "percentage_of part events = (if events > 0 then fl (fl (as_f64 part / as_f64 events) * 100) else 0)"

definition get_summary :: "UltraLowLatencyStats \<Rightarrow> UltraLatencySummary" where
  "get_summary s =
    (let events_processed = ul_events_processed s;
         avg_latency_ns = (if events_processed > 0 then fl (as_f64 (ul_total_latency_ns s) / as_f64 events_processed) else 0)
     in \<lparr> us_events_processed = events_processed, us_avg_latency_ns = avg_latency_ns,
          us_min_latency_ns = (if ul_min_latency_ns s = - 1 then 0 else as_f64 (ul_min_latency_ns s)),
          us_max_latency_ns = as_f64 (ul_max_latency_ns s), us_avg_latency_us = fl (avg_latency_ns / 1000),
          us_sub_millisecond_percentage = percentage_of (ul_sub_millisecond_events s) events_processed,
          us_ultra_fast_percentage = percentage_of (ul_ultra_fast_events s) events_processed,
          us_lightning_fast_percentage = percentage_of (ul_lightning_fast_events s) events_processed,
          us_target_achieved = (avg_latency_ns < 1000000) \<rparr>)"

section \<open>The dispatcher\<close>

datatype ThreadPriority = NormalPriority | HighPriority | RealTimePriority

record CpuAffinityConfig =
  ca_core_ids :: "nat list"
  ca_numa_optimization :: bool
  ca_priority :: ThreadPriority

record 'e LockFreeEventDispatcher =
  ed_event_queues :: "'e array_fifo list"
  ed_client_queue_mapping :: "string \<rightharpoonup> nat"
  ed_queue_selector :: u64
  ed_stats :: UltraLowLatencyStats
  ed_prefetch_optimizer :: "'e PrefetchOptimizer"
  ed_cpu_affinity :: "CpuAffinityConfig option"

definition dispatcher_new :: "nat \<Rightarrow> nat \<Rightarrow> CpuAffinityConfig option \<Rightarrow> ('e LockFreeEventDispatcher, string) outcome" where
  "dispatcher_new num_queues queue_capacity cpu_affinity =
    (if num_queues > 0 \<and> queue_capacity = 0 then Panic
     else obind (prefetch_new 1000) (\<lambda>p. Ok \<lparr>
       ed_event_queues = replicate num_queues \<lparr> af_capacity = queue_capacity, af_items = [] \<rparr>,
       ed_client_queue_mapping = Map.empty, ed_queue_selector = 0, ed_stats = latency_stats_new,
       ed_prefetch_optimizer = p, ed_cpu_affinity = cpu_affinity \<rparr>))"

definition err_overflow :: "string \<Rightarrow> string" where
  "err_overflow client_id = ''Queue overflow for client: '' @ client_id"

text \<open>The queue of a client, chosen in turn for a new one; without queues the remainder panics.\<close>

definition client_queue :: "string \<Rightarrow> ('e LockFreeEventDispatcher, nat, string) stateful" where
  "client_queue client_id d =
    (case ed_client_queue_mapping d client_id of
       Some index \<Rightarrow> (Ok index, d)
     | None \<Rightarrow>
         let d' = d \<lparr> ed_queue_selector := ed_queue_selector d + 1 \<rparr>
         in if ed_event_queues d = [] then (Panic, d')
            else let index = unat (ed_queue_selector d) mod length (ed_event_queues d)
              in (Ok index, d' \<lparr> ed_client_queue_mapping := (ed_client_queue_mapping d)(client_id \<mapsto> index) \<rparr>))"

definition dispatch_event_ultra_fast :: "u64 \<Rightarrow> string \<Rightarrow> 'e \<Rightarrow> ('e LockFreeEventDispatcher, unit, string) stateful" where
  "dispatch_event_ultra_fast latency_ns client_id event = sbind (client_queue client_id) (\<lambda>queue_index d.
    let d = d \<lparr> ed_prefetch_optimizer := prefetch_event_data event (ed_prefetch_optimizer d) \<rparr>
    in if queue_index < length (ed_event_queues d)
       then case fifo_push event (ed_event_queues d ! queue_index) of
           (True, q) \<Rightarrow> (Ok (), d \<lparr> ed_event_queues := (ed_event_queues d)[queue_index := q],
               ed_stats := record_event_latency latency_ns (ed_stats d) \<rparr>)
         | (False, q) \<Rightarrow> (Err (err_overflow client_id), d \<lparr> ed_stats := (ed_stats d)
               \<lparr> ul_queue_overflows := ul_queue_overflows (ed_stats d) + 1 \<rparr> \<rparr>)
       else (Panic, d))"

text \<open>A worker's visit to one queue: at most 100 events. \<open>time_of\<close> gives the measured time of an event's processing, which
  itself only yields. The events are returned in the order of their processing.\<close>

fun visit_queue :: "nat \<Rightarrow> ('e \<Rightarrow> u64) \<Rightarrow> 'e array_fifo \<times> UltraLowLatencyStats \<Rightarrow> 'e list \<times> 'e array_fifo \<times> UltraLowLatencyStats" where
  "visit_queue 0 time_of (q, s) = ([], q, s)"
| "visit_queue (Suc n) time_of (q, s) =
    (case fifo_pop q of
       (None, q') \<Rightarrow> ([], q', s)
     | (Some event, q') \<Rightarrow>
         (case visit_queue n time_of (q', record_event_latency (time_of event) s) of (events, r) \<Rightarrow> (event # events, r)))"

definition worker_visit :: "('e \<Rightarrow> u64) \<Rightarrow> nat \<Rightarrow> 'e LockFreeEventDispatcher \<Rightarrow> 'e list \<times> 'e LockFreeEventDispatcher" where
  "worker_visit time_of i d =
    (case visit_queue 100 time_of (ed_event_queues d ! i, ed_stats d) of (events, q, s) \<Rightarrow>
       (events, d \<lparr> ed_event_queues := (ed_event_queues d)[i := q], ed_stats := s \<rparr>))"

text \<open>One pass over all queues, from where the last pass ended.\<close>

fun worker_pass :: "('e \<Rightarrow> u64) \<Rightarrow> nat \<Rightarrow> nat \<times> 'e LockFreeEventDispatcher \<Rightarrow> 'e list \<times> nat \<times> 'e LockFreeEventDispatcher" where
  "worker_pass time_of 0 s = ([], s)"
| "worker_pass time_of (Suc n) (queue_index, d) =
    (let len = length (ed_event_queues d)
     in case worker_visit time_of (queue_index mod len) d of (events, d') \<Rightarrow>
       case worker_pass time_of n ((queue_index + 1) mod len, d') of (rest, s) \<Rightarrow> (events @ rest, s))"

definition worker_round :: "('e \<Rightarrow> u64) \<Rightarrow> nat \<times> 'e LockFreeEventDispatcher \<Rightarrow> 'e list \<times> nat \<times> 'e LockFreeEventDispatcher" where
  "worker_round time_of s = worker_pass time_of (length (ed_event_queues (snd s))) s"

definition err_affinity :: "(nat \<Rightarrow> string) \<Rightarrow> nat \<Rightarrow> string" where
  "err_affinity show_nat core_id = ''Failed to set CPU affinity to core '' @ show_nat core_id"

text \<open>On Linux; \<open>sched\<close> tells whether the system accepts a core.\<close>

definition set_thread_affinity :: "(nat \<Rightarrow> string) \<Rightarrow> (nat \<Rightarrow> bool) \<Rightarrow> nat \<Rightarrow> CpuAffinityConfig \<Rightarrow> (unit, string) outcome" where
  "set_thread_affinity show_nat sched worker_id config =
    (if ca_core_ids config = [] then Ok ()
     else let core_id = ca_core_ids config ! (worker_id mod length (ca_core_ids config))
       in if sched core_id then Ok () else Err (err_affinity show_nat core_id))"

definition get_queue_stats :: "'e LockFreeEventDispatcher \<Rightarrow> (nat \<times> nat) list" where
  "get_queue_stats d = enumerate 0 (map (\<lambda>q. length (af_items q)) (ed_event_queues d))"

section \<open>The pool of buffers\<close>

text \<open>A vector with its capacity; \<open>grow\<close> is the capacity that the vector gets when bytes do not fit.\<close>

record vec_u8 =
  vec_bytes :: "u8 list"
  vec_capacity :: nat

record event_serializer =
  es_buffer_pool :: "vec_u8 array_fifo"
  es_size_hints :: "string \<rightharpoonup> nat"

definition event_serializer_new :: "nat \<Rightarrow> nat \<Rightarrow> (event_serializer, string) outcome" where
  "event_serializer_new pool_size buffer_size = obind (fifo_new pool_size) (\<lambda>q. Ok
    \<lparr> es_buffer_pool = q \<lparr> af_items := replicate pool_size \<lparr> vec_bytes = [], vec_capacity = buffer_size \<rparr> \<rparr>,
      es_size_hints = Map.empty \<rparr>)"

definition serialize_event_zero_alloc ::
  "(nat \<Rightarrow> nat \<Rightarrow> nat) \<Rightarrow> ('a \<Rightarrow> string + u8 list) \<Rightarrow> 'a \<Rightarrow> string \<Rightarrow> (event_serializer, vec_u8, string) stateful" where
  "serialize_event_zero_alloc grow bincode value event_type = (\<lambda>self.
    case (case fifo_pop (es_buffer_pool self) of
        (Some buf, q) \<Rightarrow> (buf, self \<lparr> es_buffer_pool := q \<rparr>)
      | (None, q) \<Rightarrow> (\<lparr> vec_bytes = [], vec_capacity = unwrap_or 1024 (es_size_hints self event_type) \<rparr>, self))
    of (buffer, self) \<Rightarrow>
      let buffer = buffer \<lparr> vec_bytes := [] \<rparr>
      in case bincode value of
        Inl e \<Rightarrow> (Err e, self)
      | Inr serialized \<Rightarrow>
          let buffer = buffer \<lparr> vec_bytes := serialized,
                vec_capacity := (if length serialized \<le> vec_capacity buffer then vec_capacity buffer
                                 else grow (vec_capacity buffer) (length serialized)) \<rparr>
          in (Ok buffer, self \<lparr> es_size_hints := (es_size_hints self)(event_type \<mapsto> length (vec_bytes buffer)) \<rparr>))"

definition return_event_buffer :: "vec_u8 \<Rightarrow> event_serializer \<Rightarrow> event_serializer" where
  "return_event_buffer buffer self =
    (if vec_capacity buffer \<le> 1024 * 1024 then self \<lparr> es_buffer_pool := snd (fifo_push buffer (es_buffer_pool self)) \<rparr> else self)"

definition event_pool_stats :: "event_serializer \<Rightarrow> nat \<times> nat" where
  "event_pool_stats self = (length (af_items (es_buffer_pool self)), af_capacity (es_buffer_pool self))"

section \<open>The compare-and-swap loops of several threads\<close>

text \<open>A thread that keeps the best of the values: it loads the shared value, and while its own is better it tries to exchange
  the loaded value for its own. A weak exchange can also fail without reason.\<close>

datatype cas_phase = CasStart | CasLoaded u64 | CasDone

record cas_world =
  cw_value :: u64
  cw_tasks :: "(u64 \<times> cas_phase) list"

inductive cas_step :: "(u64 \<Rightarrow> u64 \<Rightarrow> bool) \<Rightarrow> cas_world \<Rightarrow> cas_world \<Rightarrow> bool" for better :: "u64 \<Rightarrow> u64 \<Rightarrow> bool" where
  cas_load: "i < length (cw_tasks w) \<Longrightarrow> cw_tasks w ! i = (latency, CasStart) \<Longrightarrow>
    cas_step better w (w \<lparr> cw_tasks := (cw_tasks w)[i := (latency, CasLoaded (cw_value w))] \<rparr>)"
| cas_leave: "i < length (cw_tasks w) \<Longrightarrow> cw_tasks w ! i = (latency, CasLoaded current) \<Longrightarrow> \<not> better latency current \<Longrightarrow>
    cas_step better w (w \<lparr> cw_tasks := (cw_tasks w)[i := (latency, CasDone)] \<rparr>)"
| cas_exchange: "i < length (cw_tasks w) \<Longrightarrow> cw_tasks w ! i = (latency, CasLoaded current) \<Longrightarrow> better latency current \<Longrightarrow>
    cw_value w = current \<Longrightarrow>
    cas_step better w (w \<lparr> cw_value := latency, cw_tasks := (cw_tasks w)[i := (latency, CasDone)] \<rparr>)"
| cas_fail: "i < length (cw_tasks w) \<Longrightarrow> cw_tasks w ! i = (latency, CasLoaded current) \<Longrightarrow> better latency current \<Longrightarrow>
    cas_step better w (w \<lparr> cw_tasks := (cw_tasks w)[i := (latency, CasLoaded (cw_value w))] \<rparr>)"

definition cas_start :: "u64 \<Rightarrow> u64 list \<Rightarrow> cas_world" where
  "cas_start v latencies = \<lparr> cw_value = v, cw_tasks = map (\<lambda>l. (l, CasStart)) latencies \<rparr>"

section \<open>Lemmas\<close>

interpretation event_fifo: bounded_queue "\<lambda>q. length (af_items q) \<le> af_capacity q" af_items af_capacity fifo_push fifo_pop
  by unfold_locales (auto simp: fifo_push_def fifo_pop_def split: list.splits)

text \<open>Threads that keep the best value of a strict linear order.\<close>

locale best_value =
  fixes better :: "u64 \<Rightarrow> u64 \<Rightarrow> bool"
  assumes not_self: "\<not> better a a"
    and trans: "better a b \<Longrightarrow> better b c \<Longrightarrow> better a c"
    and not_trans: "\<not> better a b \<Longrightarrow> \<not> better b c \<Longrightarrow> \<not> better a c"
begin

text \<open>The shared value is one of the values, it is at least as good as all loaded ones and those of the threads that are done.\<close>

fun task_ok :: "u64 \<Rightarrow> u64 \<times> cas_phase \<Rightarrow> bool" where
  "task_ok v (l, CasStart) \<longleftrightarrow> True"
| "task_ok v (l, CasLoaded c) \<longleftrightarrow> \<not> better c v"
| "task_ok v (l, CasDone) \<longleftrightarrow> \<not> better l v"

definition cas_inv :: "u64 \<Rightarrow> u64 list \<Rightarrow> cas_world \<Rightarrow> bool" where
  "cas_inv v ls w \<longleftrightarrow> map fst (cw_tasks w) = ls \<and> cw_value w \<in> insert v (set ls) \<and> \<not> better v (cw_value w)
    \<and> (\<forall>t \<in> set (cw_tasks w). task_ok (cw_value w) t)"

lemma task_ok_better: "task_ok v t \<Longrightarrow> better v' v \<Longrightarrow> task_ok v' t"
  by (cases "(v, t)" rule: task_ok.cases) (auto dest: trans)

lemma inv_update:
  assumes "cas_inv v ls w" "i < length (cw_tasks w)" "fst (cw_tasks w ! i) = l" "cw_tasks w' = (cw_tasks w)[i := (l, ph)]"
    and "cw_value w' \<in> insert v (set ls)" "cw_value w' = cw_value w \<or> better (cw_value w') (cw_value w)" "task_ok (cw_value w') (l, ph)"
  shows "cas_inv v ls w'"
proof -
  have "map fst (cw_tasks w') = ls"
  proof -
    have "map fst (cw_tasks w) ! i = l" using assms(2,3) by simp
    then have "map fst (cw_tasks w') = map fst (cw_tasks w)" by (simp add: assms(4) map_update list_update_same_conv assms(2))
    then show ?thesis using assms(1) by (simp add: cas_inv_def)
  qed
  moreover have "\<not> better v (cw_value w')"
    using assms(1,6) trans [of v "cw_value w'" "cw_value w"] by (auto simp: cas_inv_def)
  moreover have "task_ok (cw_value w') t" if "t \<in> set (cw_tasks w')" for t
  proof -
    have "t = (l, ph) \<or> t \<in> set (cw_tasks w)"
      using that set_update_subset_insert [of "cw_tasks w" i "(l, ph)"] by (auto simp: assms(4))
    then show ?thesis
    proof
      assume "t \<in> set (cw_tasks w)"
      then have "task_ok (cw_value w) t" using assms(1) by (simp add: cas_inv_def)
      then show ?thesis using assms(6) task_ok_better [of _ t "cw_value w'"] by fastforce
    qed (use assms(7) in simp)
  qed
  ultimately show ?thesis using assms(5) by (simp add: cas_inv_def)
qed

lemma step_inv: "cas_step better w w' \<Longrightarrow> cas_inv v ls w \<Longrightarrow> cas_inv v ls w'"
proof (induction rule: cas_step.induct)
  case (cas_load i w latency)
  show ?case
    by (rule inv_update [OF cas_load.prems cas_load.hyps(1), where l = latency and ph = "CasLoaded (cw_value w)"])
      (use cas_load not_self in \<open>auto simp: cas_inv_def\<close>)
next
  case (cas_leave i w latency current)
  have "task_ok (cw_value w) (latency, CasLoaded current)"
    using cas_leave.prems nth_mem [OF cas_leave.hyps(1)] unfolding cas_inv_def cas_leave.hyps(2) by blast
  then have "\<not> better latency (cw_value w)" using not_trans [OF cas_leave.hyps(3)] by simp
  then show ?case
    using cas_leave
    by (intro inv_update [OF cas_leave.prems cas_leave.hyps(1), where l = latency and ph = CasDone]) (auto simp: cas_inv_def)
next
  case (cas_exchange i w latency current)
  have "map fst (cw_tasks w) ! i = latency" using cas_exchange.hyps(1,2) by simp
  moreover have "map fst (cw_tasks w) = ls" using cas_exchange.prems by (simp add: cas_inv_def)
  ultimately have "latency \<in> set ls" using cas_exchange.hyps(1) by (metis length_map nth_mem)
  then show ?case
    using cas_exchange not_self
    by (intro inv_update [OF cas_exchange.prems cas_exchange.hyps(1), where l = latency and ph = CasDone]) auto
next
  case (cas_fail i w latency current)
  show ?case
    by (rule inv_update [OF cas_fail.prems cas_fail.hyps(1), where l = latency and ph = "CasLoaded (cw_value w)"])
      (use cas_fail not_self in \<open>auto simp: cas_inv_def\<close>)
qed

lemma reachable_inv: "(cas_step better)\<^sup>*\<^sup>* (cas_start v ls) w \<Longrightarrow> cas_inv v ls w"
proof (induction rule: rtranclp_induct)
  case base
  then show ?case using not_self by (auto simp: cas_inv_def cas_start_def o_def)
next
  case (step w w')
  then show ?case using step_inv by blast
qed

lemma best_of_all:
  assumes "(cas_step better)\<^sup>*\<^sup>* (cas_start v ls) w" "\<forall>t \<in> set (cw_tasks w). snd t = CasDone"
  shows "cw_value w \<in> insert v (set ls) \<and> (\<forall>l \<in> insert v (set ls). \<not> better l (cw_value w))"
proof -
  have inv: "cas_inv v ls w" by (rule reachable_inv [OF assms(1)])
  have "\<not> better (fst t) (cw_value w)" if "t \<in> set (cw_tasks w)" for t
  proof -
    have "task_ok (cw_value w) t" "snd t = CasDone" using inv that assms(2) by (simp_all add: cas_inv_def)
    then show ?thesis by (cases t) simp
  qed
  moreover have "ls = map fst (cw_tasks w)" using inv by (simp add: cas_inv_def)
  ultimately have "\<forall>l \<in> set ls. \<not> better l (cw_value w)" by simp
  then show ?thesis using inv by (simp add: cas_inv_def)
qed

end

interpretation least: best_value "(<)" by unfold_locales auto

interpretation greatest: best_value "(>)" by unfold_locales auto

text \<open>The statistics of a list of latencies.\<close>

definition count_below :: "u64 \<Rightarrow> u64 list \<Rightarrow> u64" where
  "count_below bound ls = word_of_nat (length (filter (\<lambda>l. l < bound) ls))"

lemma record_all:
  "fold record_event_latency ls s = s \<lparr> ul_events_processed := ul_events_processed s + word_of_nat (length ls),
     ul_total_latency_ns := ul_total_latency_ns s + sum_list ls,
     ul_min_latency_ns := fold min ls (ul_min_latency_ns s), ul_max_latency_ns := fold max ls (ul_max_latency_ns s),
     ul_sub_millisecond_events := ul_sub_millisecond_events s + count_below 1000000 ls,
     ul_ultra_fast_events := ul_ultra_fast_events s + count_below 100000 ls,
     ul_lightning_fast_events := ul_lightning_fast_events s + count_below 10000 ls \<rparr>"
proof (induction ls arbitrary: s)
  case (Cons l ls)
  have "record_event_latency l s = s \<lparr> ul_events_processed := ul_events_processed s + 1,
     ul_total_latency_ns := ul_total_latency_ns s + l,
     ul_min_latency_ns := min l (ul_min_latency_ns s), ul_max_latency_ns := max l (ul_max_latency_ns s),
     ul_sub_millisecond_events := ul_sub_millisecond_events s + of_bool (l < 1000000),
     ul_ultra_fast_events := ul_ultra_fast_events s + of_bool (l < 100000),
     ul_lightning_fast_events := ul_lightning_fast_events s + of_bool (l < 10000) \<rparr>"
    by (simp add: record_event_latency_def Let_def min_def max_def)
  then show ?case by (simp add: Cons.IH count_below_def add.assoc)
qed (simp add: count_below_def)

lemma fold_extremes:
  "fold min ls v = Min (insert v (set ls))" "fold max ls v = Max (insert v (set ls))" for v :: u64
  using Min.set_eq_fold [of v ls] Max.set_eq_fold [of v ls] by simp_all

lemma count_below_mono: "a \<le> b \<Longrightarrow> length (filter (\<lambda>l. l < a) ls) \<le> length (filter (\<lambda>l. l < b) (ls :: u64 list))"
  by (induction ls) auto

lemma unat_count_below: "length ls < 2 ^ 64 \<Longrightarrow> unat (count_below b ls) = length (filter (\<lambda>l. l < b) ls)"
  by (simp add: count_below_def unsigned_of_nat take_bit_nat_eq_self le_less_trans [OF length_filter_le])

section \<open>Properties\<close>

text \<open>The extreme latencies survive every interleaving. However the compare-and-swap loops of any number of threads
  interleave, also when exchanges fail without reason, the least latency is in the cell when all are done, and likewise
  the greatest.\<close>

theorem extremes_kept:
  assumes "(cas_step (<))\<^sup>*\<^sup>* (cas_start v ls) w" "\<forall>t \<in> set (cw_tasks w). snd t = CasDone"
    and "(cas_step (>))\<^sup>*\<^sup>* (cas_start v ls) w'" "\<forall>t \<in> set (cw_tasks w'). snd t = CasDone"
  shows "cw_value w = Min (insert v (set ls)) \<and> cw_value w' = Max (insert v (set ls))"
proof
  show "cw_value w = Min (insert v (set ls))"
    using least.best_of_all [OF assms(1,2)] by (intro Min_eqI [symmetric]) (auto simp: not_less)
  show "cw_value w' = Max (insert v (set ls))"
    using greatest.best_of_all [OF assms(3,4)] by (intro Max_eqI [symmetric]) (auto simp: not_less)
qed

text \<open>Two threads: both load, the first exchanges, the second fails and leaves; and two that both leave.\<close>

theorem extremes_kept_witness:
  "Min (insert (9 :: u64) (set [3, 5])) = 3 \<and> Max (insert (9 :: u64) (set [3, 5])) = 9"
proof -
  define w where "w v p q = \<lparr> cw_value = v, cw_tasks = [(3, p), (5, q)] \<rparr>" for v :: u64 and p q
  have "cas_step b (w 9 CasStart CasStart) (w 9 (CasLoaded 9) CasStart)" for b
    using cas_load [of 0 "w 9 CasStart CasStart" 3 b] by (simp add: w_def)
  moreover have "cas_step b (w 9 (CasLoaded 9) CasStart) (w 9 (CasLoaded 9) (CasLoaded 9))" for b
    using cas_load [of 1 "w 9 (CasLoaded 9) CasStart" 5 b] by (simp add: w_def)
  moreover have "cas_step (<) (w 9 (CasLoaded 9) (CasLoaded 9)) (w 3 CasDone (CasLoaded 9))"
    using cas_exchange [of 0 "w 9 (CasLoaded 9) (CasLoaded 9)" 3 9 "(<)"] by (simp add: w_def)
  moreover have "cas_step (<) (w 3 CasDone (CasLoaded 9)) (w 3 CasDone (CasLoaded 3))"
    using cas_fail [of 1 "w 3 CasDone (CasLoaded 9)" 5 9 "(<)"] by (simp add: w_def)
  moreover have "cas_step (<) (w 3 CasDone (CasLoaded 3)) (w 3 CasDone CasDone)"
    using cas_leave [of 1 "w 3 CasDone (CasLoaded 3)" 5 3 "(<)"] by (simp add: w_def)
  moreover have "cas_step (>) (w 9 (CasLoaded 9) (CasLoaded 9)) (w 9 CasDone (CasLoaded 9))"
    using cas_leave [of 0 "w 9 (CasLoaded 9) (CasLoaded 9)" 3 9 "(>)"] by (simp add: w_def)
  moreover have "cas_step (>) (w 9 CasDone (CasLoaded 9)) (w 9 CasDone CasDone)"
    using cas_leave [of 1 "w 9 CasDone (CasLoaded 9)" 5 9 "(>)"] by (simp add: w_def)
  ultimately have "(cas_step (<))\<^sup>*\<^sup>* (w 9 CasStart CasStart) (w 3 CasDone CasDone)"
    "(cas_step (>))\<^sup>*\<^sup>* (w 9 CasStart CasStart) (w 9 CasDone CasDone)"
    by (meson r_into_rtranclp rtranclp_trans)+
  moreover have "w 9 CasStart CasStart = cas_start 9 [3, 5]" by (simp add: w_def cas_start_def)
  ultimately show ?thesis
    using extremes_kept [of 9 "[3, 5]" "w 3 CasDone CasDone" "w 9 CasDone CasDone"] by (simp add: w_def)
qed

lemma as_f64_mono: "unat a \<le> unat b \<Longrightarrow> as_f64 a \<le> as_f64 b"
  unfolding as_f64_def by (rule fl_mono) (simp_all del: of_nat_unat)

lemma as_f64_pos: "0 < n \<Longrightarrow> 0 < as_f64 n"
proof -
  assume "0 < n"
  then have "n \<noteq> 0" by simp
  then have "as_f64 1 \<le> as_f64 n" by (intro as_f64_mono) (simp add: unat_gt_0 Suc_le_eq)
  moreover have "as_f64 1 = 1" using fl_of_nat [of 1] by (simp add: as_f64_def)
  ultimately show ?thesis by simp
qed

lemma as_f64_nonneg: "0 \<le> as_f64 n"
  unfolding as_f64_def by (rule fl_nonneg) (simp del: of_nat_unat)

text \<open>A type property of the statistics.\<close>

lemma percentage_mono:
  assumes "unat a \<le> unat b" "unat b \<le> unat n"
  shows "0 \<le> percentage_of a n \<and> percentage_of a n \<le> percentage_of b n \<and> percentage_of b n \<le> 100"
proof (cases "n > 0")
  case True
  have f: "0 \<le> as_f64 a" "as_f64 a \<le> as_f64 b" "as_f64 b \<le> as_f64 n" "0 < as_f64 n"
    using assms True by (simp_all add: as_f64_mono as_f64_pos as_f64_nonneg)
  let ?x = "as_f64 a / as_f64 n" and ?y = "as_f64 b / as_f64 n"
  have q: "0 \<le> ?x" "?x \<le> ?y" "?y \<le> 1" using f by (simp_all add: divide_right_mono)
  then have "0 \<le> fl ?x" "fl ?x \<le> fl ?y" "fl ?y \<le> 1" using fl_mono [of ?x ?y] fl_mono [of ?y 1] fl_of_nat [of 1] by simp_all
  then have "0 \<le> fl (fl ?x * 100)" "fl (fl ?x * 100) \<le> fl (fl ?y * 100)" "fl (fl ?y * 100) \<le> 100"
    using fl_mono [of "fl ?x * 100" "fl ?y * 100"] fl_mono [of "fl ?y * 100" 100] fl_of_nat [of 100] by simp_all
  then show ?thesis using True by (simp add: percentage_of_def)
qed (simp add: percentage_of_def)


definition sample_latencies :: "u64 list" where
  "sample_latencies = [5000, 50000, 2000000]"


section \<open>The order of a client's events\<close>

lemma visit_run:
  "\<exists>s'. visit_queue n time_of (q, s) = (take n (af_items q), q \<lparr> af_items := drop n (af_items q) \<rparr>, s')"
proof (induction n arbitrary: q s)
  case (Suc n)
  show ?case
  proof (cases "af_items q")
    case (Cons x xs)
    then show ?thesis using Suc [of "q \<lparr> af_items := xs \<rparr>" "record_event_latency (time_of x) s"] by (auto simp: fifo_pop_def)
  qed (simp add: fifo_pop_def)
qed simp

lemma worker_visit_run:
  "\<exists>s'. worker_visit time_of i d = (take 100 (af_items (ed_event_queues d ! i)),
     d \<lparr> ed_event_queues := (ed_event_queues d)[i := (ed_event_queues d ! i) \<lparr> af_items := drop 100 (af_items (ed_event_queues d ! i)) \<rparr>],
         ed_stats := s' \<rparr>)"
  using visit_run [of 100 time_of "ed_event_queues d ! i" "ed_stats d"] by (auto simp: worker_visit_def)

text \<open>Clients that dispatch events and workers that visit queues, in any order: the events that were accepted, those
  that were taken, and the final dispatcher. \<open>co\<close> tells whose event it is.\<close>

datatype 'e dispatch_op = DispatchOp u64 'e | VisitOp nat

fun run_ops :: "('e \<Rightarrow> string) \<Rightarrow> ('e \<Rightarrow> u64) \<Rightarrow> 'e dispatch_op list \<Rightarrow> 'e LockFreeEventDispatcher \<Rightarrow>
    'e list \<times> 'e list \<times> 'e LockFreeEventDispatcher" where
  "run_ops co time_of [] d = ([], [], d)"
| "run_ops co time_of (DispatchOp t e # ops) d =
    (case dispatch_event_ultra_fast t (co e) e d of (r, d') \<Rightarrow> case run_ops co time_of ops d' of (accepted, taken, d'') \<Rightarrow>
       ((if r = Ok () then e # accepted else accepted), taken, d''))"
| "run_ops co time_of (VisitOp i # ops) d =
    (case worker_visit time_of (i mod length (ed_event_queues d)) d of (events, d') \<Rightarrow>
       case run_ops co time_of ops d' of (accepted, taken, d'') \<Rightarrow> (accepted, events @ taken, d''))"

definition dispatch_ok :: "('e \<Rightarrow> string) \<Rightarrow> 'e LockFreeEventDispatcher \<Rightarrow> bool" where
  "dispatch_ok co d \<longleftrightarrow> ed_event_queues d \<noteq> []
    \<and> (\<forall>c i. ed_client_queue_mapping d c = Some i \<longrightarrow> i < length (ed_event_queues d))
    \<and> (\<forall>j < length (ed_event_queues d). \<forall>e \<in> set (af_items (ed_event_queues d ! j)). ed_client_queue_mapping d (co e) = Some j)"

definition waiting :: "('e \<Rightarrow> string) \<Rightarrow> string \<Rightarrow> 'e LockFreeEventDispatcher \<Rightarrow> 'e list" where
  "waiting co c d = (case ed_client_queue_mapping d c of None \<Rightarrow> []
     | Some j \<Rightarrow> filter (\<lambda>e. co e = c) (af_items (ed_event_queues d ! j)))"

lemma client_queue_run:
  assumes "dispatch_ok co d"
  shows "\<exists>i d'. client_queue c d = (Ok i, d') \<and> i < length (ed_event_queues d) \<and> ed_event_queues d' = ed_event_queues d
    \<and> ed_client_queue_mapping d' = (ed_client_queue_mapping d)(c \<mapsto> i)
    \<and> ed_client_queue_mapping d c \<in> {None, Some i}"
proof (cases "ed_client_queue_mapping d c")
  case None
  then show ?thesis using assms by (auto simp: client_queue_def Let_def dispatch_ok_def)
next
  case (Some i)
  moreover from this have "(ed_client_queue_mapping d)(c \<mapsto> i) = ed_client_queue_mapping d" by (simp add: map_upd_triv)
  ultimately show ?thesis using assms by (auto simp: client_queue_def dispatch_ok_def)
qed

lemma dispatch_run:
  assumes "dispatch_ok co d"
  shows "\<exists>i d' r. dispatch_event_ultra_fast t c e d = (r, d') \<and> i < length (ed_event_queues d)
    \<and> ed_client_queue_mapping d' = (ed_client_queue_mapping d)(c \<mapsto> i) \<and> ed_client_queue_mapping d c \<in> {None, Some i}
    \<and> ed_event_queues d' = (if r = Ok () then (ed_event_queues d)[i := (ed_event_queues d ! i)
        \<lparr> af_items := af_items (ed_event_queues d ! i) @ [e] \<rparr>] else ed_event_queues d)"
proof -
  obtain i d' where q: "client_queue c d = (Ok i, d')" "i < length (ed_event_queues d)" "ed_event_queues d' = ed_event_queues d"
      "ed_client_queue_mapping d' = (ed_client_queue_mapping d)(c \<mapsto> i)" "ed_client_queue_mapping d c \<in> {None, Some i}"
    using client_queue_run [OF assms] by blast
  show ?thesis
    using q by (cases "length (af_items (ed_event_queues d ! i)) < af_capacity (ed_event_queues d ! i)")
      (auto simp: dispatch_event_ultra_fast_def sbind_def Let_def fifo_push_def intro!: exI [of _ i])
qed

lemma dispatch_keeps:
  assumes "dispatch_ok co d" "dispatch_event_ultra_fast t (co e) e d = (r, d')"
  shows "dispatch_ok co d'" "waiting co c d' = waiting co c d @ (if r = Ok () \<and> co e = c then [e] else [])"
proof -
  obtain i where i: "i < length (ed_event_queues d)"
      "ed_client_queue_mapping d' = (ed_client_queue_mapping d)(co e \<mapsto> i)" "ed_client_queue_mapping d (co e) \<in> {None, Some i}"
      "ed_event_queues d' = (if r = Ok () then (ed_event_queues d)[i := (ed_event_queues d ! i)
        \<lparr> af_items := af_items (ed_event_queues d ! i) @ [e] \<rparr>] else ed_event_queues d)"
    using dispatch_run [OF assms(1), of t "co e" e] assms(2) by auto
  have others: "((ed_client_queue_mapping d)(co e \<mapsto> i)) (co x) = Some j"
    if "j < length (ed_event_queues d)" "x \<in> set (af_items (ed_event_queues d ! j))" for j x
  proof -
    have "ed_client_queue_mapping d (co x) = Some j" using assms(1) that by (simp add: dispatch_ok_def)
    then show ?thesis using i(3) by auto
  qed
  show "dispatch_ok co d'"
    using assms(1) i(1) others by (auto simp: dispatch_ok_def i(2,4) nth_list_update split: if_splits)
  have none: "filter (\<lambda>x. co x = c) (af_items (ed_event_queues d ! i)) = []" if "ed_client_queue_mapping d c = None"
    using assms(1) i(1) that by (auto simp: dispatch_ok_def filter_empty_conv)
  show "waiting co c d' = waiting co c d @ (if r = Ok () \<and> co e = c then [e] else [])"
  proof (cases "co e = c")
    case True
    then show ?thesis using i none by (auto simp: waiting_def)
  next
    case False
    show ?thesis
      using False i(1) assms(1) by (cases "ed_client_queue_mapping d c") (auto simp: waiting_def i(2,4) nth_list_update)
  qed
qed

lemma visit_keeps:
  assumes "dispatch_ok co d" "i < length (ed_event_queues d)" "worker_visit time_of i d = (events, d')"
  shows "dispatch_ok co d'" "waiting co c d = filter (\<lambda>e. co e = c) events @ waiting co c d'"
proof -
  let ?items = "af_items (ed_event_queues d ! i)"
  obtain s where s: "events = take 100 ?items" "d' = d \<lparr> ed_event_queues := (ed_event_queues d)[i :=
      (ed_event_queues d ! i) \<lparr> af_items := drop 100 ?items \<rparr>], ed_stats := s \<rparr>"
    using worker_visit_run [of time_of i d] assms(3) by auto
  show "dispatch_ok co d'"
    using assms(1,2) by (auto simp: s(2) dispatch_ok_def nth_list_update dest: in_set_dropD)
  have split: "filter P ?items = filter P (take 100 ?items) @ filter P (drop 100 ?items)" for P
    by (metis append_take_drop_id filter_append)
  have mine: "ed_client_queue_mapping d (co e) = Some i" if "e \<in> set ?items" for e
    using assms(1,2) that by (simp add: dispatch_ok_def)
  show "waiting co c d = filter (\<lambda>e. co e = c) events @ waiting co c d'"
  proof (cases "ed_client_queue_mapping d c = Some i")
    case True
    then show ?thesis using assms(2) split by (simp add: waiting_def s)
  next
    case False
    then have "filter (\<lambda>e. co e = c) events = []" using mine by (auto simp: s(1) filter_empty_conv dest!: in_set_takeD)
    then show ?thesis
      using False by (cases "ed_client_queue_mapping d c") (auto simp: waiting_def s(2) nth_list_update)
  qed
qed

lemma run_ops_order:
  assumes "dispatch_ok co d" "run_ops co time_of ops d = (accepted, taken, d')"
  shows "waiting co c d @ filter (\<lambda>e. co e = c) accepted = filter (\<lambda>e. co e = c) taken @ waiting co c d' \<and> dispatch_ok co d'"
  using assms
proof (induction co time_of ops d arbitrary: accepted taken rule: run_ops.induct)
  case (2 co time_of t e ops d)
  obtain r d1 where d1: "dispatch_event_ultra_fast t (co e) e d = (r, d1)" by fastforce
  obtain acc where rest: "run_ops co time_of ops d1 = (acc, taken, d')" "accepted = (if r = Ok () then e # acc else acc)"
    using "2.prems"(2) d1 by (auto split: prod.splits)
  show ?case
    using "2.IH" [OF d1 [symmetric] dispatch_keeps(1) [OF "2.prems"(1) d1] rest(1)] dispatch_keeps(2) [OF "2.prems"(1) d1, of c] rest(2)
    by auto
next
  case (3 co time_of i ops d)
  obtain events d1 where d1: "worker_visit time_of (i mod length (ed_event_queues d)) d = (events, d1)" by fastforce
  obtain tk where rest: "run_ops co time_of ops d1 = (accepted, tk, d')" "taken = events @ tk"
    using "3.prems"(2) d1 by (auto split: prod.splits)
  have i: "i mod length (ed_event_queues d) < length (ed_event_queues d)" using "3.prems"(1) by (simp add: dispatch_ok_def)
  show ?case
    using "3.IH" [OF d1 [symmetric] visit_keeps(1) [OF "3.prems"(1) i d1] rest(1)] visit_keeps(2) [OF "3.prems"(1) i d1, of c] rest(2)
    by auto
qed simp

text \<open>The events of a client keep their order. However clients dispatch and workers visit the queues of a new
  dispatcher, the events of each client that were accepted are, in their order, those that workers have taken and
  then those that wait; a client always uses the queue that was chosen for its first event.\<close>

theorem client_order:
  assumes "dispatcher_new num_queues capacity affinity = Ok d" "0 < num_queues"
    and "run_ops co time_of ops d = (accepted, taken, d')"
  shows "filter (\<lambda>e. co e = c) accepted = filter (\<lambda>e. co e = c) taken @ waiting co c d'
    \<and> (\<forall>j < length (ed_event_queues d'). \<forall>e \<in> set (af_items (ed_event_queues d' ! j)). co e = c \<longrightarrow> ed_client_queue_mapping d' c = Some j)"
proof -
  have "dispatch_ok co d" "waiting co c d = []"
    using assms(1,2) by (auto simp: dispatcher_new_def prefetch_new_def fifo_new_def dispatch_ok_def waiting_def split: if_splits)
  then show ?thesis using run_ops_order [OF _ assms(3), of c] by (auto simp: dispatch_ok_def)
qed

theorem client_order_witness:
  "\<exists>d accepted taken d'. dispatcher_new 2 4 None = Ok d
    \<and> run_ops (\<lambda>e. if even e then ''a'' else ''b'') (\<lambda>_. 1)
         [DispatchOp 1 (2 :: nat), DispatchOp 1 3, DispatchOp 1 4, VisitOp 0, DispatchOp 1 6] d = (accepted, taken, d')
    \<and> filter even accepted = filter even taken @ waiting (\<lambda>e. if even e then ''a'' else ''b'') ''a'' d'"
proof -
  let ?co = "\<lambda>e :: nat. if even e then ''a'' else ''b''"
  obtain d :: "nat LockFreeEventDispatcher" where d: "dispatcher_new 2 4 None = Ok d"
    by (simp add: dispatcher_new_def prefetch_new_def fifo_new_def)
  obtain accepted taken d' where run:
    "run_ops ?co (\<lambda>_. 1) [DispatchOp 1 2, DispatchOp 1 3, DispatchOp 1 4, VisitOp 0, DispatchOp 1 6] d = (accepted, taken, d')"
    using prod_cases3 by blast
  have "filter even accepted = filter even taken @ waiting ?co ''a'' d'"
    using client_order [OF d _ run, of "''a''"] by (simp add: if_split_eq1 cong: filter_cong)
  then show ?thesis using d run by blast
qed

section \<open>Passes over the queues\<close>

text \<open>The queues that a pass of \<open>n\<close> visits reaches.\<close>

definition reached :: "nat \<Rightarrow> nat \<Rightarrow> nat \<Rightarrow> nat set" where
  "reached len start n = (\<lambda>k. (start + k) mod len) ` {..<n}"

lemma reached_Suc: "reached len start (Suc n) = insert (start mod len) (reached len ((start + 1) mod len) n)"
  by (auto simp: reached_def lessThan_Suc_eq_insert_0 image_image mod_add_left_eq)

lemma reached_rest:
  assumes "n < len"
  shows "start mod len \<notin> reached len ((start + 1) mod len) n"
proof
  assume "start mod len \<in> reached len ((start + 1) mod len) n"
  then obtain k where k: "k < n" "start mod len = (start + Suc k) mod len"
    by (auto simp: reached_def mod_Suc_eq mod_add_left_eq)
  then have "len dvd Suc k" using mod_eq_dvd_iff_nat [of start "start + Suc k" len] by simp
  then show False using k(1) assms by (auto dest: dvd_imp_le)
qed

lemma reached_all:
  assumes "j < len"
  shows "j \<in> reached len start len"
proof -
  define r where "r = start mod len"
  have r: "r < len" using assms by (simp add: r_def)
  have "(start + (j + (len - r)) mod len) mod len = (r + (j + (len - r))) mod len"
    by (simp add: r_def mod_simps)
  also have "\<dots> = j" using assms r by (simp add: mod_if)
  finally show ?thesis using assms unfolding reached_def by (intro image_eqI [of _ _ "(j + (len - r)) mod len"]) simp_all
qed

lemma pass_items:
  assumes "n \<le> length (ed_event_queues d)" "worker_pass time_of n (start, d) = (events, start', d')"
  shows "length (ed_event_queues d') = length (ed_event_queues d)
    \<and> (\<forall>j < length (ed_event_queues d). af_items (ed_event_queues d' ! j) =
        (if j \<in> reached (length (ed_event_queues d)) start n then drop 100 (af_items (ed_event_queues d ! j)) else af_items (ed_event_queues d ! j)))
    \<and> set events = (\<Union>j \<in> reached (length (ed_event_queues d)) start n. set (take 100 (af_items (ed_event_queues d ! j))))"
  using assms
proof (induction n arbitrary: start d events)
  case (Suc n)
  define len where "len = length (ed_event_queues d)"
  define i where "i = start mod len"
  obtain es d1 where v: "worker_visit time_of i d = (es, d1)" by fastforce
  obtain rest where p: "worker_pass time_of n ((start + 1) mod len, d1) = (rest, start', d')" "events = es @ rest"
    using Suc.prems(2) v by (auto simp: Let_def i_def len_def split: prod.splits)
  obtain s where d1: "es = take 100 (af_items (ed_event_queues d ! i))" "d1 = d \<lparr> ed_event_queues := (ed_event_queues d)[i :=
      (ed_event_queues d ! i) \<lparr> af_items := drop 100 (af_items (ed_event_queues d ! i)) \<rparr>], ed_stats := s \<rparr>"
    using worker_visit_run [of time_of i d] v by auto
  have len1: "length (ed_event_queues d1) = len" by (simp add: d1 len_def)
  have i: "i < len" using Suc.prems(1) by (simp add: i_def len_def) (metis less_le_trans mod_less_divisor zero_less_Suc)
  have fresh: "i \<notin> reached len ((start + 1) mod len) n" using reached_rest [of n len start] Suc.prems(1) by (simp add: i_def len_def)
  note IH = Suc.IH [OF _ p(1), unfolded len1]
  have same: "ed_event_queues d1 ! j = ed_event_queues d ! j" if "j \<noteq> i" for j using that by (simp add: d1)
  have at: "af_items (ed_event_queues d1 ! i) = drop 100 (af_items (ed_event_queues d ! i))" using i by (simp add: d1 len_def)
  have n: "n \<le> len" using Suc.prems(1) by (simp add: len_def)
  have others: "ed_event_queues d1 ! j = ed_event_queues d ! j"
    if "j \<in> reached len ((start + 1) mod len) n" for j
  proof -
    have "j \<noteq> i" using that fresh by auto
    then show ?thesis by (simp add: same)
  qed
  show ?case
    using IH [OF n] i fresh same at others unfolding reached_Suc len_def [symmetric] i_def [symmetric] p(2)
    by (auto simp: d1(1))
qed (simp add: reached_def)

section \<open>Workers\<close>

fun worker_rounds :: "('e \<Rightarrow> u64) \<Rightarrow> nat list \<Rightarrow> 'e LockFreeEventDispatcher \<Rightarrow> 'e LockFreeEventDispatcher" where
  "worker_rounds time_of [] d = d"
| "worker_rounds time_of (start # starts) d = worker_rounds time_of starts (snd (snd (worker_round time_of (start, d))))"

text \<open>Every pass of a worker takes up to 100 events from each queue. From whatever queue a pass starts, it processes
  the 100 oldest events of every queue, or all, and nothing else; so after \<open>n\<close> passes an event that was among
  the \<open>100 * n\<close> oldest of its queue is no longer there.\<close>

theorem workers_drain:
  assumes "j < length (ed_event_queues d)" "worker_round time_of (start, d) = (events, start', d')"
  shows "af_items (ed_event_queues d' ! j) = drop 100 (af_items (ed_event_queues d ! j))
    \<and> set events = (\<Union>k < length (ed_event_queues d). set (take 100 (af_items (ed_event_queues d ! k))))
    \<and> af_items (ed_event_queues (worker_rounds time_of starts d) ! j) = drop (100 * length starts) (af_items (ed_event_queues d ! j))"
proof -
  have all: "reached (length (ed_event_queues e)) s (length (ed_event_queues e)) = {..<length (ed_event_queues e)}" for s and e :: "'a LockFreeEventDispatcher"
    using reached_all [of _ "length (ed_event_queues e)" s] by (auto simp: reached_def intro: mod_less_divisor)
  have round: "length (ed_event_queues d2) = length (ed_event_queues d1)
      \<and> (\<forall>j < length (ed_event_queues d1). af_items (ed_event_queues d2 ! j) = drop 100 (af_items (ed_event_queues d1 ! j)))
      \<and> set es = (\<Union>k < length (ed_event_queues d1). set (take 100 (af_items (ed_event_queues d1 ! k))))"
    if "worker_round time_of (s, d1) = (es, s', d2)" for s d1 es s' d2
    using pass_items [of "length (ed_event_queues d1)" d1 time_of s es s' d2] that by (simp add: worker_round_def all)
  have "af_items (ed_event_queues (worker_rounds time_of starts d) ! j) = drop (100 * length starts) (af_items (ed_event_queues d ! j))"
    using assms(1)
  proof (induction starts arbitrary: d)
    case (Cons s starts)
    obtain es s' d2 where r: "worker_round time_of (s, d) = (es, s', d2)" using prod_cases3 by blast
    show ?case using Cons.IH [of d2] round [OF r] Cons.prems by (simp add: r add.commute)
  qed simp
  then show ?thesis using round [OF assms(2)] assms(1) by simp
qed

theorem workers_drain_witness:
  "\<exists>events start' d'. worker_round (\<lambda>_ :: nat. 1) (7, \<lparr> ed_event_queues = [\<lparr> af_capacity = 4, af_items = [1] \<rparr>, \<lparr> af_capacity = 4, af_items = [2, 3] \<rparr>],
      ed_client_queue_mapping = Map.empty, ed_queue_selector = 0, ed_stats = latency_stats_new,
      ed_prefetch_optimizer = \<lparr> po_prediction_cache = \<lparr> af_capacity = 4, af_items = [] \<rparr>, po_hit_count = 0, po_miss_count = 0, po_learning_enabled = True \<rparr>,
      ed_cpu_affinity = None \<rparr>) = (events, start', d')
    \<and> af_items (ed_event_queues d' ! 1) = [] \<and> set events = {1, 2, 3}"
proof -
  let ?d = "\<lparr> ed_event_queues = [\<lparr> af_capacity = 4, af_items = [1] \<rparr>, \<lparr> af_capacity = 4, af_items = [2, 3 :: nat] \<rparr>],
      ed_client_queue_mapping = Map.empty, ed_queue_selector = 0, ed_stats = latency_stats_new,
      ed_prefetch_optimizer = \<lparr> po_prediction_cache = \<lparr> af_capacity = 4, af_items = [] \<rparr>, po_hit_count = 0, po_miss_count = 0, po_learning_enabled = True \<rparr>,
      ed_cpu_affinity = None \<rparr>"
  obtain events start' d' where r: "worker_round (\<lambda>_. 1) (7, ?d) = (events, start', d')" using prod_cases3 by blast
  show ?thesis
    using workers_drain [OF _ r, of 1 "[]"] r by (auto simp: lessThan_Suc numeral_2_eq_2)
qed

text \<open>The dispatcher never reads its prefetch cache: whatever is dispatched, no hit is counted.\<close>

theorem prefetch_never_hit:
  assumes "dispatcher_new num_queues capacity affinity = Ok d" "run_ops co time_of ops d = (accepted, taken, d')"
  shows "po_hit_count (ed_prefetch_optimizer d') = 0 \<and> po_miss_count (ed_prefetch_optimizer d') = 0"
proof -
  have keep: "po_hit_count (ed_prefetch_optimizer d2) = po_hit_count (ed_prefetch_optimizer d1)
      \<and> po_miss_count (ed_prefetch_optimizer d2) = po_miss_count (ed_prefetch_optimizer d1)"
    if "dispatch_event_ultra_fast t c e d1 = (r, d2)" for t c e r and d1 d2 :: "'a LockFreeEventDispatcher"
    using that by (auto simp: dispatch_event_ultra_fast_def client_queue_def sbind_def Let_def prefetch_event_data_def
        split: prod.splits outcome.splits option.splits if_splits bool.splits)
  have "po_hit_count (ed_prefetch_optimizer d') = po_hit_count (ed_prefetch_optimizer d)
      \<and> po_miss_count (ed_prefetch_optimizer d') = po_miss_count (ed_prefetch_optimizer d)"
    using assms(2)
  proof (induction co time_of ops d arbitrary: accepted taken rule: run_ops.induct)
    case (2 co time_of t e ops d)
    then show ?case using keep by (fastforce split: prod.splits)
  next
    case (3 co time_of i ops d)
    then show ?case using worker_visit_run [of time_of "i mod length (ed_event_queues d)" d] by (fastforce split: prod.splits)
  qed simp
  then show ?thesis using assms(1) by (auto simp: dispatcher_new_def prefetch_new_def fifo_new_def split: if_splits)
qed

end
