(* ===== verification/Dispatch_Race.thy ===== *)
theory Dispatch_Race
  imports Event_Dispatch
begin

text \<open>
  The dispatcher of perf/ultra\_low\_latency.rs under several threads. The lookup of a client's queue, the choice of a new
  one, its insertion and the push are atomic, a dispatch is not; workers take one event at a time. A client keeps its
  order when its first dispatch has inserted the queue before the others begin, and can lose it otherwise.
\<close>

section \<open>Atomic actions\<close>

text \<open>What a dispatch does once it has its queue.\<close>

definition push_event :: "u64 \<Rightarrow> string \<Rightarrow> 'e \<Rightarrow> nat \<Rightarrow> ('e LockFreeEventDispatcher, unit, string) stateful" where
  "push_event latency_ns client_id event queue_index d =
    (let d = d \<lparr> ed_prefetch_optimizer := prefetch_event_data event (ed_prefetch_optimizer d) \<rparr>
     in if queue_index < length (ed_event_queues d)
        then case fifo_push event (ed_event_queues d ! queue_index) of
            (True, q) \<Rightarrow> (Ok (), d \<lparr> ed_event_queues := (ed_event_queues d)[queue_index := q],
                ed_stats := record_event_latency latency_ns (ed_stats d) \<rparr>)
          | (False, q) \<Rightarrow> (Err (err_overflow client_id), d \<lparr> ed_stats := (ed_stats d)
                \<lparr> ul_queue_overflows := ul_queue_overflows (ed_stats d) + 1 \<rparr> \<rparr>)
        else (Panic, d))"

datatype dispatch_phase = Asked | Missing | Chosen nat | Queued nat | Returned "(unit, string) outcome"

text \<open>The actions of one dispatch of the event \<open>e\<close>, whose client is \<open>co e\<close>.\<close>

inductive dispatch_step :: "('e \<Rightarrow> string) \<Rightarrow> 'e \<Rightarrow> 'e LockFreeEventDispatcher \<times> dispatch_phase \<Rightarrow>
    'e LockFreeEventDispatcher \<times> dispatch_phase \<Rightarrow> bool" for co :: "'e \<Rightarrow> string" and e :: 'e where
  queue_found: "ed_client_queue_mapping d (co e) = Some j \<Longrightarrow> dispatch_step co e (d, Asked) (d, Queued j)"
| queue_missing: "ed_client_queue_mapping d (co e) = None \<Longrightarrow> dispatch_step co e (d, Asked) (d, Missing)"
| queue_chosen: "ed_event_queues d \<noteq> [] \<Longrightarrow> j = unat (ed_queue_selector d) mod length (ed_event_queues d) \<Longrightarrow>
    dispatch_step co e (d, Missing) (d \<lparr> ed_queue_selector := ed_queue_selector d + 1 \<rparr>, Chosen j)"
| no_queues: "ed_event_queues d = [] \<Longrightarrow>
    dispatch_step co e (d, Missing) (d \<lparr> ed_queue_selector := ed_queue_selector d + 1 \<rparr>, Returned Panic)"
| queue_inserted: "dispatch_step co e (d, Chosen j)
    (d \<lparr> ed_client_queue_mapping := (ed_client_queue_mapping d)(co e \<mapsto> j) \<rparr>, Queued j)"
| event_pushed: "push_event t (co e) e j d = (r, d') \<Longrightarrow> dispatch_step co e (d, Queued j) (d', Returned r)"

record 'e dispatch_world =
  dw_state :: "'e LockFreeEventDispatcher"
  dw_tasks :: "('e \<times> dispatch_phase) list"
  dw_accepted :: "'e list"
  dw_taken :: "'e list"

text \<open>A thread that dispatches acts, or a worker takes the first event of a queue.\<close>

inductive dispatch_race :: "('e \<Rightarrow> string) \<Rightarrow> 'e dispatch_world \<Rightarrow> 'e dispatch_world \<Rightarrow> bool" for co :: "'e \<Rightarrow> string" where
  client_acts: "i < length (dw_tasks w) \<Longrightarrow> dw_tasks w ! i = (e, p) \<Longrightarrow> dispatch_step co e (dw_state w, p) (d', p') \<Longrightarrow>
    dispatch_race co w (w \<lparr> dw_state := d', dw_tasks := (dw_tasks w)[i := (e, p')],
      dw_accepted := dw_accepted w @ (if p' = Returned (Ok ()) then [e] else []) \<rparr>)"
| worker_takes: "j < length (ed_event_queues (dw_state w)) \<Longrightarrow> fifo_pop (ed_event_queues (dw_state w) ! j) = (Some e, q) \<Longrightarrow>
    dispatch_race co w (w \<lparr> dw_state := (dw_state w) \<lparr> ed_event_queues := (ed_event_queues (dw_state w))[j := q],
      ed_stats := record_event_latency t (ed_stats (dw_state w)) \<rparr>, dw_taken := dw_taken w @ [e] \<rparr>)"

inductive_cases dispatch_stepE: "dispatch_step co e (d, p) (d', p')"
inductive_cases dispatch_raceE: "dispatch_race co w w'"

definition dispatch_start :: "'e LockFreeEventDispatcher \<Rightarrow> 'e list \<Rightarrow> 'e dispatch_world" where
  "dispatch_start d events = \<lparr> dw_state = d, dw_tasks = map (\<lambda>e. (e, Asked)) events, dw_accepted = [], dw_taken = [] \<rparr>"

section \<open>One thread alone\<close>

lemma dispatch_split: "dispatch_event_ultra_fast t c e = sbind (client_queue c) (push_event t c e)"
  by (simp add: dispatch_event_ultra_fast_def push_event_def [abs_def] Let_def)

lemma dispatch_alone:
  assumes "dispatch_event_ultra_fast t (co e) e d = (r, d')"
  shows "(dispatch_step co e)\<^sup>*\<^sup>* (d, Asked) (d', Returned r)"
proof (cases "ed_client_queue_mapping d (co e)")
  case (Some j)
  then have "push_event t (co e) e j d = (r, d')"
    using assms by (simp add: dispatch_split sbind_def client_queue_def)
  then show ?thesis
    using queue_found [of d co e, OF Some] event_pushed [of t co e] by (meson converse_rtranclp_into_rtranclp r_into_rtranclp)
next
  case None
  let ?d = "d \<lparr> ed_queue_selector := ed_queue_selector d + 1 \<rparr>"
  note miss = queue_missing [of d co e, OF None]
  show ?thesis
  proof (cases "ed_event_queues d = []")
    case True
    then have "r = Panic" "d' = ?d" using assms None by (auto simp: dispatch_split sbind_def client_queue_def Let_def)
    then show ?thesis using no_queues [of d co e, OF True] miss by (meson converse_rtranclp_into_rtranclp r_into_rtranclp)
  next
    case False
    define j where "j = unat (ed_queue_selector d) mod length (ed_event_queues d)"
    have "push_event t (co e) e j (?d \<lparr> ed_client_queue_mapping := (ed_client_queue_mapping ?d)(co e \<mapsto> j) \<rparr>) = (r, d')"
      using assms None False by (simp add: dispatch_split sbind_def client_queue_def Let_def j_def)
    then have "dispatch_step co e (?d \<lparr> ed_client_queue_mapping := (ed_client_queue_mapping ?d)(co e \<mapsto> j) \<rparr>, Queued j) (d', Returned r)"
      by (rule event_pushed)
    then show ?thesis
      using miss queue_chosen [of d j co e, OF False j_def] queue_inserted [of co e ?d j]
      by (meson converse_rtranclp_into_rtranclp r_into_rtranclp)
  qed
qed

lemma push_event_queues:
  assumes "push_event t c e j d = (r, d')" "j < length (ed_event_queues d)"
  shows "ed_client_queue_mapping d' = ed_client_queue_mapping d
    \<and> ed_event_queues d' = (if r = Ok () then (ed_event_queues d)[j := (ed_event_queues d ! j)
        \<lparr> af_items := af_items (ed_event_queues d ! j) @ [e] \<rparr>] else ed_event_queues d)"
  using assms by (auto simp: push_event_def fifo_push_def Let_def split: if_splits prod.splits bool.splits)

section \<open>The order of a client's events\<close>

text \<open>The events of a client in a queue; once the client has the queue \<open>j\<close> there are none in the others.\<close>

definition events_in :: "('e \<Rightarrow> string) \<Rightarrow> string \<Rightarrow> 'e LockFreeEventDispatcher \<Rightarrow> nat \<Rightarrow> 'e list" where
  "events_in co c d k = filter (\<lambda>e. co e = c) (af_items (ed_event_queues d ! k))"

definition only_in :: "('e \<Rightarrow> string) \<Rightarrow> string \<Rightarrow> nat \<Rightarrow> 'e LockFreeEventDispatcher \<Rightarrow> bool" where
  "only_in co c j d \<longleftrightarrow> (\<forall>k < length (ed_event_queues d). k \<noteq> j \<longrightarrow> events_in co c d k = [])"

lemma events_in_same: "ed_event_queues d' = ed_event_queues d \<Longrightarrow> events_in co c d' = events_in co c d"
  by (simp add: events_in_def [abs_def])

lemma events_in_push:
  assumes "k < length (ed_event_queues d)"
    "ed_event_queues d' = (ed_event_queues d)[k := (ed_event_queues d ! k) \<lparr> af_items := af_items (ed_event_queues d ! k) @ [e] \<rparr>]"
  shows "events_in co c d' m = events_in co c d m @ (if m = k \<and> co e = c then [e] else [])"
  using assms by (simp add: events_in_def nth_list_update)

lemma events_in_pop:
  assumes "k < length (ed_event_queues d)" "af_items (ed_event_queues d ! k) = e # af_items q"
    "ed_event_queues d' = (ed_event_queues d)[k := q]"
  shows "events_in co c d m = (if m = k \<and> co e = c then [e] else []) @ events_in co c d' m"
  using assms by (cases "m = k") (simp_all add: events_in_def)

definition tasks_all :: "('e \<Rightarrow> dispatch_phase \<Rightarrow> bool) \<Rightarrow> 'e dispatch_world \<Rightarrow> bool" where
  "tasks_all P w \<longleftrightarrow> (\<forall>(e, p) \<in> set (dw_tasks w). P e p)"

lemma tasks_all_at: "tasks_all P w \<Longrightarrow> i < length (dw_tasks w) \<Longrightarrow> dw_tasks w ! i = (e, p) \<Longrightarrow> P e p"
  unfolding tasks_all_def by (metis case_prodD nth_mem)

lemma tasks_all_update:
  assumes "tasks_all P w" "P e p'" "dw_tasks w' = (dw_tasks w)[i := (e, p')]"
  shows "tasks_all P w'"
  using assms set_update_subset_insert [of "dw_tasks w" i "(e, p')"] unfolding tasks_all_def by auto

lemma tasks_all_same: "dw_tasks w' = dw_tasks w \<Longrightarrow> tasks_all P w' = tasks_all P w"
  by (simp add: tasks_all_def)

definition calm :: "nat \<Rightarrow> dispatch_phase \<Rightarrow> bool" where
  "calm j p \<longleftrightarrow> p = Asked \<or> p = Queued j \<or> (\<exists>r. p = Returned r)"

definition settled :: "('e \<Rightarrow> string) \<Rightarrow> string \<Rightarrow> nat \<Rightarrow> 'e dispatch_world \<Rightarrow> bool" where
  "settled co c j w \<longleftrightarrow> ed_client_queue_mapping (dw_state w) c = Some j \<and> j < length (ed_event_queues (dw_state w))
    \<and> only_in co c j (dw_state w)
    \<and> tasks_all (\<lambda>e p. co e = c \<longrightarrow> calm j p) w
    \<and> filter (\<lambda>e. co e = c) (dw_accepted w) = filter (\<lambda>e. co e = c) (dw_taken w) @ events_in co c (dw_state w) j"

text \<open>Every queue index that is stored or held exists.\<close>

definition in_range :: "'e dispatch_world \<Rightarrow> bool" where
  "in_range w \<longleftrightarrow> ed_event_queues (dw_state w) \<noteq> []
    \<and> (\<forall>c j. ed_client_queue_mapping (dw_state w) c = Some j \<longrightarrow> j < length (ed_event_queues (dw_state w)))
    \<and> tasks_all (\<lambda>e p. \<forall>j. p = Chosen j \<or> p = Queued j \<longrightarrow> j < length (ed_event_queues (dw_state w))) w"

lemma step_cases:
  assumes "dispatch_step co e (d, p) (d', p')" "\<forall>j. p = Queued j \<longrightarrow> j < length (ed_event_queues d)"
  obtains
    (hit) j where "d' = d" "p = Asked" "p' = Queued j" "ed_client_queue_mapping d (co e) = Some j"
  | (miss) "d' = d" "p = Asked" "p' = Missing" "ed_client_queue_mapping d (co e) = None"
  | (choice) j where "d' = d \<lparr> ed_queue_selector := ed_queue_selector d + 1 \<rparr>" "p = Missing" "p' = Chosen j"
        "j < length (ed_event_queues d)"
  | (empty) "d' = d \<lparr> ed_queue_selector := ed_queue_selector d + 1 \<rparr>" "p = Missing" "p' = Returned Panic"
        "ed_event_queues d = []"
  | (insertion) j where "d' = d \<lparr> ed_client_queue_mapping := (ed_client_queue_mapping d)(co e \<mapsto> j) \<rparr>" "p = Chosen j" "p' = Queued j"
  | (push) j r where "p = Queued j" "p' = Returned r" "j < length (ed_event_queues d)"
      "ed_client_queue_mapping d' = ed_client_queue_mapping d"
      "ed_event_queues d' = (if r = Ok () then (ed_event_queues d)[j := (ed_event_queues d ! j)
        \<lparr> af_items := af_items (ed_event_queues d ! j) @ [e] \<rparr>] else ed_event_queues d)"
  using assms(1)
proof (cases rule: dispatch_step.cases)
  case (queue_chosen j)
  then show thesis using choice [of j] by simp
next
  case (event_pushed t j r)
  then show thesis using push [of j r] push_event_queues [of t "co e" e j d r d'] assms(2) by simp
qed (auto intro: hit miss empty insertion)

text \<open>What a step of the race does, and that an index held by the acting task exists.\<close>

lemma race_cases:
  assumes "dispatch_race co w w'" "in_range w"
  obtains
    (client) i e p d' p' where "i < length (dw_tasks w)" "dw_tasks w ! i = (e, p)" "dispatch_step co e (dw_state w, p) (d', p')"
      "w' = w \<lparr> dw_state := d', dw_tasks := (dw_tasks w)[i := (e, p')],
         dw_accepted := dw_accepted w @ (if p' = Returned (Ok ()) then [e] else []) \<rparr>"
      "\<forall>j. p = Queued j \<longrightarrow> j < length (ed_event_queues (dw_state w))"
      "\<forall>j. p = Chosen j \<longrightarrow> j < length (ed_event_queues (dw_state w))"
  | (worker) k e q t where "k < length (ed_event_queues (dw_state w))" "af_items (ed_event_queues (dw_state w) ! k) = e # af_items q"
      "w' = w \<lparr> dw_state := (dw_state w) \<lparr> ed_event_queues := (ed_event_queues (dw_state w))[k := q],
         ed_stats := record_event_latency t (ed_stats (dw_state w)) \<rparr>, dw_taken := dw_taken w @ [e] \<rparr>"
  using assms(1)
proof (cases rule: dispatch_race.cases)
  case (client_acts i e p d' p')
  have "\<forall>j. p = Chosen j \<or> p = Queued j \<longrightarrow> j < length (ed_event_queues (dw_state w))"
    using assms(2) tasks_all_at [OF _ client_acts(2,3)] unfolding in_range_def by blast
  then show thesis using client [OF client_acts(2-4,1)] by blast
next
  case (worker_takes j e q t)
  then show thesis using worker [of j e q t] by (auto simp: fifo_pop_def split: list.splits)
qed

lemma step_in_range:
  assumes "dispatch_step co e (d, p) (d', p')" "\<forall>j. p = Queued j \<longrightarrow> j < length (ed_event_queues d)"
    and "\<forall>j. p = Chosen j \<longrightarrow> j < length (ed_event_queues d)"
    and "\<forall>c j. ed_client_queue_mapping d c = Some j \<longrightarrow> j < length (ed_event_queues d)"
  shows "length (ed_event_queues d') = length (ed_event_queues d)
    \<and> (\<forall>c j. ed_client_queue_mapping d' c = Some j \<longrightarrow> j < length (ed_event_queues d))
    \<and> (\<forall>j. p' = Chosen j \<or> p' = Queued j \<longrightarrow> j < length (ed_event_queues d))"
  using assms(1,2) by (cases rule: step_cases) (use assms(3,4) in auto)

lemma in_range_step:
  assumes "dispatch_race co w w'" "in_range w"
  shows "in_range w'"
  using assms
proof (cases rule: race_cases)
  case (client i e p d' p')
  have d': "dw_state w' = d'" "dw_tasks w' = (dw_tasks w)[i := (e, p')]" using client(4) by simp_all
  have "\<forall>c j. ed_client_queue_mapping (dw_state w) c = Some j \<longrightarrow> j < length (ed_event_queues (dw_state w))"
    using assms(2) unfolding in_range_def by blast
  note kept = step_in_range [OF client(3,5,6) this]
  have "tasks_all (\<lambda>e p. \<forall>j. p = Chosen j \<or> p = Queued j \<longrightarrow> j < length (ed_event_queues (dw_state w))) w'"
    using assms(2) kept unfolding in_range_def by (intro tasks_all_update [OF _ _ d'(2)]) blast+
  then show ?thesis
    using kept assms(2) unfolding in_range_def d'(1) by (metis length_0_conv)
next
  case (worker k e q t)
  then show ?thesis using assms(2) tasks_all_same [of w' w] by (simp add: in_range_def)
qed

text \<open>An action of a dispatch leaves the queue of a settled client, and appends the event if it is the client's own.\<close>

lemma step_settled:
  assumes "dispatch_step co e (d, p) (d', p')" "\<forall>j. p = Queued j \<longrightarrow> j < length (ed_event_queues d)"
    and "ed_client_queue_mapping d c = Some j" "co e = c \<longrightarrow> calm j p"
  shows "length (ed_event_queues d') = length (ed_event_queues d) \<and> ed_client_queue_mapping d' c = Some j
    \<and> (co e = c \<longrightarrow> calm j p')
    \<and> (\<forall>k. events_in co c d' k = events_in co c d k @ (if k = j \<and> p' = Returned (Ok ()) \<and> co e = c then [e] else []))"
  using assms(1,2)
proof (cases rule: step_cases)
  case (push k r)
  have k: "k = j" if "co e = c" using that assms(4) push(1) by (auto simp: calm_def)
  show ?thesis
  proof (cases "r = Ok ()")
    case True
    then have "\<forall>m. events_in co c d' m = events_in co c d m @ (if m = k \<and> co e = c then [e] else [])"
      using push(5) events_in_push [OF push(3)] by auto
    then show ?thesis using push(2,4,5) True k assms(3) by (auto simp: calm_def)
  next
    case False
    then show ?thesis using push(2,4,5) events_in_same [of d' d co c] assms(3) by (auto simp: calm_def)
  qed
qed (use assms(3,4) events_in_same [of d' d co c] in \<open>auto simp: calm_def\<close>)

lemma settled_step:
  assumes "dispatch_race co w w'" "in_range w" "settled co c j w"
  shows "settled co c j w'"
  using assms(1,2)
proof (cases rule: race_cases)
  case (client i e p d' p')
  have d': "dw_state w' = d'" "dw_tasks w' = (dw_tasks w)[i := (e, p')]" using client(4) by simp_all
  have "co e = c \<longrightarrow> calm j p" using assms(3) tasks_all_at [OF _ client(1,2)] unfolding settled_def by blast
  note kept = step_settled [OF client(3,5) _ this]
  have m: "ed_client_queue_mapping (dw_state w) c = Some j" using assms(3) by (simp add: settled_def)
  have "tasks_all (\<lambda>e p. co e = c \<longrightarrow> calm j p) w'"
    using assms(3) kept [OF m] unfolding settled_def by (intro tasks_all_update [OF _ _ d'(2)]) blast+
  then show ?thesis
    using kept [OF m] assms(3) unfolding settled_def d'(1) by (simp add: client(4) only_in_def)
next
  case (worker k e q t)
  have pop: "events_in co c (dw_state w) m = (if m = k \<and> co e = c then [e] else []) @ events_in co c (dw_state w') m" for m
    using events_in_pop [OF worker(1,2), of "dw_state w'"] by (simp add: worker(3))
  have "only_in co c j (dw_state w)" using assms(3) by (simp add: settled_def)
  then have k: "k = j" if "co e = c" using worker(1) pop [of k] that by (auto simp: only_in_def)
  have "only_in co c j (dw_state w')"
    using assms(3) pop unfolding settled_def only_in_def worker(3) by simp
  then show ?thesis using assms(3) pop k tasks_all_same [of w' w] unfolding settled_def
    by (simp add: worker(3))
qed

lemma race_keeps_settled:
  assumes "(dispatch_race co)\<^sup>*\<^sup>* w w'" "in_range w" "settled co c j w"
  shows "settled co c j w'"
proof -
  have "in_range w' \<and> settled co c j w'"
    using assms(1)
  proof (induction rule: rtranclp_induct)
    case base
    then show ?case using assms(2,3) by simp
  next
    case (step y z)
    then show ?case using in_range_step settled_step by blast
  qed
  then show ?thesis by simp
qed

lemma race_keeps_range: "(dispatch_race co)\<^sup>*\<^sup>* w w' \<Longrightarrow> in_range w \<Longrightarrow> in_range w'"
  by (induction rule: rtranclp_induct) (auto intro: in_range_step)

section \<open>The first dispatch of a client\<close>

text \<open>The dispatches of a client that have begun.\<close>

definition begun :: "('e \<Rightarrow> string) \<Rightarrow> string \<Rightarrow> 'e dispatch_world \<Rightarrow> nat" where
  "begun co c w = length (filter (\<lambda>(e, p). co e = c \<and> p \<noteq> Asked) (dw_tasks w))"

text \<open>A client without a queue has no event anywhere, and its dispatches hold no queue that is inserted.\<close>

definition unknown_client :: "('e \<Rightarrow> string) \<Rightarrow> string \<Rightarrow> 'e dispatch_world \<Rightarrow> bool" where
  "unknown_client co c w \<longleftrightarrow> ed_client_queue_mapping (dw_state w) c = None
    \<and> (\<forall>k < length (ed_event_queues (dw_state w)). events_in co c (dw_state w) k = [])
    \<and> tasks_all (\<lambda>e p. co e = c \<longrightarrow> p = Asked \<or> p = Missing \<or> (\<exists>j. p = Chosen j)) w
    \<and> filter (\<lambda>e. co e = c) (dw_accepted w) = [] \<and> filter (\<lambda>e. co e = c) (dw_taken w) = []"

lemma begun_update:
  assumes "i < length (dw_tasks w)" "dw_tasks w ! i = (e, p)" "dw_tasks w' = (dw_tasks w)[i := (e, p')]"
  shows "begun co c w' + of_bool (co e = c \<and> p \<noteq> Asked) = begun co c w + of_bool (co e = c \<and> p' \<noteq> Asked)"
proof -
  obtain xs ys where "dw_tasks w = xs @ (e, p) # ys" "length xs = i"
    using assms(1,2) id_take_nth_drop [of i "dw_tasks w"] by force
  then show ?thesis by (auto simp: begun_def assms(3))
qed

lemma begun_one:
  assumes "begun co c w \<le> 1" "i < length (dw_tasks w)" "dw_tasks w ! i = (e, p)" "co e = c" "p \<noteq> Asked"
  shows "tasks_all (\<lambda>e p. co e = c \<longrightarrow> p = Asked) (w \<lparr> dw_tasks := (dw_tasks w)[i := (e, Asked)] \<rparr>)"
proof -
  have "begun co c (w \<lparr> dw_tasks := (dw_tasks w)[i := (e, Asked)] \<rparr>) = 0"
    using begun_update [OF assms(2,3), of "w \<lparr> dw_tasks := (dw_tasks w)[i := (e, Asked)] \<rparr>" Asked co c] assms(1,4,5) by simp
  then show ?thesis by (auto simp: begun_def tasks_all_def filter_empty_conv)
qed

text \<open>When the only begun dispatch of a client inserts the queue, the client is settled.\<close>

lemma insertion_settles:
  assumes "unknown_client co c w" "begun co c w \<le> 1" "i < length (dw_tasks w)" "dw_tasks w ! i = (e, Chosen j)" "co e = c"
    and "j < length (ed_event_queues (dw_state w))"
  shows "settled co c j (w \<lparr> dw_state := (dw_state w) \<lparr> ed_client_queue_mapping := (ed_client_queue_mapping (dw_state w))(c \<mapsto> j) \<rparr>,
    dw_tasks := (dw_tasks w)[i := (e, Queued j)] \<rparr>)"
proof -
  have others: "tasks_all (\<lambda>e p. co e = c \<longrightarrow> calm j p) (w \<lparr> dw_tasks := (dw_tasks w)[i := (e, Asked)] \<rparr>)"
    using begun_one [OF assms(2-5)] by (auto simp: tasks_all_def calm_def)
  have tasks: "tasks_all (\<lambda>e p. co e = c \<longrightarrow> calm j p) (w \<lparr> dw_state := d, dw_tasks := (dw_tasks w)[i := (e, Queued j)] \<rparr>)" for d
    by (rule tasks_all_update [OF others, of e "Queued j" _ i]) (simp_all add: calm_def)
  then show ?thesis
    using assms(1,6) events_in_same [of "(dw_state w) \<lparr> ed_client_queue_mapping := (ed_client_queue_mapping (dw_state w))(c \<mapsto> j) \<rparr>"]
    by (simp add: settled_def unknown_client_def only_in_def)
qed

lemma unknown_step:
  assumes "dispatch_race co w w'" "in_range w" "unknown_client co c w" "begun co c w' \<le> 1"
  shows "unknown_client co c w' \<or> (\<exists>j. settled co c j w')"
  using assms(1,2)
proof (cases rule: race_cases)
  case (client i e p d' p')
  have d': "dw_state w' = d'" "dw_tasks w' = (dw_tasks w)[i := (e, p')]" using client(4) by simp_all
  have mine: "co e = c \<longrightarrow> p = Asked \<or> p = Missing \<or> (\<exists>j. p = Chosen j)"
    using assms(3) tasks_all_at [OF _ client(1,2)] unfolding unknown_client_def by blast
  have none: "ed_client_queue_mapping (dw_state w) c = None" using assms(3) by (simp add: unknown_client_def)
  have stays: "unknown_client co c w'"
    if "ed_client_queue_mapping d' c = None" "length (ed_event_queues d') = length (ed_event_queues (dw_state w))"
      "events_in co c d' = events_in co c (dw_state w)"
      "co e = c \<longrightarrow> p' = Missing \<or> (\<exists>j. p' = Chosen j)"
  proof -
    have "tasks_all (\<lambda>e p. co e = c \<longrightarrow> p = Asked \<or> p = Missing \<or> (\<exists>j. p = Chosen j)) w'"
      using assms(3) that(4) unfolding unknown_client_def by (intro tasks_all_update [OF _ _ d'(2)]) blast+
    then show ?thesis
      using assms(3) that unfolding unknown_client_def d'(1) by (auto simp: client(4))
  qed
  show ?thesis
    using client(3,5)
  proof (cases rule: step_cases)
    case (insertion j)
    show ?thesis
    proof (cases "co e = c")
      case True
      have "begun co c w \<le> 1"
        using begun_update [OF client(1,2) d'(2), of co c] assms(4) insertion(2,3) by simp
      then have "settled co c j w'"
        using insertion_settles [OF assms(3) _ client(1) _ True] client(2,6) insertion True by (simp add: client(4))
      then show ?thesis by blast
    next
      case False
      then show ?thesis using insertion stays events_in_same [of d' "dw_state w" co c] assms(3)
        by (auto simp: unknown_client_def)
    qed
  next
    case (push k r)
    have no: "co e \<noteq> c" using mine push(1) by auto
    have "events_in co c d' = events_in co c (dw_state w)"
      using events_in_push [OF push(3), of d' e co c] events_in_same [of d' "dw_state w" co c] no push(5)
      by (cases "r = Ok ()") auto
    then show ?thesis using push stays no assms(3) by (auto simp: unknown_client_def)
  next
    case empty
    then show ?thesis using assms(2) by (simp add: in_range_def)
  next
    case (hit j)
    then have "co e \<noteq> c" using none by auto
    then show ?thesis using hit stays none by simp
  next
    case miss
    then show ?thesis using stays none by simp
  next
    case (choice j)
    then show ?thesis using stays none events_in_same [of d' "dw_state w" co c] by simp
  qed
next
  case (worker k e q t)
  have pop: "events_in co c (dw_state w) m = (if m = k \<and> co e = c then [e] else []) @ events_in co c (dw_state w') m" for m
    using events_in_pop [OF worker(1,2), of "dw_state w'"] by (simp add: worker(3))
  have none: "events_in co c (dw_state w) m = []" if "m < length (ed_event_queues (dw_state w))" for m
    using assms(3) that by (simp add: unknown_client_def)
  have "co e \<noteq> c" using none [OF worker(1)] pop [of k] by auto
  moreover have "events_in co c (dw_state w') m = []" if "m < length (ed_event_queues (dw_state w))" for m
    using none [OF that] pop [of m] by simp
  ultimately have "unknown_client co c w'"
    using assms(3) tasks_all_same [of w' w] unfolding unknown_client_def by (simp add: worker(3))
  then show ?thesis by blast
qed

lemma begun_mono:
  assumes "dispatch_race co w w'"
  shows "begun co c w \<le> begun co c w'"
  using assms
proof (cases rule: dispatch_race.cases)
  case (client_acts i e p d' p')
  have "p' \<noteq> Asked" using client_acts(4) by (auto elim: dispatch_stepE)
  then show ?thesis
    using begun_update [OF client_acts(2,3), of w' p' co c] client_acts(1) by (auto simp: of_bool_def split: if_splits)
qed (simp add: begun_def)

lemma first_dispatch:
  assumes "(dispatch_race co)\<^sup>*\<^sup>* w w'" "in_range w" "unknown_client co c w" "begun co c w' \<le> 1"
  shows "unknown_client co c w' \<or> (\<exists>j. settled co c j w')"
  using assms(1,4)
proof (induction rule: rtranclp_induct)
  case base
  then show ?case using assms(3) by simp
next
  case (step y z)
  have "in_range y" using race_keeps_range [OF step(1) assms(2)] .
  moreover have "begun co c y \<le> 1" using begun_mono [OF step(2), of c] step.prems by linarith
  ultimately show ?case
    using step.IH unknown_step [OF step(2) _ _ step.prems] settled_step [OF step(2)] by blast
qed

lemma dispatch_start_facts:
  assumes "dispatcher_new num_queues capacity affinity = Ok d" "0 < num_queues"
  shows "in_range (dispatch_start d events) \<and> unknown_client co c (dispatch_start d events) \<and> begun co c (dispatch_start d events) = 0"
  using assms by (auto simp: dispatcher_new_def prefetch_new_def fifo_new_def in_range_def unknown_client_def begun_def
      dispatch_start_def tasks_all_def events_in_def filter_empty_conv split: if_splits)

section \<open>Two first dispatches\<close>

definition two_tasks :: "'e \<Rightarrow> 'e \<Rightarrow> 'e LockFreeEventDispatcher \<Rightarrow> dispatch_phase \<Rightarrow> dispatch_phase \<Rightarrow> 'e list \<Rightarrow> 'e list \<Rightarrow> 'e dispatch_world" where
  "two_tasks e1 e2 d p1 p2 accepted taken =
    \<lparr> dw_state = d, dw_tasks = [(e1, p1), (e2, p2)], dw_accepted = accepted, dw_taken = taken \<rparr>"

lemma first_acts:
  assumes "dispatch_step co e1 (d, p) (d', p')"
  shows "dispatch_race co (two_tasks e1 e2 d p p2 acc taken)
    (two_tasks e1 e2 d' p' p2 (acc @ (if p' = Returned (Ok ()) then [e1] else [])) taken)"
  using client_acts [of 0 "two_tasks e1 e2 d p p2 acc taken" e1 p co d' p'] assms by (simp add: two_tasks_def)

lemma second_acts:
  assumes "dispatch_step co e2 (d, p) (d', p')"
  shows "dispatch_race co (two_tasks e1 e2 d p1 p acc taken)
    (two_tasks e1 e2 d' p1 p' (acc @ (if p' = Returned (Ok ()) then [e2] else [])) taken)"
  using client_acts [of 1 "two_tasks e1 e2 d p1 p acc taken" e2 p co d' p'] assms by (simp add: two_tasks_def)

lemma push_event_fits:
  assumes "k < length (ed_event_queues d)" "length (af_items (ed_event_queues d ! k)) < af_capacity (ed_event_queues d ! k)"
  shows "\<exists>d'. push_event t c e k d = (Ok (), d') \<and> ed_event_queues d' = (ed_event_queues d)[k :=
    (ed_event_queues d ! k) \<lparr> af_items := af_items (ed_event_queues d ! k) @ [e] \<rparr>]"
  using assms by (simp add: push_event_def fifo_push_def Let_def)

text \<open>Two threads dispatch the first events of the same client at once: both miss the queue, each chooses its own, and the
  event that was accepted second is taken first.\<close>

lemma first_dispatches_race:
  fixes d :: "'e LockFreeEventDispatcher"
  assumes "dispatcher_new 2 capacity affinity = Ok d" "co e1 = c" "co e2 = c"
  shows "\<exists>w. (dispatch_race co)\<^sup>*\<^sup>* (dispatch_start d [e1, e2]) w \<and> dw_accepted w = [e1, e2] \<and> dw_taken w = [e2]"
proof -
  let ?W = "two_tasks e1 e2" and ?R = "dispatch_race co" and ?q = "\<lparr> af_capacity = capacity, af_items = [] \<rparr> :: 'e array_fifo"
  have d: "ed_event_queues d = [?q, ?q]" "ed_client_queue_mapping d = Map.empty" "ed_queue_selector d = 0" "0 < capacity"
    using assms(1) by (auto simp: dispatcher_new_def prefetch_new_def fifo_new_def numeral_2_eq_2 split: if_splits)
  define d1 where "d1 = d \<lparr> ed_queue_selector := ed_queue_selector d + 1 \<rparr>"
  define d2 where "d2 = d1 \<lparr> ed_queue_selector := ed_queue_selector d1 + 1 \<rparr>"
  define d3 where "d3 = d2 \<lparr> ed_client_queue_mapping := (ed_client_queue_mapping d2)(c \<mapsto> 0) \<rparr>"
  define d4 where "d4 = d3 \<lparr> ed_client_queue_mapping := (ed_client_queue_mapping d3)(c \<mapsto> 1) \<rparr>"
  have q: "ed_event_queues d1 = [?q, ?q]" "ed_event_queues d4 = [?q, ?q]" "ed_queue_selector d1 = 1"
    using d by (simp_all add: d1_def d2_def d3_def d4_def)
  obtain d5 where d5: "push_event 0 (co e1) e1 0 d4 = (Ok (), d5)" "ed_event_queues d5 = [?q \<lparr> af_items := [e1] \<rparr>, ?q]"
    using push_event_fits [of 0 d4 0 "co e1" e1] q d(4) by auto
  obtain d6 where d6: "push_event 0 (co e2) e2 1 d5 = (Ok (), d6)" "ed_event_queues d6 = [?q \<lparr> af_items := [e1] \<rparr>, ?q \<lparr> af_items := [e2] \<rparr>]"
    using push_event_fits [of 1 d5 0 "co e2" e2] d5(2) d(4) by auto
  have "?R (?W d Asked Asked [] []) (?W d Missing Asked [] [])"
    using first_acts [OF queue_missing [of d co e1]] d(2) by force
  moreover have "?R (?W d Missing Asked [] []) (?W d Missing Missing [] [])"
    using second_acts [OF queue_missing [of d co e2]] d(2) by force
  moreover have "?R (?W d Missing Missing [] []) (?W d1 (Chosen 0) Missing [] [])"
    using first_acts [OF queue_chosen [of d 0 co e1], of e2 Missing "[]" "[]"] d by (simp add: d1_def)
  moreover have "?R (?W d1 (Chosen 0) Missing [] []) (?W d2 (Chosen 0) (Chosen 1) [] [])"
    using second_acts [OF queue_chosen [of d1 1 co e2], of e1 "Chosen 0" "[]" "[]"] q by (simp add: d2_def)
  moreover have "?R (?W d2 (Chosen 0) (Chosen 1) [] []) (?W d3 (Queued 0) (Chosen 1) [] [])"
    using first_acts [OF queue_inserted [of co e1 d2 0], of e2 "Chosen 1" "[]" "[]"] assms(2) by (simp add: d3_def)
  moreover have "?R (?W d3 (Queued 0) (Chosen 1) [] []) (?W d4 (Queued 0) (Queued 1) [] [])"
    using second_acts [OF queue_inserted [of co e2 d3 1], of e1 "Queued 0" "[]" "[]"] assms(3) by (simp add: d4_def)
  moreover have "?R (?W d4 (Queued 0) (Queued 1) [] []) (?W d5 (Returned (Ok ())) (Queued 1) [e1] [])"
    using first_acts [OF event_pushed [of 0 co e1, OF d5(1)], of e2 "Queued 1" "[]" "[]"] by simp
  moreover have "?R (?W d5 (Returned (Ok ())) (Queued 1) [e1] []) (?W d6 (Returned (Ok ())) (Returned (Ok ())) [e1, e2] [])"
    using second_acts [OF event_pushed [of 0 co e2, OF d6(1)], of e1 "Returned (Ok ())" "[e1]" "[]"] by simp
  moreover have "\<exists>w. ?R (?W d6 (Returned (Ok ())) (Returned (Ok ())) [e1, e2] []) w \<and> dw_accepted w = [e1, e2] \<and> dw_taken w = [e2]"
    by (intro exI conjI, rule worker_takes [of 1 _ e2 ?q]) (simp_all add: two_tasks_def fifo_pop_def d6(2))
  ultimately show ?thesis
    unfolding dispatch_start_def list.map two_tasks_def [symmetric] by (meson converse_rtranclp_into_rtranclp r_into_rtranclp)
qed

text \<open>C38 (safety): the events of a client keep their order under any interleaving, once its first dispatch has inserted
  its queue. Any number of threads dispatch events to a new dispatcher, one atomic action at a time, while workers take
  events. If at some moment the client has a queue and at most one of its dispatches has begun, then at every later moment
  the client has the same queue, its accepted events are, in the order of their pushes, those that workers have taken and
  then those that wait in that queue, and no other queue holds one of them. (\<open>first_dispatches_race\<close> shows that the
  condition is needed.)\<close>

theorem racing_clients_order:
  assumes "dispatcher_new num_queues capacity affinity = Ok d" "0 < num_queues"
    and "(dispatch_race co)\<^sup>*\<^sup>* (dispatch_start d events) w"
    and "begun co c w \<le> 1" "ed_client_queue_mapping (dw_state w) c = Some j"
    and "(dispatch_race co)\<^sup>*\<^sup>* w w'"
  shows "ed_client_queue_mapping (dw_state w') c = Some j
    \<and> filter (\<lambda>e. co e = c) (dw_accepted w') = filter (\<lambda>e. co e = c) (dw_taken w') @ events_in co c (dw_state w') j
    \<and> (\<forall>k < length (ed_event_queues (dw_state w')). k \<noteq> j \<longrightarrow> events_in co c (dw_state w') k = [])"
proof -
  note start = dispatch_start_facts [OF assms(1,2), of events co c]
  have "settled co c j w"
    using first_dispatch [OF assms(3) _ _ assms(4)] start assms(5) by (auto simp: unknown_client_def settled_def)
  then have "settled co c j w'"
    using race_keeps_settled [OF assms(6)] race_keeps_range [OF assms(3)] start by blast
  then show ?thesis by (simp add: settled_def only_in_def)
qed

text \<open>One dispatch after the other from a new dispatcher: the first is over when the second begins.\<close>

theorem racing_clients_order_witness:
  "\<exists>(d :: nat LockFreeEventDispatcher) w. dispatcher_new 2 4 None = Ok d
    \<and> (dispatch_race (\<lambda>_. ''a''))\<^sup>*\<^sup>* (dispatch_start d [1, 2]) w \<and> begun (\<lambda>_. ''a'') ''a'' w = 1
    \<and> (\<forall>w'. \<not> (dispatch_race (\<lambda>_. ''a''))\<^sup>*\<^sup>* w w' \<or> dw_accepted w' = dw_taken w' @ events_in (\<lambda>_. ''a'') ''a'' (dw_state w') 0)"
proof -
  let ?co = "\<lambda>_ :: nat. ''a''" and ?W = "two_tasks (1 :: nat) 2"
  obtain d :: "nat LockFreeEventDispatcher" where d: "dispatcher_new 2 4 None = Ok d"
    by (simp add: dispatcher_new_def prefetch_new_def fifo_new_def)
  then have q: "length (ed_event_queues d) = 2" "ed_client_queue_mapping d = Map.empty" "ed_queue_selector d = 0"
    by (auto simp: dispatcher_new_def prefetch_new_def fifo_new_def)
  define d1 where "d1 = d \<lparr> ed_queue_selector := ed_queue_selector d + 1 \<rparr>"
  define d2 where "d2 = d1 \<lparr> ed_client_queue_mapping := (ed_client_queue_mapping d1)(''a'' \<mapsto> 0) \<rparr>"
  have "dispatch_race ?co (?W d Asked Asked [] []) (?W d Missing Asked [] [])"
    using first_acts [OF queue_missing [of d ?co 1]] q(2) by force
  moreover have "dispatch_race ?co (?W d Missing Asked [] []) (?W d1 (Chosen 0) Asked [] [])"
    using first_acts [OF queue_chosen [of d 0 ?co 1], of 2 Asked "[]" "[]"] q by (force simp: d1_def)
  moreover have "dispatch_race ?co (?W d1 (Chosen 0) Asked [] []) (?W d2 (Queued 0) Asked [] [])"
    using first_acts [OF queue_inserted [of ?co 1 d1 0], of 2 Asked "[]" "[]"] by (simp add: d2_def)
  ultimately have run: "(dispatch_race ?co)\<^sup>*\<^sup>* (dispatch_start d [1, 2]) (?W d2 (Queued 0) Asked [] [])"
    unfolding dispatch_start_def list.map two_tasks_def [symmetric] by (meson converse_rtranclp_into_rtranclp r_into_rtranclp)
  have begun: "begun ?co ''a'' (?W d2 (Queued 0) Asked [] []) = 1" by (simp add: begun_def two_tasks_def)
  have "dw_accepted w' = dw_taken w' @ events_in ?co ''a'' (dw_state w') 0"
    if "(dispatch_race ?co)\<^sup>*\<^sup>* (?W d2 (Queued 0) Asked [] []) w'" for w'
    using racing_clients_order [OF d _ run, of "''a''" 0 w'] that begun by (simp add: two_tasks_def d2_def)
  then show ?thesis using d run begun by blast
qed

end
