(* ===== verification/Realtime_Tuning.thy ===== *)
theory Realtime_Tuning
  imports Prelude
begin

text \<open>
  perf/realtime\_tuning.rs on Linux: the detection of cores, the optimizations with the flags they report, and the
  monitoring of the scheduling latency. The file is not declared in perf/mod.rs. The answers of the system are a parameter.
\<close>

datatype CpuGovernor = Performance | OnDemand | Userspace | Conservative

record RealtimeConfig =
  rc_enable_realtime_scheduling :: bool
  rc_realtime_priority :: int
  rc_enable_memory_locking :: bool
  rc_memory_lock_limit :: u64
  rc_enable_cpu_isolation :: bool
  rc_isolated_cpu_cores :: "nat list"
  rc_enable_interrupt_isolation :: bool
  rc_interrupt_cpu_cores :: "nat list"
  rc_enable_numa_optimization :: bool
  rc_preferred_numa_nodes :: "nat list"
  rc_enable_power_optimization :: bool
  rc_cpu_frequency_governor :: CpuGovernor

definition realtime_config_default :: RealtimeConfig where
  "realtime_config_default = \<lparr> rc_enable_realtime_scheduling = True, rc_realtime_priority = 80,
     rc_enable_memory_locking = True, rc_memory_lock_limit = 2 * 1024 * 1024 * 1024,
     rc_enable_cpu_isolation = True, rc_isolated_cpu_cores = [],
     rc_enable_interrupt_isolation = True, rc_interrupt_cpu_cores = [],
     rc_enable_numa_optimization = True, rc_preferred_numa_nodes = [],
     rc_enable_power_optimization = True, rc_cpu_frequency_governor = Performance \<rparr>"

definition ultra_low_latency_config :: "nat \<Rightarrow> RealtimeConfig" where
  "ultra_low_latency_config num_cpus = \<lparr> rc_enable_realtime_scheduling = True, rc_realtime_priority = 99,
     rc_enable_memory_locking = True, rc_memory_lock_limit = 8 * 1024 * 1024 * 1024,
     rc_enable_cpu_isolation = True, rc_isolated_cpu_cores = (if num_cpus > 4 then [num_cpus - 2..<num_cpus] else []),
     rc_enable_interrupt_isolation = True, rc_interrupt_cpu_cores = [0..<2],
     rc_enable_numa_optimization = True, rc_preferred_numa_nodes = [0],
     rc_enable_power_optimization = True, rc_cpu_frequency_governor = Performance \<rparr>"

record OptimizationState =
  os_realtime_scheduling_enabled :: bool
  os_memory_locked :: bool
  os_cpu_affinity_set :: bool
  os_interrupt_isolation_enabled :: bool
  os_numa_optimization_enabled :: bool
  os_power_optimization_enabled :: bool

record RealtimeStats =
  rs_scheduling_latency_ns :: u64
  rs_max_scheduling_latency_ns :: u64
  rs_page_faults :: u64
  rs_context_switches :: u64
  rs_interrupts :: u64
  rs_system_calls :: u64

record RealtimeSystemOptimizer =
  ro_config :: RealtimeConfig
  ro_optimization_state :: OptimizationState
  ro_stats :: RealtimeStats
  ro_initialized :: bool

text \<open>What the system answers: the number of CPUs, the trimmed text of the NUMA file if it can be read, and whether each
  call succeeds. \<open>sched_setscheduler\<close> is asked for FIFO and then for round-robin scheduling.\<close>

record rt_system =
  sy_num_cpus :: nat
  sy_numa_balancing :: "string option"
  sy_sched_fifo :: "int \<Rightarrow> bool"
  sy_sched_rr :: "int \<Rightarrow> bool"
  sy_mlockall :: bool
  sy_setaffinity :: "nat set \<Rightarrow> bool"

section \<open>Construction\<close>

definition detect_numa_topology :: "rt_system \<Rightarrow> RealtimeConfig \<Rightarrow> RealtimeConfig" where
  "detect_numa_topology Y config =
    (if sy_numa_balancing Y = Some ''1'' \<and> rc_preferred_numa_nodes config = []
     then config \<lparr> rc_preferred_numa_nodes := [0] \<rparr> else config)"

definition auto_detect_system_config :: "rt_system \<Rightarrow> RealtimeConfig \<Rightarrow> RealtimeConfig" where
  "auto_detect_system_config Y config =
    (let num_cpus = sy_num_cpus Y;
         config = (if rc_isolated_cpu_cores config = [] \<and> num_cpus > 4
           then config \<lparr> rc_isolated_cpu_cores := [num_cpus - 2..<num_cpus] \<rparr> else config);
         config = (if rc_interrupt_cpu_cores config = [] \<and> num_cpus > 2
           then config \<lparr> rc_interrupt_cpu_cores := [0..<2] \<rparr> else config)
     in detect_numa_topology Y config)"

definition optimization_state_default :: OptimizationState where
  "optimization_state_default = \<lparr> os_realtime_scheduling_enabled = False, os_memory_locked = False, os_cpu_affinity_set = False,
     os_interrupt_isolation_enabled = False, os_numa_optimization_enabled = False, os_power_optimization_enabled = False \<rparr>"

definition realtime_stats_default :: RealtimeStats where
  "realtime_stats_default = \<lparr> rs_scheduling_latency_ns = 0, rs_max_scheduling_latency_ns = 0, rs_page_faults = 0,
     rs_context_switches = 0, rs_interrupts = 0, rs_system_calls = 0 \<rparr>"

definition realtime_new :: "rt_system \<Rightarrow> RealtimeConfig \<Rightarrow> RealtimeSystemOptimizer" where
  "realtime_new Y config = \<lparr> ro_config = auto_detect_system_config Y config,
     ro_optimization_state = optimization_state_default, ro_stats = realtime_stats_default, ro_initialized = False \<rparr>"

section \<open>The optimizations\<close>

definition apply_realtime_scheduling :: "rt_system \<Rightarrow> RealtimeConfig \<Rightarrow> OptimizationState \<Rightarrow> OptimizationState" where
  "apply_realtime_scheduling Y c s =
    (if sy_sched_fifo Y (rc_realtime_priority c) then s \<lparr> os_realtime_scheduling_enabled := True \<rparr>
     else if sy_sched_rr Y (rc_realtime_priority c) then s \<lparr> os_realtime_scheduling_enabled := True \<rparr>
     else s)"

text \<open>The limit of the locked memory is set first; whether that succeeds makes no difference.\<close>

definition apply_memory_locking :: "rt_system \<Rightarrow> RealtimeConfig \<Rightarrow> OptimizationState \<Rightarrow> OptimizationState" where
  "apply_memory_locking Y c s =
    (if sy_mlockall Y then s \<lparr> os_memory_locked := True \<rparr> else s)"

text \<open>Cores from 256 on are left out of the set.\<close>

definition apply_cpu_isolation :: "rt_system \<Rightarrow> RealtimeConfig \<Rightarrow> OptimizationState \<Rightarrow> OptimizationState" where
  "apply_cpu_isolation Y c s =
    (if rc_isolated_cpu_cores c = [] then s
     else let cpu_set = fold (\<lambda>core_id cs. if core_id < 256 then insert core_id cs else cs) (rc_isolated_cpu_cores c) {}
       in if sy_setaffinity Y cpu_set then s \<lparr> os_cpu_affinity_set := True \<rparr> else s)"

definition apply_interrupt_isolation :: "RealtimeConfig \<Rightarrow> OptimizationState \<Rightarrow> OptimizationState" where
  "apply_interrupt_isolation c s =
    (if rc_interrupt_cpu_cores c \<noteq> [] then s \<lparr> os_interrupt_isolation_enabled := True \<rparr> else s)"

definition apply_numa_optimization :: "RealtimeConfig \<Rightarrow> OptimizationState \<Rightarrow> OptimizationState" where
  "apply_numa_optimization c s =
    (if rc_preferred_numa_nodes c \<noteq> [] then s \<lparr> os_numa_optimization_enabled := True \<rparr> else s)"

definition apply_power_optimization :: "RealtimeConfig \<Rightarrow> OptimizationState \<Rightarrow> OptimizationState" where
  "apply_power_optimization c s = s \<lparr> os_power_optimization_enabled := True \<rparr>"

text \<open>No step returns an error. The flag tells whether the monitoring task is started.\<close>

definition apply_all_optimizations :: "rt_system \<Rightarrow> RealtimeSystemOptimizer \<Rightarrow> (unit, string) outcome \<times> RealtimeSystemOptimizer \<times> bool" where
  "apply_all_optimizations Y self =
    (if ro_initialized self then (Ok (), self, False)
     else let c = ro_config self; s = ro_optimization_state self;
              s = (if rc_enable_realtime_scheduling c then apply_realtime_scheduling Y c s else s);
              s = (if rc_enable_memory_locking c then apply_memory_locking Y c s else s);
              s = (if rc_enable_cpu_isolation c then apply_cpu_isolation Y c s else s);
              s = (if rc_enable_interrupt_isolation c then apply_interrupt_isolation c s else s);
              s = (if rc_enable_numa_optimization c then apply_numa_optimization c s else s);
              s = (if rc_enable_power_optimization c then apply_power_optimization c s else s)
       in (Ok (), self \<lparr> ro_optimization_state := s, ro_initialized := True \<rparr>, True))"

text \<open>One tick of the monitoring task.\<close>

definition monitoring_tick :: "u64 \<Rightarrow> RealtimeStats \<Rightarrow> RealtimeStats" where
  "monitoring_tick scheduling_latency s =
    (let s = s \<lparr> rs_scheduling_latency_ns := scheduling_latency \<rparr>; max_latency = rs_max_scheduling_latency_ns s
     in if scheduling_latency > max_latency then s \<lparr> rs_max_scheduling_latency_ns := scheduling_latency \<rparr> else s)"

definition get_optimization_status :: "RealtimeSystemOptimizer \<Rightarrow> OptimizationState" where
  "get_optimization_status self = ro_optimization_state self"

section \<open>Properties\<close>

lemma set_filter_cores:
  "fold (\<lambda>core_id cs. if core_id < 256 then insert core_id cs else cs) cores A = A \<union> {c \<in> set cores. c < (256 :: nat)}"
  by (induction cores arbitrary: A) auto

text \<open>Which optimizations are reported. Applying the optimizations of a new optimizer always succeeds, and doing it again changes
  nothing. Scheduling, memory and affinity are reported exactly when they are enabled and the system granted
  them; interrupts and NUMA whenever cores or nodes are configured or detected, and power whenever it is enabled,
  although nothing is done for these three.\<close>

theorem optimizations_reported:
  assumes "self = realtime_new Y config" "apply_all_optimizations Y self = (r, self', started)"
  shows "r = Ok () \<and> started \<and> apply_all_optimizations Y self' = (Ok (), self', False)
    \<and> (os_realtime_scheduling_enabled (get_optimization_status self') \<longleftrightarrow> rc_enable_realtime_scheduling config
        \<and> (sy_sched_fifo Y (rc_realtime_priority config) \<or> sy_sched_rr Y (rc_realtime_priority config)))
    \<and> (os_memory_locked (get_optimization_status self') \<longleftrightarrow> rc_enable_memory_locking config \<and> sy_mlockall Y)
    \<and> (os_cpu_affinity_set (get_optimization_status self') \<longleftrightarrow> rc_enable_cpu_isolation config
        \<and> rc_isolated_cpu_cores (ro_config self) \<noteq> [] \<and> sy_setaffinity Y {c \<in> set (rc_isolated_cpu_cores (ro_config self)). c < 256})
    \<and> (os_interrupt_isolation_enabled (get_optimization_status self') \<longleftrightarrow> rc_enable_interrupt_isolation config
        \<and> (rc_interrupt_cpu_cores config \<noteq> [] \<or> sy_num_cpus Y > 2))
    \<and> (os_numa_optimization_enabled (get_optimization_status self') \<longleftrightarrow> rc_enable_numa_optimization config
        \<and> (rc_preferred_numa_nodes config \<noteq> [] \<or> sy_numa_balancing Y = Some ''1''))
    \<and> (os_power_optimization_enabled (get_optimization_status self') \<longleftrightarrow> rc_enable_power_optimization config)"
proof -
  define c where "c = ro_config self"
  have c: "rc_enable_realtime_scheduling c = rc_enable_realtime_scheduling config" "rc_realtime_priority c = rc_realtime_priority config"
    "rc_enable_memory_locking c = rc_enable_memory_locking config" "rc_enable_cpu_isolation c = rc_enable_cpu_isolation config"
    "rc_enable_interrupt_isolation c = rc_enable_interrupt_isolation config"
    "rc_enable_numa_optimization c = rc_enable_numa_optimization config"
    "rc_enable_power_optimization c = rc_enable_power_optimization config"
    "rc_interrupt_cpu_cores c \<noteq> [] \<longleftrightarrow> rc_interrupt_cpu_cores config \<noteq> [] \<or> sy_num_cpus Y > 2"
    "rc_preferred_numa_nodes c \<noteq> [] \<longleftrightarrow> rc_preferred_numa_nodes config \<noteq> [] \<or> sy_numa_balancing Y = Some ''1''"
    by (auto simp: c_def assms(1) realtime_new_def auto_detect_system_config_def detect_numa_topology_def Let_def upt_rec)
  define s where "s = get_optimization_status self'"
  have run: "r = Ok ()" "started" "ro_initialized self'"
    using assms by (auto simp: apply_all_optimizations_def realtime_new_def Let_def)
  have s: "s = \<lparr> os_realtime_scheduling_enabled = rc_enable_realtime_scheduling c
        \<and> (sy_sched_fifo Y (rc_realtime_priority c) \<or> sy_sched_rr Y (rc_realtime_priority c)),
      os_memory_locked = rc_enable_memory_locking c \<and> sy_mlockall Y,
      os_cpu_affinity_set = rc_enable_cpu_isolation c \<and> rc_isolated_cpu_cores c \<noteq> []
        \<and> sy_setaffinity Y {i \<in> set (rc_isolated_cpu_cores c). i < 256},
      os_interrupt_isolation_enabled = rc_enable_interrupt_isolation c \<and> rc_interrupt_cpu_cores c \<noteq> [],
      os_numa_optimization_enabled = rc_enable_numa_optimization c \<and> rc_preferred_numa_nodes c \<noteq> [],
      os_power_optimization_enabled = rc_enable_power_optimization c \<rparr>"
    using assms by (auto simp: s_def c_def get_optimization_status_def apply_all_optimizations_def realtime_new_def
        optimization_state_default_def apply_realtime_scheduling_def apply_memory_locking_def apply_cpu_isolation_def
        apply_interrupt_isolation_def apply_numa_optimization_def apply_power_optimization_def set_filter_cores Let_def)
  have "apply_all_optimizations Y self' = (Ok (), self', False)" using run(3) by (simp add: apply_all_optimizations_def)
  then show ?thesis using run(1,2) unfolding s_def [symmetric] by (simp add: s c flip: c_def)
qed

definition sample_system :: rt_system where
  "sample_system = \<lparr> sy_num_cpus = 8, sy_numa_balancing = Some ''1'', sy_sched_fifo = (\<lambda>_. False), sy_sched_rr = (\<lambda>p. p < 90),
     sy_mlockall = False, sy_setaffinity = (\<lambda>cs. cs \<noteq> {}) \<rparr>"

theorem optimizations_reported_witness:
  "\<exists>r self' started. apply_all_optimizations sample_system (realtime_new sample_system realtime_config_default) = (r, self', started)
    \<and> os_realtime_scheduling_enabled (get_optimization_status self') \<and> \<not> os_memory_locked (get_optimization_status self')
    \<and> os_interrupt_isolation_enabled (get_optimization_status self')"
proof -
  obtain r self' started where
    run: "apply_all_optimizations sample_system (realtime_new sample_system realtime_config_default) = (r, self', started)"
    using prod_cases3 by blast
  show ?thesis
    using optimizations_reported [OF refl run] run by (auto simp: sample_system_def realtime_config_default_def)
qed

text \<open>The detected cores exist, and the application's cores are not those of the interrupts.\<close>

theorem detected_cores:
  assumes "c = auto_detect_system_config Y realtime_config_default"
  shows "set (rc_isolated_cpu_cores c) \<subseteq> {..<sy_num_cpus Y} \<and> set (rc_interrupt_cpu_cores c) \<subseteq> {..<sy_num_cpus Y}
    \<and> set (rc_isolated_cpu_cores c) \<inter> set (rc_interrupt_cpu_cores c) = {}
    \<and> length (rc_isolated_cpu_cores c) = (if sy_num_cpus Y > 4 then 2 else 0)"
  using assms by (auto simp: auto_detect_system_config_def detect_numa_topology_def realtime_config_default_def Let_def split: if_splits)

theorem monitoring_keeps_max:
  "rs_max_scheduling_latency_ns (fold monitoring_tick ls s) = fold max ls (rs_max_scheduling_latency_ns s)"
proof (induction ls arbitrary: s)
  case (Cons l ls)
  have "rs_max_scheduling_latency_ns (monitoring_tick l s) = max l (rs_max_scheduling_latency_ns s)"
    by (auto simp: monitoring_tick_def Let_def max_def)
  then show ?case by (simp add: Cons)
qed simp

end
