(* ===== verification/Nonce_Fetch.thy ===== *)
theory Nonce_Fetch
  imports Rpc_Fetch Tx_Build
begin

text \<open>
  common/nonce\_cache.rs: reading the durable nonce of an account over RPC, and what it gives to the builder of
  transactions; and the key storage of the demonstration program src/main.rs. The decoder of a nonce account and the text
  encodings are parameters.
\<close>

section \<open>The nonce\<close>

text \<open>The two versions of a nonce account; an initialized one carries its nonce.\<close>

datatype nonce_versions = LegacyNonce | CurrentNonce "hash option"

definition fetch_nonce_info :: "(u8 list \<Rightarrow> nonce_versions option) \<Rightarrow> rpc_node \<Rightarrow> pubkey \<Rightarrow> DurableNonceInfo option rpc_call" where
  "fetch_nonce_info decode R nonce_account = (\<lambda>s.
    case ask (\<lambda>t. rn_account R t nonce_account) s of
      (Ok account, s') \<Rightarrow>
        (case decode (ac_data account) of
           Some (CurrentNonce (Some blockhash)) \<Rightarrow>
             (Ok (Some \<lparr> dn_nonce_account = Some nonce_account, dn_current_nonce = Some blockhash \<rparr>), s')
         | _ \<Rightarrow> (Ok None, s'))
    | (_, s') \<Rightarrow> (Ok None, s'))"

section \<open>Stored keys\<close>

definition XOR_KEY :: "u8 list" where "XOR_KEY = str_bytes ''pxxxbbb''"

text \<open>\<open>key[i % key.len()]\<close> panics for an empty key, once there is a byte.\<close>

definition xor_encrypt_decrypt :: "u8 list \<Rightarrow> u8 list \<Rightarrow> (u8 list, string) outcome" where
  "xor_encrypt_decrypt data key =
    (if key = [] \<and> data \<noteq> [] then Panic
     else Ok (map (\<lambda>(i, b). xor b (key ! (i mod length key))) (enumerate 0 data)))"

record text_codec =
  tc_base64_encode :: "u8 list \<Rightarrow> string"
  tc_base64_decode :: "string \<Rightarrow> string + u8 list"
  tc_from_utf8 :: "u8 list \<Rightarrow> string + string"

definition encrypt_private_key :: "text_codec \<Rightarrow> string \<Rightarrow> (string, string) outcome" where
  "encrypt_private_key E plain_key =
    obind (xor_encrypt_decrypt (str_bytes plain_key) XOR_KEY) (\<lambda>encrypted. Ok (tc_base64_encode E encrypted))"

definition decrypt_private_key :: "text_codec \<Rightarrow> string \<Rightarrow> (string, string) outcome" where
  "decrypt_private_key E encrypted_key =
    obind (map_err ((@) ''Failed to decode base64: '') (of_sum (tc_base64_decode E encrypted_key))) (\<lambda>decoded.
    obind (xor_encrypt_decrypt decoded XOR_KEY) (\<lambda>decrypted.
    map_err ((@) ''Failed to decode decrypted key as UTF-8: '') (of_sum (tc_from_utf8 E decrypted))))"

section \<open>Properties\<close>



lemma xor_twice: "xor_encrypt_decrypt data key = Ok encrypted \<Longrightarrow> xor_encrypt_decrypt encrypted key = Ok data"
  by (auto simp: xor_encrypt_decrypt_def enumerate_eq_zip xor.assoc intro!: nth_equalityI split: if_splits)

text \<open>A stored key is read back. For every key that can be written as UTF-8, storing succeeds and reading gives the
  key, provided that Base64 decodes what it encodes and the text decoder accepts the key's bytes.\<close>

theorem stored_key_round_trip:
  assumes "\<And>bs. tc_base64_decode E (tc_base64_encode E bs) = Inr bs" "tc_from_utf8 E (str_bytes plain_key) = Inr plain_key"
  shows "\<exists>text. encrypt_private_key E plain_key = Ok text \<and> decrypt_private_key E text = Ok plain_key"
proof -
  obtain encrypted where e: "xor_encrypt_decrypt (str_bytes plain_key) XOR_KEY = Ok encrypted"
    by (simp add: xor_encrypt_decrypt_def XOR_KEY_def str_bytes_def)
  then show ?thesis
    using xor_twice [OF e] assms by (simp add: encrypt_private_key_def decrypt_private_key_def)
qed

definition plain_text_codec :: text_codec where
  "plain_text_codec = \<lparr> tc_base64_encode = map (\<lambda>b. char_of (unat b)),
     tc_base64_decode = (\<lambda>s. Inr (str_bytes s)), tc_from_utf8 = (\<lambda>bs. Inr (map (\<lambda>b. char_of (unat b)) bs)) \<rparr>"

theorem stored_key_round_trip_witness:
  "\<exists>text. encrypt_private_key plain_text_codec ''5Kd3'' = Ok text \<and> decrypt_private_key plain_text_codec text = Ok ''5Kd3''"
proof (rule stored_key_round_trip)
  have "(of_nat (of_char (char_of (unat b) :: char)) :: u8) = b" for b :: u8
    using unsigned_less [of b, where 'a = nat] by simp
  then show "tc_base64_decode plain_text_codec (tc_base64_encode plain_text_codec bs) = Inr bs" for bs
    by (simp add: plain_text_codec_def str_bytes_def o_def)
  show "tc_from_utf8 plain_text_codec (str_bytes ''5Kd3'') = Inr ''5Kd3''"
    by (simp add: plain_text_codec_def str_bytes_def char_of_def bit_0)
qed

end
