(* ===== verification/Spec2Isabelle.thy ===== *)
theory Spec2Isabelle
  imports Calc_PumpFun Executor Relayed Client_Wallet Keep_Alive
    Simd_Batch Mapped_Buffer Block_Clients Clocks Prices Compiler_Config Quic_Client
    Block_Race Cache_Race Posted Protocol_Fast Kernel_Bypass Dispatch_Race Realtime_Tuning Nonce_Fetch
begin

text \<open>
  The pump\_trade\_sdk crate trades on two Solana programs, the bonding curves of PumpFun and the pools of PumpSwap. A trade
  goes through four layers: the client checks the request and chooses parameters (src/lib.rs), an instruction builder
  quotes the trade and writes the instructions of the program (src/instruction, src/utils/calc), the executor builds a
  transaction for each relay and fee strategy and submits all of them in parallel (src/trading), and a relay client posts the
  signed bytes (src/swqos). Beside them stand process-wide caches (src/common/fast\_fn.rs), the RPC lookups, the wallet
  operations, and low-level helpers (src/perf, src/common/clock.rs).

  \<^bold>\<open>Conventions.\<close> A fallible Rust function returns an \<open>outcome\<close>: \<open>Ok\<close>, \<open>Err\<close> with the error value, or \<open>Panic\<close>; a function
  on shared state returns it beside the new state (\<open>stateful\<close>). Unsigned integers are words of their width, so a plain
  operation wraps as in the release build; lists and counts that index memory are naturals. Definitions keep the names of the
  source; a prefix resolves a clash. Code that is not in the repository is a parameter: \<open>extern\<close> (address
  derivation, instruction constructors of the Solana crates), \<open>rpc_node\<close> (the answers of the node, by the number of
  the question), \<open>relay_net\<close> (HTTP, JSON, encoders), \<open>quic_net\<close> (QUIC connections), \<open>array_queue\<close> (crossbeam), clocks as arguments. What a
  theorem asks of such a parameter is one of its hypotheses, and its witness instantiates it.

  \<^bold>\<open>Foundations.\<close> Prelude has words, outcomes and encodings; Solana\_Types keys, instructions and derived addresses; Raw\_Memory
  byte-addressed memory for pointer code.

  \<^bold>\<open>Arithmetic and quotes.\<close> Fee\_Math (utils/calc/common.rs), Constant\_Product (the abstract specification on naturals),
  Calc\_PumpSwap and Calc\_PumpFun (utils/calc), Bonding\_Curve (common/bonding\_curve.rs, common/global.rs), Prices
  (utils/price, doubles as rationals that every operation rounds to 53 bits). The lemmas give the exact value of every quote
  on every branch, bound it by the specification, and show that a trade and its reverse gain nothing.

  \<^bold>\<open>Accounts and caches.\<close> Token\_Instr (common/spl\_*.rs, common/seed.rs), Accounts (constants and addresses),
  Caches (common/fast\_fn.rs, trading/common/compute\_budget\_manager.rs), Cache\_Race (their lookups and insertions by
  threads that race), Pool\_Types (the binary account layouts), Rpc\_Fetch
  (everything that reads accounts), Nonce\_Fetch (common/nonce\_cache.rs, and the key storage of main.rs). A cache whose
  entries agree with the function it stores is not observable, which the instruction builders rest on; a pool that is
  found is one that the builders accept.

  \<^bold>\<open>Instructions.\<close> Gas\_Fee (common/gas\_fee\_strategy.rs), Swqos\_Types (relay types and their constants), Trade\_Params
  (trading/core/params.rs, trading/middleware), Wsol\_Manager, PumpFun\_Instr and PumpSwap\_Instr (instruction). Each
  builder refines a specification of the instructions and their bytes, with the error of every guard.

  \<^bold>\<open>Submission.\<close> Tx\_Build (transaction layout, builder pool), Async\_Exec (planning, parallel tasks, collector), Confirm
  (polling), Executor (trading/core/executor.rs), Serialization and Relay\_Clients (swqos), Keep\_Alive, Quic\_Client
  (swqos/soyas.rs, swqos/speedlanding.rs), Client and Client\_Wallet (lib.rs, trading/common/utils.rs). Relayed puts the
  layers together: a trade with two networks that agree on the transactions described by the property has the same result,
  so nothing else is sent, and a buy over several relays cannot land twice. Posted adds the relay clients, for what leaves
  the machine over HTTP, QUIC and RPC. The tasks of a submission, the keep-alive tasks, the reconnections and the lookups
  of the caches are inductive step relations with invariants over their reachable states, and so are the block pool, the
  dispatcher and the compare-and-swap loops below.

  \<^bold>\<open>Low-level helpers.\<close> Clocks (common/clock.rs, common/fast\_timing.rs), Simd\_Memory and Simd\_Batch (perf/simd.rs,
  perf/hardware\_optimizations.rs, the tables of perf/compiler\_optimization.rs), Ring\_Buffer (the same file, with the
  interleaving of producer and consumer), Mapped\_Buffer, Block\_Pool, Block\_Clients and Block\_Race
  (perf/zero\_copy\_io.rs, the last with the interleaving of several threads and what they write), Syscall\_Bypass
  (perf/syscall\_bypass.rs), Compiler\_Config (the settings of perf/compiler\_optimization.rs), and four files that
  perf/mod.rs does not declare: Protocol\_Fast (perf/protocol\_optimization.rs), Kernel\_Bypass
  (perf/kernel\_bypass.rs), Event\_Dispatch and Dispatch\_Race (perf/ultra\_low\_latency.rs, the
  second with the interleaving of dispatches and workers) and Realtime\_Tuning (perf/realtime\_tuning.rs).

  \<^bold>\<open>Interfaces.\<close> Each locale is interpreted on the definitions of the code: \<open>memo\<close> and \<open>memo_effect\<close> (a transparent cache) on
  the four caches, \<open>codec\<close> and \<open>codec_pair\<close> (encoder and reader) on the fields and the two account layouts, \<open>object_pool\<close> on the
  pools of builders and of buffers, \<open>bounded_queue\<close> on the ring buffer and the queues of the dispatcher, \<open>call_queue\<close> (the
  crossbeam queue of the batch processor) on the ring buffer, \<open>block_allocator\<close> on the bitmap pool, and
  \<open>best_value\<close> (compare-and-swap loops that keep an extreme) on the least and the greatest latency.

  \<^bold>\<open>Loops and fuel.\<close> The confirmation polls at most \<open>POLL_ROUNDS\<close> = 16 times: it gives up after 15 seconds and sleeps one
  second in each round, so the rounds suffice whatever the node answers. The start-up tries
  to create the wrapped-SOL account \<open>MAX_RETRIES\<close> = 3 times, as the code does. A waiting loop of the collector gets the number of rounds
  that its timeout allows as an argument. Polling a worker's queue is a \<open>while_option\<close> that is proved to end. The
  other loops are structural recursions or have a measure.

  \<^bold>\<open>Not modelled.\<close> Printing and logging; the settings of the HTTP and QUIC libraries; the waiting of
  the timer tasks (what one tick does is modelled); prefetches, branch hints and barriers; memory orderings weaker than
  sequential consistency; infinities and NaN; the configuration text of a build script; module declarations and re-exports; and the
  demonstration program apart from its key storage, since it calls the interface of another crate.
\<close>

end
